(* ===== verification/Prelude.thy ===== *)
theory Prelude
  imports Main "HOL-Library.Word" "HOL-Library.Multiset"
begin

text \<open>
  Shared vocabulary of the development: the Go types that every component uses (UUIDs,
  instants, 64-bit floats, errors), the few functions of the package strings that the sources
  call, programs over an opaque world (every call to Postgres, Redis, NATS or the clock is
  such a program), and the weakest-precondition calculus in which the component proofs are
  carried out.
\<close>

named_theorems wp_intro \<open>introduction rules of the weakest-precondition calculus\<close>
named_theorems go_strings \<open>facts about the model of the package strings\<close>

section \<open>Types of the Go sources\<close>

text \<open>
  A \<^verbatim>\<open>uuid.UUID\<close> is an array of 16 bytes, read here as one big-endian 128-bit word; the
  order of words is the order of the canonical text form, which is what SQL compares. An
  instant \<^verbatim>\<open>time.Time\<close> is a number of nanoseconds since the Go zero time
  (0001-01-01T00:00:00Z), so that \<^verbatim>\<open>IsZero\<close> is a comparison with 0. A \<^verbatim>\<open>float64\<close> is its
  IEEE bit pattern: the sources only move it around.
\<close>

type_synonym uuid = "128 word"
type_synonym gotime = int
type_synonym float64 = "64 word"

abbreviation uuid_Nil :: uuid where
  "uuid_Nil \<equiv> 0"

text \<open>What a database statement can fail with, and the Go errors the sources build.\<close>

datatype db_error = UniqueViolation | Fault string

datatype go_error =
    ErrRecordNotFound
  | SqlError db_error
  | ServiceError string
  | ErrorNew string
  | Wrapped string go_error

section \<open>The package strings\<close>

definition is_space :: "char \<Rightarrow> bool" where
  "is_space c \<longleftrightarrow> (let n = (of_char c :: nat) in n = 32 \<or> 9 \<le> n \<and> n \<le> 13)"

definition TrimSpace :: "string \<Rightarrow> string" where
  "TrimSpace s = rev (dropWhile is_space (rev (dropWhile is_space s)))"

definition lower_char :: "char \<Rightarrow> char" where
  "lower_char c =
     (let n = (of_char c :: nat)
      in if 65 \<le> n \<and> n \<le> 90 then char_of (n + 32) else c)"

definition ToLower :: "string \<Rightarrow> string" where
  "ToLower s = map lower_char s"

definition is_ascii :: "char \<Rightarrow> bool" where
  "is_ascii c \<longleftrightarrow> (of_char c :: nat) < 128"

definition HasPrefix :: "string \<Rightarrow> string \<Rightarrow> bool" where
  "HasPrefix s p \<longleftrightarrow> take (length p) s = p"

section \<open>Programs over an opaque world\<close>

text \<open>
  \<open>'w\<close> is the whole outside world (database, cache, message bus, clock). A call returns a
  value or an error and a new world. \<open>bindP\<close> is the Go idiom
  \<^verbatim>\<open>x, err := m(); if err != nil { return err }\<close>; \<open>catchP\<close> is the idiom that inspects the
  error instead.
\<close>

type_synonym ('w, 'e, 'a) prog = "'w \<Rightarrow> ('e + 'a) \<times> 'w"

definition returnP :: "'a \<Rightarrow> ('w, 'e, 'a) prog" where
  "returnP x w = (Inr x, w)"

definition throwP :: "'e \<Rightarrow> ('w, 'e, 'a) prog" where
  "throwP e w = (Inl e, w)"

definition bindP :: "('w, 'e, 'a) prog \<Rightarrow> ('a \<Rightarrow> ('w, 'e, 'b) prog) \<Rightarrow> ('w, 'e, 'b) prog" where
  "bindP m f w =
     (case m w of (Inl e, w') \<Rightarrow> (Inl e, w') | (Inr x, w') \<Rightarrow> f x w')"

definition catchP :: "('w, 'e, 'a) prog \<Rightarrow> ('e \<Rightarrow> ('w, 'f, 'a) prog) \<Rightarrow> ('w, 'f, 'a) prog" where
  "catchP m h w =
     (case m w of (Inl e, w') \<Rightarrow> h e w' | (Inr x, w') \<Rightarrow> (Inr x, w'))"

definition mapErrP :: "('e \<Rightarrow> 'f) \<Rightarrow> ('w, 'e, 'a) prog \<Rightarrow> ('w, 'f, 'a) prog" where
  "mapErrP g m = catchP m (\<lambda>e. throwP (g e))"

text \<open>\<^verbatim>\<open>if err := check(); err != nil { return err }\<close> for a check that touches no state.\<close>

definition checkP :: "'e option \<Rightarrow> ('w, 'e, unit) prog" where
  "checkP err = (case err of None \<Rightarrow> returnP () | Some e \<Rightarrow> throwP e)"

text \<open>
  \<open>wp view m Q v\<close>: from every world whose observable part is \<open>v\<close>, the program \<open>m\<close> ends with a
  result \<open>r\<close> and an observable part \<open>v'\<close> such that \<open>Q r v'\<close>. The result is an error or a value,
  so \<open>Q\<close> speaks about both ways out.
\<close>

definition wp :: "('w \<Rightarrow> 'v) \<Rightarrow> ('w, 'e, 'a) prog \<Rightarrow> ('e + 'a \<Rightarrow> 'v \<Rightarrow> bool) \<Rightarrow> 'v \<Rightarrow> bool" where
  "wp view m Q v \<longleftrightarrow> (\<forall>w. view w = v \<longrightarrow> (case m w of (r, w') \<Rightarrow> Q r (view w')))"

section \<open>Rules of the calculus\<close>

lemma wpD: "wp view m Q (view w) \<Longrightarrow> m w = (r, w') \<Longrightarrow> Q r (view w')"
  by (auto simp: wp_def)

lemma wp_world: "wp view m (\<lambda>_ v'. P v') (view w) \<Longrightarrow> P (view (snd (m w)))"
  by (metis wpD prod.collapse)

lemma wpI: "(\<And>w r w'. view w = v \<Longrightarrow> m w = (r, w') \<Longrightarrow> Q r (view w')) \<Longrightarrow> wp view m Q v"
  by (auto simp: wp_def split: prod.splits)

lemma wp_mono: "wp view m Q v \<Longrightarrow> (\<And>r v'. Q r v' \<Longrightarrow> R r v') \<Longrightarrow> wp view m R v"
  by (fastforce simp: wp_def split: prod.splits)

lemma wp_conj: "wp view m Q v \<Longrightarrow> wp view m R v \<Longrightarrow> wp view m (\<lambda>r v'. Q r v' \<and> R r v') v"
  by (fastforce simp: wp_def split: prod.splits)

lemma wp_return [wp_intro]: "Q (Inr x) v \<Longrightarrow> wp view (returnP x) Q v"
  by (simp add: wp_def returnP_def)

lemma wp_throw [wp_intro]: "Q (Inl e) v \<Longrightarrow> wp view (throwP e) Q v"
  by (simp add: wp_def throwP_def)

lemma wp_bind [wp_intro]:
  "wp view m (\<lambda>r v'. case r of Inl e \<Rightarrow> Q (Inl e) v' | Inr x \<Rightarrow> wp view (f x) Q v') v
   \<Longrightarrow> wp view (bindP m f) Q v"
  by (fastforce simp: wp_def bindP_def split: prod.splits sum.splits)

lemma wp_catch [wp_intro]:
  "wp view m (\<lambda>r v'. case r of Inl e \<Rightarrow> wp view (h e) Q v' | Inr x \<Rightarrow> Q (Inr x) v') v
   \<Longrightarrow> wp view (catchP m h) Q v"
  by (fastforce simp: wp_def catchP_def split: prod.splits sum.splits)

lemma wp_mapErr [wp_intro]:
  "wp view m (\<lambda>r v'. case r of Inl e \<Rightarrow> Q (Inl (g e)) v' | Inr x \<Rightarrow> Q (Inr x) v') v
   \<Longrightarrow> wp view (mapErrP g m) Q v"
  unfolding mapErrP_def
  by (rule wp_catch) (auto elim!: wp_mono intro!: wp_throw split: sum.splits)

lemma wp_check [wp_intro]:
  "(err = None \<Longrightarrow> Q (Inr ()) v) \<Longrightarrow> (\<And>e. err = Some e \<Longrightarrow> Q (Inl e) v)
   \<Longrightarrow> wp view (checkP err) Q v"
  by (cases err) (simp_all add: checkP_def wp_return wp_throw)

lemma case_sum_InrI [wp_intro]: "B x \<Longrightarrow> case_sum A B (Inr x)"
  by simp

lemma case_sum_InlI [wp_intro]: "A x \<Longrightarrow> case_sum A B (Inl x)"
  by simp

lemma wp_if [wp_intro]:
  "(b \<Longrightarrow> wp view m Q v) \<Longrightarrow> (\<not> b \<Longrightarrow> wp view n Q v)
   \<Longrightarrow> wp view (if b then m else n) Q v"
  by simp

lemma wp_case_option [wp_intro]:
  "(x = None \<Longrightarrow> wp view m Q v) \<Longrightarrow> (\<And>y. x = Some y \<Longrightarrow> wp view (f y) Q v)
   \<Longrightarrow> wp view (case x of None \<Rightarrow> m | Some y \<Rightarrow> f y) Q v"
  by (cases x) auto

lemma wp_case_sum [wp_intro]:
  "(\<And>a. x = Inl a \<Longrightarrow> wp view (f a) Q v) \<Longrightarrow> (\<And>b. x = Inr b \<Longrightarrow> wp view (g b) Q v)
   \<Longrightarrow> wp view (case x of Inl a \<Rightarrow> f a | Inr b \<Rightarrow> g b) Q v"
  by (cases x) auto

lemma wp_case_list [wp_intro]:
  "(xs = [] \<Longrightarrow> wp view m Q v) \<Longrightarrow> (\<And>y ys. xs = y # ys \<Longrightarrow> wp view (f y ys) Q v)
   \<Longrightarrow> wp view (case xs of [] \<Rightarrow> m | y # ys \<Rightarrow> f y ys) Q v"
  by (cases xs) auto

lemma wp_case_prod [wp_intro]:
  "(\<And>a b. x = (a, b) \<Longrightarrow> wp view (f a b) Q v) \<Longrightarrow> wp view (case x of (a, b) \<Rightarrow> f a b) Q v"
  by (cases x) auto

section \<open>Facts about strings\<close>

lemma dropWhile_rev_idem:
  "dropWhile P (rev (dropWhile P (rev (dropWhile P xs)))) = rev (dropWhile P (rev (dropWhile P xs)))"
proof -
  let ?ys = "dropWhile P xs"
  let ?zs = "rev (dropWhile P (rev ?ys))"
  have split: "?ys = ?zs @ rev (takeWhile P (rev ?ys))"
    by (metis rev_append rev_rev_ident takeWhile_dropWhile_id)
  show ?thesis
  proof (cases ?zs)
    case Nil
    show ?thesis unfolding Nil by simp
  next
    case (Cons z zs)
    with split obtain rest where "dropWhile P xs = z # rest" by auto
    then have "\<not> P z" by (metis dropWhile_eq_Cons_conv)
    with Cons show ?thesis by simp
  qed
qed

lemma TrimSpace_idem [simp]: "TrimSpace (TrimSpace s) = TrimSpace s"
proof -
  have "dropWhile is_space (rev (TrimSpace s)) = rev (TrimSpace s)"
    by (simp add: TrimSpace_def)
  then show ?thesis
    by (subst TrimSpace_def) (simp add: TrimSpace_def dropWhile_rev_idem)
qed

lemma lower_char_idem [simp]: "lower_char (lower_char c) = lower_char c"
  by (simp add: lower_char_def Let_def)

lemma ToLower_idem [simp]: "ToLower (ToLower s) = ToLower s"
  by (simp add: ToLower_def)

lemma is_space_lower_char [simp]: "is_space (lower_char c) \<longleftrightarrow> is_space c"
  by (auto simp: is_space_def lower_char_def Let_def)

lemma TrimSpace_ToLower: "TrimSpace (ToLower s) = ToLower (TrimSpace s)"
  by (simp add: TrimSpace_def ToLower_def dropWhile_map rev_map o_def)

lemma ToLower_Nil_iff [simp]: "ToLower s = '''' \<longleftrightarrow> s = ''''"
  by (simp add: ToLower_def)

section \<open>Bags of rows with a key\<close>

text \<open>In a table whose rows differ in their key, updating by key replaces one row.\<close>

lemma partition_unique_key:
  assumes "filter_mset (\<lambda>s. key s = key r) M = {#r#}"
  shows "M = add_mset r (filter_mset (\<lambda>s. key s \<noteq> key r) M)"
  using multiset_partition [of M "\<lambda>s. key s = key r"] assms by simp

lemma filter_unique_key:
  assumes uniq: "filter_mset (c r) M = {#r#}" and key: "\<And>s. key s = key r \<Longrightarrow> c r s"
    and "q r" and q: "\<And>s. q s \<Longrightarrow> key s = key r"
  shows "filter_mset q M = {#r#}"
proof -
  have "q s \<longleftrightarrow> c r s \<and> q s" for s using q [of s] key [of s] by blast
  then have "filter_mset q M = filter_mset q (filter_mset (c r) M)"
    by (simp add: filter_filter_mset)
  then show ?thesis using uniq \<open>q r\<close> by simp
qed

lemma update_unique_key:
  assumes uniq: "filter_mset (\<lambda>s. key s = key r) M = {#r#}" and "p r"
    and p: "\<And>s. p s \<Longrightarrow> key s = key r"
  shows "image_mset (\<lambda>s. if p s then f s else s) M
       = add_mset (f r) (filter_mset (\<lambda>s. key s \<noteq> key r) M)"
proof -
  let ?N = "filter_mset (\<lambda>s. key s \<noteq> key r) M"
  have "image_mset (\<lambda>s. if p s then f s else s) ?N = ?N"
    by (rule trans [OF image_mset_cong [of _ _ id]]) (use p in auto)
  then have "image_mset (\<lambda>s. if p s then f s else s) (add_mset r ?N) = add_mset (f r) ?N"
    using \<open>p r\<close> by simp
  then show ?thesis
    using partition_unique_key [OF uniq] by simp
qed

lemma update_by_key:
  assumes uniq: "filter_mset (c r) M = {#r#}" and key: "\<And>s. key s = key r \<Longrightarrow> c r s"
    and "p r" and p: "\<And>s. p s \<Longrightarrow> key s = k"
  shows "filter_mset p M = {#r#}
       \<and> image_mset (\<lambda>s. if p s then f s else s) M
         = add_mset (f r) (filter_mset (\<lambda>s. key s \<noteq> k) M)"
proof
  have k: "key r = k" using \<open>p r\<close> by (rule p)
  have p_key: "key s = key r" if "p s" for s using p [OF that] k by simp
  show "filter_mset p M = {#r#}"
    by (rule filter_unique_key [of c r M key p, OF uniq key \<open>p r\<close> p_key])
  have "filter_mset (\<lambda>s. key s = key r) M = {#r#}"
    by (rule filter_unique_key [of c r M key, OF uniq key]) simp_all
  from update_unique_key [of key r M p f, OF this \<open>p r\<close> p_key]
  show "image_mset (\<lambda>s. if p s then f s else s) M
      = add_mset (f r) (filter_mset (\<lambda>s. key s \<noteq> k) M)"
    unfolding k .
qed

lemma update_nothing:
  "(\<And>r. r \<in># M \<Longrightarrow> \<not> p r) \<Longrightarrow> image_mset (\<lambda>s. if p s then f s else s) M = M"
  by (rule trans [OF image_mset_cong [of _ _ id]]) simp_all

lemma filter_image_fixed:
  assumes "\<And>s. P (f s) \<longleftrightarrow> P s" and "\<And>s. P s \<Longrightarrow> f s = s"
  shows "filter_mset P (image_mset f M) = filter_mset P M"
  by (induction M) (simp_all add: assms)

end
