(* ===== verification/Services.thy ===== *)
theory Services
  imports Prelude
begin

text \<open>
  The services the program talks to and does not contain: a SQL engine behind gorm, Redis,
  NATS, the clock and the UUID generator. Each is a record of operations, an argument of every
  definition that uses it; what the program relies on is written down as a locale, and a
  property that needs it has the locale's predicate as a hypothesis.
\<close>

section \<open>A SQL table behind gorm\<close>

text \<open>
  One field per kind of statement the sources issue against a table:
  \<^item> \<open>sql_select p\<close>: \<^verbatim>\<open>SELECT * WHERE p\<close>, in no particular order;
  \<^item> \<open>sql_count p\<close>: \<^verbatim>\<open>SELECT COUNT(*) WHERE p\<close>;
  \<^item> \<open>sql_insert r\<close>: \<^verbatim>\<open>INSERT\<close> of one row;
  \<^item> \<open>sql_insert_nothing t r\<close>: \<^verbatim>\<open>INSERT ... ON CONFLICT (columns) DO NOTHING\<close>, where \<open>t\<close> compares
    the conflict columns, with the number of affected rows;
  \<^item> \<open>sql_insert_below t q n r\<close>: the same, guarded by
    \<^verbatim>\<open>WHERE (SELECT COUNT(*) ... WHERE q) < n\<close>;
  \<^item> \<open>sql_update p f\<close>: \<^verbatim>\<open>UPDATE ... SET f WHERE p\<close>, with the number of affected rows;
  \<^item> \<open>sql_delete p\<close>: \<^verbatim>\<open>DELETE ... WHERE p\<close>, with the number of affected rows.
\<close>

record ('w, 'row) sql_table =
  sql_select :: "('row \<Rightarrow> bool) \<Rightarrow> ('w, db_error, 'row list) prog"
  sql_count :: "('row \<Rightarrow> bool) \<Rightarrow> ('w, db_error, nat) prog"
  sql_insert :: "'row \<Rightarrow> ('w, db_error, unit) prog"
  sql_insert_nothing :: "('row \<Rightarrow> 'row \<Rightarrow> bool) \<Rightarrow> 'row \<Rightarrow> ('w, db_error, nat) prog"
  sql_insert_below ::
    "('row \<Rightarrow> 'row \<Rightarrow> bool) \<Rightarrow> ('row \<Rightarrow> bool) \<Rightarrow> int \<Rightarrow> 'row \<Rightarrow> ('w, db_error, nat) prog"
  sql_update :: "('row \<Rightarrow> bool) \<Rightarrow> ('row \<Rightarrow> 'row) \<Rightarrow> ('w, db_error, nat) prog"
  sql_delete :: "('row \<Rightarrow> bool) \<Rightarrow> ('w, db_error, nat) prog"

text \<open>
  The gorm finishers as the sources call them: they hand a statement to the engine and report
  its error as a Go error. \<^verbatim>\<open>First\<close> turns an empty result into \<^verbatim>\<open>gorm.ErrRecordNotFound\<close>.
\<close>

definition gorm_First :: "('w, 'row) sql_table \<Rightarrow> ('row \<Rightarrow> bool) \<Rightarrow> ('w, go_error, 'row) prog" where
  "gorm_First T p =
     bindP (mapErrP SqlError (sql_select T p))
       (\<lambda>rs. case rs of [] \<Rightarrow> throwP ErrRecordNotFound | r # _ \<Rightarrow> returnP r)"

definition gorm_Count :: "('w, 'row) sql_table \<Rightarrow> ('row \<Rightarrow> bool) \<Rightarrow> ('w, go_error, int) prog" where
  "gorm_Count T p =
     bindP (mapErrP SqlError (sql_count T p)) (\<lambda>n. returnP (int n))"

definition gorm_Create :: "('w, 'row) sql_table \<Rightarrow> 'row \<Rightarrow> ('w, go_error, unit) prog" where
  "gorm_Create T r = mapErrP SqlError (sql_insert T r)"

definition gorm_CreateDoNothing ::
  "('w, 'row) sql_table \<Rightarrow> ('row \<Rightarrow> 'row \<Rightarrow> bool) \<Rightarrow> 'row \<Rightarrow> ('w, go_error, nat) prog" where
  "gorm_CreateDoNothing T t r = mapErrP SqlError (sql_insert_nothing T t r)"

definition gorm_ExecInsertBelow ::
  "('w, 'row) sql_table \<Rightarrow> ('row \<Rightarrow> 'row \<Rightarrow> bool) \<Rightarrow> ('row \<Rightarrow> bool) \<Rightarrow> int \<Rightarrow> 'row
   \<Rightarrow> ('w, go_error, nat) prog" where
  "gorm_ExecInsertBelow T t q n r = mapErrP SqlError (sql_insert_below T t q n r)"

definition gorm_Updates ::
  "('w, 'row) sql_table \<Rightarrow> ('row \<Rightarrow> bool) \<Rightarrow> ('row \<Rightarrow> 'row) \<Rightarrow> ('w, go_error, nat) prog" where
  "gorm_Updates T p f = mapErrP SqlError (sql_update T p f)"

definition gorm_HardDelete ::
  "('w, 'row) sql_table \<Rightarrow> ('row \<Rightarrow> bool) \<Rightarrow> ('w, go_error, nat) prog" where
  "gorm_HardDelete T p = mapErrP SqlError (sql_delete T p)"

text \<open>
  A query with \<^verbatim>\<open>ORDER BY\<close>: rows with equal keys come in the engine's order. In
  \<^verbatim>\<open>Limit(n).Offset(m)\<close> gorm writes no limit for a negative \<open>n\<close> and no offset unless \<open>m\<close> is positive.
\<close>

definition gorm_Find ::
  "('w, 'row) sql_table \<Rightarrow> ('row \<Rightarrow> bool) \<Rightarrow> ('row \<Rightarrow> 'k :: linorder) \<Rightarrow> ('w, go_error, 'row list) prog" where
  "gorm_Find T p key =
     bindP (mapErrP SqlError (sql_select T p)) (\<lambda>rs. returnP (sort_key key rs))"

definition gorm_page :: "int \<Rightarrow> int \<Rightarrow> 'row list \<Rightarrow> 'row list" where
  "gorm_page limit offset rs =
     (let rest = (if offset > 0 then drop (nat offset) rs else rs)
      in if limit \<ge> 0 then take (nat limit) rest else rest)"

definition gorm_FindPage ::
  "('w, 'row) sql_table \<Rightarrow> ('row \<Rightarrow> bool) \<Rightarrow> ('row \<Rightarrow> 'k :: linorder) \<Rightarrow> int \<Rightarrow> int
   \<Rightarrow> ('w, go_error, 'row list) prog" where
  "gorm_FindPage T p key limit offset =
     bindP (gorm_Find T p key) (\<lambda>rs. returnP (gorm_page limit offset rs))"

lemma wp_statement:
  assumes "\<And>w x w'. view w = v \<Longrightarrow> m w = (Inr x, w') \<Longrightarrow> Q (Inr x) (view w')"
    and "\<And>w e w'. view w = v \<Longrightarrow> m w = (Inl e, w') \<Longrightarrow> Q (Inl (SqlError e)) (view w')"
  shows "wp view (mapErrP SqlError m) Q v"
  using assms by (intro wp_mapErr wpI) (auto split: sum.splits)

text \<open>
  The engine's contract, for one table seen through \<open>view\<close>: \<open>get\<close> reads the bag of its rows
  from the observable state and \<open>put\<close> replaces it, so that a statement changes nothing but its
  own table. \<open>conflict\<close> is the table's primary key and unique indexes: \<open>conflict r s\<close> when the
  engine refuses to keep both rows. A failed statement changes nothing. The rows always satisfy
  the constraints (\<open>unique_rows\<close>).
\<close>

locale sql_engine =
  fixes T :: "('w, 'row) sql_table"
    and view :: "'w \<Rightarrow> 'v"
    and get :: "'v \<Rightarrow> 'row multiset"
    and put :: "'row multiset \<Rightarrow> 'v \<Rightarrow> 'v"
    and conflict :: "'row \<Rightarrow> 'row \<Rightarrow> bool"
  assumes select_ok:
      "sql_select T p w = (Inr rs, w')
       \<Longrightarrow> mset rs = filter_mset p (get (view w)) \<and> view w' = view w"
    and select_err: "sql_select T p w = (Inl e, w') \<Longrightarrow> view w' = view w"
    and count_ok:
      "sql_count T p w = (Inr n, w')
       \<Longrightarrow> n = size (filter_mset p (get (view w))) \<and> view w' = view w"
    and count_err: "sql_count T p w = (Inl e, w') \<Longrightarrow> view w' = view w"
    and insert_ok:
      "sql_insert T r w = (Inr u, w')
       \<Longrightarrow> filter_mset (conflict r) (get (view w)) = {#}
         \<and> view w' = put (add_mset r (get (view w))) (view w)"
    and insert_err:
      "sql_insert T r w = (Inl e, w')
       \<Longrightarrow> view w' = view w
         \<and> (e = UniqueViolation \<longrightarrow> filter_mset (conflict r) (get (view w)) \<noteq> {#})"
    and insert_nothing_ok:
      "sql_insert_nothing T t r w = (Inr n, w')
       \<Longrightarrow> (if filter_mset (t r) (get (view w)) = {#}
           then n = 1 \<and> filter_mset (conflict r) (get (view w)) = {#}
             \<and> view w' = put (add_mset r (get (view w))) (view w)
           else n = 0 \<and> view w' = view w)"
    and insert_nothing_err: "sql_insert_nothing T t r w = (Inl e, w') \<Longrightarrow> view w' = view w"
    and insert_below_ok:
      "sql_insert_below T t q limit r w = (Inr n, w')
       \<Longrightarrow> (if int (size (filter_mset q (get (view w)))) < limit
               \<and> filter_mset (t r) (get (view w)) = {#}
           then n = 1 \<and> filter_mset (conflict r) (get (view w)) = {#}
             \<and> view w' = put (add_mset r (get (view w))) (view w)
           else n = 0 \<and> view w' = view w)"
    and insert_below_err: "sql_insert_below T t q limit r w = (Inl e, w') \<Longrightarrow> view w' = view w"
    and update_ok:
      "sql_update T p f w = (Inr n, w')
       \<Longrightarrow> n = size (filter_mset p (get (view w)))
         \<and> view w' = put (image_mset (\<lambda>r. if p r then f r else r) (get (view w))) (view w)"
    and update_err: "sql_update T p f w = (Inl e, w') \<Longrightarrow> view w' = view w"
    and delete_ok:
      "sql_delete T p w = (Inr n, w')
       \<Longrightarrow> n = size (filter_mset p (get (view w)))
         \<and> view w' = put (filter_mset (\<lambda>r. \<not> p r) (get (view w))) (view w)"
    and delete_err: "sql_delete T p w = (Inl e, w') \<Longrightarrow> view w' = view w"
    and unique_rows:
      "r \<in># get (view w) \<Longrightarrow> filter_mset (conflict r) (get (view w)) = {#r#}"
begin

text \<open>The contract as rules of the calculus, for the gorm finishers.\<close>

lemma wp_First:
  assumes "filter_mset p (get v) = {#} \<Longrightarrow> Q (Inl ErrRecordNotFound) v"
    and "\<And>r. r \<in># get v \<Longrightarrow> p r \<Longrightarrow> Q (Inr r) v"
    and "\<And>e. Q (Inl (SqlError e)) v"
  shows "wp view (gorm_First T p) Q v"
  unfolding gorm_First_def
proof (intro wp_bind wp_statement)
  fix w rs w'
  assume v: "view w = v" and run: "sql_select T p w = (Inr rs, w')"
  then have rs: "mset rs = filter_mset p (get v)" and v': "view w' = v"
    using select_ok by blast+
  have "set rs = {r. r \<in># get v \<and> p r}"
    using arg_cong [OF rs, of set_mset] by auto
  with rs show "case Inr rs of Inl e \<Rightarrow> Q (Inl e) (view w')
      | Inr rs \<Rightarrow> wp view (case rs of [] \<Rightarrow> throwP ErrRecordNotFound | r # _ \<Rightarrow> returnP r) Q (view w')"
    by (cases rs) (auto simp: v' intro!: wp_intro assms(1,2))
qed (use assms(3) select_err in auto)

lemma wp_Find:
  assumes "\<And>rs. mset rs = filter_mset p (get v) \<Longrightarrow> sorted (map key rs) \<Longrightarrow> Q (Inr rs) v"
    and "\<And>e. Q (Inl (SqlError e)) v"
  shows "wp view (gorm_Find T p key) Q v"
  unfolding gorm_Find_def
  by (intro wp_bind wp_statement) (use assms in \<open>auto dest!: select_ok select_err intro!: wp_return\<close>)

lemma wp_FindPage:
  assumes "\<And>rs. mset rs = filter_mset p (get v) \<Longrightarrow> sorted (map key rs)
        \<Longrightarrow> Q (Inr (gorm_page limit offset rs)) v"
    and "\<And>e. Q (Inl (SqlError e)) v"
  shows "wp view (gorm_FindPage T p key limit offset) Q v"
  unfolding gorm_FindPage_def
  by (intro wp_bind wp_Find case_sum_InrI case_sum_InlI wp_return assms)

lemma wp_Count:
  assumes "Q (Inr (int (size (filter_mset p (get v))))) v"
    and "\<And>e. Q (Inl (SqlError e)) v"
  shows "wp view (gorm_Count T p) Q v"
  unfolding gorm_Count_def
  by (intro wp_bind wp_statement)
    (use assms in \<open>auto dest!: count_ok count_err intro!: wp_return\<close>)

lemma wp_Create:
  assumes "filter_mset (conflict r) (get v) = {#} \<Longrightarrow> Q (Inr ()) (put (add_mset r (get v)) v)"
    and "\<And>e. (e = UniqueViolation \<longrightarrow> filter_mset (conflict r) (get v) \<noteq> {#})
           \<Longrightarrow> Q (Inl (SqlError e)) v"
  shows "wp view (gorm_Create T r) Q v"
  unfolding gorm_Create_def
  by (rule wp_statement) (use assms in \<open>auto dest!: insert_ok insert_err\<close>)

lemma wp_CreateDoNothing:
  assumes "filter_mset (t r) (get v) = {#} \<Longrightarrow> filter_mset (conflict r) (get v) = {#}
           \<Longrightarrow> Q (Inr 1) (put (add_mset r (get v)) v)"
    and "filter_mset (t r) (get v) \<noteq> {#} \<Longrightarrow> Q (Inr 0) v"
    and "\<And>e. Q (Inl (SqlError e)) v"
  shows "wp view (gorm_CreateDoNothing T t r) Q v"
  unfolding gorm_CreateDoNothing_def
  by (rule wp_statement)
    (use assms in \<open>auto dest!: insert_nothing_ok insert_nothing_err split: if_splits\<close>)

lemma wp_ExecInsertBelow:
  assumes "int (size (filter_mset q (get v))) < limit \<Longrightarrow> filter_mset (t r) (get v) = {#}
           \<Longrightarrow> filter_mset (conflict r) (get v) = {#}
           \<Longrightarrow> Q (Inr 1) (put (add_mset r (get v)) v)"
    and "limit \<le> int (size (filter_mset q (get v))) \<Longrightarrow> Q (Inr 0) v"
    and "filter_mset (t r) (get v) \<noteq> {#} \<Longrightarrow> Q (Inr 0) v"
    and "\<And>e. Q (Inl (SqlError e)) v"
  shows "wp view (gorm_ExecInsertBelow T t q limit r) Q v"
  unfolding gorm_ExecInsertBelow_def
proof (rule wp_statement)
  fix w n w'
  assume v: "view w = v" and run: "sql_insert_below T t q limit r w = (Inr n, w')"
  note law = insert_below_ok [OF run, unfolded v]
  consider "int (size (filter_mset q (get v))) < limit" "filter_mset (t r) (get v) = {#}"
    | "limit \<le> int (size (filter_mset q (get v)))" | "filter_mset (t r) (get v) \<noteq> {#}"
    by linarith
  then show "Q (Inr n) (view w')"
  proof cases
    case 1
    then show ?thesis using law assms(1) by simp
  next
    case 2
    then show ?thesis using law assms(2) by simp
  next
    case 3
    then show ?thesis using law assms(3) by (simp only: simp_thms if_False)
  qed
qed (use assms(4) in \<open>auto dest: insert_below_err\<close>)

lemma wp_Updates:
  assumes "Q (Inr (size (filter_mset p (get v))))
             (put (image_mset (\<lambda>r. if p r then f r else r) (get v)) v)"
    and "\<And>e. Q (Inl (SqlError e)) v"
  shows "wp view (gorm_Updates T p f) Q v"
  unfolding gorm_Updates_def
  by (rule wp_statement) (use assms in \<open>auto dest!: update_ok update_err\<close>)

lemma wp_HardDelete:
  assumes "Q (Inr (size (filter_mset p (get v)))) (put (filter_mset (\<lambda>r. \<not> p r) (get v)) v)"
    and "\<And>e. Q (Inl (SqlError e)) v"
  shows "wp view (gorm_HardDelete T p) Q v"
  unfolding gorm_HardDelete_def
  by (rule wp_statement) (use assms in \<open>auto dest!: delete_ok delete_err\<close>)

lemma wp_unique_rows:
  assumes "(\<And>r. r \<in># get v \<Longrightarrow> filter_mset (conflict r) (get v) = {#r#}) \<Longrightarrow> wp view m Q v"
  shows "wp view m Q v"
proof (rule wpI)
  fix w r w'
  assume v: "view w = v" and run: "m w = (r, w')"
  have "wp view m Q v"
    by (rule assms) (use unique_rows v in blast)
  with v run show "Q r (view w')" by (blast dest: wpD)
qed

text \<open>An update by key: it changes the one row that has the key, or none.\<close>

lemma wp_Updates_key:
  assumes key: "\<And>r s. key s = key r \<Longrightarrow> conflict r s" and p: "\<And>s. p s \<Longrightarrow> key s = k"
    and hit: "\<And>r. r \<in># get v \<Longrightarrow> p r
        \<Longrightarrow> Q (Inr 1) (put (add_mset (f r) (filter_mset (\<lambda>s. key s \<noteq> k) (get v))) v)"
    and miss: "(\<And>r. r \<in># get v \<Longrightarrow> \<not> p r) \<Longrightarrow> Q (Inr 0) (put (get v) v)"
    and err: "\<And>e. Q (Inl (SqlError e)) v"
  shows "wp view (gorm_Updates T p f) Q v"
proof (rule wp_unique_rows)
  assume uniq: "\<And>r. r \<in># get v \<Longrightarrow> filter_mset (conflict r) (get v) = {#r#}"
  show ?thesis
  proof (cases "\<exists>r. r \<in># get v \<and> p r")
    case True
    then obtain r where r: "r \<in># get v" "p r" by blast
    note one = update_by_key [where c = conflict and key = key and k = k and p = p and f = f,
        OF uniq [OF r(1)] key r(2) p]
    show ?thesis
      by (rule wp_Updates) (simp_all only: one [THEN conjunct1] one [THEN conjunct2] size_single
          hit [OF r] err)
  next
    case False
    then have none: "\<not> p r" if "r \<in># get v" for r using that by blast
    then have size: "size (filter_mset p (get v)) = 0" by simp
    show ?thesis
      by (rule wp_Updates) (simp_all only: size update_nothing [OF none] miss [OF none] err)
  qed
qed

lemmas wp_sql = wp_First wp_Count wp_Create wp_CreateDoNothing wp_ExecInsertBelow
  wp_Updates wp_HardDelete

end

end
