(* ===== verification/Json.thy ===== *)
theory Json
  imports Prelude "HOL-Library.Char_ord" "HOL-Library.List_Lexorder"
begin

text \<open>
  The part of \<^verbatim>\<open>encoding/json\<close> and \<^verbatim>\<open>time\<close> that the sources use to fill text columns and cache
  entries: \<^verbatim>\<open>json.Marshal\<close> of strings, integers, booleans, slices, maps and instants. A string is
  its bytes; bytes above 127 are taken to be valid UTF-8 and are copied, as Go does.
\<close>

datatype json =
    JNull
  | JBool bool
  | JInt int
  | JStr string
  | JArr "json list"
  | JObj "(string \<times> json) list"

section \<open>Numbers\<close>

definition digit_char :: "int \<Rightarrow> char" where
  "digit_char d = char_of (48 + d)"

function show_digits :: "int \<Rightarrow> string" where
  "show_digits i =
     (if i < 10 then [digit_char i] else show_digits (i div 10) @ [digit_char (i mod 10)])"
  by pat_completeness auto
termination
  by (relation "measure nat") auto

declare show_digits.simps [simp del]

definition show_int :: "int \<Rightarrow> string" where
  "show_int i = (if i < 0 then CHR ''-'' # show_digits (- i) else show_digits i)"

definition pad_left :: "nat \<Rightarrow> string \<Rightarrow> string" where
  "pad_left n s = replicate (n - length s) (CHR ''0'') @ s"

section \<open>Strings\<close>

definition hex_char :: "nat \<Rightarrow> char" where
  "hex_char d = (if d < 10 then char_of (48 + d) else char_of (87 + d))"

definition escape_char :: "char \<Rightarrow> string" where
  "escape_char c =
     (let n = (of_char c :: nat) in
      if n = 34 then [CHR 0x5C, CHR 0x22]
      else if n = 92 then [CHR 0x5C, CHR 0x5C]
      else if n = 8 then [CHR 0x5C, CHR ''b'']
      else if n = 12 then [CHR 0x5C, CHR ''f'']
      else if n = 10 then [CHR 0x5C, CHR ''n'']
      else if n = 13 then [CHR 0x5C, CHR ''r'']
      else if n = 9 then [CHR 0x5C, CHR ''t'']
      else if n < 32 \<or> n = 60 \<or> n = 62 \<or> n = 38
        then [CHR 0x5C, CHR ''u'', CHR ''0'', CHR ''0'', hex_char (n div 16), hex_char (n mod 16)]
      else [c])"

text \<open>The line separators U+2028 and U+2029, three bytes each, are escaped as well.\<close>

fun escape_bytes :: "string \<Rightarrow> string" where
  "escape_bytes [] = []"
| "escape_bytes (c # cs) =
     (if c = CHR 0xE2 \<and> take 2 cs = [CHR 0x80, CHR 0xA8]
      then CHR 0x5C # ''u2028'' @ escape_bytes (drop 2 cs)
      else if c = CHR 0xE2 \<and> take 2 cs = [CHR 0x80, CHR 0xA9]
      then CHR 0x5C # ''u2029'' @ escape_bytes (drop 2 cs)
      else escape_char c @ escape_bytes cs)"

definition json_string :: "string \<Rightarrow> string" where
  "json_string s = [CHR 0x22] @ escape_bytes s @ [CHR 0x22]"

section \<open>Documents\<close>

fun json_text :: "json \<Rightarrow> string"
  and json_elems :: "json list \<Rightarrow> string"
  and json_fields :: "(string \<times> json) list \<Rightarrow> string" where
  "json_text JNull = ''null''"
| "json_text (JBool b) = (if b then ''true'' else ''false'')"
| "json_text (JInt i) = show_int i"
| "json_text (JStr s) = json_string s"
| "json_text (JArr xs) = ''['' @ json_elems xs @ '']''"
| "json_text (JObj kvs) = ''{'' @ json_fields kvs @ ''}''"
| "json_elems [] = ''''"
| "json_elems [x] = json_text x"
| "json_elems (x # y # xs) = json_text x @ '','' @ json_elems (y # xs)"
| "json_fields [] = ''''"
| "json_fields [(k, v)] = json_string k @ '':'' @ json_text v"
| "json_fields ((k, v) # kv # kvs) =
     json_string k @ '':'' @ json_text v @ '','' @ json_fields (kv # kvs)"

text \<open>A nil slice or map is \<^verbatim>\<open>null\<close>; map keys are written in sorted order.\<close>

definition json_slice :: "('a \<Rightarrow> json) \<Rightarrow> 'a list option \<Rightarrow> json" where
  "json_slice f xs = (case xs of None \<Rightarrow> JNull | Some ys \<Rightarrow> JArr (map f ys))"

definition json_map :: "('a \<Rightarrow> json) \<Rightarrow> (string \<times> 'a) list option \<Rightarrow> json" where
  "json_map f m =
     (case m of None \<Rightarrow> JNull
      | Some kvs \<Rightarrow> JObj (map (\<lambda>(k, v). (k, f v)) (sort_key fst kvs)))"

section \<open>Instants\<close>

definition ns_per_sec :: int where "ns_per_sec = 1000000000"
definition ns_per_day :: int where "ns_per_day = 86400 * 1000000000"

definition is_leap :: "int \<Rightarrow> bool" where
  "is_leap y \<longleftrightarrow> y mod 4 = 0 \<and> (y mod 100 \<noteq> 0 \<or> y mod 400 = 0)"

text \<open>Year and day of the year of a number of days since 0001-01-01 (Gregorian, proleptic).\<close>

definition civil_year :: "int \<Rightarrow> int \<times> int" where
  "civil_year days =
     (let n400 = days div 146097; d400 = days mod 146097;
          n100 = min 3 (d400 div 36524); d100 = d400 - 36524 * n100;
          n4 = d100 div 1461; d4 = d100 mod 1461;
          n1 = min 3 (d4 div 365)
      in (400 * n400 + 100 * n100 + 4 * n4 + n1 + 1, d4 - 365 * n1))"

definition month_lengths :: "int \<Rightarrow> int list" where
  "month_lengths y = [31, if is_leap y then 29 else 28, 31, 30, 31, 30, 31, 31, 30, 31, 30, 31]"

fun month_day :: "int \<Rightarrow> int list \<Rightarrow> int \<Rightarrow> int \<times> int" where
  "month_day m [] d = (m, d + 1)"
| "month_day m (l # ls) d = (if d < l then (m, d + 1) else month_day (m + 1) ls (d - l))"

definition show_padded :: "nat \<Rightarrow> int \<Rightarrow> string" where
  "show_padded n i = pad_left n (show_digits i)"

text \<open>\<^verbatim>\<open>time.RFC3339Nano\<close> drops the trailing zeros of the fraction, and the fraction if it is 0.\<close>

definition show_fraction :: "int \<Rightarrow> string" where
  "show_fraction ns =
     (if ns = 0 then '''' else
      CHR ''.'' # rev (dropWhile (\<lambda>c. c = CHR ''0'') (rev (show_padded 9 ns))))"

definition format_rfc3339 :: "bool \<Rightarrow> gotime \<Rightarrow> string" where
  "format_rfc3339 nano t =
     (let (y, yday) = civil_year (t div ns_per_day); rest = t mod ns_per_day;
          (m, d) = month_day 1 (month_lengths y) yday; sec = rest div ns_per_sec
      in show_padded 4 y @ ''-'' @ show_padded 2 m @ ''-'' @ show_padded 2 d @ ''T''
         @ show_padded 2 (sec div 3600) @ '':'' @ show_padded 2 (sec div 60 mod 60) @ '':''
         @ show_padded 2 (sec mod 60)
         @ (if nano then show_fraction (rest mod ns_per_sec) else '''') @ ''Z'')"

text \<open>\<^verbatim>\<open>Time.MarshalJSON\<close> fails for a year outside 0..9999; the whole document then fails.\<close>

definition marshal_time :: "gotime \<Rightarrow> json option" where
  "marshal_time t =
     (let y = fst (civil_year (t div ns_per_day))
      in if 0 \<le> y \<and> y \<le> 9999 then Some (JStr (format_rfc3339 True t)) else None)"

text \<open>The layout against dates with known renderings.\<close>

lemma format_rfc3339_samples:
  "format_rfc3339 True 0 = ''0001-01-01T00:00:00Z''"
  "format_rfc3339 True (719162 * ns_per_day + 1500000000) = ''1970-01-01T00:00:01.5Z''"
  "format_rfc3339 False (730178 * ns_per_day + 1) = ''2000-02-29T00:00:00Z''"
  by code_simp+

end
