(* ===== verification/Scan_State.thy ===== *)
theory Scan_State
  imports Prelude
begin

text \<open>
  \<^verbatim>\<open>pkg/scan\<close>: the lifecycle states of a scan, the transition table that the NATS handlers
  consult, the scan kinds, the plan limit keys and the quota error text.
\<close>

section \<open>Constants and the transition table\<close>

definition StatePENDING :: string where "StatePENDING = ''PENDING''"
definition StateRUNNING :: string where "StateRUNNING = ''RUNNING''"
definition StateSUCCESS :: string where "StateSUCCESS = ''SUCCESS''"
definition StateFAILED :: string where "StateFAILED = ''FAILED''"
definition StateTIMEOUT :: string where "StateTIMEOUT = ''TIMEOUT''"
definition StateUNREACHABLE :: string where "StateUNREACHABLE = ''UNREACHABLE''"

text \<open>A Go map with boolean values: a missing key reads as false.\<close>

definition TerminalStates :: "string \<Rightarrow> bool" where
  "TerminalStates s \<longleftrightarrow> s \<in> set [StateSUCCESS, StateFAILED, StateTIMEOUT, StateUNREACHABLE]"

definition ValidTransition :: "string \<Rightarrow> string \<Rightarrow> bool" where
  "ValidTransition fromState toState =
     (let fromState = (if fromState = '''' then StatePENDING else fromState)
      in if toState = StateRUNNING then fromState = StatePENDING
         else if toState = StateSUCCESS \<or> toState = StateFAILED \<or> toState = StateTIMEOUT
              \<or> toState = StateUNREACHABLE
         then fromState = StateRUNNING \<or> fromState = StatePENDING
         else False)"

definition IsTerminal :: "string \<Rightarrow> bool" where
  "IsTerminal status \<longleftrightarrow> TerminalStates status"

definition IsSuccess :: "string \<Rightarrow> bool" where
  "IsSuccess status \<longleftrightarrow> status = StateSUCCESS"

definition KindTLS :: string where "KindTLS = ''tls''"
definition KindWallet :: string where "KindWallet = ''wallet''"
definition PlanLimitKeyEndpoint :: string where "PlanLimitKeyEndpoint = ''endpoint''"
definition PlanLimitKeyWallet :: string where "PlanLimitKeyWallet = ''wallet''"

definition ErrPlanLimitExceeded :: string where
  "ErrPlanLimitExceeded = ''PLAN_LIMIT_EXCEEDED''"

section \<open>Facts about the states\<close>

lemmas state_defs = StatePENDING_def StateRUNNING_def StateSUCCESS_def StateFAILED_def
  StateTIMEOUT_def StateUNREACHABLE_def

lemma states_distinct [simp]:
  "distinct ['''', StatePENDING, StateRUNNING, StateSUCCESS, StateFAILED, StateTIMEOUT,
     StateUNREACHABLE]"
  by (simp add: state_defs)

lemma states_neq [simp]:
  "StatePENDING \<noteq> ''''" "StateRUNNING \<noteq> ''''" "StateSUCCESS \<noteq> ''''" "StateFAILED \<noteq> ''''"
  "StateTIMEOUT \<noteq> ''''" "StateUNREACHABLE \<noteq> ''''"
  "'''' \<noteq> StatePENDING" "'''' \<noteq> StateRUNNING" "'''' \<noteq> StateSUCCESS" "'''' \<noteq> StateFAILED"
  "'''' \<noteq> StateTIMEOUT" "'''' \<noteq> StateUNREACHABLE"
  "StatePENDING \<noteq> StateRUNNING" "StatePENDING \<noteq> StateSUCCESS" "StatePENDING \<noteq> StateFAILED"
  "StatePENDING \<noteq> StateTIMEOUT" "StatePENDING \<noteq> StateUNREACHABLE"
  "StateRUNNING \<noteq> StatePENDING" "StateRUNNING \<noteq> StateSUCCESS" "StateRUNNING \<noteq> StateFAILED"
  "StateRUNNING \<noteq> StateTIMEOUT" "StateRUNNING \<noteq> StateUNREACHABLE"
  "StateSUCCESS \<noteq> StatePENDING" "StateSUCCESS \<noteq> StateRUNNING" "StateSUCCESS \<noteq> StateFAILED"
  "StateSUCCESS \<noteq> StateTIMEOUT" "StateSUCCESS \<noteq> StateUNREACHABLE"
  "StateFAILED \<noteq> StatePENDING" "StateFAILED \<noteq> StateRUNNING" "StateFAILED \<noteq> StateSUCCESS"
  "StateFAILED \<noteq> StateTIMEOUT" "StateFAILED \<noteq> StateUNREACHABLE"
  "StateTIMEOUT \<noteq> StatePENDING" "StateTIMEOUT \<noteq> StateRUNNING" "StateTIMEOUT \<noteq> StateSUCCESS"
  "StateTIMEOUT \<noteq> StateFAILED" "StateTIMEOUT \<noteq> StateUNREACHABLE"
  "StateUNREACHABLE \<noteq> StatePENDING" "StateUNREACHABLE \<noteq> StateRUNNING"
  "StateUNREACHABLE \<noteq> StateSUCCESS" "StateUNREACHABLE \<noteq> StateFAILED"
  "StateUNREACHABLE \<noteq> StateTIMEOUT"
  by (simp_all add: state_defs)

lemma IsTerminal_simps [simp]:
  "IsTerminal StateSUCCESS" "IsTerminal StateFAILED" "IsTerminal StateTIMEOUT"
  "IsTerminal StateUNREACHABLE" "\<not> IsTerminal StatePENDING" "\<not> IsTerminal StateRUNNING"
  "\<not> IsTerminal ''''"
  by (simp_all add: IsTerminal_def TerminalStates_def)

lemma ValidTransition_from_terminal: "IsTerminal s \<Longrightarrow> \<not> ValidTransition s t"
  by (auto simp: IsTerminal_def TerminalStates_def ValidTransition_def Let_def)

lemma ValidTransition_source:
  "ValidTransition s t \<Longrightarrow> s = '''' \<or> s = StatePENDING \<or> s = StateRUNNING"
  by (auto simp: ValidTransition_def Let_def split: if_splits)

lemma ValidTransition_target:
  "ValidTransition s t \<Longrightarrow> (t = StateRUNNING \<and> s \<noteq> StateRUNNING) \<or> IsTerminal t"
  by (auto simp: ValidTransition_def IsTerminal_def TerminalStates_def Let_def split: if_splits)

lemma ValidTransition_SUCCESS_iff [simp]:
  "ValidTransition s StateSUCCESS \<longleftrightarrow> s = '''' \<or> s = StatePENDING \<or> s = StateRUNNING"
  by (auto simp: ValidTransition_def Let_def)

lemma ValidTransition_FAILED_iff [simp]:
  "ValidTransition s StateFAILED \<longleftrightarrow> s = '''' \<or> s = StatePENDING \<or> s = StateRUNNING"
  by (auto simp: ValidTransition_def Let_def)

section \<open>The lifecycle as a step relation\<close>

text \<open>A run of the lifecycle: the states a scan goes through when every step is a valid one.\<close>

inductive lifecycle_run :: "string \<Rightarrow> string list \<Rightarrow> bool" where
  stop: "lifecycle_run s []"
| step: "ValidTransition s t \<Longrightarrow> lifecycle_run t ts \<Longrightarrow> lifecycle_run s (t # ts)"

inductive_cases lifecycle_run_ConsE: "lifecycle_run s (t # ts)"
inductive_simps lifecycle_run_Cons: "lifecycle_run s (t # ts)"

lemma lifecycle_run_terminal: "lifecycle_run s ts \<Longrightarrow> IsTerminal s \<Longrightarrow> ts = []"
  by (induction rule: lifecycle_run.induct) (auto dest: ValidTransition_from_terminal)

lemma lifecycle_run_running:
  assumes "lifecycle_run StateRUNNING ts"
  shows "ts = [] \<or> (\<exists>t. ts = [t] \<and> IsTerminal t)"
  using assms
proof (cases rule: lifecycle_run.cases)
  case (step t us)
  then have "IsTerminal t" using ValidTransition_target by fastforce
  with step show ?thesis by (auto dest: lifecycle_run_terminal)
qed simp

text \<open>
  The transition table is a one-way lifecycle: a run of valid transitions from any state has
  at most two steps, only its last state can be terminal, the only intermediate state is
  RUNNING, and a terminal state starts no step at all.
\<close>

theorem lifecycle_is_one_way:
  assumes "lifecycle_run s ts"
  shows "length ts \<le> 2
       \<and> (length ts = 2 \<longrightarrow> (\<exists>t. ts = [StateRUNNING, t] \<and> IsTerminal t))
       \<and> (length ts = 1 \<longrightarrow> ts = [StateRUNNING] \<or> IsTerminal (hd ts))
       \<and> (IsTerminal s \<longrightarrow> ts = [])"
proof -
  have "ts = [] \<or> (\<exists>t. ts = [t] \<and> (t = StateRUNNING \<or> IsTerminal t))
      \<or> (\<exists>t. ts = [StateRUNNING, t] \<and> IsTerminal t)"
    using assms
  proof (cases rule: lifecycle_run.cases)
    case (step t us)
    from step(2) consider "t = StateRUNNING" | "IsTerminal t"
      using ValidTransition_target by blast
    then show ?thesis
      using step(1,3) by cases (auto dest: lifecycle_run_running lifecycle_run_terminal)
  qed simp
  moreover have "IsTerminal s \<longrightarrow> ts = []"
    using assms lifecycle_run_terminal by blast
  ultimately show ?thesis by auto
qed

theorem lifecycle_is_one_way_witness:
  "lifecycle_run [] [StateRUNNING, StateFAILED]
   \<and> (\<exists>t. [StateRUNNING, StateFAILED] = [StateRUNNING, t] \<and> IsTerminal t)"
proof -
  have run: "lifecycle_run [] [StateRUNNING, StateFAILED]"
    by (auto intro!: lifecycle_run.intros simp: ValidTransition_def)
  show ?thesis using run lifecycle_is_one_way [OF run] by simp
qed

end
