(* ===== verification/Domain.thy ===== *)
theory Domain
  imports Json Scan_State
begin

text \<open>
  \<^verbatim>\<open>internal/domain\<close>: the stored entities, the scan result DTOs, the conversions between them,
  the wallet kind normalisation, the plan and the usage ledger row. A Go slice whose nil value
  is observable is a list option; a nil pointer is \<open>None\<close>.
\<close>

section \<open>Scan result DTOs (models.go)\<close>

definition AccountTypeEOA :: string where "AccountTypeEOA = ''EOA''"
definition AccountTypeAA :: string where "AccountTypeAA = ''AA''"
definition AccountTypeContract :: string where "AccountTypeContract = ''Contract''"
definition AccountTypeUnknown :: string where "AccountTypeUnknown = ''unknown''"

definition AlgorithmECDSAsecp256k1 :: string where
  "AlgorithmECDSAsecp256k1 = ''ECDSA-secp256k1''"

definition NISTLevel1 :: int where "NISTLevel1 = 1"
definition NISTLevel2 :: int where "NISTLevel2 = 2"
definition NISTLevel3 :: int where "NISTLevel3 = 3"
definition NISTLevel4 :: int where "NISTLevel4 = 4"
definition NISTLevel5 :: int where "NISTLevel5 = 5"

record Delegation =
  ChainID :: int
  DelegatedAddress :: string

record ScanResult =
  res_Address :: string
  res_Type :: string
  res_Algorithm :: string
  res_NISTLevel :: int
  res_KeyExposed :: bool
  res_PublicKey :: string
  res_TransactionHash :: string
  res_ExposedNetwork :: string
  res_IsEOA :: bool
  res_IsERC4337 :: bool
  res_RiskScore :: float64
  res_PublicKeyRecovery :: string
  res_ScannedAt :: gotime
  res_Networks :: "string list option"
  res_Delegations :: "Delegation list option"
  res_Connections :: "string list option"

record CertificateInfo =
  cert_Subject :: string
  cert_Issuer :: string
  cert_SignatureAlgorithm :: string
  cert_PublicKeyAlgorithm :: string
  cert_KeySize :: int
  cert_NotBefore :: gotime
  cert_NotAfter :: gotime
  cert_SerialNumber :: string
  cert_NISTLevel :: int
  cert_IsPQCReady :: bool

record CipherSuiteInfo =
  suite_ID :: "16 word"
  suite_Name :: string
  suite_KeyExchange :: string
  suite_Encryption :: string
  suite_MAC :: string
  suite_NISTLevel :: int
  suite_IsPQCReady :: bool

record TLSScanResult =
  tr_URL :: string
  tr_Host :: string
  tr_Port :: int
  tr_Certificate :: CertificateInfo
  tr_CipherSuites :: "CipherSuiteInfo list option"
  tr_ProtocolVersion :: string
  tr_NISTLevel :: int
  tr_RiskScore :: float64
  tr_PQCRisk :: string
  tr_SupportedPQCs :: "string list option"
  tr_Recommendations :: "string list option"
  tr_ScannedAt :: gotime
  tr_KexAlgorithm :: string
  tr_KexPQCReady :: bool
  tr_PQCMode :: string
  tr_PFS :: bool
  tr_ALPN :: string
  tr_OCSPStapled :: bool
  tr_Curve :: string
  tr_NISTLevels :: "(string \<times> int) list option"
  tr_Default :: bool

text \<open>The Go zero values, which a decoder starts from.\<close>

definition zero_CertificateInfo :: CertificateInfo where
  "zero_CertificateInfo = \<lparr>cert_Subject = '''', cert_Issuer = '''', cert_SignatureAlgorithm = '''',
     cert_PublicKeyAlgorithm = '''', cert_KeySize = 0, cert_NotBefore = 0, cert_NotAfter = 0,
     cert_SerialNumber = '''', cert_NISTLevel = 0, cert_IsPQCReady = False\<rparr>"

definition zero_TLSScanResult :: TLSScanResult where
  "zero_TLSScanResult = \<lparr>tr_URL = '''', tr_Host = '''', tr_Port = 0,
     tr_Certificate = zero_CertificateInfo, tr_CipherSuites = None, tr_ProtocolVersion = '''',
     tr_NISTLevel = 0, tr_RiskScore = 0, tr_PQCRisk = '''', tr_SupportedPQCs = None,
     tr_Recommendations = None, tr_ScannedAt = 0, tr_KexAlgorithm = '''', tr_KexPQCReady = False,
     tr_PQCMode = '''', tr_PFS = False, tr_ALPN = '''', tr_OCSPStapled = False, tr_Curve = '''',
     tr_NISTLevels = None, tr_Default = False\<rparr>"

section \<open>Wallet kinds (wallet_kind.go)\<close>

definition WalletTypeEOA :: string where "WalletTypeEOA = ''eoa''"
definition WalletTypeSmartAccount :: string where "WalletTypeSmartAccount = ''smart_account''"
definition WalletTypeContract :: string where "WalletTypeContract = ''contract''"
definition WalletTypeUnknown :: string where "WalletTypeUnknown = ''unknown''"

definition DeriveWalletTypeV1 :: "string \<Rightarrow> bool \<Rightarrow> bool \<Rightarrow> string" where
  "DeriveWalletTypeV1 t isEOA is4337 =
     (if is4337 \<or> t = AccountTypeAA then WalletTypeSmartAccount
      else if t = AccountTypeContract then WalletTypeContract
      else if isEOA \<or> t = AccountTypeEOA then WalletTypeEOA
      else WalletTypeUnknown)"

definition NormalizeWalletAccountKind ::
  "string \<Rightarrow> bool \<Rightarrow> bool \<Rightarrow> string \<times> bool \<times> bool \<times> string" where
  "NormalizeWalletAccountKind t isEOA is4337 =
     (let k = DeriveWalletTypeV1 t isEOA is4337 in
      if k = WalletTypeSmartAccount then (AccountTypeAA, False, True, WalletTypeSmartAccount)
      else if k = WalletTypeContract then (AccountTypeContract, False, False, WalletTypeContract)
      else if k = WalletTypeEOA then (AccountTypeEOA, True, False, WalletTypeEOA)
      else (AccountTypeUnknown, False, False, WalletTypeUnknown))"

text \<open>The two functions below mutate their argument in place; here they return it.\<close>

definition NormalizeScanResultWalletKind :: "ScanResult \<Rightarrow> ScanResult" where
  "NormalizeScanResultWalletKind r =
     (case NormalizeWalletAccountKind (res_Type r) (res_IsEOA r) (res_IsERC4337 r) of
        (t, isEOA, is4337, _) \<Rightarrow> r\<lparr>res_Type := t, res_IsEOA := isEOA, res_IsERC4337 := is4337\<rparr>)"

definition EnsureScanResultDelegations :: "ScanResult \<Rightarrow> ScanResult" where
  "EnsureScanResultDelegations r =
     (if res_Delegations r \<noteq> None then r else r\<lparr>res_Delegations := Some []\<rparr>)"

section \<open>Wallet scan rows (scan_result.go)\<close>

record ScanResultEntity =
  sr_ID :: uuid
  sr_UserID :: uuid
  sr_Address :: string
  sr_Type :: string
  sr_Algorithm :: string
  sr_NISTLevel :: int
  sr_KeyExposed :: bool
  sr_PublicKey :: string
  sr_TransactionHash :: string
  sr_ExposedNetwork :: string
  sr_PublicKeyRecovery :: string
  sr_IsEOA :: bool
  sr_IsERC4337 :: bool
  sr_RiskScore :: float64
  sr_Networks :: string
  sr_Delegations :: string
  sr_Connections :: string
  sr_Status :: string
  sr_Error :: string
  sr_TransitionID :: "string option"
  sr_CreatedAt :: gotime
  sr_UpdatedAt :: gotime
  sr_DeletedAt :: "gotime option"

definition zero_ScanResultEntity :: ScanResultEntity where
  "zero_ScanResultEntity = \<lparr>sr_ID = uuid_Nil, sr_UserID = uuid_Nil, sr_Address = '''',
     sr_Type = '''', sr_Algorithm = '''', sr_NISTLevel = 0, sr_KeyExposed = False,
     sr_PublicKey = '''', sr_TransactionHash = '''', sr_ExposedNetwork = '''',
     sr_PublicKeyRecovery = '''', sr_IsEOA = False, sr_IsERC4337 = False, sr_RiskScore = 0,
     sr_Networks = '''', sr_Delegations = '''', sr_Connections = '''', sr_Status = '''',
     sr_Error = '''', sr_TransitionID = None, sr_CreatedAt = 0, sr_UpdatedAt = 0,
     sr_DeletedAt = None\<rparr>"

definition stringArrayToString :: "string list option \<Rightarrow> string" where
  "stringArrayToString arr =
     (case arr of None \<Rightarrow> ''[]'' | Some [] \<Rightarrow> ''[]''
      | Some xs \<Rightarrow> json_text (JArr (map JStr xs)))"

definition json_delegation :: "Delegation \<Rightarrow> json" where
  "json_delegation d =
     JObj [(''chain_id'', JInt (ChainID d)), (''delegated_address'', JStr (DelegatedAddress d))]"

definition delegationsToString :: "Delegation list option \<Rightarrow> string" where
  "delegationsToString arr =
     (case arr of None \<Rightarrow> ''[]'' | Some [] \<Rightarrow> ''[]''
      | Some xs \<Rightarrow> json_text (JArr (map json_delegation xs)))"

definition FromScanResult :: "uuid \<Rightarrow> ScanResult \<Rightarrow> ScanResultEntity" where
  "FromScanResult userID result = zero_ScanResultEntity\<lparr>
     sr_UserID := userID,
     sr_Address := res_Address result,
     sr_Type := res_Type result,
     sr_Algorithm := res_Algorithm result,
     sr_NISTLevel := res_NISTLevel result,
     sr_KeyExposed := res_KeyExposed result,
     sr_PublicKey := res_PublicKey result,
     sr_TransactionHash := res_TransactionHash result,
     sr_ExposedNetwork := res_ExposedNetwork result,
     sr_PublicKeyRecovery := res_PublicKeyRecovery result,
     sr_IsEOA := res_IsEOA result,
     sr_IsERC4337 := res_IsERC4337 result,
     sr_RiskScore := res_RiskScore result,
     sr_Networks := stringArrayToString (res_Networks result),
     sr_Delegations := delegationsToString (res_Delegations result),
     sr_Connections := stringArrayToString (res_Connections result)\<rparr>"

section \<open>TLS scan rows (tls_scan_result.go)\<close>

record TLSScanResultEntity =
  tls_ID :: uuid
  tls_UserID :: "uuid option"
  tls_URL :: string
  tls_Host :: string
  tls_Port :: int
  tls_ProtocolVersion :: string
  tls_NISTLevel :: int
  tls_RiskScore :: float64
  tls_PQCRisk :: string
  tls_Certificate :: string
  tls_CipherSuites :: string
  tls_SupportedPQCs :: string
  tls_Recommendations :: string
  tls_KexAlgorithm :: string
  tls_KexPQCReady :: bool
  tls_PQCMode :: string
  tls_PFS :: bool
  tls_ALPN :: string
  tls_OCSPStapled :: bool
  tls_Curve :: string
  tls_NISTLevels :: string
  tls_Default :: bool
  tls_Status :: string
  tls_Error :: string
  tls_CreatedAt :: gotime
  tls_UpdatedAt :: gotime
  tls_DeletedAt :: "gotime option"

definition zero_TLSScanResultEntity :: TLSScanResultEntity where
  "zero_TLSScanResultEntity = \<lparr>tls_ID = uuid_Nil, tls_UserID = None, tls_URL = '''',
     tls_Host = '''', tls_Port = 0, tls_ProtocolVersion = '''', tls_NISTLevel = 0,
     tls_RiskScore = 0, tls_PQCRisk = '''', tls_Certificate = '''', tls_CipherSuites = '''',
     tls_SupportedPQCs = '''', tls_Recommendations = '''', tls_KexAlgorithm = '''',
     tls_KexPQCReady = False, tls_PQCMode = '''', tls_PFS = False, tls_ALPN = '''',
     tls_OCSPStapled = False, tls_Curve = '''', tls_NISTLevels = '''', tls_Default = False,
     tls_Status = '''', tls_Error = '''', tls_CreatedAt = 0, tls_UpdatedAt = 0,
     tls_DeletedAt = None\<rparr>"

definition json_certificate :: "CertificateInfo \<Rightarrow> json option" where
  "json_certificate c =
     (case (marshal_time (cert_NotBefore c), marshal_time (cert_NotAfter c)) of
        (Some nb, Some na) \<Rightarrow> Some (JObj
          [(''subject'', JStr (cert_Subject c)), (''issuer'', JStr (cert_Issuer c)),
           (''signature_algorithm'', JStr (cert_SignatureAlgorithm c)),
           (''public_key_algorithm'', JStr (cert_PublicKeyAlgorithm c)),
           (''key_size'', JInt (cert_KeySize c)), (''not_before'', nb), (''not_after'', na),
           (''serial_number'', JStr (cert_SerialNumber c)),
           (''nist_level'', JInt (cert_NISTLevel c)),
           (''is_pqc_ready'', JBool (cert_IsPQCReady c))])
      | _ \<Rightarrow> None)"

definition json_cipher_suite :: "CipherSuiteInfo \<Rightarrow> json" where
  "json_cipher_suite s = JObj
     [(''id'', JInt (uint (suite_ID s))), (''name'', JStr (suite_Name s)),
      (''key_exchange'', JStr (suite_KeyExchange s)), (''encryption'', JStr (suite_Encryption s)),
      (''mac'', JStr (suite_MAC s)), (''nist_level'', JInt (suite_NISTLevel s)),
      (''is_pqc_ready'', JBool (suite_IsPQCReady s))]"

text \<open>The marshalling errors are dropped, which leaves an empty text.\<close>

definition FromTLSScanResult ::
  "uuid option \<Rightarrow> TLSScanResult \<Rightarrow> bool \<Rightarrow> TLSScanResultEntity" where
  "FromTLSScanResult userID result isDefault =
     (let certJSON = (case json_certificate (tr_Certificate result) of
                        None \<Rightarrow> '''' | Some j \<Rightarrow> json_text j);
          cipherSuitesJSON = json_text (json_slice json_cipher_suite (tr_CipherSuites result));
          supportedPQCsJSON = json_text (json_slice JStr (tr_SupportedPQCs result));
          recommendationsJSON = json_text (json_slice JStr (tr_Recommendations result));
          nistLevelsJSON = json_text (json_map JInt (tr_NISTLevels result))
      in zero_TLSScanResultEntity\<lparr>
           tls_UserID := userID,
           tls_URL := tr_URL result,
           tls_Host := tr_Host result,
           tls_Port := tr_Port result,
           tls_ProtocolVersion := tr_ProtocolVersion result,
           tls_NISTLevel := tr_NISTLevel result,
           tls_RiskScore := tr_RiskScore result,
           tls_PQCRisk := tr_PQCRisk result,
           tls_Certificate := certJSON,
           tls_CipherSuites := cipherSuitesJSON,
           tls_SupportedPQCs := supportedPQCsJSON,
           tls_Recommendations := recommendationsJSON,
           tls_KexAlgorithm := tr_KexAlgorithm result,
           tls_KexPQCReady := tr_KexPQCReady result,
           tls_PQCMode := tr_PQCMode result,
           tls_PFS := tr_PFS result,
           tls_ALPN := tr_ALPN result,
           tls_OCSPStapled := tr_OCSPStapled result,
           tls_Curve := tr_Curve result,
           tls_NISTLevels := nistLevelsJSON,
           tls_Default := isDefault\<rparr>)"

section \<open>Usage ledger rows, plans and users\<close>

definition ScanUsageKindWallet :: string where "ScanUsageKindWallet = ''wallet''"
definition ScanUsageKindEndpoint :: string where "ScanUsageKindEndpoint = ''endpoint''"

record ScanUsageEventEntity =
  ev_ID :: uuid
  ev_UserID :: uuid
  ev_ScanID :: uuid
  ev_ScanKind :: string
  ev_ConsumedAt :: gotime

record Plan =
  plan_ID :: uuid
  plan_Name :: string
  plan_Type :: string
  plan_WalletScanLimit :: int
  plan_EndpointScanLimit :: int
  plan_Price :: float64
  plan_IsActive :: bool
  plan_CreatedAt :: gotime
  plan_UpdatedAt :: gotime
  plan_DeletedAt :: "gotime option"

definition IsUnlimited :: "Plan \<Rightarrow> string \<Rightarrow> bool" where
  "IsUnlimited p scanType =
     (if scanType = ''wallet'' then plan_WalletScanLimit p = 0
      else if scanType = ''endpoint'' then plan_EndpointScanLimit p = 0
      else False)"

text \<open>The association \<^verbatim>\<open>User.Plan\<close> is filled only by a preload the sources never ask for.\<close>

record User =
  user_ID :: uuid
  user_Email :: string
  user_Password :: string
  user_PlanID :: uuid
  user_CreatedAt :: gotime
  user_UpdatedAt :: gotime
  user_DeletedAt :: "gotime option"

section \<open>Properties of the wallet kinds\<close>

lemmas wallet_type_defs = WalletTypeEOA_def WalletTypeSmartAccount_def WalletTypeContract_def
  WalletTypeUnknown_def

lemmas account_type_defs = AccountTypeEOA_def AccountTypeAA_def AccountTypeContract_def
  AccountTypeUnknown_def

lemma account_types_distinct [simp]:
  "distinct [AccountTypeEOA, AccountTypeAA, AccountTypeContract, AccountTypeUnknown]"
  "AccountTypeEOA \<noteq> AccountTypeAA" "AccountTypeAA \<noteq> AccountTypeEOA"
  by (simp_all add: account_type_defs)

lemma DeriveWalletTypeV1_range:
  "DeriveWalletTypeV1 t e a
     \<in> {WalletTypeEOA, WalletTypeSmartAccount, WalletTypeContract, WalletTypeUnknown}"
  by (simp add: DeriveWalletTypeV1_def)

lemma NormalizeWalletAccountKind_wallet_type:
  "NormalizeWalletAccountKind t e a = (t', e', a', k)
   \<Longrightarrow> k = DeriveWalletTypeV1 t e a \<and> DeriveWalletTypeV1 t' e' a' = k"
  by (auto simp: NormalizeWalletAccountKind_def DeriveWalletTypeV1_def Let_def wallet_type_defs
      account_type_defs split: if_splits)

lemma NormalizeWalletAccountKind_flags:
  "NormalizeWalletAccountKind t e a = (t', e', a', k)
   \<Longrightarrow> (e' \<longleftrightarrow> t' = AccountTypeEOA) \<and> (a' \<longleftrightarrow> t' = AccountTypeAA) \<and> \<not> (e' \<and> a')"
  by (auto simp: NormalizeWalletAccountKind_def Let_def account_type_defs split: if_splits)

text \<open>
  Normalising the account kind of a scan result makes the three fields agree (the EOA flag
  holds exactly for type EOA, the ERC-4337 flag exactly for type AA, never both), keeps the
  wallet type the API derives from them, changes no other field, and is idempotent.
\<close>

theorem normalize_wallet_kind_canonical:
  fixes r :: ScanResult
  defines "n \<equiv> NormalizeScanResultWalletKind r"
  shows "(res_IsEOA n \<longleftrightarrow> res_Type n = AccountTypeEOA)
       \<and> (res_IsERC4337 n \<longleftrightarrow> res_Type n = AccountTypeAA)
       \<and> \<not> (res_IsEOA n \<and> res_IsERC4337 n)
       \<and> DeriveWalletTypeV1 (res_Type n) (res_IsEOA n) (res_IsERC4337 n)
          = DeriveWalletTypeV1 (res_Type r) (res_IsEOA r) (res_IsERC4337 r)
       \<and> n\<lparr>res_Type := res_Type r, res_IsEOA := res_IsEOA r, res_IsERC4337 := res_IsERC4337 r\<rparr> = r
       \<and> NormalizeScanResultWalletKind n = n"
proof -
  obtain t e a k where
    norm: "NormalizeWalletAccountKind (res_Type r) (res_IsEOA r) (res_IsERC4337 r) = (t, e, a, k)"
    by (cases "NormalizeWalletAccountKind (res_Type r) (res_IsEOA r) (res_IsERC4337 r)")
  have n: "n = r\<lparr>res_Type := t, res_IsEOA := e, res_IsERC4337 := a\<rparr>"
    by (simp add: n_def NormalizeScanResultWalletKind_def norm)
  have again: "NormalizeWalletAccountKind t e a = (t, e, a, k)"
    using norm by (auto simp: NormalizeWalletAccountKind_def DeriveWalletTypeV1_def Let_def
        wallet_type_defs account_type_defs split: if_splits)
  show ?thesis
    using NormalizeWalletAccountKind_wallet_type [OF norm]
      NormalizeWalletAccountKind_flags [OF norm] again
    by (auto simp: n NormalizeScanResultWalletKind_def)
qed

end
