(* ===== verification/Crypto_Policy.thy ===== *)
theory Crypto_Policy
  imports Json "HOL-Library.AList_Mapping"
begin

text \<open>
  \<^verbatim>\<open>internal/domain/crypto_policy.go\<close>: the row of a crypto policy, its JSON payload and the
  projection of a client's payload to what is kept.
\<close>

section \<open>Payloads\<close>

text \<open>
  A value of the Go type \<^verbatim>\<open>any\<close> as the JSON decoder builds it, plus the \<^verbatim>\<open>int64\<close> that the sources
  put into a payload themselves. A nil map is \<open>None\<close>.
\<close>

datatype any =
    AnyNil
  | AnyBool bool
  | AnyFloat float64
  | AnyInt64 "64 word"
  | AnyString string
  | AnySlice "any list"
  | AnyMap "(string \<times> any) list"

type_synonym JSONMap = "(string, any) mapping option"

definition CloneJSONMap :: "JSONMap \<Rightarrow> JSONMap" where
  "CloneJSONMap m = (case m of None \<Rightarrow> None | Some kvs \<Rightarrow> Some (Mapping.map_values (\<lambda>_ v. v) kvs))"

text \<open>A \<^verbatim>\<open>time.Time\<close> is an instant here, so \<^verbatim>\<open>UTC()\<close> is the identity.\<close>

definition NormalizePolicyPayload ::
  "JSONMap \<Rightarrow> string \<Rightarrow> string \<Rightarrow> 64 word \<Rightarrow> gotime \<Rightarrow> (string, any) mapping" where
  "NormalizePolicyPayload payload scanID wallet chainID verifiedAt =
     (let out = (case CloneJSONMap payload of None \<Rightarrow> Mapping.empty | Some m \<Rightarrow> m);
          out = Mapping.update ''scan_id'' (AnyString scanID) out;
          out = Mapping.update ''wallet_address'' (AnyString wallet) out;
          out = Mapping.update ''chain_id'' (AnyInt64 chainID) out;
          out = Mapping.update ''ownership_status'' (AnyString ''verified'') out;
          out = Mapping.update ''wallet_control_method'' (AnyString ''eoa_signature'') out;
          out = Mapping.update ''wallet_control_verified_at'' (AnyString (format_rfc3339 False verifiedAt)) out;
          out = Mapping.update ''persisted_at'' (AnyString (format_rfc3339 False verifiedAt)) out;
          out = Mapping.delete ''signed_message'' out;
          out = Mapping.delete ''signature'' out;
          out = Mapping.delete ''payload_sha256'' out;
          out = Mapping.delete ''draft_id'' out
      in out)"

section \<open>Rows\<close>

definition CryptoPolicyStatusPersisted :: string where
  "CryptoPolicyStatusPersisted = ''persisted''"

record CryptoPolicyEntity =
  pol_ID :: uuid
  pol_UserID :: string
  pol_TenantID :: string
  pol_ScanID :: uuid
  pol_WalletAddress :: string
  pol_ChainID :: "64 word"
  pol_Payload :: JSONMap
  pol_PayloadSHA256 :: string
  pol_SignedMessageHash :: string
  pol_OwnershipStatus :: string
  pol_WalletControlMethod :: string
  pol_WalletControlVerifiedAt :: "gotime option"
  pol_ChallengeIssuedAt :: "gotime option"
  pol_ChallengeExpiresAt :: "gotime option"
  pol_Status :: string
  pol_PersistedAt :: gotime
  pol_CreatedAt :: gotime
  pol_UpdatedAt :: gotime
  pol_DeletedAt :: "gotime option"

definition ValidateOwnerScope :: "string \<Rightarrow> string \<Rightarrow> string option" where
  "ValidateOwnerScope userID tenantID =
     (if userID = '''' then Some ''user_id is required'' else None)"

section \<open>What the projection keeps\<close>

definition policy_server_keys :: "string list" where
  "policy_server_keys = [''scan_id'', ''wallet_address'', ''chain_id'', ''ownership_status'',
     ''wallet_control_method'', ''wallet_control_verified_at'', ''persisted_at'']"

definition policy_stripped_keys :: "string list" where
  "policy_stripped_keys = [''signed_message'', ''signature'', ''payload_sha256'', ''draft_id'']"

lemma CloneJSONMap_id [simp]: "CloneJSONMap m = m"
proof -
  have "Mapping.map_values (\<lambda>_ v. v) kvs = kvs" for kvs :: "(string, any) mapping"
    by (rule mapping_eqI) (simp add: lookup_map_values option.map_ident)
  then show ?thesis by (simp add: CloneJSONMap_def split: option.splits)
qed

abbreviation normalized_lookup ::
  "JSONMap \<Rightarrow> string \<Rightarrow> string \<Rightarrow> 64 word \<Rightarrow> gotime \<Rightarrow> string \<Rightarrow> any option" where
  "normalized_lookup payload scanID wallet chainID verifiedAt \<equiv>
     Mapping.lookup (NormalizePolicyPayload payload scanID wallet chainID verifiedAt)"

lemma lookup_delete': "Mapping.lookup (Mapping.delete k m) k' = (if k = k' then None else Mapping.lookup m k')"
  by simp

lemma NormalizePolicyPayload_client:
  assumes "k \<notin> set policy_server_keys" "k \<notin> set policy_stripped_keys"
  shows "normalized_lookup (Some m) scanID wallet chainID verifiedAt k = Mapping.lookup m k"
  using assms
  by (simp only: NormalizePolicyPayload_def Let_def lookup_delete' lookup_update' CloneJSONMap_id option.case
      policy_server_keys_def policy_stripped_keys_def list.set insert_iff empty_iff de_Morgan_disj
      simp_thms eq_commute [of k] if_False)

lemma NormalizePolicyPayload_stripped:
  assumes "k \<in> set policy_stripped_keys"
  shows "normalized_lookup payload scanID wallet chainID verifiedAt k = None"
proof -
  have "normalized_lookup payload scanID wallet chainID verifiedAt k
      = (if k \<in> set policy_stripped_keys then None
         else normalized_lookup payload scanID wallet chainID verifiedAt k)"
    by (simp only: NormalizePolicyPayload_def Let_def lookup_delete' policy_stripped_keys_def list.set
        insert_iff empty_iff) simp
  with assms show ?thesis by simp
qed

lemma NormalizePolicyPayload_server:
  "normalized_lookup payload scanID wallet chainID verifiedAt ''scan_id'' = Some (AnyString scanID)"
  "normalized_lookup payload scanID wallet chainID verifiedAt ''wallet_address'' = Some (AnyString wallet)"
  "normalized_lookup payload scanID wallet chainID verifiedAt ''chain_id'' = Some (AnyInt64 chainID)"
  "normalized_lookup payload scanID wallet chainID verifiedAt ''ownership_status''
   = Some (AnyString ''verified'')"
  by (simp_all add: NormalizePolicyPayload_def)

end
