(* ===== verification/Environment.thy ===== *)
theory Environment
  imports Services Domain Crypto_Policy
begin

text \<open>
  The environment of the service: the tables of the database it owns (with the constraints the
  gorm tags and the DDL give them), transactions, Redis, NATS, the clock, the UUID package and
  the JSON codecs of the two result structs. \<open>sys\<close> is what can be observed of it; the locale
  \<open>world\<close> is the contract of the whole environment.
\<close>

section \<open>Constraints of the tables\<close>

definition wallet_conflict :: "ScanResultEntity \<Rightarrow> ScanResultEntity \<Rightarrow> bool" where
  "wallet_conflict r s \<longleftrightarrow> sr_ID r = sr_ID s"

definition tls_conflict :: "TLSScanResultEntity \<Rightarrow> TLSScanResultEntity \<Rightarrow> bool" where
  "tls_conflict r s \<longleftrightarrow> tls_ID r = tls_ID s"

definition usage_conflict :: "ScanUsageEventEntity \<Rightarrow> ScanUsageEventEntity \<Rightarrow> bool" where
  "usage_conflict r s \<longleftrightarrow> ev_ID r = ev_ID s \<or> ev_ScanID r = ev_ScanID s"

definition user_conflict :: "User \<Rightarrow> User \<Rightarrow> bool" where
  "user_conflict r s \<longleftrightarrow> user_ID r = user_ID s \<or> user_Email r = user_Email s"

definition plan_conflict :: "Plan \<Rightarrow> Plan \<Rightarrow> bool" where
  "plan_conflict r s \<longleftrightarrow> plan_ID r = plan_ID s \<or> plan_Name r = plan_Name s"

text \<open>
  The policy table has, besides its key, the partial unique index
  \<^verbatim>\<open>uidx_crypto_policies_user_wallet_active\<close> of \<^verbatim>\<open>internal/cpddl/migrate.go\<close>: one live
  persisted policy per user and wallet.
\<close>

definition policy_active :: "CryptoPolicyEntity \<Rightarrow> bool" where
  "policy_active r \<longleftrightarrow> pol_Status r = CryptoPolicyStatusPersisted \<and> pol_DeletedAt r = None"

definition policy_conflict :: "CryptoPolicyEntity \<Rightarrow> CryptoPolicyEntity \<Rightarrow> bool" where
  "policy_conflict r s \<longleftrightarrow> pol_ID r = pol_ID s
     \<or> policy_active r \<and> policy_active s \<and> pol_UserID r = pol_UserID s
         \<and> pol_WalletAddress r = pol_WalletAddress s"

lemmas conflict_defs = wallet_conflict_def tls_conflict_def usage_conflict_def user_conflict_def
  plan_conflict_def policy_conflict_def

section \<open>Messages and the observable state\<close>

text \<open>The message \<^verbatim>\<open>scan.ready\<close> of the shared contracts, with the fields the sources set.\<close>

record Ready =
  ready_UserID :: string
  ready_Kind :: string
  ready_Endpoint :: string
  ready_Address :: string
  ready_Status :: string

text \<open>A scan that was accepted and has no row yet (\<^verbatim>\<open>pending_v1_scan_repository.go\<close>).\<close>

record PendingV1ScanRecord =
  pend_ScanID :: uuid
  pend_UserID :: uuid
  pend_Family :: string
  pend_Address :: string
  pend_Endpoint :: string
  pend_CreatedAt :: gotime

text \<open>
  The event \<^verbatim>\<open>cafe.discovery.wallet.observed\<close> of the shared contracts (\<^verbatim>\<open>observation/wallet/v01\<close>), with
  the fields the sources set.
\<close>

record ObservedPayload =
  obs_ChainIDs :: "int list"
  obs_AccountKind :: string
  obs_CurrentAlgorithm :: string
  obs_PublicKeyExposed :: bool
  obs_IsMultichain :: bool
  obs_ObservedAt :: gotime
  obs_CurrentPQPosture :: string

record ObservedEvent =
  obs_EventID :: string
  obs_EventType :: string
  obs_EventVersion :: string
  obs_OccurredAt :: gotime
  obs_CorrelationID :: string
  obs_CausationID :: string
  obs_Producer :: string
  obs_SubjectType :: string
  obs_SubjectID :: string
  obs_Payload :: ObservedPayload

datatype nats_message = ScanReady Ready | WalletObserved ObservedEvent

record sys =
  v_scan_results :: "ScanResultEntity multiset"
  v_tls_scan_results :: "TLSScanResultEntity multiset"
  v_scan_usage_events :: "ScanUsageEventEntity multiset"
  v_users :: "User multiset"
  v_plans :: "Plan multiset"
  v_crypto_policies :: "CryptoPolicyEntity multiset"
  v_cache :: "string \<rightharpoonup> string \<times> gotime"
  v_outbox :: "nats_message list"
  v_keepLedgerMissing :: int

text \<open>Rolling back restores the tables and nothing else.\<close>

definition restore_tables :: "sys \<Rightarrow> sys \<Rightarrow> sys" where
  "restore_tables v0 v = v\<lparr>
     v_scan_results := v_scan_results v0,
     v_tls_scan_results := v_tls_scan_results v0,
     v_scan_usage_events := v_scan_usage_events v0,
     v_users := v_users v0,
     v_plans := v_plans v0,
     v_crypto_policies := v_crypto_policies v0\<rparr>"

section \<open>The operations of the environment\<close>

record 'w env =
  scan_results :: "('w, ScanResultEntity) sql_table"
  tls_scan_results :: "('w, TLSScanResultEntity) sql_table"
  scan_usage_events :: "('w, ScanUsageEventEntity) sql_table"
  users :: "('w, User) sql_table"
  plans :: "('w, Plan) sql_table"
  crypto_policies :: "('w, CryptoPolicyEntity) sql_table"
  tx_Begin :: "('w, db_error, unit) prog"
  tx_Commit :: "'w \<Rightarrow> ('w, db_error, unit) prog"
  tx_Rollback :: "'w \<Rightarrow> 'w \<Rightarrow> 'w"
  tx_Name :: string
  pg_advisory_xact_lock :: "32 word \<times> 32 word \<Rightarrow> ('w, db_error, unit) prog"
  time_Now :: "'w \<Rightarrow> gotime \<times> 'w"
  uuid_New :: "'w \<Rightarrow> uuid \<times> 'w"
  redis_Set :: "string \<Rightarrow> string \<Rightarrow> gotime \<Rightarrow> ('w, string, unit) prog"
  redis_Get :: "string \<Rightarrow> ('w, string, string option) prog"
  redis_SetNX :: "string \<Rightarrow> string \<Rightarrow> gotime \<Rightarrow> ('w, string, bool) prog"
  redis_CompareDelete :: "string \<Rightarrow> string \<Rightarrow> ('w, string, unit) prog"
  redis_Del :: "string \<Rightarrow> ('w, string, unit) prog"
  nats_Publish :: "nats_message \<Rightarrow> ('w, string, unit) prog"
  keepLedgerMissing_Add :: "'w \<Rightarrow> 'w"
  uuid_String :: "uuid \<Rightarrow> string"
  uuid_Parse :: "string \<Rightarrow> uuid option"
  json_Marshal_raw :: "string \<Rightarrow> string option"
  json_Unmarshal_TLSScanResult :: "string \<Rightarrow> TLSScanResult option"
  json_Marshal_TLSScanResult :: "TLSScanResult \<Rightarrow> string option"
  json_Marshal_ScanResult :: "ScanResult \<Rightarrow> string option"
  json_Marshal_Pending :: "PendingV1ScanRecord \<Rightarrow> string option"
  json_Unmarshal_Pending :: "string \<Rightarrow> PendingV1ScanRecord option"
  json_Marshal_any :: "(string, any) mapping \<Rightarrow> (string, any) mapping option"
  json_Unmarshal_any :: "(string, any) mapping \<Rightarrow> (string, any) mapping option"

definition nowP :: "'w env \<Rightarrow> ('w, 'e, gotime) prog" where
  "nowP E w = (case time_Now E w of (t, w') \<Rightarrow> (Inr t, w'))"

definition newUUIDP :: "'w env \<Rightarrow> ('w, 'e, uuid) prog" where
  "newUUIDP E w = (case uuid_New E w of (u, w') \<Rightarrow> (Inr u, w'))"

text \<open>
  \<^verbatim>\<open>db.Transaction(body)\<close>: begin, run the body, roll back when it returns an error, commit
  otherwise. \<open>on_begin\<close> and \<open>on_commit\<close> say how the caller reports a failure of the frame itself
  (a caller that kept the body's result in a captured variable still has it after a failed
  commit).
\<close>

definition gorm_Transaction ::
  "'w env \<Rightarrow> (go_error \<Rightarrow> 'e) \<Rightarrow> ('a \<Rightarrow> go_error \<Rightarrow> 'e) \<Rightarrow> ('w, 'e, 'a) prog \<Rightarrow> ('w, 'e, 'a) prog" where
  "gorm_Transaction E on_begin on_commit body w0 =
     (case tx_Begin E w0 of
        (Inl e, w1) \<Rightarrow> (Inl (on_begin (SqlError e)), w1)
      | (Inr _, w1) \<Rightarrow>
          (case body w1 of
             (Inl e, w2) \<Rightarrow> (Inl e, tx_Rollback E w1 w2)
           | (Inr x, w2) \<Rightarrow>
               (case tx_Commit E w1 w2 of
                  (Inl e, w3) \<Rightarrow> (Inl (on_commit x (SqlError e)), w3)
                | (Inr _, w3) \<Rightarrow> (Inr x, w3))))"

section \<open>The contract\<close>

locale world =
  wallet: sql_engine "scan_results E" view v_scan_results
    "\<lambda>M v. v\<lparr>v_scan_results := M\<rparr>" wallet_conflict +
  tls: sql_engine "tls_scan_results E" view v_tls_scan_results
    "\<lambda>M v. v\<lparr>v_tls_scan_results := M\<rparr>" tls_conflict +
  usage: sql_engine "scan_usage_events E" view v_scan_usage_events
    "\<lambda>M v. v\<lparr>v_scan_usage_events := M\<rparr>" usage_conflict +
  user: sql_engine "users E" view v_users "\<lambda>M v. v\<lparr>v_users := M\<rparr>" user_conflict +
  plan: sql_engine "plans E" view v_plans "\<lambda>M v. v\<lparr>v_plans := M\<rparr>" plan_conflict +
  policy: sql_engine "crypto_policies E" view v_crypto_policies
    "\<lambda>M v. v\<lparr>v_crypto_policies := M\<rparr>" policy_conflict
  for E :: "'w env" and view :: "'w \<Rightarrow> sys" +
  assumes begin_view: "tx_Begin E w = (r, w') \<Longrightarrow> view w' = view w"
    and commit_ok: "tx_Commit E w0 w = (Inr u, w') \<Longrightarrow> view w' = view w"
    and commit_err:
      "tx_Commit E w0 w = (Inl e, w') \<Longrightarrow> view w' = restore_tables (view w0) (view w)"
    and rollback_view: "view (tx_Rollback E w0 w) = restore_tables (view w0) (view w)"
    and lock_view: "pg_advisory_xact_lock E lock_key w = (r, w') \<Longrightarrow> view w' = view w"
    and clock_view: "time_Now E w = (t, w') \<Longrightarrow> view w' = view w"
    and uuid_New_view: "uuid_New E w = (x, w') \<Longrightarrow> view w' = view w \<and> x \<noteq> uuid_Nil"
    and redis_Set_ok:
      "redis_Set E k s ttl w = (Inr u, w')
       \<Longrightarrow> view w' = (view w)\<lparr>v_cache := (v_cache (view w))(k \<mapsto> (s, ttl))\<rparr>"
    and redis_Set_err: "redis_Set E k s ttl w = (Inl err, w') \<Longrightarrow> view w' = view w"
    and redis_Get_ok:
      "redis_Get E k w = (Inr found, w') \<Longrightarrow> found = map_option fst (v_cache (view w) k) \<and> view w' = view w"
    and redis_Get_err: "redis_Get E k w = (Inl err, w') \<Longrightarrow> view w' = view w"
    and redis_SetNX_ok:
      "redis_SetNX E k s ttl w = (Inr b, w')
       \<Longrightarrow> b = (v_cache (view w) k = None)
         \<and> view w' = (if b then (view w)\<lparr>v_cache := (v_cache (view w))(k \<mapsto> (s, ttl))\<rparr> else view w)"
    and redis_SetNX_err: "redis_SetNX E k s ttl w = (Inl err, w') \<Longrightarrow> view w' = view w"
    and redis_CompareDelete_ok:
      "redis_CompareDelete E k s w = (Inr u, w')
       \<Longrightarrow> view w' = (if map_option fst (v_cache (view w) k) = Some s
             then (view w)\<lparr>v_cache := (v_cache (view w))(k := None)\<rparr> else view w)"
    and redis_CompareDelete_err: "redis_CompareDelete E k s w = (Inl err, w') \<Longrightarrow> view w' = view w"
    and redis_Del_ok:
      "redis_Del E k w = (Inr u, w')
       \<Longrightarrow> view w' = (view w)\<lparr>v_cache := (v_cache (view w))(k := None)\<rparr>"
    and redis_Del_err: "redis_Del E k w = (Inl err, w') \<Longrightarrow> view w' = view w"
    and publish_ok:
      "nats_Publish E m w = (Inr u, w')
       \<Longrightarrow> view w' = (view w)\<lparr>v_outbox := v_outbox (view w) @ [m]\<rparr>"
    and publish_err: "nats_Publish E m w = (Inl err, w') \<Longrightarrow> view w' = view w"
    and keepLedgerMissing_view:
      "view (keepLedgerMissing_Add E w)
       = (view w)\<lparr>v_keepLedgerMissing := v_keepLedgerMissing (view w) + 1\<rparr>"
    and uuid_Parse_String: "uuid_Parse E (uuid_String E x) = Some x"
    and uuid_String_colon: "CHR '':'' \<notin> set (uuid_String E x)"
    and uuid_String_trimmed: "TrimSpace (uuid_String E x) = uuid_String E x"
    and pending_codec:
      "json_Marshal_Pending E rec = Some s \<Longrightarrow> list_all is_ascii (pend_Family rec)
       \<Longrightarrow> list_all is_ascii (pend_Address rec) \<Longrightarrow> list_all is_ascii (pend_Endpoint rec)
       \<Longrightarrow> s \<noteq> '''' \<and> json_Unmarshal_Pending E s = Some rec"
    and pending_codec_ids:
      "json_Marshal_Pending E rec = Some s \<Longrightarrow> json_Unmarshal_Pending E s = Some rec'
       \<Longrightarrow> pend_ScanID rec' = pend_ScanID rec \<and> pend_UserID rec' = pend_UserID rec"
    and any_codec:
      "json_Marshal_any E payload = Some doc
       \<Longrightarrow> \<exists>payload'. json_Unmarshal_any E doc = Some payload'
         \<and> Mapping.keys payload' = Mapping.keys payload
         \<and> (\<forall>k s. Mapping.lookup payload k = Some (AnyString s) \<longrightarrow> list_all is_ascii s
              \<longrightarrow> Mapping.lookup payload' k = Some (AnyString s))"
begin

lemma wp_now [wp_intro]: "(\<And>t. Q (Inr t) v) \<Longrightarrow> wp view (nowP E) Q v"
  by (auto simp: wp_def nowP_def split: prod.splits dest: clock_view)

lemma wp_newUUID [wp_intro]: "(\<And>u. u \<noteq> uuid_Nil \<Longrightarrow> Q (Inr u) v) \<Longrightarrow> wp view (newUUIDP E) Q v"
  by (auto simp: wp_def newUUIDP_def split: prod.splits dest: uuid_New_view)

lemma wp_redis_Set [wp_intro]:
  assumes "Q (Inr ()) (v\<lparr>v_cache := (v_cache v)(k \<mapsto> (s, ttl))\<rparr>)" and "\<And>e. Q (Inl e) v"
  shows "wp view (redis_Set E k s ttl) Q v"
proof (rule wpI)
  fix w r w'
  assume "view w = v" "redis_Set E k s ttl w = (r, w')"
  then show "Q r (view w')"
    using assms by (cases r) (auto dest: redis_Set_ok redis_Set_err)
qed

lemma wp_redis_Get:
  assumes "Q (Inr (map_option fst (v_cache v k))) v" and "\<And>e. Q (Inl e) v"
  shows "wp view (redis_Get E k) Q v"
proof (rule wpI)
  fix w r w'
  assume "view w = v" "redis_Get E k w = (r, w')"
  then show "Q r (view w')"
    using assms by (cases r) (auto dest: redis_Get_ok redis_Get_err)
qed

lemma wp_redis_SetNX:
  assumes "v_cache v k = None \<Longrightarrow> Q (Inr True) (v\<lparr>v_cache := (v_cache v)(k \<mapsto> (s, ttl))\<rparr>)"
    and "v_cache v k \<noteq> None \<Longrightarrow> Q (Inr False) v" and "\<And>e. Q (Inl e) v"
  shows "wp view (redis_SetNX E k s ttl) Q v"
proof (rule wpI)
  fix w r w'
  assume v: "view w = v" and run: "redis_SetNX E k s ttl w = (r, w')"
  show "Q r (view w')"
  proof (cases r)
    case (Inl e)
    with v run assms(3) show ?thesis by (auto dest: redis_SetNX_err)
  next
    case (Inr b)
    with run have "redis_SetNX E k s ttl w = (Inr b, w')" by simp
    from redis_SetNX_ok [OF this] v Inr assms(1,2) show ?thesis
      by (cases "v_cache v k") simp_all
  qed
qed

lemma wp_redis_CompareDelete:
  assumes "map_option fst (v_cache v k) = Some s \<Longrightarrow> Q (Inr ()) (v\<lparr>v_cache := (v_cache v)(k := None)\<rparr>)"
    and "map_option fst (v_cache v k) \<noteq> Some s \<Longrightarrow> Q (Inr ()) v" and "\<And>e. Q (Inl e) v"
  shows "wp view (redis_CompareDelete E k s) Q v"
proof (rule wpI)
  fix w r w'
  assume v: "view w = v" and run: "redis_CompareDelete E k s w = (r, w')"
  show "Q r (view w')"
  proof (cases r)
    case (Inl e)
    with v run assms(3) show ?thesis by (auto dest: redis_CompareDelete_err)
  next
    case (Inr u)
    with run have "redis_CompareDelete E k s w = (Inr u, w')" by simp
    from redis_CompareDelete_ok [OF this] v Inr assms(1,2) show ?thesis by (auto split: if_splits)
  qed
qed

lemma wp_redis_Del [wp_intro]:
  assumes "Q (Inr ()) (v\<lparr>v_cache := (v_cache v)(k := None)\<rparr>)" and "\<And>e. Q (Inl e) v"
  shows "wp view (redis_Del E k) Q v"
proof (rule wpI)
  fix w r w'
  assume "view w = v" "redis_Del E k w = (r, w')"
  then show "Q r (view w')"
    using assms by (cases r) (auto dest: redis_Del_ok redis_Del_err)
qed

lemma wp_publish [wp_intro]:
  assumes "Q (Inr ()) (v\<lparr>v_outbox := v_outbox v @ [m]\<rparr>)" and "\<And>e. Q (Inl e) v"
  shows "wp view (nats_Publish E m) Q v"
proof (rule wpI)
  fix w r w'
  assume "view w = v" "nats_Publish E m w = (r, w')"
  then show "Q r (view w')"
    using assms by (cases r) (auto dest: publish_ok publish_err)
qed

text \<open>
  A transaction: the body runs from the state at the beginning; on every way out with an error
  the tables are those of the beginning.
\<close>

lemma wp_Transaction [wp_intro]:
  assumes begin_fails: "\<And>e. Q (Inl (on_begin (SqlError e))) v"
    and body: "wp view body (\<lambda>r v'. case r of
          Inl e \<Rightarrow> Q (Inl e) (restore_tables v v')
        | Inr x \<Rightarrow> Q (Inr x) v' \<and> (\<forall>e. Q (Inl (on_commit x (SqlError e))) (restore_tables v v'))) v"
  shows "wp view (gorm_Transaction E on_begin on_commit body) Q v"
proof (rule wpI)
  fix w0 r w'
  assume v: "view w0 = v" and run: "gorm_Transaction E on_begin on_commit body w0 = (r, w')"
  obtain b w1 where b: "tx_Begin E w0 = (b, w1)" by fastforce
  have v1: "view w1 = v" using begin_view [OF b] v by simp
  show "Q r (view w')"
  proof (cases b)
    case (Inl e)
    with run b v1 begin_fails show ?thesis by (auto simp: gorm_Transaction_def)
  next
    case (Inr u)
    obtain s w2 where s: "body w1 = (s, w2)" by fastforce
    have post: "case s of Inl e \<Rightarrow> Q (Inl e) (restore_tables v (view w2))
        | Inr x \<Rightarrow> Q (Inr x) (view w2)
            \<and> (\<forall>e. Q (Inl (on_commit x (SqlError e))) (restore_tables v (view w2)))"
      using wpD [OF body [folded v1] s] by (simp only: v1)
    show ?thesis
    proof (cases s)
      case (Inl e)
      with run b Inr s have "r = Inl e" and "w' = tx_Rollback E w1 w2"
        by (auto simp: gorm_Transaction_def)
      with post Inl v1 show ?thesis by (simp add: rollback_view)
    next
      case s_ok: (Inr x)
      obtain c w3 where c: "tx_Commit E w1 w2 = (c, w3)" by fastforce
      show ?thesis
      proof (cases c)
        case Inl_c: (Inl e)
        with run b Inr s s_ok c have "r = Inl (on_commit x (SqlError e))" and "w' = w3"
          by (auto simp: gorm_Transaction_def)
        with post s_ok v1 commit_err [OF c [unfolded Inl_c]] show ?thesis by simp
      next
        case Inr_c: (Inr u')
        with run b Inr s s_ok c have "r = Inr x" and "w' = w3"
          by (auto simp: gorm_Transaction_def)
        with post s_ok commit_ok [OF c [unfolded Inr_c]] show ?thesis by simp
      qed
    qed
  qed
qed

end

lemma restore_tables_same [simp]: "restore_tables v v = v"
  by (simp add: restore_tables_def)

lemma restore_tables_simps [simp]:
  "v_scan_results (restore_tables v0 v) = v_scan_results v0"
  "v_tls_scan_results (restore_tables v0 v) = v_tls_scan_results v0"
  "v_scan_usage_events (restore_tables v0 v) = v_scan_usage_events v0"
  "v_users (restore_tables v0 v) = v_users v0"
  "v_plans (restore_tables v0 v) = v_plans v0"
  "v_crypto_policies (restore_tables v0 v) = v_crypto_policies v0"
  "v_cache (restore_tables v0 v) = v_cache v"
  "v_outbox (restore_tables v0 v) = v_outbox v"
  "v_keepLedgerMissing (restore_tables v0 v) = v_keepLedgerMissing v"
  by (simp_all add: restore_tables_def)

end
