(* ===== verification/Mem_World.thy ===== *)
theory Mem_World
  imports Environment
begin

text \<open>
  An executable environment that meets the contract \<open>world\<close>: tables are lists with their
  constraints checked on every write, the cache is an association list, the message bus is a
  list, and a schedule of booleans makes chosen calls fail. It shows that the contract can be
  met, faults included, and the witnesses of the properties run on it.
\<close>

section \<open>The state\<close>

record mem =
  m_scan_results :: "ScanResultEntity list"
  m_tls_scan_results :: "TLSScanResultEntity list"
  m_scan_usage_events :: "ScanUsageEventEntity list"
  m_users :: "User list"
  m_plans :: "Plan list"
  m_crypto_policies :: "CryptoPolicyEntity list"
  m_cache :: "(string \<times> string \<times> gotime) list"
  m_outbox :: "nats_message list"
  m_keepLedgerMissing :: int
  m_faults :: "bool list"
  m_clock :: gotime
  m_uuids :: "uuid list"

fun uniq :: "('a \<Rightarrow> 'a \<Rightarrow> bool) \<Rightarrow> 'a list \<Rightarrow> bool" where
  "uniq c [] = True"
| "uniq c (x # xs) = (list_all (\<lambda>y. \<not> c x y \<and> \<not> c y x) xs \<and> uniq c xs)"

definition mem_wf :: "mem \<Rightarrow> bool" where
  "mem_wf m \<longleftrightarrow> uniq wallet_conflict (m_scan_results m) \<and> uniq tls_conflict (m_tls_scan_results m)
     \<and> uniq usage_conflict (m_scan_usage_events m) \<and> uniq user_conflict (m_users m)
     \<and> uniq plan_conflict (m_plans m) \<and> uniq policy_conflict (m_crypto_policies m)"

definition mem_empty :: mem where
  "mem_empty = \<lparr>m_scan_results = [], m_tls_scan_results = [], m_scan_usage_events = [],
     m_users = [], m_plans = [], m_crypto_policies = [], m_cache = [], m_outbox = [], m_keepLedgerMissing = 0,
     m_faults = [], m_clock = 1, m_uuids = []\<rparr>"

text \<open>A list of rows that breaks a constraint is no database; it is read as the empty one.\<close>

definition mem_norm :: "mem \<Rightarrow> mem" where
  "mem_norm m = (if mem_wf m then m else mem_empty)"

definition mem_sys :: "mem \<Rightarrow> sys" where
  "mem_sys m = \<lparr>v_scan_results = mset (m_scan_results m),
     v_tls_scan_results = mset (m_tls_scan_results m),
     v_scan_usage_events = mset (m_scan_usage_events m),
     v_users = mset (m_users m), v_plans = mset (m_plans m),
     v_crypto_policies = mset (m_crypto_policies m),
     v_cache = map_of (m_cache m), v_outbox = m_outbox m,
     v_keepLedgerMissing = m_keepLedgerMissing m\<rparr>"

definition mem_view :: "mem \<Rightarrow> sys" where
  "mem_view m = mem_sys (mem_norm m)"

section \<open>Statements\<close>

text \<open>Every call first consumes one entry of the fault schedule.\<close>

definition mem_call :: "'e \<Rightarrow> ('e + 'a) \<times> mem \<Rightarrow> mem \<Rightarrow> ('e + 'a) \<times> mem" where
  "mem_call e res m =
     (case m_faults m of
        True # _ \<Rightarrow> (Inl e, m\<lparr>m_faults := tl (m_faults m)\<rparr>)
      | _ \<Rightarrow> (case res of (r, m') \<Rightarrow> (r, m'\<lparr>m_faults := tl (m_faults m)\<rparr>)))"

definition mem_table ::
  "(mem \<Rightarrow> 'row list) \<Rightarrow> ('row list \<Rightarrow> mem \<Rightarrow> mem) \<Rightarrow> ('row \<Rightarrow> 'row \<Rightarrow> bool) \<Rightarrow> (mem, 'row) sql_table" where
  "mem_table rows set_rows c =
   (let write = (\<lambda>ok xs m. if uniq c xs then (Inr ok, set_rows xs m) else (Inl UniqueViolation, m));
        stmt = (\<lambda>body m0. let m = mem_norm m0 in mem_call (Fault ''connection reset'') (body m) m)
    in \<lparr>sql_select = (\<lambda>p m0. let m = mem_norm m0 in
           mem_call (Fault ''connection reset'') (Inr (filter p (rows m)), m) m),
        sql_count = (\<lambda>p m0. let m = mem_norm m0 in
           mem_call (Fault ''connection reset'') (Inr (length (filter p (rows m))), m) m),
        sql_insert = (\<lambda>r m0. let m = mem_norm m0 in
           mem_call (Fault ''connection reset'')
             (if uniq c (rows m @ [r]) then (Inr (), set_rows (rows m @ [r]) m)
              else (Inl UniqueViolation, m)) m),
        sql_insert_nothing = (\<lambda>t r. stmt (\<lambda>m.
           if filter (t r) (rows m) \<noteq> [] then (Inr 0, m) else write 1 (rows m @ [r]) m)),
        sql_insert_below = (\<lambda>t q n r. stmt (\<lambda>m.
           if filter (t r) (rows m) \<noteq> [] \<or> n \<le> int (length (filter q (rows m)))
           then (Inr 0, m) else write 1 (rows m @ [r]) m)),
        sql_update = (\<lambda>p f. stmt (\<lambda>m.
           write (length (filter p (rows m))) (map (\<lambda>r. if p r then f r else r) (rows m)) m)),
        sql_delete = (\<lambda>p. stmt (\<lambda>m.
           write (length (filter p (rows m))) (filter (\<lambda>r. \<not> p r) (rows m)) m))\<rparr>)"

text \<open>
  The codecs of the example environment: a UUID is printed in unary, which keeps examples with
  small ids short; a TLS result document is its URL.
\<close>

definition mem_uuid_String :: "uuid \<Rightarrow> string" where
  "mem_uuid_String u = replicate (unat u) CHR ''x''"

definition mem_uuid_Parse :: "string \<Rightarrow> uuid option" where
  "mem_uuid_Parse s = (if list_all (\<lambda>c. c = CHR ''x'') s then Some (of_nat (length s)) else None)"

text \<open>Pending wallet scans are written as both ids and the address, separated by colons.\<close>

definition mem_Marshal_Pending :: "PendingV1ScanRecord \<Rightarrow> string option" where
  "mem_Marshal_Pending rec =
     (if pend_Family rec = ''wallet'' \<and> pend_Endpoint rec = '''' \<and> pend_CreatedAt rec = 0
      then Some (mem_uuid_String (pend_ScanID rec) @ '':'' @ mem_uuid_String (pend_UserID rec)
        @ '':'' @ pend_Address rec)
      else None)"

definition mem_Unmarshal_Pending :: "string \<Rightarrow> PendingV1ScanRecord option" where
  "mem_Unmarshal_Pending s =
     (let field = takeWhile (\<lambda>c. c \<noteq> CHR '':''); rest = (\<lambda>s. tl (dropWhile (\<lambda>c. c \<noteq> CHR '':'') s))
      in case (mem_uuid_Parse (field s), mem_uuid_Parse (field (rest s))) of
           (Some scan, Some user) \<Rightarrow>
             Some \<lparr>pend_ScanID = scan, pend_UserID = user, pend_Family = ''wallet'',
               pend_Address = rest (rest s), pend_Endpoint = '''', pend_CreatedAt = 0\<rparr>
         | _ \<Rightarrow> None)"

definition mem_env :: "mem env" where
  "mem_env = \<lparr>
     scan_results = mem_table m_scan_results (\<lambda>xs m. m\<lparr>m_scan_results := xs\<rparr>) wallet_conflict,
     tls_scan_results =
       mem_table m_tls_scan_results (\<lambda>xs m. m\<lparr>m_tls_scan_results := xs\<rparr>) tls_conflict,
     scan_usage_events =
       mem_table m_scan_usage_events (\<lambda>xs m. m\<lparr>m_scan_usage_events := xs\<rparr>) usage_conflict,
     users = mem_table m_users (\<lambda>xs m. m\<lparr>m_users := xs\<rparr>) user_conflict,
     plans = mem_table m_plans (\<lambda>xs m. m\<lparr>m_plans := xs\<rparr>) plan_conflict,
     crypto_policies = mem_table m_crypto_policies (\<lambda>xs m. m\<lparr>m_crypto_policies := xs\<rparr>)
       policy_conflict,
     tx_Begin = (\<lambda>m0. let m = mem_norm m0 in mem_call (Fault ''begin'') (Inr (), m) m),
     tx_Commit = (\<lambda>b m0. let m = mem_norm m0; b = mem_norm b;
        old = m\<lparr>m_scan_results := m_scan_results b, m_tls_scan_results := m_tls_scan_results b,
          m_scan_usage_events := m_scan_usage_events b, m_users := m_users b, m_plans := m_plans b,
          m_crypto_policies := m_crypto_policies b\<rparr>
        in (case m_faults m of True # fs \<Rightarrow> (Inl (Fault ''commit''), old\<lparr>m_faults := fs\<rparr>)
            | fs \<Rightarrow> (Inr (), m\<lparr>m_faults := tl fs\<rparr>))),
     tx_Rollback = (\<lambda>b m0. let m = mem_norm m0; b = mem_norm b
        in m\<lparr>m_scan_results := m_scan_results b, m_tls_scan_results := m_tls_scan_results b,
          m_scan_usage_events := m_scan_usage_events b, m_users := m_users b, m_plans := m_plans b,
          m_crypto_policies := m_crypto_policies b\<rparr>),
     tx_Name = ''postgres'',
     pg_advisory_xact_lock = (\<lambda>k m0. let m = mem_norm m0 in
        mem_call (Fault ''lock'') (Inr (), m) m),
     time_Now = (\<lambda>m0. let m = mem_norm m0 in (m_clock m, m\<lparr>m_clock := m_clock m + 1\<rparr>)),
     uuid_New = (\<lambda>m0. let m = mem_norm m0 in
        (case m_uuids m of [] \<Rightarrow> (1, m) | u # us \<Rightarrow> (if u = uuid_Nil then 1 else u, m\<lparr>m_uuids := us\<rparr>))),
     redis_Set = (\<lambda>k s ttl m0. let m = mem_norm m0 in
        mem_call ''redis'' (Inr (), m\<lparr>m_cache := (k, s, ttl) # m_cache m\<rparr>) m),
     redis_Get = (\<lambda>k m0. let m = mem_norm m0 in
        mem_call ''redis'' (Inr (map_option fst (map_of (m_cache m) k)), m) m),
     redis_SetNX = (\<lambda>k s ttl m0. let m = mem_norm m0 in
        mem_call ''redis'' (if map_of (m_cache m) k = None
          then (Inr True, m\<lparr>m_cache := (k, s, ttl) # m_cache m\<rparr>) else (Inr False, m)) m),
     redis_CompareDelete = (\<lambda>k s m0. let m = mem_norm m0 in
        mem_call ''redis'' (Inr (), if map_option fst (map_of (m_cache m) k) = Some s
          then m\<lparr>m_cache := filter (\<lambda>e. fst e \<noteq> k) (m_cache m)\<rparr> else m) m),
     redis_Del = (\<lambda>k m0. let m = mem_norm m0 in
        mem_call ''redis'' (Inr (), m\<lparr>m_cache := filter (\<lambda>e. fst e \<noteq> k) (m_cache m)\<rparr>) m),
     nats_Publish = (\<lambda>msg m0. let m = mem_norm m0 in
        mem_call ''nats'' (Inr (), m\<lparr>m_outbox := m_outbox m @ [msg]\<rparr>) m),
     keepLedgerMissing_Add = (\<lambda>m0. let m = mem_norm m0 in
        m\<lparr>m_keepLedgerMissing := m_keepLedgerMissing m + 1\<rparr>),
     uuid_String = mem_uuid_String,
     uuid_Parse = mem_uuid_Parse,
     json_Marshal_raw = Some,
     json_Unmarshal_TLSScanResult = (\<lambda>s. Some (zero_TLSScanResult\<lparr>tr_URL := s\<rparr>)),
     json_Marshal_TLSScanResult = (\<lambda>r. Some (tr_URL r)),
     json_Marshal_ScanResult = (\<lambda>r. Some (res_Address r)),
     json_Marshal_Pending = mem_Marshal_Pending,
     json_Unmarshal_Pending = mem_Unmarshal_Pending,
     json_Marshal_any = Some,
     json_Unmarshal_any = Some\<rparr>"

section \<open>It meets the contract\<close>

lemma uniq_append_one:
  "uniq c (xs @ [r]) \<longleftrightarrow> uniq c xs \<and> list_all (\<lambda>y. \<not> c y r \<and> \<not> c r y) xs"
  by (induction xs) auto

lemma uniq_filter: "uniq c xs \<Longrightarrow> uniq c (filter p xs)"
  by (induction xs) (auto simp: list_all_iff)

lemma uniq_unique_row:
  assumes "uniq c xs" and "r \<in> set xs" and refl: "\<And>x. c x x"
  shows "filter (c r) xs = [r]"
  using assms(1,2)
proof (induction xs)
  case (Cons x xs)
  show ?case
  proof (cases "r = x")
    case True
    with Cons.prems(1) have "filter (c r) xs = []"
      by (auto simp: list_all_iff filter_empty_conv)
    with True refl show ?thesis by simp
  next
    case False
    with Cons show ?thesis by (auto simp: list_all_iff)
  qed
qed simp

lemma mem_wf_norm [simp]: "mem_wf (mem_norm m)"
  by (simp add: mem_norm_def) (simp add: mem_wf_def mem_empty_def)

lemma mem_norm_wf [simp]: "mem_wf m \<Longrightarrow> mem_norm m = m"
  by (simp add: mem_norm_def)

lemma mem_wf_frame [simp]:
  "mem_wf (m\<lparr>m_faults := fs\<rparr>) = mem_wf m" "mem_wf (m\<lparr>m_clock := t\<rparr>) = mem_wf m"
  "mem_wf (m\<lparr>m_uuids := us\<rparr>) = mem_wf m" "mem_wf (m\<lparr>m_cache := cs\<rparr>) = mem_wf m"
  "mem_wf (m\<lparr>m_outbox := ms\<rparr>) = mem_wf m" "mem_wf (m\<lparr>m_keepLedgerMissing := k\<rparr>) = mem_wf m"
  by (simp_all add: mem_wf_def)

lemma mem_sys_frame [simp]:
  "mem_sys (m\<lparr>m_faults := fs\<rparr>) = mem_sys m" "mem_sys (m\<lparr>m_clock := t\<rparr>) = mem_sys m"
  "mem_sys (m\<lparr>m_uuids := us\<rparr>) = mem_sys m"
  by (simp_all add: mem_sys_def)

lemma mem_call_cases:
  assumes "mem_call e res m = (r, m')"
  shows "(r = Inl e \<and> m' = m\<lparr>m_faults := tl (m_faults m)\<rparr>)
       \<or> (r = fst res \<and> m' = (snd res)\<lparr>m_faults := tl (m_faults m)\<rparr>)"
  using assms
  by (auto simp: mem_call_def split: prod.splits list.splits bool.splits)

lemma mem_table_select:
  "sql_select (mem_table rows set_rows c) p m =
     mem_call (Fault ''connection reset'')
       (Inr (filter p (rows (mem_norm m))), mem_norm m) (mem_norm m)"
  by (simp add: mem_table_def Let_def)

lemma mem_table_count:
  "sql_count (mem_table rows set_rows c) p m =
     mem_call (Fault ''connection reset'')
       (Inr (length (filter p (rows (mem_norm m)))), mem_norm m) (mem_norm m)"
  by (simp add: mem_table_def Let_def)

lemma mem_table_insert:
  "sql_insert (mem_table rows set_rows c) r m =
     mem_call (Fault ''connection reset'')
       (if uniq c (rows (mem_norm m) @ [r])
        then (Inr (), set_rows (rows (mem_norm m) @ [r]) (mem_norm m))
        else (Inl UniqueViolation, mem_norm m)) (mem_norm m)"
  by (simp add: mem_table_def Let_def)

lemma mem_table_insert_nothing:
  "sql_insert_nothing (mem_table rows set_rows c) t r m =
     mem_call (Fault ''connection reset'')
       (if filter (t r) (rows (mem_norm m)) \<noteq> [] then (Inr 0, mem_norm m)
        else if uniq c (rows (mem_norm m) @ [r])
        then (Inr 1, set_rows (rows (mem_norm m) @ [r]) (mem_norm m))
        else (Inl UniqueViolation, mem_norm m)) (mem_norm m)"
  by (simp add: mem_table_def Let_def)

lemma mem_table_insert_below:
  "sql_insert_below (mem_table rows set_rows c) t q n r m =
     mem_call (Fault ''connection reset'')
       (if filter (t r) (rows (mem_norm m)) \<noteq> []
           \<or> n \<le> int (length (filter q (rows (mem_norm m)))) then (Inr 0, mem_norm m)
        else if uniq c (rows (mem_norm m) @ [r])
        then (Inr 1, set_rows (rows (mem_norm m) @ [r]) (mem_norm m))
        else (Inl UniqueViolation, mem_norm m)) (mem_norm m)"
  by (simp add: mem_table_def Let_def)

lemma mem_table_update:
  "sql_update (mem_table rows set_rows c) p f m =
     mem_call (Fault ''connection reset'')
       (if uniq c (map (\<lambda>r. if p r then f r else r) (rows (mem_norm m)))
        then (Inr (length (filter p (rows (mem_norm m)))),
              set_rows (map (\<lambda>r. if p r then f r else r) (rows (mem_norm m))) (mem_norm m))
        else (Inl UniqueViolation, mem_norm m)) (mem_norm m)"
  by (simp add: mem_table_def Let_def)

lemma mem_table_delete:
  "sql_delete (mem_table rows set_rows c) p m =
     mem_call (Fault ''connection reset'')
       (if uniq c (filter (\<lambda>r. \<not> p r) (rows (mem_norm m)))
        then (Inr (length (filter p (rows (mem_norm m)))),
              set_rows (filter (\<lambda>r. \<not> p r) (rows (mem_norm m))) (mem_norm m))
        else (Inl UniqueViolation, mem_norm m)) (mem_norm m)"
  by (simp add: mem_table_def Let_def)

lemmas mem_table_eqs = mem_table_select mem_table_count mem_table_insert mem_table_insert_nothing
  mem_table_insert_below mem_table_update mem_table_delete

text \<open>What a table's list inside the state has to satisfy for its statements to be correct.\<close>

locale mem_lens =
  fixes rows :: "mem \<Rightarrow> 'row list"
    and set_rows :: "'row list \<Rightarrow> mem \<Rightarrow> mem"
    and c :: "'row \<Rightarrow> 'row \<Rightarrow> bool"
    and get :: "sys \<Rightarrow> 'row multiset"
    and put :: "'row multiset \<Rightarrow> sys \<Rightarrow> sys"
  assumes get_sys: "get (mem_sys m) = mset (rows m)"
    and put_sys: "mem_sys (set_rows xs m) = put (mset xs) (mem_sys m)"
    and wf_rows: "mem_wf m \<Longrightarrow> uniq c (rows m)"
    and wf_set_rows: "mem_wf m \<Longrightarrow> uniq c xs \<Longrightarrow> mem_wf (set_rows xs m)"
    and refl_c: "c r r"
    and sym_c: "c r s \<Longrightarrow> c s r"
begin

lemma mem_view_call:
  assumes "mem_call e (Inr x, m1) (mem_norm m) = (r, m')" and "mem_wf m1"
  shows "(\<exists>e'. r = Inl e' \<and> mem_view m' = mem_view m) \<or> (r = Inr x \<and> mem_view m' = mem_sys m1)"
  using mem_call_cases [OF assms(1)] assms(2) by (auto simp: mem_view_def)

lemma mem_view_write:
  assumes "mem_call e (if uniq c xs then (Inr x, set_rows xs (mem_norm m))
             else (Inl e', mem_norm m)) (mem_norm m) = (r, m')"
  shows "(r = Inl e \<and> mem_view m' = mem_view m)
       \<or> (\<not> uniq c xs \<and> r = Inl e' \<and> mem_view m' = mem_view m)
       \<or> (uniq c xs \<and> r = Inr x \<and> mem_view m' = put (mset xs) (mem_view m))"
  using mem_call_cases [OF assms]
  by (auto simp: mem_view_def wf_set_rows put_sys split: if_splits)

lemma get_view: "get (mem_view m) = mset (rows (mem_norm m))"
  by (simp add: mem_view_def get_sys)

lemma uniq_append_conflict:
  "uniq c (rows (mem_norm m) @ [r]) \<longleftrightarrow> filter_mset (c r) (get (mem_view m)) = {#}"
  using wf_rows [of "mem_norm m"] sym_c
  by (auto simp: uniq_append_one get_view list_all_iff filter_mset_eq_conv)

text \<open>A guarded insert: nothing to do, or a write.\<close>

lemma mem_view_guarded:
  assumes "mem_call e (if b then (Inr x0, mem_norm m)
             else if uniq c xs then (Inr x, set_rows xs (mem_norm m))
             else (Inl e', mem_norm m)) (mem_norm m) = (r, m')"
  shows "(\<exists>e'. r = Inl e' \<and> mem_view m' = mem_view m)
       \<or> (b \<and> r = Inr x0 \<and> mem_view m' = mem_view m)
       \<or> (\<not> b \<and> uniq c xs \<and> r = Inr x \<and> mem_view m' = put (mset xs) (mem_view m))"
proof (cases b)
  case True
  with assms mem_view_call [of e x0 "mem_norm m" m r m'] show ?thesis
    by (auto simp: mem_view_def)
next
  case False
  with assms mem_view_write [of e xs x m e' r m'] show ?thesis by auto
qed

lemma engine: "sql_engine (mem_table rows set_rows c) mem_view get put c"
proof (unfold_locales, goal_cases)
  case (1 p w rs w')
  from mem_view_call [OF this [unfolded mem_table_eqs]] show ?case
    by (simp add: get_view mem_view_def [of w] get_sys mset_filter)
next
  case (2 p w e w')
  from mem_view_call [OF this [unfolded mem_table_eqs]] show ?case by simp
next
  case (3 p w n w')
  from mem_view_call [OF this [unfolded mem_table_eqs]] show ?case
    by (simp add: get_view mem_view_def [of w] get_sys flip: mset_filter)
next
  case (4 p w e w')
  from mem_view_call [OF this [unfolded mem_table_eqs]] show ?case by simp
next
  case (5 r w u w')
  from mem_view_write [OF this [unfolded mem_table_eqs]] show ?case
    by (simp add: uniq_append_conflict get_view)
next
  case (6 r w e w')
  from mem_view_write [OF this [unfolded mem_table_eqs]] show ?case
    by (auto simp: uniq_append_conflict)
next
  case (7 t r w n w')
  from mem_view_guarded [OF this [unfolded mem_table_eqs]] show ?case
    by (auto simp: uniq_append_conflict get_view filter_empty_conv)
next
  case (8 t r w e w')
  from mem_view_guarded [OF this [unfolded mem_table_eqs]] show ?case by simp
next
  case (9 t q limit r w n w')
  from mem_view_guarded [OF this [unfolded mem_table_eqs]] show ?case
    by (auto simp: uniq_append_conflict get_view filter_empty_conv simp flip: mset_filter)
next
  case (10 t q limit r w e w')
  from mem_view_guarded [OF this [unfolded mem_table_eqs]] show ?case by simp
next
  case (11 p f w n w')
  from mem_view_write [OF this [unfolded mem_table_eqs]] show ?case
    by (simp add: get_view flip: mset_filter)
next
  case (12 p f w e w')
  from mem_view_write [OF this [unfolded mem_table_eqs]] show ?case by auto
next
  case (13 p w n w')
  from mem_view_write [OF this [unfolded mem_table_eqs]] show ?case
    by (simp add: get_view flip: mset_filter)
next
  case (14 p w e w')
  from mem_view_write [OF this [unfolded mem_table_eqs]] show ?case by auto
next
  case (15 r w)
  then have "filter (c r) (rows (mem_norm w)) = [r]"
    using wf_rows [of "mem_norm w"] refl_c by (intro uniq_unique_row) (auto simp: get_view)
  then show ?case by (simp add: get_view flip: mset_filter)
qed

end

interpretation mem_wallet: mem_lens m_scan_results "\<lambda>xs m. m\<lparr>m_scan_results := xs\<rparr>"
  wallet_conflict v_scan_results "\<lambda>M v. v\<lparr>v_scan_results := M\<rparr>"
  by unfold_locales (auto simp: mem_sys_def mem_wf_def wallet_conflict_def)

interpretation mem_tls: mem_lens m_tls_scan_results "\<lambda>xs m. m\<lparr>m_tls_scan_results := xs\<rparr>"
  tls_conflict v_tls_scan_results "\<lambda>M v. v\<lparr>v_tls_scan_results := M\<rparr>"
  by unfold_locales (auto simp: mem_sys_def mem_wf_def tls_conflict_def)

interpretation mem_usage: mem_lens m_scan_usage_events "\<lambda>xs m. m\<lparr>m_scan_usage_events := xs\<rparr>"
  usage_conflict v_scan_usage_events "\<lambda>M v. v\<lparr>v_scan_usage_events := M\<rparr>"
  by unfold_locales (auto simp: mem_sys_def mem_wf_def usage_conflict_def)

interpretation mem_users: mem_lens m_users "\<lambda>xs m. m\<lparr>m_users := xs\<rparr>"
  user_conflict v_users "\<lambda>M v. v\<lparr>v_users := M\<rparr>"
  by unfold_locales (auto simp: mem_sys_def mem_wf_def user_conflict_def)

interpretation mem_plans: mem_lens m_plans "\<lambda>xs m. m\<lparr>m_plans := xs\<rparr>"
  plan_conflict v_plans "\<lambda>M v. v\<lparr>v_plans := M\<rparr>"
  by unfold_locales (auto simp: mem_sys_def mem_wf_def plan_conflict_def)

interpretation mem_policies: mem_lens m_crypto_policies "\<lambda>xs m. m\<lparr>m_crypto_policies := xs\<rparr>"
  policy_conflict v_crypto_policies "\<lambda>M v. v\<lparr>v_crypto_policies := M\<rparr>"
  by unfold_locales (auto simp: mem_sys_def mem_wf_def policy_conflict_def)

lemma mem_uuid_Parse_String: "mem_uuid_Parse (mem_uuid_String u) = Some u"
  by (simp add: mem_uuid_Parse_def mem_uuid_String_def list_all_iff)

lemma mem_uuid_String_chars: "set (mem_uuid_String u) \<subseteq> {CHR ''x''}"
  by (simp add: mem_uuid_String_def set_replicate_conv_if)

lemma mem_uuid_String_no:
  "CHR '':'' \<notin> set (mem_uuid_String u)" "\<And>c. c \<in> set (mem_uuid_String u) \<Longrightarrow> c \<noteq> CHR '':''"
  using mem_uuid_String_chars [of u] by auto

lemma mem_uuid_String_trimmed: "TrimSpace (mem_uuid_String u) = mem_uuid_String u"
proof -
  have keep: "dropWhile is_space xs = xs" if "set xs \<subseteq> {CHR ''x''}" for xs
    using that by (cases xs) (auto simp: is_space_def)
  show ?thesis
    using mem_uuid_String_chars [of u] by (simp add: TrimSpace_def keep)
qed

lemma field_colon:
  assumes "CHR '':'' \<notin> set xs"
  shows "takeWhile (\<lambda>c. c \<noteq> CHR '':'') (xs @ CHR '':'' # ys) = xs"
    and "dropWhile (\<lambda>c. c \<noteq> CHR '':'') (xs @ CHR '':'' # ys) = CHR '':'' # ys"
  using assms by (induction xs) auto

lemma mem_pending_codec:
  assumes "mem_Marshal_Pending rec = Some s"
  shows "s \<noteq> ''''" and "mem_Unmarshal_Pending s = Some rec"
  using assms
  by (auto simp: mem_Marshal_Pending_def mem_Unmarshal_Pending_def Let_def field_colon
      mem_uuid_String_no mem_uuid_Parse_String split: if_splits)

lemma map_of_filter_key: "map_of (filter (\<lambda>e. fst e \<noteq> k) xs) = (map_of xs)(k := None)"
  by (induction xs) auto

interpretation mem: world mem_env mem_view
proof -
  have engines:
    "sql_engine (scan_results mem_env) mem_view v_scan_results
       (\<lambda>M v. v\<lparr>v_scan_results := M\<rparr>) wallet_conflict"
    "sql_engine (tls_scan_results mem_env) mem_view v_tls_scan_results
       (\<lambda>M v. v\<lparr>v_tls_scan_results := M\<rparr>) tls_conflict"
    "sql_engine (scan_usage_events mem_env) mem_view v_scan_usage_events
       (\<lambda>M v. v\<lparr>v_scan_usage_events := M\<rparr>) usage_conflict"
    "sql_engine (users mem_env) mem_view v_users (\<lambda>M v. v\<lparr>v_users := M\<rparr>) user_conflict"
    "sql_engine (plans mem_env) mem_view v_plans (\<lambda>M v. v\<lparr>v_plans := M\<rparr>) plan_conflict"
    "sql_engine (crypto_policies mem_env) mem_view v_crypto_policies
       (\<lambda>M v. v\<lparr>v_crypto_policies := M\<rparr>) policy_conflict"
    by (simp_all add: mem_env_def mem_wallet.engine mem_tls.engine mem_usage.engine
        mem_users.engine mem_plans.engine mem_policies.engine)
  have call: "mem_view m' = mem_view m1"
    if "mem_call e (Inr x, m1) m = (Inr u, m')" "mem_wf m1" for e x m1 m u m'
    using mem_call_cases [OF that(1)] that(2) by (auto simp: mem_view_def)
  have call_err: "mem_view m' = mem_view m"
    if "mem_call e (Inr x, m1) m = (Inl u, m')" "mem_wf m" for e x m1 m u m'
    using mem_call_cases [OF that(1)] that(2) by (auto simp: mem_view_def)
  have norm: "mem_view (mem_norm m) = mem_view m" for m
    by (simp add: mem_view_def)
  have restored: "mem_wf (m\<lparr>m_scan_results := m_scan_results b,
      m_tls_scan_results := m_tls_scan_results b, m_scan_usage_events := m_scan_usage_events b,
      m_users := m_users b, m_plans := m_plans b, m_crypto_policies := m_crypto_policies b\<rparr>)" if "mem_wf b" for m b
    using that by (simp add: mem_wf_def)
  show "world mem_env mem_view"
    by (intro world.intro engines world_axioms.intro)
      (auto simp: mem_env_def Let_def norm restored mem_view_def mem_sys_def restore_tables_def
        mem_uuid_Parse_String map_of_filter_key mem_uuid_String_no mem_uuid_String_trimmed
        mem_pending_codec dest!: mem_call_cases
        split: list.splits bool.splits if_splits)
qed

lemma mem_world: "world mem_env mem_view"
  by (rule mem.world_axioms)

end
