(* ===== verification/Ledger.thy ===== *)
theory Ledger
  imports Mem_World
begin

text \<open>
  \<^verbatim>\<open>internal/repository/scan_usage_ledger_repository.go\<close>: the plan quota ledger. A row of
  \<^verbatim>\<open>scan_usage_events\<close> reserves one credit of a user for one scan. The repository is an
  interface in the sources; here it is a record of operations with a contract stated over the
  set of reservations, which the definitions for Postgres refine.
\<close>

section \<open>The operations\<close>

definition scanUsageInFlightStatuses :: "string list" where
  "scanUsageInFlightStatuses = [StatePENDING, StateRUNNING, '''']"

definition errInvalidScanUsageKind :: go_error where
  "errInvalidScanUsageKind = ErrorNew ''invalid scan usage kind''"

definition validateScanUsageKind :: "string \<Rightarrow> go_error option" where
  "validateScanUsageKind kind =
     (if kind = ScanUsageKindWallet \<or> kind = ScanUsageKindEndpoint then None
      else Some errInvalidScanUsageKind)"

text \<open>The create hook of the entity.\<close>

definition ScanUsageEventEntity_BeforeCreate ::
  "'w env \<Rightarrow> ScanUsageEventEntity \<Rightarrow> ('w, go_error, ScanUsageEventEntity) prog" where
  "ScanUsageEventEntity_BeforeCreate E e =
     (if ev_ID e = uuid_Nil then bindP (newUUIDP E) (\<lambda>u. returnP (e\<lparr>ev_ID := u\<rparr>))
      else returnP e)"

definition same_scan_id :: "ScanUsageEventEntity \<Rightarrow> ScanUsageEventEntity \<Rightarrow> bool" where
  "same_scan_id r s \<longleftrightarrow> ev_ScanID r = ev_ScanID s"

definition RecordSuccessUsageInTx ::
  "'w env \<Rightarrow> uuid \<Rightarrow> uuid \<Rightarrow> string \<Rightarrow> ('w, go_error, unit) prog" where
  "RecordSuccessUsageInTx E userID scanID kind =
     bindP (checkP (validateScanUsageKind kind)) (\<lambda>_.
     bindP (nowP E) (\<lambda>now.
     bindP (ScanUsageEventEntity_BeforeCreate E
        \<lparr>ev_ID = uuid_Nil, ev_UserID = userID, ev_ScanID = scanID, ev_ScanKind = kind,
         ev_ConsumedAt = now\<rparr>) (\<lambda>event.
     bindP (gorm_CreateDoNothing (scan_usage_events E) same_scan_id event) (\<lambda>_.
     returnP ()))))"

definition RecordSuccessUsage ::
  "'w env \<Rightarrow> uuid \<Rightarrow> uuid \<Rightarrow> string \<Rightarrow> ('w, go_error, unit) prog" where
  "RecordSuccessUsage E userID scanID kind = RecordSuccessUsageInTx E userID scanID kind"

definition CountSuccessUsage :: "'w env \<Rightarrow> uuid \<Rightarrow> string \<Rightarrow> ('w, go_error, int) prog" where
  "CountSuccessUsage E userID kind =
     bindP (checkP (validateScanUsageKind kind)) (\<lambda>_.
     gorm_Count (scan_usage_events E) (\<lambda>e. ev_UserID e = userID \<and> ev_ScanKind e = kind))"

text \<open>The scan tables are soft-deleted: gorm adds \<^verbatim>\<open>deleted_at IS NULL\<close> to every query.\<close>

definition CountInFlightScans :: "'w env \<Rightarrow> uuid \<Rightarrow> string \<Rightarrow> ('w, go_error, int) prog" where
  "CountInFlightScans E userID kind =
     bindP (checkP (validateScanUsageKind kind)) (\<lambda>_.
     if kind = ScanUsageKindWallet then
       gorm_Count (scan_results E) (\<lambda>r. sr_DeletedAt r = None \<and> sr_UserID r = userID
         \<and> sr_Status r \<in> set scanUsageInFlightStatuses)
     else if kind = ScanUsageKindEndpoint then
       gorm_Count (tls_scan_results E) (\<lambda>r. tls_DeletedAt r = None \<and> tls_UserID r = Some userID
         \<and> \<not> tls_Default r \<and> tls_Status r \<in> set scanUsageInFlightStatuses)
     else throwP errInvalidScanUsageKind)"

definition CountVisibleSuccessScans :: "'w env \<Rightarrow> uuid \<Rightarrow> string \<Rightarrow> ('w, go_error, int) prog" where
  "CountVisibleSuccessScans E userID kind =
     bindP (checkP (validateScanUsageKind kind)) (\<lambda>_.
     if kind = ScanUsageKindWallet then
       gorm_Count (scan_results E) (\<lambda>r. sr_DeletedAt r = None \<and> sr_UserID r = userID
         \<and> sr_Status r = StateSUCCESS)
     else if kind = ScanUsageKindEndpoint then
       gorm_Count (tls_scan_results E) (\<lambda>r. tls_DeletedAt r = None \<and> tls_UserID r = Some userID
         \<and> \<not> tls_Default r \<and> tls_Status r = StateSUCCESS)
     else throwP errInvalidScanUsageKind)"

text \<open>The advisory lock keys are built from the first eight bytes of the user id.\<close>

definition uuid_bytes :: "uuid \<Rightarrow> 8 word list" where
  "uuid_bytes u = map (\<lambda>i. ucast (drop_bit (120 - 8 * i) u)) [0..<16]"

definition uuidBytesToLockKeyInt32 :: "8 word list \<Rightarrow> 32 word" where
  "uuidBytesToLockKeyInt32 b =
     or (or (or (push_bit 24 (ucast (b ! 0))) (push_bit 16 (ucast (b ! 1))))
         (push_bit 8 (ucast (b ! 2)))) (ucast (b ! 3))"

definition userKindAdvisoryLockKey :: "uuid \<Rightarrow> string \<Rightarrow> 32 word \<times> 32 word" where
  "userKindAdvisoryLockKey userID kind =
     (let k1 = uuidBytesToLockKeyInt32 (take 4 (uuid_bytes userID));
          k2 = uuidBytesToLockKeyInt32 (take 4 (drop 4 (uuid_bytes userID)));
          mix = (if kind = ScanUsageKindWallet then 1
                 else if kind = ScanUsageKindEndpoint then 2 else 3)
      in (k1, xor k2 mix))"

definition lockUserKindQuota :: "'w env \<Rightarrow> uuid \<Rightarrow> string \<Rightarrow> ('w, go_error, unit) prog" where
  "lockUserKindQuota E userID kind =
     (if tx_Name E = ''postgres''
      then mapErrP SqlError (pg_advisory_xact_lock E (userKindAdvisoryLockKey userID kind))
      else returnP ())"

definition TryAcquireSuccessSlotInTx ::
  "'w env \<Rightarrow> uuid \<Rightarrow> string \<Rightarrow> int \<Rightarrow> ('w, go_error, bool) prog" where
  "TryAcquireSuccessSlotInTx E userID kind limit =
     (if limit \<le> 0 then returnP True
      else
        bindP (checkP (validateScanUsageKind kind)) (\<lambda>_.
        bindP (lockUserKindQuota E userID kind) (\<lambda>_.
        bindP (gorm_Count (scan_usage_events E)
                 (\<lambda>e. ev_UserID e = userID \<and> ev_ScanKind e = kind)) (\<lambda>count.
        returnP (count < limit)))))"

definition TryAcquireSuccessSlot ::
  "'w env \<Rightarrow> uuid \<Rightarrow> string \<Rightarrow> int \<Rightarrow> ('w, go_error, bool) prog" where
  "TryAcquireSuccessSlot E userID kind limit =
     (if limit \<le> 0 then returnP True
      else gorm_Transaction E id (\<lambda>_ e. e) (TryAcquireSuccessSlotInTx E userID kind limit))"

definition RecordSuccessUsageIfUnderLimitInTx ::
  "'w env \<Rightarrow> uuid \<Rightarrow> uuid \<Rightarrow> string \<Rightarrow> int \<Rightarrow> ('w, go_error, bool) prog" where
  "RecordSuccessUsageIfUnderLimitInTx E userID scanID kind limit =
     (if limit \<le> 0 then
        bindP (RecordSuccessUsageInTx E userID scanID kind) (\<lambda>_. returnP True)
      else
        bindP (checkP (validateScanUsageKind kind)) (\<lambda>_.
        bindP (nowP E) (\<lambda>now.
        bindP (newUUIDP E) (\<lambda>eventID.
        bindP (gorm_ExecInsertBelow (scan_usage_events E) same_scan_id
                 (\<lambda>e. ev_UserID e = userID \<and> ev_ScanKind e = kind) limit
                 \<lparr>ev_ID = eventID, ev_UserID = userID, ev_ScanID = scanID, ev_ScanKind = kind,
                  ev_ConsumedAt = now\<rparr>) (\<lambda>rowsAffected.
        returnP (rowsAffected > 0))))))"

definition HasSuccessUsageForScanInTx :: "'w env \<Rightarrow> uuid \<Rightarrow> ('w, go_error, bool) prog" where
  "HasSuccessUsageForScanInTx E scanID =
     bindP (gorm_Count (scan_usage_events E) (\<lambda>e. ev_ScanID e = scanID)) (\<lambda>count.
     returnP (count > 0))"

text \<open>The ledger entity has no \<^verbatim>\<open>DeletedAt\<close> field, so a delete removes the row.\<close>

definition ReleaseSuccessUsageByScanIDInTx :: "'w env \<Rightarrow> uuid \<Rightarrow> ('w, go_error, unit) prog" where
  "ReleaseSuccessUsageByScanIDInTx E scanID =
     bindP (gorm_HardDelete (scan_usage_events E) (\<lambda>e. ev_ScanID e = scanID)) (\<lambda>_. returnP ())"

text \<open>The interface and its implementation.\<close>

record 'w ScanUsageLedgerRepository =
  ledger_RecordSuccessUsage :: "uuid \<Rightarrow> uuid \<Rightarrow> string \<Rightarrow> ('w, go_error, unit) prog"
  ledger_CountSuccessUsage :: "uuid \<Rightarrow> string \<Rightarrow> ('w, go_error, int) prog"
  ledger_CountInFlightScans :: "uuid \<Rightarrow> string \<Rightarrow> ('w, go_error, int) prog"
  ledger_CountVisibleSuccessScans :: "uuid \<Rightarrow> string \<Rightarrow> ('w, go_error, int) prog"
  ledger_TryAcquireSuccessSlot :: "uuid \<Rightarrow> string \<Rightarrow> int \<Rightarrow> ('w, go_error, bool) prog"
  ledger_RecordSuccessUsageInTx :: "uuid \<Rightarrow> uuid \<Rightarrow> string \<Rightarrow> ('w, go_error, unit) prog"
  ledger_TryAcquireSuccessSlotInTx :: "uuid \<Rightarrow> string \<Rightarrow> int \<Rightarrow> ('w, go_error, bool) prog"
  ledger_RecordSuccessUsageIfUnderLimitInTx ::
    "uuid \<Rightarrow> uuid \<Rightarrow> string \<Rightarrow> int \<Rightarrow> ('w, go_error, bool) prog"
  ledger_HasSuccessUsageForScanInTx :: "uuid \<Rightarrow> ('w, go_error, bool) prog"
  ledger_ReleaseSuccessUsageByScanIDInTx :: "uuid \<Rightarrow> ('w, go_error, unit) prog"

definition NewScanUsageLedgerRepository :: "'w env \<Rightarrow> 'w ScanUsageLedgerRepository" where
  "NewScanUsageLedgerRepository E = \<lparr>
     ledger_RecordSuccessUsage = RecordSuccessUsage E,
     ledger_CountSuccessUsage = CountSuccessUsage E,
     ledger_CountInFlightScans = CountInFlightScans E,
     ledger_CountVisibleSuccessScans = CountVisibleSuccessScans E,
     ledger_TryAcquireSuccessSlot = TryAcquireSuccessSlot E,
     ledger_RecordSuccessUsageInTx = RecordSuccessUsageInTx E,
     ledger_TryAcquireSuccessSlotInTx = TryAcquireSuccessSlotInTx E,
     ledger_RecordSuccessUsageIfUnderLimitInTx = RecordSuccessUsageIfUnderLimitInTx E,
     ledger_HasSuccessUsageForScanInTx = HasSuccessUsageForScanInTx E,
     ledger_ReleaseSuccessUsageByScanIDInTx = ReleaseSuccessUsageByScanIDInTx E\<rparr>"

section \<open>The abstract ledger\<close>

text \<open>
  What the ledger means, apart from row ids and times: the set of reservations
  (scan, user, kind), and how each operation changes it.
\<close>

type_synonym reservation = "uuid \<times> uuid \<times> string"

definition usage_entry :: "ScanUsageEventEntity \<Rightarrow> reservation" where
  "usage_entry e = (ev_ScanID e, ev_UserID e, ev_ScanKind e)"

definition usage_entries :: "sys \<Rightarrow> reservation set" where
  "usage_entries v = usage_entry ` set_mset (v_scan_usage_events v)"

definition used :: "reservation set \<Rightarrow> uuid \<Rightarrow> string \<Rightarrow> nat" where
  "used A userID kind = card (Set.filter (\<lambda>e. snd e = (userID, kind)) A)"

definition spec_record :: "uuid \<Rightarrow> uuid \<Rightarrow> string \<Rightarrow> reservation set \<Rightarrow> reservation set" where
  "spec_record userID scanID kind A =
     (if scanID \<in> fst ` A then A else insert (scanID, userID, kind) A)"

definition spec_record_below ::
  "uuid \<Rightarrow> uuid \<Rightarrow> string \<Rightarrow> int \<Rightarrow> reservation set \<Rightarrow> bool \<times> reservation set" where
  "spec_record_below userID scanID kind limit A =
     (if limit \<le> 0 then (True, spec_record userID scanID kind A)
      else if scanID \<in> fst ` A \<or> limit \<le> int (used A userID kind) then (False, A)
      else (True, insert (scanID, userID, kind) A))"

definition spec_release :: "uuid \<Rightarrow> reservation set \<Rightarrow> reservation set" where
  "spec_release scanID A = Set.filter (\<lambda>e. fst e \<noteq> scanID) A"

text \<open>Nothing but the ledger table changes.\<close>

definition only_usage :: "sys \<Rightarrow> sys \<Rightarrow> bool" where
  "only_usage v v' \<longleftrightarrow> v' = v\<lparr>v_scan_usage_events := v_scan_usage_events v'\<rparr>"

lemma only_usage_refl [simp]: "only_usage v v"
  by (simp add: only_usage_def)

lemma only_usage_upd [simp]: "only_usage v (v\<lparr>v_scan_usage_events := M\<rparr>)"
  by (simp add: only_usage_def)

lemma only_usageE:
  assumes "only_usage v v'"
  obtains M where "v' = v\<lparr>v_scan_usage_events := M\<rparr>"
  using assms by (auto simp: only_usage_def)

lemma finite_usage_entries [simp]: "finite (usage_entries v)"
  by (simp add: usage_entries_def)

lemma usage_entries_upd [simp]:
  "usage_entries (v\<lparr>v_scan_usage_events := M\<rparr>) = usage_entry ` set_mset M"
  "usage_entries (v\<lparr>v_scan_results := W\<rparr>) = usage_entries v"
  "usage_entries (v\<lparr>v_tls_scan_results := S\<rparr>) = usage_entries v"
  "usage_entries (restore_tables v v') = usage_entries v"
  "usage_entries (v\<lparr>v_keepLedgerMissing := k\<rparr>) = usage_entries v"
  by (simp_all add: usage_entries_def)

lemma usage_entry_fields [simp]:
  "usage_entry \<lparr>ev_ID = i, ev_UserID = u, ev_ScanID = s, ev_ScanKind = k, ev_ConsumedAt = t\<rparr> = (s, u, k)"
  by (simp add: usage_entry_def)

lemma usage_entries_fold [simp]:
  "usage_entry ` set_mset (v_scan_usage_events v) = usage_entries v"
  by (simp add: usage_entries_def)

lemma scan_in_entries:
  "scanID \<in> fst ` usage_entries v \<longleftrightarrow> (\<exists>e. e \<in># v_scan_usage_events v \<and> scanID = ev_ScanID e)"
  by (force simp: usage_entries_def usage_entry_def)

text \<open>In a table without conflicting rows every row occurs once, so counting rows is counting
  reservations.\<close>

lemma unique_rows_size:
  assumes "\<And>r. r \<in># M \<Longrightarrow> filter_mset (c r) M = {#r#}" and refl: "\<And>r. c r r"
  shows "size (filter_mset p M) = card (set_mset (filter_mset p M))"
proof -
  have "count M r = 1" if "r \<in># M" for r
  proof -
    have "count M r = count (filter_mset (c r) M) r" by (simp add: refl)
    then show ?thesis using assms(1) [OF that] by simp
  qed
  then show ?thesis
    by (simp add: size_multiset_overloaded_eq)
qed

lemma used_size:
  assumes uniq: "\<And>r. r \<in># v_scan_usage_events v
      \<Longrightarrow> filter_mset (usage_conflict r) (v_scan_usage_events v) = {#r#}"
  shows "size (filter_mset (\<lambda>e. ev_UserID e = userID \<and> ev_ScanKind e = kind) (v_scan_usage_events v))
       = used (usage_entries v) userID kind"
proof -
  let ?M = "v_scan_usage_events v"
  let ?N = "filter_mset (\<lambda>e. ev_UserID e = userID \<and> ev_ScanKind e = kind) ?M"
  have inj: "inj_on usage_entry (set_mset ?M)"
  proof (rule inj_onI)
    fix r s
    assume rs: "r \<in># ?M" "s \<in># ?M" "usage_entry r = usage_entry s"
    then have "s \<in># filter_mset (usage_conflict r) ?M"
      by (simp add: usage_entry_def usage_conflict_def)
    with uniq [OF rs(1)] show "r = s" by simp
  qed
  have "Set.filter (\<lambda>e. snd e = (userID, kind)) (usage_entries v) = usage_entry ` set_mset ?N"
    by (auto simp: usage_entries_def usage_entry_def)
  moreover have "card (usage_entry ` set_mset ?N) = card (set_mset ?N)"
    by (rule card_image) (rule inj_on_subset [OF inj], auto)
  moreover have "size ?N = card (set_mset ?N)"
    by (rule unique_rows_size [OF uniq]) (auto simp: usage_conflict_def)
  ultimately show ?thesis by (simp add: used_def)
qed

section \<open>The contract of the repository\<close>

text \<open>
  The laws its clients rely on: every operation, also one that fails, touches the ledger table
  only; a failed one changes nothing; a successful one does what the abstract ledger says.
\<close>

locale usage_ledger =
  fixes L :: "'w ScanUsageLedgerRepository" and view :: "'w \<Rightarrow> sys"
  assumes record_law:
      "wp view (ledger_RecordSuccessUsageInTx L userID scanID kind)
         (\<lambda>r v'. only_usage v v' \<and> (case r of
            Inl err \<Rightarrow> v' = v
          | Inr _ \<Rightarrow> validateScanUsageKind kind = None
              \<and> usage_entries v' = spec_record userID scanID kind (usage_entries v))) v"
    and record_below_law:
      "wp view (ledger_RecordSuccessUsageIfUnderLimitInTx L userID scanID kind limit)
         (\<lambda>r v'. only_usage v v' \<and> (case r of
            Inl err \<Rightarrow> v' = v
          | Inr b \<Rightarrow> validateScanUsageKind kind = None
              \<and> (b, usage_entries v')
                = spec_record_below userID scanID kind limit (usage_entries v))) v"
    and has_law:
      "wp view (ledger_HasSuccessUsageForScanInTx L scanID)
         (\<lambda>r v'. v' = v \<and> (case r of
            Inl err \<Rightarrow> True
          | Inr b \<Rightarrow> b = (scanID \<in> fst ` usage_entries v))) v"
    and release_law:
      "wp view (ledger_ReleaseSuccessUsageByScanIDInTx L scanID)
         (\<lambda>r v'. only_usage v v' \<and> (case r of
            Inl err \<Rightarrow> v' = v
          | Inr _ \<Rightarrow> usage_entries v' = spec_release scanID (usage_entries v))) v"
    and count_law:
      "wp view (ledger_CountSuccessUsage L userID kind)
         (\<lambda>r v'. v' = v \<and> (case r of
            Inl err \<Rightarrow> True
          | Inr n \<Rightarrow> validateScanUsageKind kind = None
              \<and> n = int (used (usage_entries v) userID kind))) v"
begin

text \<open>The laws as rules of the calculus.\<close>

lemma wp_record:
  assumes "\<And>err. Q (Inl err) v"
    and "\<And>M. usage_entry ` set_mset M = spec_record userID scanID kind (usage_entries v)
          \<Longrightarrow> Q (Inr ()) (v\<lparr>v_scan_usage_events := M\<rparr>)"
  shows "wp view (ledger_RecordSuccessUsageInTx L userID scanID kind) Q v"
  by (rule wp_mono [OF record_law])
    (use assms in \<open>auto elim!: only_usageE split: sum.splits\<close>)

lemma wp_record_below:
  assumes "\<And>err. Q (Inl err) v"
    and "\<And>b M. (b, usage_entry ` set_mset M)
            = spec_record_below userID scanID kind limit (usage_entries v)
          \<Longrightarrow> Q (Inr b) (v\<lparr>v_scan_usage_events := M\<rparr>)"
  shows "wp view (ledger_RecordSuccessUsageIfUnderLimitInTx L userID scanID kind limit) Q v"
  by (rule wp_mono [OF record_below_law])
    (use assms in \<open>auto elim!: only_usageE split: sum.splits\<close>)

lemma wp_has:
  assumes "\<And>err. Q (Inl err) v" and "Q (Inr (scanID \<in> fst ` usage_entries v)) v"
  shows "wp view (ledger_HasSuccessUsageForScanInTx L scanID) Q v"
  by (rule wp_mono [OF has_law]) (use assms in \<open>auto split: sum.splits\<close>)

lemma wp_release:
  assumes "\<And>err. Q (Inl err) v"
    and "\<And>M. usage_entry ` set_mset M = spec_release scanID (usage_entries v)
          \<Longrightarrow> Q (Inr ()) (v\<lparr>v_scan_usage_events := M\<rparr>)"
  shows "wp view (ledger_ReleaseSuccessUsageByScanIDInTx L scanID) Q v"
  by (rule wp_mono [OF release_law])
    (use assms in \<open>auto elim!: only_usageE split: sum.splits\<close>)

lemmas wp_ledger = wp_record wp_record_below wp_has wp_release

end

section \<open>The Postgres repository refines it\<close>

lemma spec_record_fresh:
  "scanID \<notin> fst ` A \<Longrightarrow> spec_record userID scanID kind A = insert (scanID, userID, kind) A"
  by (simp add: spec_record_def)

lemma spec_record_taken: "scanID \<in> fst ` A \<Longrightarrow> spec_record userID scanID kind A = A"
  by (simp add: spec_record_def)

context world
begin

lemma wp_usage_BeforeCreate:
  assumes "\<And>u. Q (Inr (e\<lparr>ev_ID := u\<rparr>)) v"
  shows "wp view (ScanUsageEventEntity_BeforeCreate E e) Q v"
  unfolding ScanUsageEventEntity_BeforeCreate_def
  using assms [of "ev_ID e"] by (auto intro!: wp_intro assms)

lemma record_refines:
  "wp view (RecordSuccessUsageInTx E userID scanID kind)
     (\<lambda>r v'. only_usage v v' \<and> (case r of
        Inl err \<Rightarrow> v' = v
      | Inr _ \<Rightarrow> validateScanUsageKind kind = None
          \<and> usage_entries v' = spec_record userID scanID kind (usage_entries v))) v"
  unfolding RecordSuccessUsageInTx_def
  by (auto simp: same_scan_id_def spec_record_def scan_in_entries split: if_splits
      intro!: wp_intro wp_usage_BeforeCreate usage.wp_CreateDoNothing; blast)

lemma record_below_refines:
  "wp view (RecordSuccessUsageIfUnderLimitInTx E userID scanID kind limit)
     (\<lambda>r v'. only_usage v v' \<and> (case r of
        Inl err \<Rightarrow> v' = v
      | Inr b \<Rightarrow> validateScanUsageKind kind = None
          \<and> (b, usage_entries v')
            = spec_record_below userID scanID kind limit (usage_entries v))) v"
proof (rule usage.wp_unique_rows)
  assume uniq: "\<And>r. r \<in># v_scan_usage_events v
      \<Longrightarrow> filter_mset (usage_conflict r) (v_scan_usage_events v) = {#r#}"
  show ?thesis
  proof (cases "limit \<le> 0")
    case True
    show ?thesis
      unfolding RecordSuccessUsageIfUnderLimitInTx_def
      by (simp add: True, intro wp_bind wp_mono [OF record_refines])
        (auto simp: True spec_record_below_def split: sum.splits intro!: wp_intro)
  next
    case False
    then show ?thesis
      unfolding RecordSuccessUsageIfUnderLimitInTx_def
      by (auto simp: same_scan_id_def spec_record_below_def scan_in_entries used_size [OF uniq]
          split: if_splits intro!: wp_intro usage.wp_ExecInsertBelow; blast)
  qed
qed

lemma has_refines:
  "wp view (HasSuccessUsageForScanInTx E scanID)
     (\<lambda>r v'. v' = v \<and> (case r of
        Inl err \<Rightarrow> True
      | Inr b \<Rightarrow> b = (scanID \<in> fst ` usage_entries v))) v"
  unfolding HasSuccessUsageForScanInTx_def
  by (auto simp: nonempty_has_size [symmetric] usage_entries_def usage_entry_def
      intro!: wp_intro usage.wp_Count; force)

lemma release_refines:
  "wp view (ReleaseSuccessUsageByScanIDInTx E scanID)
     (\<lambda>r v'. only_usage v v' \<and> (case r of
        Inl err \<Rightarrow> v' = v
      | Inr _ \<Rightarrow> usage_entries v' = spec_release scanID (usage_entries v))) v"
  unfolding ReleaseSuccessUsageByScanIDInTx_def
  by (auto simp: spec_release_def usage_entries_def usage_entry_def
      intro!: wp_intro usage.wp_HardDelete)

lemma count_refines:
  "wp view (CountSuccessUsage E userID kind)
     (\<lambda>r v'. v' = v \<and> (case r of
        Inl err \<Rightarrow> True
      | Inr n \<Rightarrow> validateScanUsageKind kind = None
          \<and> n = int (used (usage_entries v) userID kind))) v"
proof (rule usage.wp_unique_rows)
  assume uniq: "\<And>r. r \<in># v_scan_usage_events v
      \<Longrightarrow> filter_mset (usage_conflict r) (v_scan_usage_events v) = {#r#}"
  show ?thesis
    unfolding CountSuccessUsage_def
    by (auto simp: used_size [OF uniq] intro!: wp_intro usage.wp_Count)
qed

end

sublocale world \<subseteq> repo: usage_ledger "NewScanUsageLedgerRepository E" view
  by unfold_locales
    (simp_all add: NewScanUsageLedgerRepository_def record_refines record_below_refines has_refines
      release_refines count_refines)

text \<open>The environment together with any ledger that keeps the contract; the Postgres one does.\<close>

locale quota_world = world E view + ledger: usage_ledger L view
  for E :: "'w env" and view :: "'w \<Rightarrow> sys" and L :: "'w ScanUsageLedgerRepository"

sublocale world \<subseteq> std: quota_world E view "NewScanUsageLedgerRepository E"
  by unfold_locales

context world
begin

lemma quota_std: "quota_world E view (NewScanUsageLedgerRepository E)"
  by unfold_locales

end

section \<open>Facts about the abstract ledger\<close>

lemma used_insert:
  "finite A \<Longrightarrow> scanID \<notin> fst ` A
   \<Longrightarrow> used (insert (scanID, userID, kind) A) u k
       = used A u k + (if u = userID \<and> k = kind then 1 else 0)"
proof -
  assume "finite A" and fresh: "scanID \<notin> fst ` A"
  moreover have "(scanID, userID, kind) \<notin> A" using fresh by force
  moreover have "Set.filter (\<lambda>e. snd e = (u, k)) (insert (scanID, userID, kind) A)
      = (if u = userID \<and> k = kind then insert (scanID, userID, kind) (Set.filter (\<lambda>e. snd e = (u, k)) A)
         else Set.filter (\<lambda>e. snd e = (u, k)) A)"
    by auto
  ultimately show ?thesis by (simp add: used_def)
qed

lemma used_mono: "finite A \<Longrightarrow> B \<subseteq> A \<Longrightarrow> used B u k \<le> used A u k"
  unfolding used_def by (rule card_mono) auto

lemma spec_release_subset: "spec_release scanID A \<subseteq> A"
  by (auto simp: spec_release_def)

lemma spec_record_below_cases:
  assumes "(b, A') = spec_record_below userID scanID kind limit A" and "0 < limit"
  obtains (refused) "\<not> b" "A' = A" "scanID \<in> fst ` A \<or> limit \<le> int (used A userID kind)"
    | (taken) "b" "A' = insert (scanID, userID, kind) A" "scanID \<notin> fst ` A"
        "int (used A userID kind) < limit"
  using assms by (auto simp: spec_record_below_def split: if_splits)

lemma usage_entries_cong: "only_usage v v' \<Longrightarrow> v' = v \<longleftrightarrow> v_scan_usage_events v' = v_scan_usage_events v"
  by (auto simp: only_usage_def)

section \<open>Properties of the ledger\<close>

text \<open>
  C20. Acquiring a credit under a positive plan limit, whatever the database answers: nothing but
  the ledger changes; an error changes nothing; a refusal changes nothing and is given exactly
  when the scan is already reserved or the user's credits of that kind are used up; a grant adds
  exactly the reservation of this scan, was below the limit before, and is counted for this user
  and kind and for no other.
\<close>

theorem acquire_respects_limit:
  assumes world: "world E view" and limit: "0 < limit"
    and run: "RecordSuccessUsageIfUnderLimitInTx E userID scanID kind limit w = (r, w')"
  shows "only_usage (view w) (view w')
       \<and> (case r of
            Inl err \<Rightarrow> view w' = view w
          | Inr False \<Rightarrow> usage_entries (view w') = usage_entries (view w)
              \<and> (scanID \<in> fst ` usage_entries (view w)
                 \<or> limit \<le> int (used (usage_entries (view w)) userID kind))
          | Inr True \<Rightarrow> validateScanUsageKind kind = None
              \<and> scanID \<notin> fst ` usage_entries (view w)
              \<and> usage_entries (view w') = insert (scanID, userID, kind) (usage_entries (view w))
              \<and> int (used (usage_entries (view w')) userID kind) \<le> limit
              \<and> (\<forall>u k. (u, k) \<noteq> (userID, kind)
                   \<longrightarrow> used (usage_entries (view w')) u k = used (usage_entries (view w)) u k))"
proof -
  from wpD [OF world.record_below_refines [OF world] run]
  have frame: "only_usage (view w) (view w')"
    and post: "case r of Inl err \<Rightarrow> view w' = view w
        | Inr b \<Rightarrow> validateScanUsageKind kind = None \<and> (b, usage_entries (view w'))
            = spec_record_below userID scanID kind limit (usage_entries (view w))"
    by auto
  show ?thesis
  proof (cases r)
    case (Inl err)
    with frame post show ?thesis by simp
  next
    case (Inr b)
    with post have valid: "validateScanUsageKind kind = None"
      and spec: "(b, usage_entries (view w'))
        = spec_record_below userID scanID kind limit (usage_entries (view w))"
      by auto
    from spec limit show ?thesis
      by (cases rule: spec_record_below_cases) (auto simp: Inr frame valid used_insert)
  qed
qed

definition ledger_demo :: mem where
  "ledger_demo = mem_empty\<lparr>m_scan_usage_events :=
     [\<lparr>ev_ID = 9, ev_UserID = 1, ev_ScanID = 5, ev_ScanKind = ''wallet'', ev_ConsumedAt = 3\<rparr>],
     m_uuids := [7]\<rparr>"

theorem acquire_respects_limit_witness:
  "fst (RecordSuccessUsageIfUnderLimitInTx mem_env 1 6 ''wallet'' 2 ledger_demo) = Inr True
   \<and> int (used (usage_entries (mem_view
        (snd (RecordSuccessUsageIfUnderLimitInTx mem_env 1 6 ''wallet'' 2 ledger_demo)))) 1 ''wallet'') \<le> 2"
proof -
  let ?run = "RecordSuccessUsageIfUnderLimitInTx mem_env 1 6 ''wallet'' 2 ledger_demo"
  have granted: "fst ?run = Inr True" by code_simp
  show ?thesis
    using acquire_respects_limit [OF mem_world _ prod.collapse [symmetric],
        where userID = 1 and scanID = 6 and kind = "''wallet''" and limit = 2 and w = ledger_demo]
    by (auto simp: granted)
qed

text \<open>
  Calls in sequence. A history of the ledger is a list of calls by any number of clients; each
  runs in its own statement, and a call that fails is simply part of the history.
\<close>

datatype ledger_call =
    Acquire uuid uuid string
  | Record uuid uuid string
  | Release uuid
  | Has uuid

definition run_call :: "'w env \<Rightarrow> (uuid \<Rightarrow> string \<Rightarrow> int) \<Rightarrow> ledger_call \<Rightarrow> 'w \<Rightarrow> 'w" where
  "run_call E lim c w =
     (case c of
        Acquire userID scanID kind \<Rightarrow>
          snd (RecordSuccessUsageIfUnderLimitInTx E userID scanID kind (lim userID kind) w)
      | Record userID scanID kind \<Rightarrow> snd (RecordSuccessUsageInTx E userID scanID kind w)
      | Release scanID \<Rightarrow> snd (ReleaseSuccessUsageByScanIDInTx E scanID w)
      | Has scanID \<Rightarrow> snd (HasSuccessUsageForScanInTx E scanID w))"

definition run_calls :: "'w env \<Rightarrow> (uuid \<Rightarrow> string \<Rightarrow> int) \<Rightarrow> ledger_call list \<Rightarrow> 'w \<Rightarrow> 'w" where
  "run_calls E lim cs w = fold (run_call E lim) cs w"

text \<open>A call that may exceed the limit of \<open>(u, k)\<close>: the unguarded one, used for unlimited plans.\<close>

definition guarded :: "uuid \<Rightarrow> string \<Rightarrow> ledger_call \<Rightarrow> bool" where
  "guarded u k c = (case c of Record userID _ kind \<Rightarrow> (userID, kind) \<noteq> (u, k) | _ \<Rightarrow> True)"

lemma used_record_other:
  "finite A \<Longrightarrow> (userID, kind) \<noteq> (u, k) \<Longrightarrow> used (spec_record userID scanID kind A) u k = used A u k"
  by (auto simp: spec_record_def used_insert)

lemma run_call_bound:
  assumes world: "world E view" and lim: "0 < lim u k" and guarded: "guarded u k c"
    and below: "int (used (usage_entries (view w)) u k) \<le> lim u k"
  shows "int (used (usage_entries (view (run_call E lim c w))) u k) \<le> lim u k"
proof (cases c)
  case (Acquire userID scanID kind)
  obtain r w' where run:
    "RecordSuccessUsageIfUnderLimitInTx E userID scanID kind (lim userID kind) w = (r, w')" by fastforce
  have step: "run_call E lim c w = w'" by (simp add: Acquire run_call_def run)
  from wpD [OF world.record_below_refines [OF world] run] below lim show ?thesis
    by (cases "(userID, kind) = (u, k)")
      (auto simp: step spec_record_below_def used_record_other used_insert
        split: sum.splits if_splits)
next
  case (Record userID scanID kind)
  obtain r w' where run: "RecordSuccessUsageInTx E userID scanID kind w = (r, w')" by fastforce
  from wpD [OF world.record_refines [OF world] run] below guarded show ?thesis
    by (auto simp: Record run_call_def run guarded_def used_record_other split: sum.splits)
next
  case (Release scanID)
  obtain r w' where run: "ReleaseSuccessUsageByScanIDInTx E scanID w = (r, w')" by fastforce
  have "used (spec_release scanID (usage_entries (view w))) u k \<le> used (usage_entries (view w)) u k"
    by (rule used_mono [OF finite_usage_entries spec_release_subset])
  with wpD [OF world.release_refines [OF world] run] below show ?thesis
    by (auto simp: Release run_call_def run split: sum.splits)
next
  case (Has scanID)
  obtain r w' where run: "HasSuccessUsageForScanInTx E scanID w = (r, w')" by fastforce
  from wpD [OF world.has_refines [OF world] run] below show ?thesis
    by (auto simp: Has run_call_def run)
qed

text \<open>
  C19. A plan limit is an invariant of the ledger: along every history of acquisitions, releases
  and reads, with unguarded recordings only for other users or kinds and with any statement
  failing at any time, a user who starts within a positive limit never has more reservations of
  that kind than the limit.
\<close>

theorem ledger_never_over_limit:
  assumes "world E view" and "0 < lim u k" and "list_all (guarded u k) cs"
    and "int (used (usage_entries (view w)) u k) \<le> lim u k"
  shows "int (used (usage_entries (view (run_calls E lim cs w))) u k) \<le> lim u k"
  using assms(3,4)
proof (induction cs arbitrary: w)
  case (Cons c cs)
  then show ?case
    using run_call_bound [where lim = lim and c = c, OF assms(1,2)] by (simp add: run_calls_def)
qed (simp add: run_calls_def)

theorem ledger_never_over_limit_witness:
  "int (used (usage_entries (mem_view (run_calls mem_env (\<lambda>_ _. 1)
      [Acquire 1 6 ''wallet'', Record 2 8 ''wallet'', Release 5, Acquire 1 8 ''wallet''] ledger_demo))) 1 ''wallet'') \<le> 1"
proof (rule ledger_never_over_limit [where lim = "\<lambda>_ _. 1" and k = "''wallet''" and u = 1, OF mem_world])
  show "int (used (usage_entries (mem_view ledger_demo)) 1 ''wallet'') \<le> 1" by code_simp
qed (simp_all add: guarded_def)

text \<open>
  C21. The ledger remembers: after a recording that returned, asking for the scan answers yes
  (unless the read fails), a release that returned makes the answer no, and both leave every
  other scan's reservation alone.
\<close>

theorem ledger_record_release_round_trip:
  assumes world: "world E view"
    and rec: "RecordSuccessUsageInTx E userID scanID kind w = (Inr (), w1)"
    and rel: "ReleaseSuccessUsageByScanIDInTx E scanID w1 = (Inr (), w2)"
  shows "fst (HasSuccessUsageForScanInTx E scanID w1) \<noteq> Inr False
       \<and> fst (HasSuccessUsageForScanInTx E scanID w2) \<noteq> Inr True
       \<and> Set.filter (\<lambda>e. fst e \<noteq> scanID) (usage_entries (view w1))
          = Set.filter (\<lambda>e. fst e \<noteq> scanID) (usage_entries (view w))
       \<and> usage_entries (view w2) = Set.filter (\<lambda>e. fst e \<noteq> scanID) (usage_entries (view w))"
proof -
  have e1: "usage_entries (view w1) = spec_record userID scanID kind (usage_entries (view w))"
    using wpD [OF world.record_refines [OF world] rec] by simp
  have e2: "usage_entries (view w2) = spec_release scanID (usage_entries (view w1))"
    using wpD [OF world.release_refines [OF world] rel] by simp
  have has: "fst (HasSuccessUsageForScanInTx E scanID x) = Inr b
      \<Longrightarrow> b = (scanID \<in> fst ` usage_entries (view x))" for x b
    using wpD [OF world.has_refines [OF world] prod.collapse [symmetric], of scanID x] by simp
  have "scanID \<in> fst ` usage_entries (view w1)"
    by (auto simp: e1 spec_record_def)
  moreover have "scanID \<notin> fst ` usage_entries (view w2)"
    by (auto simp: e2 spec_release_def)
  moreover have "Set.filter (\<lambda>e. fst e \<noteq> scanID) (usage_entries (view w1))
      = Set.filter (\<lambda>e. fst e \<noteq> scanID) (usage_entries (view w))"
    by (auto simp: e1 spec_record_def)
  ultimately show ?thesis using has [of w1] has [of w2] by (auto simp: e2 spec_release_def)
qed

theorem ledger_record_release_round_trip_witness:
  "fst (HasSuccessUsageForScanInTx mem_env 6
      (snd (RecordSuccessUsageInTx mem_env 1 6 ''wallet'' ledger_demo))) = Inr True
   \<and> fst (HasSuccessUsageForScanInTx mem_env 6 (snd (ReleaseSuccessUsageByScanIDInTx mem_env 6
      (snd (RecordSuccessUsageInTx mem_env 1 6 ''wallet'' ledger_demo))))) \<noteq> Inr True"
proof -
  let ?w1 = "snd (RecordSuccessUsageInTx mem_env 1 6 ''wallet'' ledger_demo)"
  let ?w2 = "snd (ReleaseSuccessUsageByScanIDInTx mem_env 6 ?w1)"
  have "RecordSuccessUsageInTx mem_env 1 6 ''wallet'' ledger_demo = (Inr (), ?w1)"
    and "ReleaseSuccessUsageByScanIDInTx mem_env 6 ?w1 = (Inr (), ?w2)"
    and "fst (HasSuccessUsageForScanInTx mem_env 6 ?w1) = Inr True"
    by code_simp+
  with ledger_record_release_round_trip [OF mem_world] show ?thesis by blast
qed

lemma uuid_bytes_nth: "i < 16 \<Longrightarrow> uuid_bytes u ! i = ucast (drop_bit (120 - 8 * i) u)"
  by (simp add: uuid_bytes_def)

lemma lock_key_fold:
  fixes u :: uuid
  assumes "n = 96 \<or> n = 64"
  shows "or (or (or (push_bit 24 (ucast (ucast (drop_bit (n + 24) u) :: 8 word)))
           (push_bit 16 (ucast (ucast (drop_bit (n + 16) u) :: 8 word))))
         (push_bit 8 (ucast (ucast (drop_bit (n + 8) u) :: 8 word))))
         (ucast (ucast (drop_bit n u) :: 8 word)) = (ucast (drop_bit n u) :: 32 word)"
proof (rule bit_word_eqI)
  fix i :: nat
  assume "i < LENGTH(32)"
  then consider "i < 8" | "8 \<le> i" "i < 16" | "16 \<le> i" "i < 24" | "24 \<le> i" "i < 32"
    by fastforce
  then show "bit (or (or (or (push_bit 24 (ucast (ucast (drop_bit (n + 24) u) :: 8 word)))
           (push_bit 16 (ucast (ucast (drop_bit (n + 16) u) :: 8 word))))
         (push_bit 8 (ucast (ucast (drop_bit (n + 8) u) :: 8 word))))
         (ucast (ucast (drop_bit n u) :: 8 word)) :: 32 word) i \<longleftrightarrow> bit (ucast (drop_bit n u) :: 32 word) i"
    using assms by cases (auto simp: bit_simps)
qed

lemma lock_key_high: "uuidBytesToLockKeyInt32 (take 4 (uuid_bytes u)) = ucast (drop_bit 96 u)"
  using lock_key_fold [of 96 u] by (simp add: uuidBytesToLockKeyInt32_def uuid_bytes_nth)

lemma lock_key_low:
  "uuidBytesToLockKeyInt32 (take 4 (drop 4 (uuid_bytes u))) = ucast (drop_bit 64 u)"
proof -
  have "length (uuid_bytes u) = 16" by (simp add: uuid_bytes_def)
  then show ?thesis
    using lock_key_fold [of 64 u] by (simp add: uuidBytesToLockKeyInt32_def uuid_bytes_nth)
qed

lemma lock_byte:
  fixes u :: uuid
  assumes "i < 4"
  shows "ucast (drop_bit (n + 24 - 8 * i) u) = (ucast (drop_bit (24 - 8 * i) (ucast (drop_bit n u) :: 32 word)) :: 8 word)"
proof (rule bit_word_eqI)
  fix j :: nat
  assume "j < LENGTH(8)"
  with assms show "bit (ucast (drop_bit (n + 24 - 8 * i) u) :: 8 word) j
      = bit (ucast (drop_bit (24 - 8 * i) (ucast (drop_bit n u) :: 32 word)) :: 8 word) j"
    by (auto simp: bit_simps algebra_simps)
qed

lemma lock_prefix_iff:
  "(ucast (drop_bit 96 u) :: 32 word) = ucast (drop_bit 96 u')
     \<and> (ucast (drop_bit 64 u) :: 32 word) = ucast (drop_bit 64 u')
   \<longleftrightarrow> take 8 (uuid_bytes u) = take 8 (uuid_bytes u')" (is "?keys \<longleftrightarrow> ?bytes")
proof
  assume keys: ?keys
  show ?bytes
  proof (rule nth_equalityI)
    fix i
    assume "i < length (take 8 (uuid_bytes u))"
    then have i: "i < 8" by simp
    show "take 8 (uuid_bytes u) ! i = take 8 (uuid_bytes u') ! i"
    proof (cases "i < 4")
      case True
      then show ?thesis
        using keys lock_byte [of i 96 u] lock_byte [of i 96 u'] by (simp add: uuid_bytes_nth)
    next
      case False
      with i have "i - 4 < 4" and "64 + 24 - 8 * (i - 4) = 120 - 8 * i" by auto
      with i keys lock_byte [of "i - 4" 64 u] lock_byte [of "i - 4" 64 u'] show ?thesis
        by (simp add: uuid_bytes_nth)
    qed
  qed (simp add: uuid_bytes_def)
next
  assume bytes: ?bytes
  have "take 4 xs = take 4 (take 8 xs)" "take 4 (drop 4 xs) = drop 4 (take 8 xs)" for xs :: "8 word list"
    by (simp_all add: take_drop)
  then show ?keys
    using bytes by (metis lock_key_high lock_key_low)
qed

text \<open>
  The advisory lock key of a user and kind is the first eight bytes of the user id read as
  two big-endian 32-bit integers, the second one mixed with a number for the kind: no bit is
  lost in the byte folding, the two quota kinds of one user never share a key, and for one kind
  two users share a key exactly when their ids agree in the first eight bytes.
\<close>

theorem advisory_lock_keys:
  fixes u u' :: uuid
  shows "uuidBytesToLockKeyInt32 (take 4 (uuid_bytes u)) = ucast (drop_bit 96 u)
       \<and> uuidBytesToLockKeyInt32 (take 4 (drop 4 (uuid_bytes u))) = ucast (drop_bit 64 u)
       \<and> userKindAdvisoryLockKey u ScanUsageKindWallet \<noteq> userKindAdvisoryLockKey u ScanUsageKindEndpoint
       \<and> (userKindAdvisoryLockKey u kind = userKindAdvisoryLockKey u' kind
          \<longleftrightarrow> take 8 (uuid_bytes u) = take 8 (uuid_bytes u'))"
proof -
  have kinds: "ScanUsageKindWallet \<noteq> ScanUsageKindEndpoint"
    by (simp add: ScanUsageKindWallet_def ScanUsageKindEndpoint_def)
  have cancel: "xor m x = xor m y \<longleftrightarrow> x = y" for x y m :: "32 word"
    by (metis bit.xor_left_self)
  have cancel': "xor x m = xor y m \<longleftrightarrow> x = y" for x y m :: "32 word"
    using cancel [of m x y] by (simp add: xor.commute)
  show ?thesis
    using kinds by (simp add: userKindAdvisoryLockKey_def Let_def lock_key_high lock_key_low
        lock_prefix_iff cancel cancel')
qed

end
