(* ===== verification/Storage.thy ===== *)
theory Storage
  imports Mem_World
begin

text \<open>
  \<^verbatim>\<open>internal/persistence/storage\<close>: the writers of the scan tables (\<^verbatim>\<open>postgres.go\<close>, one row per
  scan id) and the write-through Redis cache (\<^verbatim>\<open>redis.go\<close>). The \<^verbatim>\<open>InTx\<close> variants differ from the
  others in the handle only, which the model does not have.

  Conventions of gorm that the definitions spell out: a query or update on a soft-deleted entity
  sees live rows only (\<^verbatim>\<open>deleted_at IS NULL\<close>); a create runs the \<^verbatim>\<open>BeforeCreate\<close> hook and fills
  zero \<^verbatim>\<open>created_at\<close> and \<^verbatim>\<open>updated_at\<close> with one reading of the clock; an update from a struct
  stamps \<^verbatim>\<open>updated_at\<close> in the row and in the struct; a delete sets \<^verbatim>\<open>deleted_at\<close>.
\<close>

section \<open>TLS rows\<close>

definition tls_live_id :: "uuid \<Rightarrow> TLSScanResultEntity \<Rightarrow> bool" where
  "tls_live_id scanID r \<longleftrightarrow> tls_DeletedAt r = None \<and> tls_ID r = scanID"

definition TLSScanResultEntity_BeforeCreate ::
  "'w env \<Rightarrow> TLSScanResultEntity \<Rightarrow> ('w, go_error, TLSScanResultEntity) prog" where
  "TLSScanResultEntity_BeforeCreate E t =
     (if tls_ID t = uuid_Nil then bindP (newUUIDP E) (\<lambda>u. returnP (t\<lparr>tls_ID := u\<rparr>))
      else returnP t)"

definition tls_Create :: "'w env \<Rightarrow> TLSScanResultEntity \<Rightarrow> ('w, go_error, unit) prog" where
  "tls_Create E ent =
     bindP (TLSScanResultEntity_BeforeCreate E ent) (\<lambda>ent.
     bindP (nowP E) (\<lambda>now.
     gorm_Create (tls_scan_results E) (ent\<lparr>
       tls_CreatedAt := (if tls_CreatedAt ent = 0 then now else tls_CreatedAt ent),
       tls_UpdatedAt := (if tls_UpdatedAt ent = 0 then now else tls_UpdatedAt ent)\<rparr>)))"

definition TLSWriter_GetStatus :: "'w env \<Rightarrow> uuid \<Rightarrow> ('w, go_error, string) prog" where
  "TLSWriter_GetStatus E scanID =
     catchP
       (bindP (gorm_First (tls_scan_results E) (tls_live_id scanID)) (\<lambda>ent.
        returnP (tls_Status ent)))
       (\<lambda>err. if err = ErrRecordNotFound then returnP '''' else throwP err)"

definition defaultAlreadyReplaced :: "'w env \<Rightarrow> uuid \<Rightarrow> ('w, go_error, bool) prog" where
  "defaultAlreadyReplaced E scanID =
     bindP (gorm_Count (tls_scan_results E) (\<lambda>r. tls_ID r = scanID \<and> tls_DeletedAt r \<noteq> None))
       (\<lambda>n. returnP (n > 0))"

definition replacePreviousDefault :: "'w env \<Rightarrow> uuid \<Rightarrow> string \<Rightarrow> ('w, go_error, unit) prog" where
  "replacePreviousDefault E scanID url =
     bindP (nowP E) (\<lambda>now.
     bindP (gorm_Updates (tls_scan_results E)
        (\<lambda>r. tls_DeletedAt r = None \<and> tls_UserID r = None \<and> tls_URL r = url \<and> tls_ID r \<noteq> scanID)
        (\<lambda>r. r\<lparr>tls_DeletedAt := Some now\<rparr>)) (\<lambda>_.
     returnP ()))"

definition TLSWriter_OnStarted ::
  "'w env \<Rightarrow> uuid \<Rightarrow> uuid option \<Rightarrow> string \<Rightarrow> ('w, go_error, unit) prog" where
  "TLSWriter_OnStarted E scanID userID url =
     bindP (TLSWriter_GetStatus E scanID) (\<lambda>current.
     if current \<noteq> '''' then returnP ()
     else
       bindP (if userID = None then defaultAlreadyReplaced E scanID else returnP False) (\<lambda>replaced.
       if replaced then returnP ()
       else
         bindP (tls_Create E (zero_TLSScanResultEntity\<lparr>
           tls_ID := scanID, tls_UserID := userID, tls_URL := url, tls_Status := StateRUNNING,
           tls_Default := (userID = None)\<rparr>)) (\<lambda>_.
         if userID = None then replacePreviousDefault E scanID url
         else returnP ())))"

definition TLSWriter_OnCompletedInTx ::
  "'w env \<Rightarrow> uuid \<Rightarrow> TLSScanResultEntity \<Rightarrow> ('w, go_error, unit) prog" where
  "TLSWriter_OnCompletedInTx E scanID entity =
     (let entity = entity\<lparr>tls_ID := scanID, tls_Status := StateSUCCESS, tls_Error := ''''\<rparr>
      in bindP (nowP E) (\<lambda>now.
         let entity = entity\<lparr>tls_UpdatedAt := now\<rparr>
         in bindP (gorm_Updates (tls_scan_results E) (tls_live_id scanID)
              (\<lambda>r. entity\<lparr>tls_CreatedAt := tls_CreatedAt r\<rparr>)) (\<lambda>rowsAffected.
            if rowsAffected = 0 then tls_Create E entity else returnP ())))"

definition TLSWriter_OnCompleted ::
  "'w env \<Rightarrow> uuid \<Rightarrow> TLSScanResultEntity \<Rightarrow> ('w, go_error, unit) prog" where
  "TLSWriter_OnCompleted E scanID entity = TLSWriter_OnCompletedInTx E scanID entity"

definition TLSWriter_OnPlanLimitExceededInTx ::
  "'w env \<Rightarrow> uuid \<Rightarrow> uuid option \<Rightarrow> string \<Rightarrow> ('w, go_error, unit) prog" where
  "TLSWriter_OnPlanLimitExceededInTx E scanID userID url =
     bindP (nowP E) (\<lambda>now.
     bindP (gorm_Updates (tls_scan_results E) (tls_live_id scanID) (\<lambda>r. r\<lparr>
        tls_Status := StateFAILED, tls_Error := ErrPlanLimitExceeded, tls_Host := '''',
        tls_Port := 0, tls_ProtocolVersion := '''', tls_NISTLevel := 0, tls_RiskScore := 0,
        tls_PQCRisk := '''', tls_Certificate := '''', tls_CipherSuites := '''',
        tls_SupportedPQCs := '''', tls_Recommendations := '''', tls_NISTLevels := '''',
        tls_UpdatedAt := now\<rparr>)) (\<lambda>rowsAffected.
     if rowsAffected = 0 then
       tls_Create E (zero_TLSScanResultEntity\<lparr>
         tls_ID := scanID, tls_UserID := userID, tls_URL := url,
         tls_Status := StateFAILED, tls_Error := ErrPlanLimitExceeded\<rparr>)
     else returnP ()))"

definition TLSWriter_OnFailedInTx ::
  "'w env \<Rightarrow> uuid \<Rightarrow> uuid option \<Rightarrow> string \<Rightarrow> string \<Rightarrow> ('w, go_error, unit) prog" where
  "TLSWriter_OnFailedInTx E scanID userID url errMsg =
     bindP (nowP E) (\<lambda>now.
     bindP (gorm_Updates (tls_scan_results E) (tls_live_id scanID) (\<lambda>r. r\<lparr>
        tls_Status := StateFAILED, tls_Error := errMsg, tls_UpdatedAt := now\<rparr>)) (\<lambda>rowsAffected.
     if rowsAffected = 0 then
       tls_Create E (zero_TLSScanResultEntity\<lparr>
         tls_ID := scanID, tls_UserID := userID, tls_URL := url, tls_Host := '''', tls_Port := 0,
         tls_ProtocolVersion := ''unknown'', tls_NISTLevel := NISTLevel1, tls_RiskScore := 0,
         tls_PQCRisk := ''unknown'', tls_Status := StateFAILED, tls_Error := errMsg\<rparr>)
     else returnP ()))"

definition TLSWriter_OnFailed ::
  "'w env \<Rightarrow> uuid \<Rightarrow> uuid option \<Rightarrow> string \<Rightarrow> string \<Rightarrow> ('w, go_error, unit) prog" where
  "TLSWriter_OnFailed E scanID userID url errMsg = TLSWriter_OnFailedInTx E scanID userID url errMsg"

section \<open>Wallet rows\<close>

definition sr_live_id :: "uuid \<Rightarrow> ScanResultEntity \<Rightarrow> bool" where
  "sr_live_id scanID r \<longleftrightarrow> sr_DeletedAt r = None \<and> sr_ID r = scanID"

definition ScanResultEntity_BeforeCreate ::
  "'w env \<Rightarrow> ScanResultEntity \<Rightarrow> ('w, go_error, ScanResultEntity) prog" where
  "ScanResultEntity_BeforeCreate E s =
     (if sr_ID s = uuid_Nil then bindP (newUUIDP E) (\<lambda>u. returnP (s\<lparr>sr_ID := u\<rparr>))
      else returnP s)"

text \<open>The row a create writes, and the create itself.\<close>

definition sr_stamped :: "'w env \<Rightarrow> ScanResultEntity \<Rightarrow> ('w, go_error, ScanResultEntity) prog" where
  "sr_stamped E ent =
     bindP (ScanResultEntity_BeforeCreate E ent) (\<lambda>ent.
     bindP (nowP E) (\<lambda>now.
     returnP (ent\<lparr>
       sr_CreatedAt := (if sr_CreatedAt ent = 0 then now else sr_CreatedAt ent),
       sr_UpdatedAt := (if sr_UpdatedAt ent = 0 then now else sr_UpdatedAt ent)\<rparr>)))"

definition sr_Create :: "'w env \<Rightarrow> ScanResultEntity \<Rightarrow> ('w, go_error, unit) prog" where
  "sr_Create E ent = bindP (sr_stamped E ent) (gorm_Create (scan_results E))"

definition WalletWriter_GetStatus :: "'w env \<Rightarrow> uuid \<Rightarrow> ('w, go_error, string) prog" where
  "WalletWriter_GetStatus E scanID =
     catchP
       (bindP (gorm_First (scan_results E) (sr_live_id scanID)) (\<lambda>ent.
        returnP (sr_Status ent)))
       (\<lambda>err. if err = ErrRecordNotFound then returnP '''' else throwP err)"

definition WalletWriter_OnStarted ::
  "'w env \<Rightarrow> uuid \<Rightarrow> uuid \<Rightarrow> string \<Rightarrow> ('w, go_error, unit) prog" where
  "WalletWriter_OnStarted E scanID userID address =
     bindP (WalletWriter_GetStatus E scanID) (\<lambda>current.
     if current \<noteq> '''' then returnP ()
     else sr_Create E (zero_ScanResultEntity\<lparr>
       sr_ID := scanID, sr_UserID := userID, sr_Address := address, sr_Status := StateRUNNING\<rparr>))"

definition WalletWriter_OnCompletedInTx ::
  "'w env \<Rightarrow> uuid \<Rightarrow> ScanResultEntity \<Rightarrow> ('w, go_error, unit) prog" where
  "WalletWriter_OnCompletedInTx E scanID entity =
     (let entity = entity\<lparr>sr_ID := scanID, sr_Status := StateSUCCESS, sr_Error := ''''\<rparr>
      in bindP (nowP E) (\<lambda>now.
         let entity = entity\<lparr>sr_UpdatedAt := now\<rparr>
         in bindP (gorm_Updates (scan_results E) (sr_live_id scanID)
              (\<lambda>r. entity\<lparr>sr_CreatedAt := sr_CreatedAt r\<rparr>)) (\<lambda>rowsAffected.
            if rowsAffected = 0 then sr_Create E entity else returnP ())))"

definition WalletWriter_OnCompleted ::
  "'w env \<Rightarrow> uuid \<Rightarrow> ScanResultEntity \<Rightarrow> ('w, go_error, unit) prog" where
  "WalletWriter_OnCompleted E scanID entity = WalletWriter_OnCompletedInTx E scanID entity"

definition WalletWriter_OnPlanLimitExceededInTx ::
  "'w env \<Rightarrow> uuid \<Rightarrow> uuid \<Rightarrow> string \<Rightarrow> ('w, go_error, unit) prog" where
  "WalletWriter_OnPlanLimitExceededInTx E scanID userID address =
     bindP (nowP E) (\<lambda>now.
     bindP (gorm_Updates (scan_results E) (sr_live_id scanID) (\<lambda>r. r\<lparr>
        sr_Status := StateFAILED, sr_Error := ErrPlanLimitExceeded, sr_Type := '''',
        sr_Algorithm := '''', sr_NISTLevel := 0, sr_KeyExposed := False, sr_PublicKey := '''',
        sr_TransactionHash := '''', sr_ExposedNetwork := '''', sr_PublicKeyRecovery := '''',
        sr_IsEOA := False, sr_IsERC4337 := False, sr_RiskScore := 0, sr_Networks := '''',
        sr_Delegations := '''', sr_Connections := '''', sr_UpdatedAt := now\<rparr>)) (\<lambda>rowsAffected.
     if rowsAffected = 0 then
       sr_Create E (zero_ScanResultEntity\<lparr>
         sr_ID := scanID, sr_UserID := userID, sr_Address := address,
         sr_Status := StateFAILED, sr_Error := ErrPlanLimitExceeded\<rparr>)
     else returnP ()))"

definition WalletWriter_OnFailedInTx ::
  "'w env \<Rightarrow> uuid \<Rightarrow> uuid \<Rightarrow> string \<Rightarrow> string \<Rightarrow> ('w, go_error, unit) prog" where
  "WalletWriter_OnFailedInTx E scanID userID address errMsg =
     bindP (nowP E) (\<lambda>now.
     bindP (gorm_Updates (scan_results E) (sr_live_id scanID) (\<lambda>r. r\<lparr>
        sr_Status := StateFAILED, sr_Error := errMsg, sr_UpdatedAt := now\<rparr>)) (\<lambda>rowsAffected.
     if rowsAffected = 0 then
       sr_Create E (zero_ScanResultEntity\<lparr>
         sr_ID := scanID, sr_UserID := userID, sr_Address := address,
         sr_Status := StateFAILED, sr_Error := errMsg\<rparr>)
     else returnP ()))"

definition WalletWriter_OnFailed ::
  "'w env \<Rightarrow> uuid \<Rightarrow> uuid \<Rightarrow> string \<Rightarrow> string \<Rightarrow> ('w, go_error, unit) prog" where
  "WalletWriter_OnFailed E scanID userID address errMsg =
     WalletWriter_OnFailedInTx E scanID userID address errMsg"

section \<open>The Redis cache\<close>

definition tlsKeyPrefix :: string where "tlsKeyPrefix = ''tls:user:''"
definition walletKeyPrefix :: string where "walletKeyPrefix = ''wallet:user:''"

definition scanResultTTL :: gotime where "scanResultTTL = 30 * 60 * 1000000000"

definition tls_key :: "'w env \<Rightarrow> uuid \<Rightarrow> string \<Rightarrow> string" where
  "tls_key E userID url = tlsKeyPrefix @ uuid_String E userID @ '':'' @ url"

definition wallet_key :: "'w env \<Rightarrow> uuid \<Rightarrow> string \<Rightarrow> string" where
  "wallet_key E userID address = walletKeyPrefix @ uuid_String E userID @ '':'' @ address"

definition SaveTLSScan ::
  "'w env \<Rightarrow> uuid \<Rightarrow> string \<Rightarrow> TLSScanResult \<Rightarrow> ('w, go_error, unit) prog" where
  "SaveTLSScan E userID url result =
     (case json_Marshal_TLSScanResult E result of
        None \<Rightarrow> throwP (Wrapped ''marshal tls result'' (ErrorNew ''json: unsupported value''))
      | Some data \<Rightarrow>
          mapErrP (\<lambda>e. Wrapped ''redis set'' (ServiceError e))
            (redis_Set E (tls_key E userID url) data scanResultTTL))"

definition SaveWalletScan ::
  "'w env \<Rightarrow> uuid \<Rightarrow> string \<Rightarrow> ScanResult \<Rightarrow> ('w, go_error, unit) prog" where
  "SaveWalletScan E userID address result =
     (case json_Marshal_ScanResult E result of
        None \<Rightarrow> throwP (Wrapped ''marshal wallet result'' (ErrorNew ''json: unsupported value''))
      | Some data \<Rightarrow>
          mapErrP (\<lambda>e. Wrapped ''redis set'' (ServiceError e))
            (redis_Set E (wallet_key E userID address) data scanResultTTL))"

text \<open>A Go map is marshalled with its keys in order.\<close>

definition failure_payload :: "string \<Rightarrow> string" where
  "failure_payload errMsg =
     json_text (JObj [(''error'', JStr errMsg), (''status'', JStr ''FAILED'')])"

definition SaveTLSFailure ::
  "'w env \<Rightarrow> uuid \<Rightarrow> string \<Rightarrow> string \<Rightarrow> ('w, go_error, unit) prog" where
  "SaveTLSFailure E userID url errMsg =
     mapErrP ServiceError
       (redis_Set E (tls_key E userID url) (failure_payload errMsg) scanResultTTL)"

definition SaveWalletFailure ::
  "'w env \<Rightarrow> uuid \<Rightarrow> string \<Rightarrow> string \<Rightarrow> ('w, go_error, unit) prog" where
  "SaveWalletFailure E userID address errMsg =
     mapErrP ServiceError
       (redis_Set E (wallet_key E userID address) (failure_payload errMsg) scanResultTTL)"

definition DeleteWalletScan :: "'w env \<Rightarrow> uuid \<Rightarrow> string \<Rightarrow> ('w, go_error, unit) prog" where
  "DeleteWalletScan E userID address =
     mapErrP (\<lambda>e. Wrapped ''redis del wallet scan cache'' (ServiceError e))
       (redis_Del E (wallet_key E userID address))"

definition DeleteTLSScan :: "'w env \<Rightarrow> uuid \<Rightarrow> string \<Rightarrow> ('w, go_error, unit) prog" where
  "DeleteTLSScan E userID url =
     mapErrP (\<lambda>e. Wrapped ''redis del tls scan cache'' (ServiceError e))
       (redis_Del E (tls_key E userID url))"

section \<open>Rules for the writers\<close>

text \<open>The rows of the other scans, and the live row of one.\<close>

definition tls_others :: "uuid \<Rightarrow> sys \<Rightarrow> TLSScanResultEntity multiset" where
  "tls_others scanID v = filter_mset (\<lambda>r. tls_ID r \<noteq> scanID) (v_tls_scan_results v)"

definition tls_row :: "sys \<Rightarrow> uuid \<Rightarrow> TLSScanResultEntity \<Rightarrow> bool" where
  "tls_row v scanID r \<longleftrightarrow> r \<in># v_tls_scan_results v \<and> tls_live_id scanID r"

definition sr_others :: "uuid \<Rightarrow> sys \<Rightarrow> ScanResultEntity multiset" where
  "sr_others scanID v = filter_mset (\<lambda>r. sr_ID r \<noteq> scanID) (v_scan_results v)"

definition sr_row :: "sys \<Rightarrow> uuid \<Rightarrow> ScanResultEntity \<Rightarrow> bool" where
  "sr_row v scanID r \<longleftrightarrow> r \<in># v_scan_results v \<and> sr_live_id scanID r"

text \<open>A row as a create leaves it: id and times may be filled in.\<close>

definition tls_created :: "TLSScanResultEntity \<Rightarrow> TLSScanResultEntity \<Rightarrow> bool" where
  "tls_created ent r \<longleftrightarrow> (\<exists>i c u. r = ent\<lparr>tls_ID := i, tls_CreatedAt := c, tls_UpdatedAt := u\<rparr>
     \<and> (tls_ID ent \<noteq> uuid_Nil \<longrightarrow> i = tls_ID ent))"

definition sr_created :: "ScanResultEntity \<Rightarrow> ScanResultEntity \<Rightarrow> bool" where
  "sr_created ent r \<longleftrightarrow> (\<exists>i c u. r = ent\<lparr>sr_ID := i, sr_CreatedAt := c, sr_UpdatedAt := u\<rparr>
     \<and> (sr_ID ent \<noteq> uuid_Nil \<longrightarrow> i = sr_ID ent))"

lemma no_row_of_id:
  "filter_mset (tls_conflict r) M = {#} \<Longrightarrow> filter_mset (\<lambda>s. tls_ID s \<noteq> tls_ID r) M = M"
  by (auto simp: tls_conflict_def filter_mset_eq_conv)

lemma no_wallet_row_of_id:
  "filter_mset (wallet_conflict r) M = {#} \<Longrightarrow> filter_mset (\<lambda>s. sr_ID s \<noteq> sr_ID r) M = M"
  by (auto simp: wallet_conflict_def filter_mset_eq_conv)

text \<open>
  The abstract write: the row \<open>r\<close> under its id. \<open>tls_content\<close> forgets what a create fills in.
\<close>

definition tls_store :: "TLSScanResultEntity \<Rightarrow> sys \<Rightarrow> sys" where
  "tls_store r v = v\<lparr>v_tls_scan_results := add_mset r (tls_others (tls_ID r) v)\<rparr>"

definition sr_store :: "ScanResultEntity \<Rightarrow> sys \<Rightarrow> sys" where
  "sr_store r v = v\<lparr>v_scan_results := add_mset r (sr_others (sr_ID r) v)\<rparr>"

definition tls_content :: "TLSScanResultEntity \<Rightarrow> TLSScanResultEntity" where
  "tls_content r = r\<lparr>tls_ID := uuid_Nil, tls_CreatedAt := 0, tls_UpdatedAt := 0\<rparr>"

definition sr_content :: "ScanResultEntity \<Rightarrow> ScanResultEntity" where
  "sr_content r = r\<lparr>sr_ID := uuid_Nil, sr_CreatedAt := 0, sr_UpdatedAt := 0\<rparr>"

text \<open>
  \<open>tls_written v scanID new upd r\<close>: \<open>r\<close> is what an update-or-insert of the scan leaves, \<open>upd\<close>
  applied to the live row when there is one, and a created \<open>new\<close> otherwise.
\<close>

definition tls_written ::
  "sys \<Rightarrow> uuid \<Rightarrow> (TLSScanResultEntity \<Rightarrow> TLSScanResultEntity) \<Rightarrow> TLSScanResultEntity
   \<Rightarrow> TLSScanResultEntity \<Rightarrow> bool" where
  "tls_written v scanID upd new r \<longleftrightarrow>
     (\<exists>old. tls_row v scanID old \<and> tls_content r = tls_content (upd old) \<and> tls_ID r = scanID
        \<and> tls_CreatedAt r = tls_CreatedAt old)
     \<or> ((\<nexists>old. tls_row v scanID old) \<and> v_tls_scan_results v = tls_others (tls_ID r) v
        \<and> tls_content r = tls_content new \<and> (scanID \<noteq> uuid_Nil \<longrightarrow> tls_ID r = scanID))"

definition sr_written ::
  "sys \<Rightarrow> uuid \<Rightarrow> (ScanResultEntity \<Rightarrow> ScanResultEntity) \<Rightarrow> ScanResultEntity
   \<Rightarrow> ScanResultEntity \<Rightarrow> bool" where
  "sr_written v scanID upd new r \<longleftrightarrow>
     (\<exists>old. sr_row v scanID old \<and> sr_content r = sr_content (upd old) \<and> sr_ID r = scanID
        \<and> sr_CreatedAt r = sr_CreatedAt old)
     \<or> ((\<nexists>old. sr_row v scanID old) \<and> v_scan_results v = sr_others (sr_ID r) v
        \<and> sr_content r = sr_content new \<and> (scanID \<noteq> uuid_Nil \<longrightarrow> sr_ID r = scanID))"

text \<open>The rows the TLS writer means to write.\<close>

definition tls_success :: "TLSScanResultEntity \<Rightarrow> TLSScanResultEntity" where
  "tls_success entity = entity\<lparr>tls_Status := StateSUCCESS, tls_Error := ''''\<rparr>"

definition tls_stripped :: "TLSScanResultEntity \<Rightarrow> TLSScanResultEntity" where
  "tls_stripped r = r\<lparr>
     tls_Status := StateFAILED, tls_Error := ErrPlanLimitExceeded, tls_Host := '''', tls_Port := 0,
     tls_ProtocolVersion := '''', tls_NISTLevel := 0, tls_RiskScore := 0, tls_PQCRisk := '''',
     tls_Certificate := '''', tls_CipherSuites := '''', tls_SupportedPQCs := '''',
     tls_Recommendations := '''', tls_NISTLevels := ''''\<rparr>"

definition tls_over_limit :: "uuid option \<Rightarrow> string \<Rightarrow> TLSScanResultEntity" where
  "tls_over_limit userID url = zero_TLSScanResultEntity\<lparr>tls_UserID := userID, tls_URL := url,
     tls_Status := StateFAILED, tls_Error := ErrPlanLimitExceeded\<rparr>"

definition tls_failure :: "uuid option \<Rightarrow> string \<Rightarrow> string \<Rightarrow> TLSScanResultEntity" where
  "tls_failure userID url errMsg = zero_TLSScanResultEntity\<lparr>tls_UserID := userID, tls_URL := url,
     tls_ProtocolVersion := ''unknown'', tls_NISTLevel := NISTLevel1, tls_PQCRisk := ''unknown'',
     tls_Status := StateFAILED, tls_Error := errMsg\<rparr>"

definition tls_running :: "uuid \<Rightarrow> uuid option \<Rightarrow> string \<Rightarrow> TLSScanResultEntity" where
  "tls_running scanID userID url = zero_TLSScanResultEntity\<lparr>tls_ID := scanID,
     tls_UserID := userID, tls_URL := url, tls_Status := StateRUNNING, tls_Default := (userID = None)\<rparr>"

text \<open>The live catalog rows of a URL other than the one of the scan, and their soft delete.\<close>

definition tls_previous_default :: "uuid \<Rightarrow> string \<Rightarrow> TLSScanResultEntity \<Rightarrow> bool" where
  "tls_previous_default scanID url r \<longleftrightarrow>
     tls_DeletedAt r = None \<and> tls_UserID r = None \<and> tls_URL r = url \<and> tls_ID r \<noteq> scanID"

definition tls_retire :: "gotime \<Rightarrow> uuid \<Rightarrow> string \<Rightarrow> sys \<Rightarrow> sys" where
  "tls_retire now scanID url v = v\<lparr>v_tls_scan_results :=
     image_mset (\<lambda>r. if tls_previous_default scanID url r then r\<lparr>tls_DeletedAt := Some now\<rparr> else r)
       (v_tls_scan_results v)\<rparr>"

definition sr_success :: "ScanResultEntity \<Rightarrow> ScanResultEntity" where
  "sr_success entity = entity\<lparr>sr_Status := StateSUCCESS, sr_Error := ''''\<rparr>"

definition sr_stripped :: "ScanResultEntity \<Rightarrow> ScanResultEntity" where
  "sr_stripped r = r\<lparr>sr_Status := StateFAILED, sr_Error := ErrPlanLimitExceeded, sr_Type := '''',
     sr_Algorithm := '''', sr_NISTLevel := 0, sr_KeyExposed := False, sr_PublicKey := '''',
     sr_TransactionHash := '''', sr_ExposedNetwork := '''', sr_PublicKeyRecovery := '''',
     sr_IsEOA := False, sr_IsERC4337 := False, sr_RiskScore := 0, sr_Networks := '''',
     sr_Delegations := '''', sr_Connections := ''''\<rparr>"

definition sr_over_limit :: "uuid \<Rightarrow> string \<Rightarrow> ScanResultEntity" where
  "sr_over_limit userID address = zero_ScanResultEntity\<lparr>sr_UserID := userID,
     sr_Address := address, sr_Status := StateFAILED, sr_Error := ErrPlanLimitExceeded\<rparr>"

context world
begin

lemma unique_tls_row: "tls_row (view w) scanID r \<Longrightarrow> tls_row (view w) scanID r' \<Longrightarrow> r = r'"
proof -
  assume r: "tls_row (view w) scanID r" and r': "tls_row (view w) scanID r'"
  then have "r' \<in># filter_mset (tls_conflict r) (v_tls_scan_results (view w))"
    by (simp add: tls_row_def tls_live_id_def tls_conflict_def)
  with tls.unique_rows [of r w] r show "r = r'" by (simp add: tls_row_def)
qed

lemma unique_sr_row: "sr_row (view w) scanID r \<Longrightarrow> sr_row (view w) scanID r' \<Longrightarrow> r = r'"
proof -
  assume r: "sr_row (view w) scanID r" and r': "sr_row (view w) scanID r'"
  then have "r' \<in># filter_mset (wallet_conflict r) (v_scan_results (view w))"
    by (simp add: sr_row_def sr_live_id_def wallet_conflict_def)
  with wallet.unique_rows [of r w] r show "r = r'" by (simp add: sr_row_def)
qed

lemma wp_tls_BeforeCreate:
  assumes "\<And>i. (tls_ID ent \<noteq> uuid_Nil \<longrightarrow> i = tls_ID ent) \<Longrightarrow> Q (Inr (ent\<lparr>tls_ID := i\<rparr>)) v"
  shows "wp view (TLSScanResultEntity_BeforeCreate E ent) Q v"
  unfolding TLSScanResultEntity_BeforeCreate_def
  using assms [of "tls_ID ent"] by (auto intro!: wp_intro assms)

lemma wp_tls_Create:
  assumes "\<And>r. tls_created ent r \<Longrightarrow> v_tls_scan_results v = tls_others (tls_ID r) v
             \<Longrightarrow> Q (Inr ()) (v\<lparr>v_tls_scan_results := add_mset r (v_tls_scan_results v)\<rparr>)"
    and "\<And>d. Q (Inl (SqlError d)) v"
  shows "wp view (tls_Create E ent) Q v"
proof -
  have created: "Q (Inr ()) (v\<lparr>v_tls_scan_results := add_mset r (v_tls_scan_results v)\<rparr>)"
    if "filter_mset (tls_conflict r) (v_tls_scan_results v) = {#}"
      and "r = ent\<lparr>tls_ID := i, tls_CreatedAt := c, tls_UpdatedAt := u\<rparr>"
      and "tls_ID ent \<noteq> uuid_Nil \<longrightarrow> i = tls_ID ent" for r i c u
    using that(2,3) no_row_of_id [OF that(1)]
    by (intro assms(1)) (auto simp: tls_created_def tls_others_def)
  show ?thesis
    unfolding tls_Create_def
    by (intro wp_intro wp_tls_BeforeCreate tls.wp_Create assms(2)) (rule created, assumption, auto)
qed

lemma wp_tls_update_or:
  assumes "\<And>r. tls_row v scanID r
            \<Longrightarrow> Q (Inr ()) (v\<lparr>v_tls_scan_results := add_mset (f r) (tls_others scanID v)\<rparr>)"
    and "(\<nexists>r. tls_row v scanID r) \<Longrightarrow> wp view m Q v"
    and "\<And>d. Q (Inl (SqlError d)) v"
  shows "wp view (bindP (gorm_Updates (tls_scan_results E) (tls_live_id scanID) f)
      (\<lambda>n. if n = 0 then m else returnP ())) Q v"
  by (intro wp_bind tls.wp_Updates_key [where key = tls_ID and k = scanID] case_sum_InrI
      case_sum_InlI assms(3))
    (use assms(1,2) in \<open>auto simp: tls_conflict_def tls_live_id_def tls_row_def tls_others_def
       intro!: wp_return\<close>)

lemma wp_sr_stamped:
  assumes "\<And>r. sr_created ent r \<Longrightarrow> Q (Inr r) v"
  shows "wp view (sr_stamped E ent) Q v"
proof -
  have "Q (Inr (ent\<lparr>sr_ID := i, sr_CreatedAt := c, sr_UpdatedAt := u\<rparr>)) v"
    if "sr_ID ent \<noteq> uuid_Nil \<longrightarrow> i = sr_ID ent" for i c u
    using that by (intro assms) (auto simp: sr_created_def)
  note created = this this [of "sr_ID ent", simplified]
  show ?thesis
    unfolding sr_stamped_def ScanResultEntity_BeforeCreate_def
    by (intro wp_intro) (simp_all add: created)
qed

lemma wp_sr_Create:
  assumes "\<And>r. sr_created ent r \<Longrightarrow> v_scan_results v = sr_others (sr_ID r) v
             \<Longrightarrow> Q (Inr ()) (v\<lparr>v_scan_results := add_mset r (v_scan_results v)\<rparr>)"
    and "\<And>d. Q (Inl (SqlError d)) v"
  shows "wp view (sr_Create E ent) Q v"
  unfolding sr_Create_def
  by (intro wp_intro wp_sr_stamped wallet.wp_Create assms)
    (simp_all only: sr_others_def no_wallet_row_of_id)

lemma wp_sr_update_or:
  assumes "\<And>r. sr_row v scanID r
            \<Longrightarrow> Q (Inr ()) (v\<lparr>v_scan_results := add_mset (f r) (sr_others scanID v)\<rparr>)"
    and "(\<nexists>r. sr_row v scanID r) \<Longrightarrow> wp view m Q v"
    and "\<And>d. Q (Inl (SqlError d)) v"
  shows "wp view (bindP (gorm_Updates (scan_results E) (sr_live_id scanID) f)
      (\<lambda>n. if n = 0 then m else returnP ())) Q v"
  by (intro wp_bind wallet.wp_Updates_key [where key = sr_ID and k = scanID] case_sum_InrI
      case_sum_InlI assms(3))
    (use assms(1,2) in \<open>auto simp: wallet_conflict_def sr_live_id_def sr_row_def sr_others_def
       intro!: wp_return\<close>)

lemma wp_tls_GetStatus:
  assumes "(\<nexists>r. tls_row v scanID r) \<Longrightarrow> Q (Inr '''') v"
    and "\<And>r. tls_row v scanID r \<Longrightarrow> Q (Inr (tls_Status r)) v"
    and "\<And>d. Q (Inl (SqlError d)) v"
  shows "wp view (TLSWriter_GetStatus E scanID) Q v"
  unfolding TLSWriter_GetStatus_def
  using assms by (auto simp: tls_row_def intro!: wp_intro tls.wp_First)

lemma wp_sr_GetStatus:
  assumes "(\<nexists>r. sr_row v scanID r) \<Longrightarrow> Q (Inr '''') v"
    and "\<And>r. sr_row v scanID r \<Longrightarrow> Q (Inr (sr_Status r)) v"
    and "\<And>d. Q (Inl (SqlError d)) v"
  shows "wp view (WalletWriter_GetStatus E scanID) Q v"
  unfolding WalletWriter_GetStatus_def
  using assms by (auto simp: sr_row_def intro!: wp_intro wallet.wp_First)

text \<open>
  Every successful write of a writer stores one row: the row replaces whatever was there under
  its id, and every other row stays.
\<close>

lemma wp_tls_upsert:
  assumes ok: "\<And>r. tls_written v scanID upd new r \<Longrightarrow> Q (Inr ()) (tls_store r v)"
    and err: "\<And>d. Q (Inl (SqlError d)) v"
    and upd: "\<And>old. tls_row v scanID old \<Longrightarrow> tls_content (f old) = tls_content (upd old)
        \<and> tls_ID (f old) = scanID \<and> tls_CreatedAt (f old) = tls_CreatedAt old"
    and new: "tls_content ent = tls_content new" "tls_ID ent = scanID"
  shows "wp view (bindP (gorm_Updates (tls_scan_results E) (tls_live_id scanID) f)
      (\<lambda>n. if n = 0 then tls_Create E ent else returnP ())) Q v"
proof (intro wp_tls_update_or wp_tls_Create err)
  fix old
  assume row: "tls_row v scanID old"
  then have "tls_written v scanID upd new (f old)"
    using upd [OF row] by (auto simp: tls_written_def)
  then show "Q (Inr ()) (v\<lparr>v_tls_scan_results := add_mset (f old) (tls_others scanID v)\<rparr>)"
    using ok upd [OF row] by (auto simp: tls_store_def)
next
  fix r
  assume "\<nexists>old. tls_row v scanID old" and "tls_created ent r"
    and all: "v_tls_scan_results v = tls_others (tls_ID r) v"
  then have "tls_written v scanID upd new r"
    using new by (auto simp: tls_written_def tls_created_def tls_content_def)
  then have "Q (Inr ()) (tls_store r v)" by (rule ok)
  then show "Q (Inr ()) (v\<lparr>v_tls_scan_results := add_mset r (v_tls_scan_results v)\<rparr>)"
    using all by (simp add: tls_store_def)
qed

lemma wp_sr_upsert:
  assumes ok: "\<And>r. sr_written v scanID upd new r \<Longrightarrow> Q (Inr ()) (sr_store r v)"
    and err: "\<And>d. Q (Inl (SqlError d)) v"
    and upd: "\<And>old. sr_row v scanID old \<Longrightarrow> sr_content (f old) = sr_content (upd old)
        \<and> sr_ID (f old) = scanID \<and> sr_CreatedAt (f old) = sr_CreatedAt old"
    and new: "sr_content ent = sr_content new" "sr_ID ent = scanID"
  shows "wp view (bindP (gorm_Updates (scan_results E) (sr_live_id scanID) f)
      (\<lambda>n. if n = 0 then sr_Create E ent else returnP ())) Q v"
proof (intro wp_sr_update_or wp_sr_Create err)
  fix old
  assume row: "sr_row v scanID old"
  then have "sr_written v scanID upd new (f old)"
    using upd [OF row] by (auto simp: sr_written_def)
  then show "Q (Inr ()) (v\<lparr>v_scan_results := add_mset (f old) (sr_others scanID v)\<rparr>)"
    using ok upd [OF row] by (auto simp: sr_store_def)
next
  fix r
  assume "\<nexists>old. sr_row v scanID old" and "sr_created ent r"
    and all: "v_scan_results v = sr_others (sr_ID r) v"
  then have "sr_written v scanID upd new r"
    using new by (auto simp: sr_written_def sr_created_def sr_content_def)
  then have "Q (Inr ()) (sr_store r v)" by (rule ok)
  then show "Q (Inr ()) (v\<lparr>v_scan_results := add_mset r (v_scan_results v)\<rparr>)"
    using all by (simp add: sr_store_def)
qed

lemma wp_tls_OnCompleted:
  assumes "\<And>r. tls_written v scanID (\<lambda>_. tls_success entity) (tls_success entity) r
             \<Longrightarrow> Q (Inr ()) (tls_store r v)"
    and "\<And>d. Q (Inl (SqlError d)) v"
  shows "wp view (TLSWriter_OnCompletedInTx E scanID entity) Q v"
  unfolding TLSWriter_OnCompletedInTx_def Let_def
  by (rule wp_bind, rule wp_now, rule case_sum_InrI, rule wp_tls_upsert, erule assms(1), rule assms(2))
    (simp_all add: tls_content_def tls_success_def)

lemma wp_tls_OnPlanLimitExceeded:
  assumes "\<And>r. tls_written v scanID tls_stripped (tls_over_limit userID url) r
             \<Longrightarrow> Q (Inr ()) (tls_store r v)"
    and "\<And>d. Q (Inl (SqlError d)) v"
  shows "wp view (TLSWriter_OnPlanLimitExceededInTx E scanID userID url) Q v"
  unfolding TLSWriter_OnPlanLimitExceededInTx_def
  by (rule wp_bind, rule wp_now, rule case_sum_InrI, rule wp_tls_upsert, erule assms(1), rule assms(2))
    (simp_all add: tls_content_def tls_stripped_def tls_over_limit_def
      tls_row_def tls_live_id_def)

lemma wp_tls_OnFailed:
  assumes "\<And>r. tls_written v scanID (\<lambda>old. old\<lparr>tls_Status := StateFAILED, tls_Error := errMsg\<rparr>)
                (tls_failure userID url errMsg) r
             \<Longrightarrow> Q (Inr ()) (tls_store r v)"
    and "\<And>d. Q (Inl (SqlError d)) v"
  shows "wp view (TLSWriter_OnFailedInTx E scanID userID url errMsg) Q v"
  unfolding TLSWriter_OnFailedInTx_def
  by (rule wp_bind, rule wp_now, rule case_sum_InrI, rule wp_tls_upsert, erule assms(1), rule assms(2))
    (simp_all add: tls_content_def tls_failure_def tls_row_def
      tls_live_id_def zero_TLSScanResultEntity_def)

lemma wp_sr_OnCompleted:
  assumes "\<And>r. sr_written v scanID (\<lambda>_. sr_success entity) (sr_success entity) r
             \<Longrightarrow> Q (Inr ()) (sr_store r v)"
    and "\<And>d. Q (Inl (SqlError d)) v"
  shows "wp view (WalletWriter_OnCompletedInTx E scanID entity) Q v"
  unfolding WalletWriter_OnCompletedInTx_def Let_def
  by (rule wp_bind, rule wp_now, rule case_sum_InrI, rule wp_sr_upsert, erule assms(1), rule assms(2))
    (simp_all add: sr_content_def sr_success_def)

lemma wp_sr_OnPlanLimitExceeded:
  assumes "\<And>r. sr_written v scanID sr_stripped (sr_over_limit userID address) r
             \<Longrightarrow> Q (Inr ()) (sr_store r v)"
    and "\<And>d. Q (Inl (SqlError d)) v"
  shows "wp view (WalletWriter_OnPlanLimitExceededInTx E scanID userID address) Q v"
  unfolding WalletWriter_OnPlanLimitExceededInTx_def
  by (rule wp_bind, rule wp_now, rule case_sum_InrI, rule wp_sr_upsert, erule assms(1), rule assms(2))
    (simp_all add: sr_content_def sr_stripped_def sr_over_limit_def sr_row_def sr_live_id_def)

text \<open>Starting a TLS scan: the row it inserts, and what it does to the catalog rows of its URL.\<close>

lemma wp_tls_OnStarted:
  assumes known: "\<And>r. tls_row v scanID r \<Longrightarrow> tls_Status r \<noteq> '''' \<Longrightarrow> Q (Inr ()) v"
    and replaced: "\<And>r. userID = None \<Longrightarrow> r \<in># v_tls_scan_results v \<Longrightarrow> tls_ID r = scanID
        \<Longrightarrow> tls_DeletedAt r \<noteq> None \<Longrightarrow> Q (Inr ()) v"
    and started: "\<And>u r. userID = Some u \<Longrightarrow> tls_created (tls_running scanID userID url) r
        \<Longrightarrow> v_tls_scan_results v = tls_others (tls_ID r) v \<Longrightarrow> Q (Inr ()) (tls_store r v)"
    and default: "\<And>r now. userID = None \<Longrightarrow> tls_created (tls_running scanID userID url) r
        \<Longrightarrow> v_tls_scan_results v = tls_others (tls_ID r) v
        \<Longrightarrow> Q (Inr ()) (tls_retire now scanID url (tls_store r v))"
    and half: "\<And>d r. userID = None \<Longrightarrow> tls_created (tls_running scanID userID url) r
        \<Longrightarrow> v_tls_scan_results v = tls_others (tls_ID r) v \<Longrightarrow> Q (Inl (SqlError d)) (tls_store r v)"
    and err: "\<And>d. Q (Inl (SqlError d)) v"
  shows "wp view (TLSWriter_OnStarted E scanID userID url) Q v"
  unfolding TLSWriter_OnStarted_def tls_running_def [symmetric]
proof (rule wp_bind)
  have create: "wp view (bindP (tls_Create E (tls_running scanID userID url)) (\<lambda>_.
      if userID = None then replacePreviousDefault E scanID url else returnP ())) Q v"
  proof (intro wp_bind wp_tls_Create case_sum_InrI case_sum_InlI err)
    fix r
    assume r: "tls_created (tls_running scanID userID url) r"
      and all: "v_tls_scan_results v = tls_others (tls_ID r) v"
    have store: "v\<lparr>v_tls_scan_results := add_mset r (v_tls_scan_results v)\<rparr> = tls_store r v"
      using all by (simp add: tls_store_def)
    show "wp view (if userID = None then replacePreviousDefault E scanID url else returnP ()) Q
        (v\<lparr>v_tls_scan_results := add_mset r (v_tls_scan_results v)\<rparr>)"
      unfolding store replacePreviousDefault_def
      by (intro wp_intro tls.wp_Updates)
        (use r all half default started in \<open>auto simp: tls_retire_def tls_previous_default_def\<close>)
  qed
  have rest: "wp view (bindP (if userID = None then defaultAlreadyReplaced E scanID else returnP False)
      (\<lambda>replaced. if replaced then returnP () else
        bindP (tls_Create E (tls_running scanID userID url)) (\<lambda>_.
          if userID = None then replacePreviousDefault E scanID url else returnP ()))) Q v"
    unfolding defaultAlreadyReplaced_def
    by (intro wp_intro tls.wp_Count create err)
      (use replaced in \<open>auto simp: nonempty_has_size [symmetric]\<close>)
  show "wp view (TLSWriter_GetStatus E scanID) (\<lambda>r v'. case r of Inl e \<Rightarrow> Q (Inl e) v'
      | Inr current \<Rightarrow> wp view (if current \<noteq> '''' then returnP () else
          bindP (if userID = None then defaultAlreadyReplaced E scanID else returnP False)
            (\<lambda>replaced. if replaced then returnP () else
              bindP (tls_Create E (tls_running scanID userID url)) (\<lambda>_.
                if userID = None then replacePreviousDefault E scanID url else returnP ()))) Q v') v"
    by (intro wp_tls_GetStatus case_sum_InrI case_sum_InlI wp_if rest err wp_return)
      (use known in auto)
qed

end

section \<open>Properties of the writers\<close>

definition live_catalog :: "string \<Rightarrow> sys \<Rightarrow> TLSScanResultEntity multiset" where
  "live_catalog url v = filter_mset (\<lambda>r. tls_DeletedAt r = None \<and> tls_UserID r = None \<and> tls_URL r = url)
     (v_tls_scan_results v)"

definition user_rows :: "sys \<Rightarrow> TLSScanResultEntity multiset" where
  "user_rows v = filter_mset (\<lambda>r. tls_UserID r \<noteq> None) (v_tls_scan_results v)"

lemma tls_retire_user_rows: "user_rows (tls_retire now scanID url v) = user_rows v"
  unfolding user_rows_def tls_retire_def
  by (simp, rule filter_image_fixed) (auto simp: tls_previous_default_def)

lemma tls_retire_catalog:
  assumes "tls_ID r = scanID" "tls_DeletedAt r = None" "tls_UserID r = None" "tls_URL r = url"
  shows "live_catalog url (tls_retire now scanID url (tls_store r v)) = {#r#}"
proof -
  let ?f = "\<lambda>r. if tls_previous_default scanID url r then r\<lparr>tls_DeletedAt := Some now\<rparr> else r"
  have "filter_mset (\<lambda>r. tls_DeletedAt r = None \<and> tls_UserID r = None \<and> tls_URL r = url)
      (image_mset ?f (tls_others scanID v)) = {#}"
    by (auto simp: tls_others_def tls_previous_default_def)
  then show ?thesis
    using assms by (simp add: live_catalog_def tls_retire_def tls_store_def tls_previous_default_def)
qed

text \<open>
  Starting a TLS scan that returned without an error: a scan that already has a status is
  left exactly as it is (a duplicate start, or a start after the end, is a no-op); otherwise one
  RUNNING row appears under the scan id. A user's scan changes no other row. A catalog scan
  (without a user) ends with its own row as the only live catalog row of the URL, and the rows
  of users are untouched; a catalog scan that was itself replaced stays replaced.
\<close>

theorem tls_start_effect:
  assumes world: "world E view" and id: "scanID \<noteq> uuid_Nil"
    and run: "TLSWriter_OnStarted E scanID userID url w = (Inr (), w')"
  shows "(\<exists>r. tls_row (view w) scanID r \<and> tls_Status r \<noteq> '''') \<and> view w' = view w
       \<or> userID = None \<and> view w' = view w
          \<and> (\<exists>r. r \<in># v_tls_scan_results (view w) \<and> tls_ID r = scanID \<and> tls_DeletedAt r \<noteq> None)
       \<or> (\<exists>r. tls_row (view w') scanID r \<and> tls_Status r = StateRUNNING \<and> tls_UserID r = userID
           \<and> tls_URL r = url \<and> (tls_Default r \<longleftrightarrow> userID = None)
           \<and> (userID \<noteq> None \<longrightarrow> view w' = tls_store r (view w))
           \<and> (userID = None \<longrightarrow> live_catalog url (view w') = {#r#}
                \<and> user_rows (view w') = user_rows (view w)))"
proof -
  let ?Q = "\<lambda>r v'. r = Inr () \<longrightarrow>
      (\<exists>r. tls_row (view w) scanID r \<and> tls_Status r \<noteq> '''') \<and> v' = view w
    \<or> userID = None \<and> v' = view w
       \<and> (\<exists>r. r \<in># v_tls_scan_results (view w) \<and> tls_ID r = scanID \<and> tls_DeletedAt r \<noteq> None)
    \<or> (\<exists>r. tls_row v' scanID r \<and> tls_Status r = StateRUNNING \<and> tls_UserID r = userID
        \<and> tls_URL r = url \<and> (tls_Default r \<longleftrightarrow> userID = None)
        \<and> (userID \<noteq> None \<longrightarrow> v' = tls_store r (view w))
        \<and> (userID = None \<longrightarrow> live_catalog url v' = {#r#} \<and> user_rows v' = user_rows (view w)))"
  have new: "tls_ID r = scanID \<and> tls_DeletedAt r = None \<and> tls_UserID r = userID \<and> tls_URL r = url
      \<and> tls_Status r = StateRUNNING \<and> (tls_Default r \<longleftrightarrow> userID = None)"
    if "tls_created (tls_running scanID userID url) r" for r
    using that id by (auto simp: tls_created_def tls_running_def zero_TLSScanResultEntity_def)
  have user: "?Q (Inr ()) (tls_store r (view w))"
    if "userID = Some u" "tls_created (tls_running scanID userID url) r" for u r
    using that new [OF that(2)] by (auto simp: tls_row_def tls_live_id_def tls_store_def)
  have catalog: "?Q (Inr ()) (tls_retire now scanID url (tls_store r (view w)))"
    if "userID = None" "tls_created (tls_running scanID userID url) r"
      "v_tls_scan_results (view w) = tls_others (tls_ID r) (view w)" for now r
  proof -
    note r = new [OF that(2)]
    have only: "live_catalog url (tls_retire now scanID url (tls_store r (view w))) = {#r#}"
      using r that(1) by (intro tls_retire_catalog) auto
    have "r \<in># live_catalog url (tls_retire now scanID url (tls_store r (view w)))"
      by (simp add: only)
    then have "tls_row (tls_retire now scanID url (tls_store r (view w))) scanID r"
      using r by (simp add: tls_row_def tls_live_id_def live_catalog_def)
    moreover have "user_rows (tls_store r (view w)) = user_rows (view w)"
      using that r by (simp add: user_rows_def tls_store_def)
    ultimately show ?thesis
      using that r only by (auto simp: tls_retire_user_rows)
  qed
  have "wp view (TLSWriter_OnStarted E scanID userID url) ?Q (view w)"
    by (rule world.wp_tls_OnStarted [OF world]) (use user catalog in \<open>auto simp del: split_paired_Ex\<close>)
  from wpD [OF this run] show ?thesis by simp
qed

definition catalog_row :: "uuid \<Rightarrow> TLSScanResultEntity" where
  "catalog_row i = zero_TLSScanResultEntity\<lparr>tls_ID := i, tls_URL := ''https://a'',
     tls_Status := StateSUCCESS, tls_Default := True, tls_CreatedAt := 1, tls_UpdatedAt := 1\<rparr>"

definition catalog_demo :: mem where
  "catalog_demo = mem_empty\<lparr>m_tls_scan_results := [catalog_row 3,
     (catalog_row 4)\<lparr>tls_UserID := Some 1, tls_Default := False\<rparr>]\<rparr>"

theorem tls_start_effect_witness:
  "(\<exists>r. live_catalog ''https://a'' (mem_view
      (snd (TLSWriter_OnStarted mem_env 8 None ''https://a'' catalog_demo))) = {#r#}
    \<and> tls_ID r = 8)
   \<and> user_rows (mem_view (snd (TLSWriter_OnStarted mem_env 8 None ''https://a'' catalog_demo)))
     = user_rows (mem_view catalog_demo)"
proof -
  let ?w = "snd (TLSWriter_OnStarted mem_env 8 None ''https://a'' catalog_demo)"
  have run: "TLSWriter_OnStarted mem_env 8 None ''https://a'' catalog_demo = (Inr (), ?w)"
    by (rule prod_eqI) (code_simp, simp)
  have rows: "v_tls_scan_results (mem_view catalog_demo) = mset (m_tls_scan_results catalog_demo)"
    by (simp add: mem_view_def mem_norm_def mem_wf_def mem_sys_def catalog_demo_def mem_empty_def
        tls_conflict_def catalog_row_def)
  have fresh: "\<not> (r \<in># v_tls_scan_results (mem_view catalog_demo) \<and> tls_ID r = 8)" for r
    unfolding rows by (auto simp: catalog_demo_def catalog_row_def)
  show ?thesis
    using tls_start_effect [OF mem_world _ run] fresh
    by (auto simp: tls_row_def tls_live_id_def)
qed

text \<open>
  Completing a TLS scan: on an error nothing changes; otherwise exactly one row is stored,
  with the entity's contents, status SUCCESS and no error text. An existing live row keeps its
  creation time; without one the row is inserted, and then no row of that id existed, not even a
  deleted one. Every other row stays.
\<close>

theorem tls_completion_stores_result:
  assumes world: "world E view" and id: "scanID \<noteq> uuid_Nil"
    and run: "TLSWriter_OnCompletedInTx E scanID entity w = (r, w')"
  shows "case r of
      Inl err \<Rightarrow> view w' = view w
    | Inr _ \<Rightarrow> (\<exists>row. view w' = tls_store row (view w) \<and> tls_ID row = scanID
        \<and> tls_content row = tls_content (tls_success entity)
        \<and> (\<forall>old. tls_row (view w) scanID old \<longrightarrow> tls_CreatedAt row = tls_CreatedAt old)
        \<and> ((\<nexists>old. tls_row (view w) scanID old) \<longrightarrow> tls_others scanID (view w) = v_tls_scan_results (view w)))"
proof -
  have one: "old = old'" if "tls_row (view w) scanID old" "tls_row (view w) scanID old'" for old old'
    using that world.unique_tls_row [OF world] by blast
  have "wp view (TLSWriter_OnCompletedInTx E scanID entity)
     (\<lambda>r v'. case r of Inl err \<Rightarrow> v' = view w
       | Inr _ \<Rightarrow> (\<exists>row. v' = tls_store row (view w) \<and> tls_ID row = scanID
          \<and> tls_content row = tls_content (tls_success entity)
          \<and> (\<forall>old. tls_row (view w) scanID old \<longrightarrow> tls_CreatedAt row = tls_CreatedAt old)
          \<and> ((\<nexists>old. tls_row (view w) scanID old)
              \<longrightarrow> tls_others scanID (view w) = v_tls_scan_results (view w)))) (view w)"
    by (rule world.wp_tls_OnCompleted [OF world]) (use id one in \<open>auto simp: tls_written_def\<close>)
  from wpD [OF this run] show ?thesis .
qed

theorem tls_completion_stores_result_witness:
  "\<exists>row. mem_view (snd (TLSWriter_OnCompletedInTx mem_env 3
        (zero_TLSScanResultEntity\<lparr>tls_Host := ''a''\<rparr>) catalog_demo))
     = tls_store row (mem_view catalog_demo) \<and> tls_Host row = ''a'' \<and> tls_Status row = StateSUCCESS"
proof -
  let ?run = "TLSWriter_OnCompletedInTx mem_env 3 (zero_TLSScanResultEntity\<lparr>tls_Host := ''a''\<rparr>) catalog_demo"
  have ok: "fst ?run = Inr ()" by code_simp
  have "tls_Host row = ''a'' \<and> tls_Status row = StateSUCCESS"
    if "tls_content row = tls_content (tls_success (zero_TLSScanResultEntity\<lparr>tls_Host := ''a''\<rparr>))" for row
    using arg_cong [OF that, of tls_Host] arg_cong [OF that, of tls_Status]
    by (simp add: tls_content_def tls_success_def)
  then show ?thesis
    using tls_completion_stores_result [OF mem_world _ prod.collapse [symmetric], of 3
        "zero_TLSScanResultEntity\<lparr>tls_Host := ''a''\<rparr>" catalog_demo]
    by (auto simp: ok)
qed

lemma sr_content_fields:
  assumes "sr_content r = sr_content s"
  shows "sr_UserID r = sr_UserID s" "sr_Address r = sr_Address s" "sr_Status r = sr_Status s"
    "sr_Error r = sr_Error s" "sr_TransitionID r = sr_TransitionID s" "sr_DeletedAt r = sr_DeletedAt s"
proof -
  show "sr_UserID r = sr_UserID s" using arg_cong [OF assms, of sr_UserID] by (simp add: sr_content_def)
  show "sr_Address r = sr_Address s" using arg_cong [OF assms, of sr_Address] by (simp add: sr_content_def)
  show "sr_Status r = sr_Status s" using arg_cong [OF assms, of sr_Status] by (simp add: sr_content_def)
  show "sr_Error r = sr_Error s" using arg_cong [OF assms, of sr_Error] by (simp add: sr_content_def)
  show "sr_TransitionID r = sr_TransitionID s"
    using arg_cong [OF assms, of sr_TransitionID] by (simp add: sr_content_def)
  show "sr_DeletedAt r = sr_DeletedAt s"
    using arg_cong [OF assms, of sr_DeletedAt] by (simp add: sr_content_def)
qed

lemma sr_stripped_fields:
  "sr_UserID (sr_stripped old) = sr_UserID old" "sr_Address (sr_stripped old) = sr_Address old"
  "sr_Status (sr_stripped old) = StateFAILED" "sr_Error (sr_stripped old) = ErrPlanLimitExceeded"
  by (simp_all add: sr_stripped_def)

lemma sr_stripped_content:
  "sr_DeletedAt old = None
   \<Longrightarrow> (sr_content (sr_stripped old))\<lparr>sr_TransitionID := None\<rparr>
     = sr_content (sr_over_limit (sr_UserID old) (sr_Address old))"
  by (cases old) (simp add: sr_content_def sr_stripped_def sr_over_limit_def zero_ScanResultEntity_def)

text \<open>
  A wallet completion over the plan limit: on an error nothing changes; otherwise exactly one
  row is stored under the scan id, marked FAILED with the plan limit error, and of everything the
  scan may have found nothing is kept: apart from identity, times and the last transition the
  row is the blank row of its owner and address, which are those of the live row when there is
  one.
\<close>

theorem wallet_over_limit_row_is_blank:
  assumes world: "world E view" and id: "scanID \<noteq> uuid_Nil"
    and run: "WalletWriter_OnPlanLimitExceededInTx E scanID userID address w = (r, w')"
  shows "case r of
      Inl err \<Rightarrow> view w' = view w
    | Inr _ \<Rightarrow> (\<exists>row. view w' = sr_store row (view w) \<and> sr_ID row = scanID
        \<and> sr_Status row = StateFAILED \<and> sr_Error row = ErrPlanLimitExceeded
        \<and> (sr_content row)\<lparr>sr_TransitionID := None\<rparr>
           = sr_content (sr_over_limit (sr_UserID row) (sr_Address row))
        \<and> (\<forall>old. sr_row (view w) scanID old
             \<longrightarrow> (sr_UserID row, sr_Address row) = (sr_UserID old, sr_Address old))
        \<and> ((\<nexists>old. sr_row (view w) scanID old)
             \<longrightarrow> (sr_UserID row, sr_Address row) = (userID, address)))"
proof -
  let ?ok = "\<lambda>row. sr_ID row = scanID
      \<and> sr_Status row = StateFAILED \<and> sr_Error row = ErrPlanLimitExceeded
      \<and> (sr_content row)\<lparr>sr_TransitionID := None\<rparr>
         = sr_content (sr_over_limit (sr_UserID row) (sr_Address row))
      \<and> (\<forall>old. sr_row (view w) scanID old
           \<longrightarrow> (sr_UserID row, sr_Address row) = (sr_UserID old, sr_Address old))
      \<and> ((\<nexists>old. sr_row (view w) scanID old)
           \<longrightarrow> (sr_UserID row, sr_Address row) = (userID, address))"
  have one: "old' = old" if "sr_row (view w) scanID old" "sr_row (view w) scanID old'" for old old'
    using that world.unique_sr_row [OF world] by blast
  have fields: "?ok row"
    if written: "sr_written (view w) scanID sr_stripped (sr_over_limit userID address) row" for row
  proof -
    consider (update) old where "sr_row (view w) scanID old" "sr_content row = sr_content (sr_stripped old)"
        "sr_ID row = scanID"
      | (insert) "\<nexists>old. sr_row (view w) scanID old"
        "sr_content row = sr_content (sr_over_limit userID address)" "sr_ID row = scanID"
      using written id by (auto simp: sr_written_def)
    then show ?thesis
    proof cases
      case update
      have live: "sr_DeletedAt old = None" using update(1) by (simp add: sr_row_def sr_live_id_def)
      note same = sr_content_fields [OF update(2)]
      have "(sr_content row)\<lparr>sr_TransitionID := None\<rparr>
          = sr_content (sr_over_limit (sr_UserID row) (sr_Address row))"
        unfolding update(2) same by (simp only: sr_stripped_fields sr_stripped_content [OF live])
      moreover have "old' = old" if "sr_row (view w) scanID old'" for old'
        by (rule one [OF update(1) that])
      ultimately show ?thesis
        using update(1,3) same unfolding sr_stripped_fields by blast
    next
      case insert
      note same = sr_content_fields [OF insert(2)]
      have "(sr_content row)\<lparr>sr_TransitionID := None\<rparr>
          = sr_content (sr_over_limit (sr_UserID row) (sr_Address row))"
        unfolding insert(2) same by (simp add: sr_over_limit_def sr_content_def zero_ScanResultEntity_def)
      with insert same show ?thesis
        by (simp add: sr_over_limit_def)
    qed
  qed
  have "wp view (WalletWriter_OnPlanLimitExceededInTx E scanID userID address)
     (\<lambda>r v'. case r of Inl err \<Rightarrow> v' = view w
       | Inr _ \<Rightarrow> (\<exists>row. v' = sr_store row (view w) \<and> ?ok row)) (view w)"
  proof (rule world.wp_sr_OnPlanLimitExceeded [OF world], unfold sum.case)
    fix row
    assume "sr_written (view w) scanID sr_stripped (sr_over_limit userID address) row"
    then have "?ok row" by (rule fields)
    then show "\<exists>row'. sr_store row (view w) = sr_store row' (view w) \<and> ?ok row'" by blast
  qed (rule refl)
  from wpD [OF this run] show ?thesis .
qed

theorem wallet_over_limit_row_is_blank_witness:
  "\<exists>row. mem_view (snd (WalletWriter_OnPlanLimitExceededInTx mem_env 3 1 ''0xab'' mem_empty))
     = sr_store row (mem_view mem_empty) \<and> sr_Error row = ErrPlanLimitExceeded"
proof -
  have ok: "fst (WalletWriter_OnPlanLimitExceededInTx mem_env 3 1 ''0xab'' mem_empty) = Inr ()"
    by code_simp
  show ?thesis
    using wallet_over_limit_row_is_blank [OF mem_world _ prod.collapse [symmetric],
        where scanID = 3 and userID = 1 and address = "''0xab''" and w = mem_empty]
    by (auto simp: ok)
qed

end
