(* ===== verification/Wallet_Transition.thy ===== *)
theory Wallet_Transition
  imports Ledger Storage
begin

text \<open>
  \<^verbatim>\<open>internal/wallettransition/apply.go\<close>: one wallet command (start, succeed, fail) applied in a
  single transaction: the row, the transition id and the quota ledger move together. A Go panic
  (a nil result on SUCCESS, a nil ledger on a keep) is a value of its own: it leaves the
  transaction, which rolls back, and is not turned into an outcome.
\<close>

section \<open>Commands and outcomes\<close>

definition QuotaNone :: string where "QuotaNone = ''none''"
definition QuotaKeep :: string where "QuotaKeep = ''keep''"
definition QuotaRelease :: string where "QuotaRelease = ''release''"

definition OutcomeApplied :: string where "OutcomeApplied = ''applied''"
definition OutcomeAlreadyApplied :: string where "OutcomeAlreadyApplied = ''already_applied''"
definition OutcomeAlreadyRunning :: string where "OutcomeAlreadyRunning = ''already_running''"
definition OutcomeAlreadyTerminal :: string where "OutcomeAlreadyTerminal = ''already_terminal''"
definition OutcomeRetryable :: string where "OutcomeRetryable = ''retryable_error''"
definition OutcomeRejected :: string where "OutcomeRejected = ''rejected''"

definition errKeepMissing :: go_error where
  "errKeepMissing = ErrorNew ''keep ledger missing''"

record Command =
  cmd_TransitionID :: string
  cmd_UserID :: uuid
  cmd_Address :: string
  cmd_SourceStates :: "string list"
  cmd_TargetState :: string
  cmd_QuotaAction :: string
  cmd_Result :: "ScanResult option"
  cmd_Error :: string

record Result =
  out_Outcome :: string
  out_Status :: string
  out_Row :: "ScanResultEntity option"

definition mkResult :: "string \<Rightarrow> string \<Rightarrow> Result" where
  "mkResult outcome status = \<lparr>out_Outcome = outcome, out_Status = status, out_Row = None\<rparr>"

text \<open>
  The functions of this file return a pair of a result and an error; on an error the caller still
  uses the result's status.
\<close>

datatype tx_error = TxError Result go_error | TxPanic

definition failWith :: "Result \<Rightarrow> ('w, go_error, 'a) prog \<Rightarrow> ('w, tx_error, 'a) prog" where
  "failWith res m = mapErrP (TxError res) m"

section \<open>Helpers\<close>

fun contains :: "string list \<Rightarrow> string \<Rightarrow> bool" where
  "contains [] want = False"
| "contains (s # states) want = (if s = want then True else contains states want)"

definition logical :: "string \<Rightarrow> string" where
  "logical status = (if status = '''' then StatePENDING else status)"

definition sameTransition :: "ScanResultEntity \<Rightarrow> string \<Rightarrow> bool" where
  "sameTransition ent i = (sr_TransitionID ent \<noteq> None \<and> the (sr_TransitionID ent) = i)"

definition classify :: "ScanResultEntity \<Rightarrow> Command \<Rightarrow> Result" where
  "classify ent cmd =
     (let status = logical (sr_Status ent)
      in if cmd_TargetState cmd = StateRUNNING \<and> status = StateRUNNING
         then mkResult OutcomeAlreadyRunning status
         else if IsTerminal status then mkResult OutcomeAlreadyTerminal status
         else mkResult OutcomeRejected status)"

text \<open>\<open>None\<close> is the panic on a missing result.\<close>

definition newRow :: "uuid \<Rightarrow> Command \<Rightarrow> ScanResultEntity option" where
  "newRow scanID cmd =
     (if cmd_TargetState cmd = StateSUCCESS then
        (case cmd_Result cmd of
           None \<Rightarrow> None
         | Some result \<Rightarrow>
             let result = NormalizeScanResultWalletKind (EnsureScanResultDelegations result)
             in Some ((FromScanResult (cmd_UserID cmd) result)\<lparr>
                  sr_ID := scanID, sr_Status := StateSUCCESS, sr_Error := '''',
                  sr_Address := cmd_Address cmd, sr_TransitionID := Some (cmd_TransitionID cmd)\<rparr>))
      else if cmd_TargetState cmd = StateFAILED then
        Some (zero_ScanResultEntity\<lparr>sr_ID := scanID, sr_UserID := cmd_UserID cmd,
          sr_Address := cmd_Address cmd, sr_Status := StateFAILED, sr_Error := cmd_Error cmd,
          sr_TransitionID := Some (cmd_TransitionID cmd)\<rparr>)
      else
        Some (zero_ScanResultEntity\<lparr>sr_ID := scanID, sr_UserID := cmd_UserID cmd,
          sr_Address := cmd_Address cmd, sr_Status := StateRUNNING,
          sr_TransitionID := Some (cmd_TransitionID cmd)\<rparr>))"

text \<open>
  The WHERE clause of a scoped write. \<open>status IS NULL\<close> is read as the empty status, like
  everywhere in the model.
\<close>

definition sourceScope :: "uuid \<Rightarrow> string list \<Rightarrow> ScanResultEntity \<Rightarrow> bool" where
  "sourceScope scanID sources r =
     (let pending = contains sources StatePENDING;
          stored = filter (\<lambda>s. s \<noteq> '''') sources
      in sr_live_id scanID r
         \<and> (if pending \<and> length stored > 0 then contains stored (sr_Status r) \<or> sr_Status r = ''''
            else if length stored > 0 then contains stored (sr_Status r)
            else if pending then sr_Status r = '''' \<or> sr_Status r = StatePENDING
            else False))"

definition noteKeepMissing :: "'w env \<Rightarrow> ('w, 'e, unit) prog" where
  "noteKeepMissing E w = (Inr (), keepLedgerMissing_Add E w)"

section \<open>The transaction\<close>

text \<open>\<open>prepareQuota\<close> returns a result to stop with, or none to go on.\<close>

definition prepareQuota ::
  "'w env \<Rightarrow> 'w ScanUsageLedgerRepository option \<Rightarrow> uuid \<Rightarrow> Command \<Rightarrow> string
   \<Rightarrow> ('w, tx_error, Result option) prog" where
  "prepareQuota E ledger scanID cmd status =
     (if cmd_QuotaAction cmd = QuotaNone then returnP None
      else
        (case ledger of
           None \<Rightarrow> returnP (Some (mkResult OutcomeRetryable status))
         | Some l \<Rightarrow>
             if cmd_QuotaAction cmd \<noteq> QuotaKeep then returnP None
             else
               bindP (failWith (mkResult '''' status) (ledger_HasSuccessUsageForScanInTx l scanID)) (\<lambda>has.
               if \<not> has then
                 bindP (noteKeepMissing E) (\<lambda>_. returnP (Some (mkResult OutcomeRetryable status)))
               else returnP None)))"

definition finishQuota ::
  "'w env \<Rightarrow> 'w ScanUsageLedgerRepository option \<Rightarrow> uuid \<Rightarrow> Command \<Rightarrow> Result
   \<Rightarrow> ('w, tx_error, unit) prog" where
  "finishQuota E ledger scanID cmd onErr =
     (if cmd_QuotaAction cmd = QuotaRelease then
        (case ledger of
           None \<Rightarrow> throwP (TxError onErr errKeepMissing)
         | Some l \<Rightarrow> failWith onErr (ledger_ReleaseSuccessUsageByScanIDInTx l scanID))
      else if cmd_QuotaAction cmd = QuotaKeep then
        (case ledger of
           None \<Rightarrow> throwP TxPanic
         | Some l \<Rightarrow>
             bindP (failWith onErr (ledger_HasSuccessUsageForScanInTx l scanID)) (\<lambda>has.
             if has then returnP ()
             else bindP (noteKeepMissing E) (\<lambda>_. throwP (TxError onErr errKeepMissing))))
      else returnP ())"

text \<open>
  A SUCCESS write replaces every column but the creation and deletion times and stamps the update
  time; the others set six columns.
\<close>

definition writeScoped :: "'w env \<Rightarrow> uuid \<Rightarrow> Command \<Rightarrow> Result \<Rightarrow> ('w, tx_error, nat) prog" where
  "writeScoped E scanID cmd onErr =
     (case newRow scanID cmd of
        None \<Rightarrow> throwP TxPanic
      | Some ent \<Rightarrow>
          bindP (nowP E) (\<lambda>now.
          failWith onErr (gorm_Updates (scan_results E) (sourceScope scanID (cmd_SourceStates cmd))
            (if cmd_TargetState cmd = StateSUCCESS
             then (\<lambda>r. ent\<lparr>sr_UpdatedAt := now, sr_CreatedAt := sr_CreatedAt r, sr_DeletedAt := sr_DeletedAt r\<rparr>)
             else (\<lambda>r. r\<lparr>sr_Status := sr_Status ent, sr_Error := sr_Error ent,
                     sr_UserID := sr_UserID ent, sr_Address := sr_Address ent,
                     sr_TransitionID := Some (cmd_TransitionID cmd), sr_UpdatedAt := now\<rparr>)))))"

definition reload :: "'w env \<Rightarrow> uuid \<Rightarrow> string \<Rightarrow> ('w, tx_error, Result) prog" where
  "reload E scanID outcome =
     bindP (failWith (mkResult '''' '''') (gorm_First (scan_results E) (sr_live_id scanID))) (\<lambda>stored.
     let stored = stored\<lparr>sr_Status := logical (sr_Status stored)\<rparr>
     in returnP \<lparr>out_Outcome = outcome, out_Status = sr_Status stored, out_Row = Some stored\<rparr>)"

definition applyExisting ::
  "'w env \<Rightarrow> 'w ScanUsageLedgerRepository option \<Rightarrow> uuid \<Rightarrow> Command \<Rightarrow> ScanResultEntity
   \<Rightarrow> ('w, tx_error, Result) prog" where
  "applyExisting E ledger scanID cmd ent =
     (let status = logical (sr_Status ent);
          finish = bindP (finishQuota E ledger scanID cmd (mkResult '''' status)) (\<lambda>_.
                   reload E scanID OutcomeApplied)
      in if sameTransition ent (cmd_TransitionID cmd) then
           returnP \<lparr>out_Outcome = OutcomeAlreadyApplied, out_Status = status,
             out_Row = Some (ent\<lparr>sr_Status := status\<rparr>)\<rparr>
         else if \<not> contains (cmd_SourceStates cmd) status then returnP (classify ent cmd)
         else
           bindP (prepareQuota E ledger scanID cmd status) (\<lambda>stop.
           case stop of
             Some res \<Rightarrow> returnP res
           | None \<Rightarrow>
               bindP (writeScoped E scanID cmd (mkResult '''' status)) (\<lambda>n.
               if n = 0 then
                 bindP (failWith (mkResult '''' status)
                          (gorm_First (scan_results E) (sr_live_id scanID))) (\<lambda>again.
                 if sameTransition again (cmd_TransitionID cmd)
                    \<or> \<not> contains (cmd_SourceStates cmd) (logical (sr_Status again))
                 then returnP (classify again cmd)
                 else
                   bindP (writeScoped E scanID cmd (mkResult '''' (logical (sr_Status again)))) (\<lambda>n.
                   if n = 0 then
                     bindP (catchP (gorm_First (scan_results E) (sr_live_id scanID))
                              (\<lambda>_. returnP again)) (\<lambda>again.
                     returnP (classify again cmd))
                   else finish))
               else finish)))"

definition applyMissing ::
  "'w env \<Rightarrow> 'w ScanUsageLedgerRepository option \<Rightarrow> uuid \<Rightarrow> Command \<Rightarrow> ('w, tx_error, Result) prog" where
  "applyMissing E ledger scanID cmd =
     (if \<not> contains (cmd_SourceStates cmd) StatePENDING then
        returnP (mkResult OutcomeRejected StatePENDING)
      else
        bindP (prepareQuota E ledger scanID cmd StatePENDING) (\<lambda>stop.
        case stop of
          Some res \<Rightarrow> returnP res
        | None \<Rightarrow>
            (case newRow scanID cmd of
               None \<Rightarrow> throwP TxPanic
             | Some ent \<Rightarrow>
                 bindP (failWith (mkResult '''' StatePENDING) (sr_stamped E ent)) (\<lambda>ent.
                 bindP (failWith (mkResult '''' StatePENDING)
                          (gorm_CreateDoNothing (scan_results E) wallet_conflict ent)) (\<lambda>rowsAffected.
                 if rowsAffected = 0 then
                   bindP (failWith (mkResult '''' StatePENDING)
                            (gorm_First (scan_results E) (sr_live_id scanID))) (\<lambda>winner.
                   applyExisting E ledger scanID cmd winner)
                 else
                   bindP (finishQuota E ledger scanID cmd (mkResult '''' StatePENDING)) (\<lambda>_.
                   reload E scanID OutcomeApplied))))))"

definition applyTx ::
  "'w env \<Rightarrow> 'w ScanUsageLedgerRepository option \<Rightarrow> uuid \<Rightarrow> Command \<Rightarrow> ('w, tx_error, Result) prog" where
  "applyTx E ledger scanID cmd =
     bindP
       (catchP
         (bindP (gorm_First (scan_results E) (sr_live_id scanID)) (\<lambda>ent. returnP (Some ent)))
         (\<lambda>err. if err = ErrRecordNotFound then returnP None
                else throwP (TxError (mkResult '''' '''') err)))
       (\<lambda>found.
        case found of
          None \<Rightarrow> applyMissing E ledger scanID cmd
        | Some ent \<Rightarrow> applyExisting E ledger scanID cmd ent)"

text \<open>
  The database handle may be nil. On an error the outcome is the retryable one with the status
  the body had found; a failed commit still has the body's result. A panic is not an outcome.
\<close>

datatype panic = Panic

definition Apply ::
  "'w env \<Rightarrow> bool \<Rightarrow> 'w ScanUsageLedgerRepository option \<Rightarrow> uuid \<Rightarrow> Command \<Rightarrow> ('w, panic, Result) prog" where
  "Apply E db ledger scanID cmd =
     (if \<not> db then returnP (mkResult OutcomeRetryable '''')
      else
        catchP
          (gorm_Transaction E (TxError (mkResult '''' '''')) TxError (applyTx E ledger scanID cmd))
          (\<lambda>err. case err of
             TxError out _ \<Rightarrow> returnP (mkResult OutcomeRetryable (out_Status out))
           | TxPanic \<Rightarrow> throwP Panic))"

section \<open>What a command does\<close>

lemma contains_iff [simp]: "contains xs x \<longleftrightarrow> x \<in> set xs"
  by (induction xs) auto

lemma logical_nonempty [simp]: "logical s \<noteq> ''''" "logical (logical s) = logical s"
  by (simp_all add: logical_def)

text \<open>The scope of a write is the check of the source state made before it.\<close>

lemma sourceScope_iff:
  "sourceScope scanID sources r \<longleftrightarrow> sr_live_id scanID r \<and> logical (sr_Status r) \<in> set sources"
  by (auto simp: sourceScope_def Let_def logical_def filter_empty_conv length_greater_0_conv)

text \<open>The status a command writes, and the row it writes over an existing one.\<close>

definition targetStatus :: "Command \<Rightarrow> string" where
  "targetStatus cmd = (if cmd_TargetState cmd = StateSUCCESS \<or> cmd_TargetState cmd = StateFAILED
     then cmd_TargetState cmd else StateRUNNING)"

definition rowUpdate :: "Command \<Rightarrow> ScanResultEntity \<Rightarrow> gotime \<Rightarrow> ScanResultEntity \<Rightarrow> ScanResultEntity" where
  "rowUpdate cmd ent now =
     (if cmd_TargetState cmd = StateSUCCESS
      then (\<lambda>r. ent\<lparr>sr_UpdatedAt := now, sr_CreatedAt := sr_CreatedAt r, sr_DeletedAt := sr_DeletedAt r\<rparr>)
      else (\<lambda>r. r\<lparr>sr_Status := sr_Status ent, sr_Error := sr_Error ent, sr_UserID := sr_UserID ent,
              sr_Address := sr_Address ent, sr_TransitionID := Some (cmd_TransitionID cmd),
              sr_UpdatedAt := now\<rparr>))"

definition command_row :: "uuid \<Rightarrow> Command \<Rightarrow> ScanResultEntity \<Rightarrow> bool" where
  "command_row scanID cmd row \<longleftrightarrow> sr_live_id scanID row \<and> sr_Status row = targetStatus cmd
     \<and> sr_TransitionID row = Some (cmd_TransitionID cmd) \<and> sr_UserID row = cmd_UserID cmd
     \<and> sr_Address row = cmd_Address cmd
     \<and> (cmd_TargetState cmd = StateFAILED \<longrightarrow> sr_Error row = cmd_Error cmd)
     \<and> (cmd_TargetState cmd = StateSUCCESS \<longrightarrow> sr_Error row = ''''
         \<and> (\<exists>result. cmd_Result cmd = Some result
              \<and> sr_content row = sr_content ((FromScanResult (cmd_UserID cmd)
                   (NormalizeScanResultWalletKind (EnsureScanResultDelegations result)))\<lparr>
                     sr_Status := StateSUCCESS, sr_Address := cmd_Address cmd,
                     sr_TransitionID := Some (cmd_TransitionID cmd)\<rparr>)))"

text \<open>The source state of a command that goes through, and what it does to the ledger.\<close>

definition from_source :: "uuid \<Rightarrow> Command \<Rightarrow> sys \<Rightarrow> ScanResultEntity \<Rightarrow> bool" where
  "from_source scanID cmd v row \<longleftrightarrow>
     (\<exists>old. sr_row v scanID old \<and> \<not> sameTransition old (cmd_TransitionID cmd)
        \<and> logical (sr_Status old) \<in> set (cmd_SourceStates cmd) \<and> sr_CreatedAt row = sr_CreatedAt old)
     \<or> (sr_others scanID v = v_scan_results v \<and> StatePENDING \<in> set (cmd_SourceStates cmd))"

definition settled :: "bool \<Rightarrow> uuid \<Rightarrow> Command \<Rightarrow> sys \<Rightarrow> ScanUsageEventEntity multiset \<Rightarrow> bool" where
  "settled hasLedger scanID cmd v M \<longleftrightarrow>
     (if cmd_QuotaAction cmd = QuotaRelease
      then hasLedger \<and> usage_entry ` set_mset M = spec_release scanID (usage_entries v)
      else if cmd_QuotaAction cmd = QuotaKeep
      then hasLedger \<and> scanID \<in> fst ` usage_entries v \<and> M = v_scan_usage_events v
      else M = v_scan_usage_events v \<and> (cmd_QuotaAction cmd = QuotaNone \<or> hasLedger))"

definition applied_result :: "ScanResultEntity \<Rightarrow> Result" where
  "applied_result row = \<lparr>out_Outcome = OutcomeApplied, out_Status = sr_Status row, out_Row = Some row\<rparr>"

text \<open>An outcome without a write.\<close>

definition refused_as :: "uuid \<Rightarrow> Command \<Rightarrow> sys \<Rightarrow> Result \<Rightarrow> bool" where
  "refused_as scanID cmd v res \<longleftrightarrow>
     (\<exists>ent. sr_row v scanID ent \<and> sameTransition ent (cmd_TransitionID cmd)
        \<and> res = \<lparr>out_Outcome = OutcomeAlreadyApplied, out_Status = logical (sr_Status ent),
             out_Row = Some (ent\<lparr>sr_Status := logical (sr_Status ent)\<rparr>)\<rparr>)
     \<or> (\<exists>ent. sr_row v scanID ent \<and> \<not> sameTransition ent (cmd_TransitionID cmd)
        \<and> logical (sr_Status ent) \<notin> set (cmd_SourceStates cmd) \<and> res = classify ent cmd)
     \<or> ((\<nexists>ent. sr_row v scanID ent) \<and> StatePENDING \<notin> set (cmd_SourceStates cmd)
        \<and> res = mkResult OutcomeRejected StatePENDING)
     \<or> (\<exists>status. res = mkResult OutcomeRetryable status)"

text \<open>The part of the state a command may touch before it commits.\<close>

definition touched :: "sys \<Rightarrow> sys \<Rightarrow> bool" where
  "touched v v' \<longleftrightarrow> v' = v\<lparr>v_scan_results := v_scan_results v',
     v_scan_usage_events := v_scan_usage_events v', v_keepLedgerMissing := v_keepLedgerMissing v'\<rparr>"

lemma touched_simps [simp]:
  "touched v v" "touched v (v\<lparr>v_keepLedgerMissing := k\<rparr>)"
  "touched v (sr_store row v)" "touched v ((sr_store row v)\<lparr>v_scan_usage_events := M\<rparr>)"
  "touched v ((sr_store row v)\<lparr>v_keepLedgerMissing := k\<rparr>)"
  "touched v ((sr_store row v)\<lparr>v_scan_usage_events := M, v_keepLedgerMissing := k\<rparr>)"
  by (simp_all add: touched_def sr_store_def)

lemma restore_touched: "touched v v' \<Longrightarrow> restore_tables v v' = v\<lparr>v_keepLedgerMissing := v_keepLedgerMissing v'\<rparr>"
  unfolding touched_def restore_tables_def by (erule ssubst) simp

lemma newRow_fields:
  assumes "newRow scanID cmd = Some ent"
  shows "sr_ID ent = scanID" "sr_DeletedAt ent = None" "sr_Status ent = targetStatus cmd"
    "sr_TransitionID ent = Some (cmd_TransitionID cmd)" "sr_UserID ent = cmd_UserID cmd"
    "sr_Address ent = cmd_Address cmd" "cmd_TargetState cmd = StateFAILED \<Longrightarrow> sr_Error ent = cmd_Error cmd"
    "cmd_TargetState cmd = StateSUCCESS \<Longrightarrow> sr_Error ent = ''''"
  using assms
  by (auto simp: newRow_def targetStatus_def FromScanResult_def zero_ScanResultEntity_def Let_def
      split: if_splits option.splits)

lemma newRow_success:
  assumes "newRow scanID cmd = Some ent" and "cmd_TargetState cmd = StateSUCCESS"
  shows "\<exists>result. cmd_Result cmd = Some result
      \<and> sr_content ent = sr_content ((FromScanResult (cmd_UserID cmd)
           (NormalizeScanResultWalletKind (EnsureScanResultDelegations result)))\<lparr>
             sr_Status := StateSUCCESS, sr_Address := cmd_Address cmd,
             sr_TransitionID := Some (cmd_TransitionID cmd)\<rparr>)"
  using assms
  by (auto simp: newRow_def Let_def sr_content_def FromScanResult_def zero_ScanResultEntity_def
      split: option.splits)

lemma command_rowI:
  assumes new: "newRow scanID cmd = Some ent" and "sr_ID row = scanID"
    and fields: "sr_DeletedAt row = None" "sr_Status row = sr_Status ent" "sr_Error row = sr_Error ent"
      "sr_UserID row = sr_UserID ent" "sr_Address row = sr_Address ent"
      "sr_TransitionID row = sr_TransitionID ent"
    and content: "cmd_TargetState cmd = StateSUCCESS \<Longrightarrow> sr_content row = sr_content ent"
  shows "command_row scanID cmd row"
proof -
  have "\<exists>result. cmd_Result cmd = Some result
      \<and> sr_content row = sr_content ((FromScanResult (cmd_UserID cmd)
           (NormalizeScanResultWalletKind (EnsureScanResultDelegations result)))\<lparr>
             sr_Status := StateSUCCESS, sr_Address := cmd_Address cmd,
             sr_TransitionID := Some (cmd_TransitionID cmd)\<rparr>)" if "cmd_TargetState cmd = StateSUCCESS"
    using newRow_success [OF new that] content [OF that] by simp
  then show ?thesis
    using assms(2) fields newRow_fields [OF new]
    by (simp add: command_row_def sr_live_id_def)
qed

lemma created_command_row:
  assumes new: "newRow scanID cmd = Some ent" and "sr_created ent row" and "sr_ID row = scanID"
  shows "command_row scanID cmd row"
  using assms(2,3) newRow_fields(2) [OF new]
  by (intro command_rowI [OF new]) (auto simp: sr_created_def sr_content_def)

lemma updated_command_row:
  assumes new: "newRow scanID cmd = Some ent" and old: "sr_row v scanID old"
  shows "command_row scanID cmd (rowUpdate cmd ent now old)"
    and "sr_ID (rowUpdate cmd ent now old) = scanID"
    and "sr_CreatedAt (rowUpdate cmd ent now old) = sr_CreatedAt old"
proof -
  have live: "sr_DeletedAt old = None" "sr_ID old = scanID"
    using old by (simp_all add: sr_row_def sr_live_id_def)
  note f = newRow_fields [OF new]
  show id: "sr_ID (rowUpdate cmd ent now old) = scanID"
    using live f(1) by (simp add: rowUpdate_def)
  show "sr_CreatedAt (rowUpdate cmd ent now old) = sr_CreatedAt old"
    by (simp add: rowUpdate_def)
  show "command_row scanID cmd (rowUpdate cmd ent now old)"
    by (rule command_rowI [OF new id]) (use live f in \<open>simp_all add: rowUpdate_def sr_content_def\<close>)
qed

lemma sr_store_row:
  "sr_ID row = scanID \<Longrightarrow> sr_row ((sr_store row v)\<lparr>v_scan_usage_events := M\<rparr>) scanID r
   \<Longrightarrow> r = row"
  by (auto simp: sr_row_def sr_store_def sr_others_def sr_live_id_def)

lemma sr_store_usage:
  "usage_entries (sr_store row v) = usage_entries v"
  "v_scan_usage_events (sr_store row v) = v_scan_usage_events v"
  "v_keepLedgerMissing (sr_store row v) = v_keepLedgerMissing v"
  by (simp_all add: sr_store_def)

context quota_world
begin

lemma wp_failWith:
  assumes "wp view m (\<lambda>r v'. case r of Inl e \<Rightarrow> Q (Inl (TxError res e)) v' | Inr x \<Rightarrow> Q (Inr x) v') v"
  shows "wp view (failWith res m) Q v"
  unfolding failWith_def using assms by (rule wp_mapErr)

lemma wp_noteKeepMissing:
  assumes "Q (Inr ()) (v\<lparr>v_keepLedgerMissing := v_keepLedgerMissing v + 1\<rparr>)"
  shows "wp view (noteKeepMissing E) Q v"
  using assms by (auto simp: wp_def noteKeepMissing_def keepLedgerMissing_view)

lemma wp_prepareQuota:
  assumes l: "l = None \<or> l = Some L"
    and go: "cmd_QuotaAction cmd = QuotaNone
        \<or> l \<noteq> None \<and> (cmd_QuotaAction cmd = QuotaKeep \<longrightarrow> scanID \<in> fst ` usage_entries v)
        \<Longrightarrow> Q (Inr None) v"
    and stop: "\<And>k. Q (Inr (Some (mkResult OutcomeRetryable status))) (v\<lparr>v_keepLedgerMissing := k\<rparr>)"
    and err: "\<And>e. Q (Inl (TxError (mkResult '''' status) e)) v"
  shows "wp view (prepareQuota E l scanID cmd status) Q v"
proof -
  have stop0: "Q (Inr (Some (mkResult OutcomeRetryable status))) v"
    using stop [of "v_keepLedgerMissing v"] by simp
  show ?thesis
    using l unfolding prepareQuota_def
    by (auto intro!: wp_intro wp_failWith ledger.wp_has wp_noteKeepMissing err stop stop0 go)
qed

lemma wp_finishQuota:
  assumes l: "l = None \<or> l = Some L"
    and go: "cmd_QuotaAction cmd = QuotaNone
        \<or> l \<noteq> None \<and> (cmd_QuotaAction cmd = QuotaKeep \<longrightarrow> scanID \<in> fst ` usage_entries v)"
    and ok: "\<And>M. settled (l \<noteq> None) scanID cmd v M \<Longrightarrow> Q (Inr ()) (v\<lparr>v_scan_usage_events := M\<rparr>)"
    and err: "\<And>e k. Q (Inl (TxError onErr e)) (v\<lparr>v_keepLedgerMissing := k\<rparr>)"
  shows "wp view (finishQuota E l scanID cmd onErr) Q v"
proof -
  have err0: "Q (Inl (TxError onErr e)) v" for e
    using err [of e "v_keepLedgerMissing v"] by simp
  have ok0: "Q (Inr ()) v" if "settled (l \<noteq> None) scanID cmd v (v_scan_usage_events v)"
    using ok [OF that] by simp
  have distinct: "QuotaNone \<noteq> QuotaKeep" "QuotaNone \<noteq> QuotaRelease" "QuotaKeep \<noteq> QuotaRelease"
    by (simp_all add: QuotaNone_def QuotaKeep_def QuotaRelease_def)
  consider (release) "cmd_QuotaAction cmd = QuotaRelease" | (keep) "cmd_QuotaAction cmd = QuotaKeep"
    | (other) "cmd_QuotaAction cmd \<noteq> QuotaRelease" "cmd_QuotaAction cmd \<noteq> QuotaKeep" by blast
  then show ?thesis
  proof cases
    case release
    with go distinct l have "l = Some L" by auto
    with release show ?thesis
      unfolding finishQuota_def
      by (auto intro!: wp_failWith ledger.wp_release case_sum_InrI case_sum_InlI err0 ok simp: settled_def)
  next
    case keep
    with go distinct l have L: "l = Some L" and has: "scanID \<in> fst ` usage_entries v" by auto
    have "Q (Inr ()) v"
      by (rule ok0) (use keep distinct L has in \<open>simp add: settled_def\<close>)
    then show ?thesis
      using keep distinct L has unfolding finishQuota_def
      by (simp, intro wp_intro wp_failWith ledger.wp_has) (simp_all add: err0)
  next
    case other
    with go show ?thesis
      unfolding finishQuota_def
      by (auto intro!: wp_return ok0 simp: settled_def)
  qed
qed

lemma wp_writeScoped:
  assumes panic: "newRow scanID cmd = None \<Longrightarrow> Q (Inl TxPanic) v"
    and hit: "\<And>ent old now. newRow scanID cmd = Some ent \<Longrightarrow> sr_row v scanID old
        \<Longrightarrow> logical (sr_Status old) \<in> set (cmd_SourceStates cmd)
        \<Longrightarrow> Q (Inr 1) (sr_store (rowUpdate cmd ent now old) v)"
    and miss: "(\<And>old. sr_row v scanID old \<Longrightarrow> logical (sr_Status old) \<notin> set (cmd_SourceStates cmd))
        \<Longrightarrow> Q (Inr 0) v"
    and err: "\<And>e. Q (Inl (TxError onErr e)) v"
  shows "wp view (writeScoped E scanID cmd onErr) Q v"
  unfolding writeScoped_def
proof (intro wp_case_option wp_throw panic wp_bind wp_now case_sum_InrI wp_failWith)
  fix ent now
  assume new: "newRow scanID cmd = Some ent"
  show "wp view (gorm_Updates (scan_results E) (sourceScope scanID (cmd_SourceStates cmd))
      (if cmd_TargetState cmd = StateSUCCESS
       then (\<lambda>r. ent\<lparr>sr_UpdatedAt := now, sr_CreatedAt := sr_CreatedAt r, sr_DeletedAt := sr_DeletedAt r\<rparr>)
       else (\<lambda>r. r\<lparr>sr_Status := sr_Status ent, sr_Error := sr_Error ent, sr_UserID := sr_UserID ent,
              sr_Address := sr_Address ent, sr_TransitionID := Some (cmd_TransitionID cmd),
              sr_UpdatedAt := now\<rparr>)))
      (\<lambda>r v'. case r of Inl e \<Rightarrow> Q (Inl (TxError onErr e)) v' | Inr x \<Rightarrow> Q (Inr x) v') v"
    unfolding rowUpdate_def [symmetric]
  proof (rule wallet.wp_Updates_key [where key = sr_ID and k = scanID], goal_cases)
    case (3 r)
    then have old: "sr_row v scanID r" "logical (sr_Status r) \<in> set (cmd_SourceStates cmd)"
      by (auto simp: sourceScope_iff sr_row_def)
    from hit [OF new old, of now] updated_command_row(2) [OF new old(1), of now] show ?case
      by (simp add: sr_store_def sr_others_def)
  next
    case 4
    with miss show ?case by (auto simp: sourceScope_iff sr_row_def)
  qed (auto simp: wallet_conflict_def sourceScope_iff sr_live_id_def err)
qed simp_all

lemma wp_finish_reload:
  assumes l: "l = None \<or> l = Some L" and row: "command_row scanID cmd row"
    and go: "cmd_QuotaAction cmd = QuotaNone
        \<or> l \<noteq> None \<and> (cmd_QuotaAction cmd = QuotaKeep \<longrightarrow> scanID \<in> fst ` usage_entries v)"
    and ok: "\<And>M. settled (l \<noteq> None) scanID cmd v M
        \<Longrightarrow> Q (Inr (applied_result row)) ((sr_store row v)\<lparr>v_scan_usage_events := M\<rparr>)"
    and err: "\<And>out e v'. touched v v' \<Longrightarrow> Q (Inl (TxError out e)) v'"
  shows "wp view (bindP (finishQuota E l scanID cmd onErr) (\<lambda>_. reload E scanID OutcomeApplied)) Q
      (sr_store row v)"
proof (rule wp_bind, rule wp_finishQuota [OF l])
  show "cmd_QuotaAction cmd = QuotaNone
      \<or> l \<noteq> None \<and> (cmd_QuotaAction cmd = QuotaKeep \<longrightarrow> scanID \<in> fst ` usage_entries (sr_store row v))"
    using go by (simp add: sr_store_usage)
next
  fix M
  assume "settled (l \<noteq> None) scanID cmd (sr_store row v) M"
  then have M: "settled (l \<noteq> None) scanID cmd v M"
    by (simp only: settled_def sr_store_usage)
  have status: "logical (sr_Status row) = sr_Status row"
    using row by (auto simp: command_row_def targetStatus_def logical_def)
  have id: "sr_ID row = scanID" "sr_live_id scanID row"
    using row by (simp_all add: command_row_def sr_live_id_def)
  have "wp view (reload E scanID OutcomeApplied) Q ((sr_store row v)\<lparr>v_scan_usage_events := M\<rparr>)"
    unfolding reload_def Let_def
  proof (intro wp_bind wp_failWith wallet.wp_First case_sum_InrI case_sum_InlI wp_return)
    fix r
    assume "r \<in># v_scan_results ((sr_store row v)\<lparr>v_scan_usage_events := M\<rparr>)" "sr_live_id scanID r"
    then have "r = row"
      by (intro sr_store_row [OF id(1)]) (simp add: sr_row_def)
    then show "Q (Inr \<lparr>out_Outcome = OutcomeApplied,
        out_Status = sr_Status (r\<lparr>sr_Status := logical (sr_Status r)\<rparr>),
        out_Row = Some (r\<lparr>sr_Status := logical (sr_Status r)\<rparr>)\<rparr>)
        ((sr_store row v)\<lparr>v_scan_usage_events := M\<rparr>)"
      using ok [OF M] by (simp add: status applied_result_def)
  qed (simp_all add: err)
  then show "case Inr () of Inl e \<Rightarrow> Q (Inl e) ((sr_store row v)\<lparr>v_scan_usage_events := M\<rparr>)
      | Inr _ \<Rightarrow> wp view (reload E scanID OutcomeApplied) Q ((sr_store row v)\<lparr>v_scan_usage_events := M\<rparr>)"
    by simp
qed (simp add: err)

lemma wp_applyExisting:
  assumes l: "l = None \<or> l = Some L"
    and ent: "sr_row v scanID ent" and uniq: "\<And>r. sr_row v scanID r \<Longrightarrow> r = ent"
    and ok: "\<And>row M. command_row scanID cmd row \<Longrightarrow> from_source scanID cmd v row
        \<Longrightarrow> settled (l \<noteq> None) scanID cmd v M
        \<Longrightarrow> Q (Inr (applied_result row)) ((sr_store row v)\<lparr>v_scan_usage_events := M\<rparr>)"
    and refused: "\<And>res k. refused_as scanID cmd v res \<Longrightarrow> Q (Inr res) (v\<lparr>v_keepLedgerMissing := k\<rparr>)"
    and err: "\<And>out e v'. touched v v' \<Longrightarrow> Q (Inl (TxError out e)) v'"
    and panic: "newRow scanID cmd = None \<Longrightarrow> Q (Inl TxPanic) v"
  shows "wp view (applyExisting E l scanID cmd ent) Q v"
proof -
  have refused0: "Q (Inr res) v" if "refused_as scanID cmd v res" for res
    using refused [OF that, of "v_keepLedgerMissing v"] by simp
  have scoped: "wp view (bindP (writeScoped E scanID cmd onErr) (\<lambda>n. if n = 0 then m
      else bindP (finishQuota E l scanID cmd onErr') (\<lambda>_. reload E scanID OutcomeApplied))) Q v"
    if src: "logical (sr_Status ent) \<in> set (cmd_SourceStates cmd)"
      and new: "\<not> sameTransition ent (cmd_TransitionID cmd)"
      and go: "cmd_QuotaAction cmd = QuotaNone
        \<or> l \<noteq> None \<and> (cmd_QuotaAction cmd = QuotaKeep \<longrightarrow> scanID \<in> fst ` usage_entries v)"
    for m onErr onErr'
  proof (rule wp_bind, rule wp_writeScoped)
    fix nrow old now
    assume nrow: "newRow scanID cmd = Some nrow" and old: "sr_row v scanID old"
    let ?row = "rowUpdate cmd nrow now old"
    note upd = updated_command_row [OF nrow old, of now]
    have sourced: "from_source scanID cmd v ?row"
      using old uniq [OF old] src new upd(3) by (auto simp: from_source_def)
    have "wp view (bindP (finishQuota E l scanID cmd onErr') (\<lambda>_. reload E scanID OutcomeApplied)) Q
        (sr_store ?row v)"
      by (rule wp_finish_reload [OF l upd(1) go]) (simp_all only: ok [OF upd(1) sourced] err)
    then show "case Inr (1 :: nat) of Inl e \<Rightarrow> Q (Inl e) (sr_store ?row v)
        | Inr n \<Rightarrow> wp view (if n = 0 then m
            else bindP (finishQuota E l scanID cmd onErr') (\<lambda>_. reload E scanID OutcomeApplied)) Q
            (sr_store ?row v)"
      by simp
  qed (use ent src in \<open>auto simp: err panic\<close>)
  show ?thesis
    unfolding applyExisting_def Let_def contains_iff
    by (intro wp_if wp_return wp_bind [where m = "prepareQuota E l scanID cmd (logical (sr_Status ent))"]
        wp_prepareQuota [OF l] case_sum_InrI case_sum_InlI wp_case_option scoped err)
      (use ent in \<open>auto intro!: refused refused0 simp: refused_as_def\<close>)
qed

lemma wp_applyMissing:
  assumes l: "l = None \<or> l = Some L"
    and none: "\<nexists>r. sr_row v scanID r"
    and ok: "\<And>row M. command_row scanID cmd row \<Longrightarrow> from_source scanID cmd v row
        \<Longrightarrow> settled (l \<noteq> None) scanID cmd v M
        \<Longrightarrow> Q (Inr (applied_result row)) ((sr_store row v)\<lparr>v_scan_usage_events := M\<rparr>)"
    and refused: "\<And>res k. refused_as scanID cmd v res \<Longrightarrow> Q (Inr res) (v\<lparr>v_keepLedgerMissing := k\<rparr>)"
    and err: "\<And>out e v'. touched v v' \<Longrightarrow> Q (Inl (TxError out e)) v'"
    and panic: "newRow scanID cmd = None \<Longrightarrow> Q (Inl TxPanic) v"
  shows "wp view (applyMissing E l scanID cmd) Q v"
proof -
  have refused0: "Q (Inr res) v" if "refused_as scanID cmd v res" for res
    using refused [OF that, of "v_keepLedgerMissing v"] by simp
  have insert: "wp view (bindP (failWith (mkResult '''' StatePENDING) (sr_stamped E ent)) (\<lambda>ent.
      bindP (failWith (mkResult '''' StatePENDING)
               (gorm_CreateDoNothing (scan_results E) wallet_conflict ent)) (\<lambda>rowsAffected.
      if rowsAffected = 0 then
        bindP (failWith (mkResult '''' StatePENDING)
                 (gorm_First (scan_results E) (sr_live_id scanID))) (\<lambda>winner.
        applyExisting E l scanID cmd winner)
      else
        bindP (finishQuota E l scanID cmd (mkResult '''' StatePENDING)) (\<lambda>_.
        reload E scanID OutcomeApplied)))) Q v"
    if src: "StatePENDING \<in> set (cmd_SourceStates cmd)"
      and go: "cmd_QuotaAction cmd = QuotaNone
        \<or> l \<noteq> None \<and> (cmd_QuotaAction cmd = QuotaKeep \<longrightarrow> scanID \<in> fst ` usage_entries v)"
      and new: "newRow scanID cmd = Some ent" for ent
  proof -
    have finish: "wp view (bindP (finishQuota E l scanID cmd (mkResult '''' StatePENDING)) (\<lambda>_.
        reload E scanID OutcomeApplied)) Q (v\<lparr>v_scan_results := add_mset row (v_scan_results v)\<rparr>)"
      if row: "sr_created ent row" and free: "filter_mset (wallet_conflict row) (v_scan_results v) = {#}" for row
    proof -
      have store: "v\<lparr>v_scan_results := add_mset row (v_scan_results v)\<rparr> = sr_store row v"
        using no_wallet_row_of_id [OF free] by (simp add: sr_store_def sr_others_def)
      show ?thesis
        unfolding store
      proof (cases "sr_ID row = scanID")
        case True
        have sourced: "from_source scanID cmd v row"
          using no_wallet_row_of_id [OF free] True src by (simp add: from_source_def sr_others_def)
        note row' = created_command_row [OF new row True]
        show "wp view (bindP (finishQuota E l scanID cmd (mkResult '''' StatePENDING)) (\<lambda>_.
            reload E scanID OutcomeApplied)) Q (sr_store row v)"
          by (rule wp_finish_reload [OF l row' go]) (simp_all only: ok [OF row' sourced] err)
      next
        case False
        with none have gone: "\<not> sr_row ((sr_store row v)\<lparr>v_scan_usage_events := M\<rparr>) scanID r" for M r
          by (auto simp: sr_row_def sr_store_def sr_others_def sr_live_id_def)
        show "wp view (bindP (finishQuota E l scanID cmd (mkResult '''' StatePENDING)) (\<lambda>_.
            reload E scanID OutcomeApplied)) Q (sr_store row v)"
          unfolding reload_def Let_def
          by (intro wp_bind wp_finishQuota [OF l] wp_failWith wallet.wp_First case_sum_InrI case_sum_InlI)
            (use go gone in \<open>auto simp: sr_store_usage sr_row_def err\<close>)
      qed
    qed
    have taken: "wp view (bindP (failWith (mkResult '''' StatePENDING)
        (gorm_First (scan_results E) (sr_live_id scanID))) (applyExisting E l scanID cmd)) Q v"
      by (intro wp_bind wp_failWith wallet.wp_First case_sum_InrI case_sum_InlI)
        (use none in \<open>auto simp: err sr_row_def\<close>)
    show ?thesis
      by (intro wp_bind [where m = "failWith (mkResult '''' StatePENDING) (sr_stamped E ent)"]
          wp_bind [where m = "failWith (mkResult '''' StatePENDING)
            (gorm_CreateDoNothing (scan_results E) wallet_conflict _)"]
          wp_failWith wp_sr_stamped wallet.wp_CreateDoNothing case_sum_InrI case_sum_InlI)
        (simp_all add: finish taken err)
  qed
  show ?thesis
    unfolding applyMissing_def contains_iff
    by (intro wp_if wp_return wp_bind [where m = "prepareQuota E l scanID cmd StatePENDING"]
        wp_prepareQuota [OF l] case_sum_InrI case_sum_InlI wp_case_option insert err wp_throw panic)
      (use none in \<open>auto intro!: refused refused0 simp: refused_as_def\<close>)
qed

lemma wp_applyTx:
  assumes l: "l = None \<or> l = Some L"
    and ok: "\<And>row M. command_row scanID cmd row \<Longrightarrow> from_source scanID cmd v row
        \<Longrightarrow> settled (l \<noteq> None) scanID cmd v M
        \<Longrightarrow> Q (Inr (applied_result row)) ((sr_store row v)\<lparr>v_scan_usage_events := M\<rparr>)"
    and refused: "\<And>res k. refused_as scanID cmd v res \<Longrightarrow> Q (Inr res) (v\<lparr>v_keepLedgerMissing := k\<rparr>)"
    and err: "\<And>out e v'. touched v v' \<Longrightarrow> Q (Inl (TxError out e)) v'"
    and panic: "newRow scanID cmd = None \<Longrightarrow> Q (Inl TxPanic) v"
  shows "wp view (applyTx E l scanID cmd) Q v"
proof (rule wallet.wp_unique_rows)
  assume uniq: "\<And>r. r \<in># v_scan_results v \<Longrightarrow> filter_mset (wallet_conflict r) (v_scan_results v) = {#r#}"
  have one: "r = ent" if "sr_row v scanID ent" "sr_row v scanID r" for r ent
  proof -
    have "r \<in># filter_mset (wallet_conflict ent) (v_scan_results v)"
      using that by (simp add: sr_row_def sr_live_id_def wallet_conflict_def)
    with uniq [of ent] that show ?thesis by (simp add: sr_row_def)
  qed
  show ?thesis
    unfolding applyTx_def
  proof (intro wp_bind [where f = "\<lambda>found. case found of None \<Rightarrow> _ | Some ent \<Rightarrow> _ ent"] wp_catch
      wp_bind [where f = "\<lambda>ent. returnP (Some ent)"] wallet.wp_First wp_return wp_throw wp_if
      case_sum_InrI case_sum_InlI, goal_cases)
    case 1
    then show ?case
      using ok refused err panic
      by (simp, intro wp_applyMissing [OF l]) (auto simp: sr_row_def)
  next
    case (3 r)
    then have "sr_row v scanID r" by (simp add: sr_row_def)
    with one ok refused err panic show ?case
      by (simp, intro wp_applyExisting [OF l]) auto
  qed (simp_all add: err)
qed

lemma wp_Apply:
  assumes l: "l = None \<or> l = Some L"
    and ok: "\<And>row M. db \<Longrightarrow> command_row scanID cmd row \<Longrightarrow> from_source scanID cmd v row
        \<Longrightarrow> settled (l \<noteq> None) scanID cmd v M
        \<Longrightarrow> Q (Inr (applied_result row)) ((sr_store row v)\<lparr>v_scan_usage_events := M\<rparr>)"
    and refused: "\<And>res k. refused_as scanID cmd v res \<Longrightarrow> Q (Inr res) (v\<lparr>v_keepLedgerMissing := k\<rparr>)"
    and panic: "newRow scanID cmd = None \<Longrightarrow> Q (Inl Panic) v"
  shows "wp view (Apply E db l scanID cmd) Q v"
proof -
  have retry: "Q (Inr (mkResult OutcomeRetryable status)) (v\<lparr>v_keepLedgerMissing := k\<rparr>)" for status k
    by (rule refused) (auto simp: refused_as_def)
  have retry0: "Q (Inr (mkResult OutcomeRetryable status)) v" for status
    using retry [of status "v_keepLedgerMissing v"] by simp
  have restored: "restore_tables v ((sr_store row v)\<lparr>v_scan_usage_events := M\<rparr>) = v"
    "restore_tables v (v\<lparr>v_keepLedgerMissing := k\<rparr>) = v\<lparr>v_keepLedgerMissing := k\<rparr>" for row M k
    by (simp_all add: restore_tables_def sr_store_def)
  show ?thesis
    unfolding Apply_def
    by (intro wp_if wp_return wp_catch wp_Transaction wp_applyTx [OF l])
      (auto simp: restored restore_touched intro!: wp_intro retry retry0 ok refused panic)
qed

end

section \<open>Properties of the transition\<close>

lemmas outcome_defs = OutcomeApplied_def OutcomeAlreadyApplied_def OutcomeAlreadyRunning_def
  OutcomeAlreadyTerminal_def OutcomeRejected_def OutcomeRetryable_def

lemma refused_not_applied: "refused_as scanID cmd v res \<Longrightarrow> out_Outcome res \<noteq> OutcomeApplied"
  by (auto simp: refused_as_def classify_def mkResult_def Let_def outcome_defs split: if_splits)

lemma wallet_command_outcomes':
  assumes world: "world E view"
    and run: "Apply E db (Some (NewScanUsageLedgerRepository E)) scanID cmd w = (r, w')"
  shows "case r of
      Inl Panic \<Rightarrow> newRow scanID cmd = None \<and> view w' = view w
    | Inr res \<Rightarrow>
        if out_Outcome res = OutcomeApplied
        then \<exists>row M. view w' = (sr_store row (view w))\<lparr>v_scan_usage_events := M\<rparr>
          \<and> res = \<lparr>out_Outcome = OutcomeApplied, out_Status = targetStatus cmd, out_Row = Some row\<rparr>
          \<and> command_row scanID cmd row \<and> from_source scanID cmd (view w) row
          \<and> settled True scanID cmd (view w) M
        else (\<exists>k. view w' = (view w)\<lparr>v_keepLedgerMissing := k\<rparr>) \<and> refused_as scanID cmd (view w) res"
proof -
  let ?Q = "\<lambda>r v'. case r of
      Inl Panic \<Rightarrow> newRow scanID cmd = None \<and> v' = view w
    | Inr res \<Rightarrow>
        if out_Outcome res = OutcomeApplied
        then \<exists>row M. v' = (sr_store row (view w))\<lparr>v_scan_usage_events := M\<rparr>
          \<and> res = \<lparr>out_Outcome = OutcomeApplied, out_Status = targetStatus cmd, out_Row = Some row\<rparr>
          \<and> command_row scanID cmd row \<and> from_source scanID cmd (view w) row
          \<and> settled True scanID cmd (view w) M
        else (\<exists>k. v' = (view w)\<lparr>v_keepLedgerMissing := k\<rparr>) \<and> refused_as scanID cmd (view w) res"
  have "wp view (Apply E db (Some (NewScanUsageLedgerRepository E)) scanID cmd) ?Q (view w)"
    by (rule quota_world.wp_Apply [OF world.quota_std [OF world]])
      (auto simp: applied_result_def refused_not_applied command_row_def)
  from wpD [OF this run] show ?thesis .
qed


definition start_cmd :: Command where
  "start_cmd = \<lparr>cmd_TransitionID = ''t1'', cmd_UserID = 1, cmd_Address = ''0xab'',
     cmd_SourceStates = [StatePENDING], cmd_TargetState = StateRUNNING, cmd_QuotaAction = QuotaNone,
     cmd_Result = None, cmd_Error = ''''\<rparr>"

definition fail_cmd :: Command where
  "fail_cmd = start_cmd\<lparr>cmd_TransitionID := ''t2'', cmd_SourceStates := [StatePENDING, StateRUNNING],
     cmd_TargetState := StateFAILED, cmd_QuotaAction := QuotaRelease, cmd_Error := ''boom''\<rparr>"

abbreviation mem_Apply :: "uuid \<Rightarrow> Command \<Rightarrow> (mem, panic, Result) prog" where
  "mem_Apply \<equiv> Apply mem_env True (Some (NewScanUsageLedgerRepository mem_env))"

definition outcome_of :: "panic + Result \<Rightarrow> string option" where
  "outcome_of r = (case r of Inl _ \<Rightarrow> None | Inr res \<Rightarrow> Some (out_Outcome res))"

lemma outcome_ofE:
  assumes "outcome_of (fst (m w)) = Some oc"
  obtains res where "m w = (Inr res, snd (m w))" and "out_Outcome res = oc"
  using assms by (cases "m w") (auto simp: outcome_of_def split: sum.splits)

lemma demo_applied: "outcome_of (fst (mem_Apply 5 start_cmd ledger_demo)) = Some OutcomeApplied"
  by code_simp

lemma demo_replayed:
  "outcome_of (fst (mem_Apply 5 start_cmd (snd (mem_Apply 5 start_cmd ledger_demo))))
   = Some OutcomeAlreadyApplied"
  by code_simp


text \<open>
  The ways in which the transaction of a replay can fail: it cannot begin, the read of the row
  fails, or the commit fails, each being the call the run makes at that point.
\<close>

definition replay_failed :: "'w env \<Rightarrow> uuid \<Rightarrow> 'w \<Rightarrow> bool" where
  "replay_failed E scanID w \<longleftrightarrow>
     (case tx_Begin E w of
        (Inl _, _) \<Rightarrow> True
      | (Inr _, w1) \<Rightarrow>
          (case sql_select (scan_results E) (sr_live_id scanID) w1 of
             (Inl _, _) \<Rightarrow> True
           | (Inr _, w2) \<Rightarrow> isl (fst (tx_Commit E w1 w2))))"

lemma Apply_same_transition:
  assumes world: "world E view" and row: "sr_row (view w) scanID row"
    and only: "\<And>r. sr_row (view w) scanID r \<Longrightarrow> r = row"
    and same: "sameTransition row (cmd_TransitionID cmd)"
    and run: "Apply E True ledger scanID cmd w = (Inr res, w')"
  shows "if replay_failed E scanID w then out_Outcome res = OutcomeRetryable
         else res = \<lparr>out_Outcome = OutcomeAlreadyApplied, out_Status = logical (sr_Status row),
           out_Row = Some (row\<lparr>sr_Status := logical (sr_Status row)\<rparr>)\<rparr>"
proof -
  obtain b w1 where b: "tx_Begin E w = (b, w1)" by fastforce
  obtain s w2 where s: "sql_select (scan_results E) (sr_live_id scanID) w1 = (s, w2)" by fastforce
  obtain c w3 where c: "tx_Commit E w1 w2 = (c, w3)" by fastforce
  have hd: "\<exists>rs'. rs = row # rs'" if "s = Inr rs" for rs
  proof -
    have "view w1 = view w" using world.begin_view [OF world b] .
    with sql_engine.select_ok [OF world.axioms(1) [OF world] s [unfolded that]]
    have mset: "mset rs = filter_mset (sr_live_id scanID) (v_scan_results (view w))" by simp
    have set: "set rs = {r. sr_row (view w) scanID r}"
      using arg_cong [OF mset, of set_mset] by (auto simp: sr_row_def)
    then have ne: "rs \<noteq> []" using row by auto
    with set have "sr_row (view w) scanID (hd rs)" using hd_in_set [OF ne] by blast
    then have "hd rs = row" by (rule only)
    with ne show ?thesis by (metis list.collapse)
  qed
  let ?done = "\<lparr>out_Outcome = OutcomeAlreadyApplied, out_Status = logical (sr_Status row),
      out_Row = Some (row\<lparr>sr_Status := logical (sr_Status row)\<rparr>)\<rparr>"
  have existing: "applyExisting E ledger scanID cmd row = returnP ?done"
    using same by (simp add: applyExisting_def Let_def)
  have read: "applyTx E ledger scanID cmd w1 = (case s of
      Inl e \<Rightarrow> (Inl (TxError (mkResult '''' '''') (SqlError e)), w2)
    | Inr _ \<Rightarrow> (Inr ?done, w2))"
  proof (cases s)
    case (Inl e)
    with s show ?thesis
      by (simp add: applyTx_def gorm_First_def bindP_def catchP_def mapErrP_def throwP_def)
  next
    case (Inr rs)
    with hd obtain rs' where "rs = row # rs'" by blast
    with s Inr show ?thesis
      by (simp add: applyTx_def gorm_First_def bindP_def catchP_def mapErrP_def returnP_def existing)
  qed
  have body: "gorm_Transaction E (TxError (mkResult '''' '''')) TxError (applyTx E ledger scanID cmd) w
    = (case b of Inl e \<Rightarrow> (Inl (TxError (mkResult '''' '''') (SqlError e)), w1)
       | Inr _ \<Rightarrow> (case s of
           Inl e \<Rightarrow> (Inl (TxError (mkResult '''' '''') (SqlError e)), tx_Rollback E w1 w2)
         | Inr _ \<Rightarrow> (case c of Inl e \<Rightarrow> (Inl (TxError ?done (SqlError e)), w3) | Inr _ \<Rightarrow> (Inr ?done, w3))))"
    using b c read by (simp add: gorm_Transaction_def split: sum.splits)
  have failed: "replay_failed E scanID w \<longleftrightarrow> isl b \<or> isl s \<or> isl c"
    using b s c by (auto simp: replay_failed_def split: sum.splits)
  show ?thesis
    using run by (cases b; cases s; cases c)
      (simp_all add: Apply_def catchP_def body failed returnP_def, auto simp: mkResult_def)
qed

text \<open>
  C9. Commands are idempotent: when a command was applied, sending it again changes no table. The
  answer is \<^verbatim>\<open>already_applied\<close> with the status and the row the first one reported, unless the second
  transaction itself failed (it could not begin, the read of the row failed, or the commit failed),
  and then it is the retryable error; it is never applied twice.
\<close>

theorem wallet_command_replay:
  assumes world: "world E view"
    and first: "Apply E db (Some (NewScanUsageLedgerRepository E)) scanID cmd w = (Inr res, w1)"
      "out_Outcome res = OutcomeApplied"
    and again: "Apply E db (Some (NewScanUsageLedgerRepository E)) scanID cmd w1 = (Inr res', w2)"
  shows "(\<exists>k. view w2 = (view w1)\<lparr>v_keepLedgerMissing := k\<rparr>)
       \<and> (if replay_failed E scanID w1 then out_Outcome res' = OutcomeRetryable
          else out_Outcome res' = OutcomeAlreadyApplied \<and> out_Status res' = out_Status res
            \<and> out_Row res' = out_Row res)"
proof -
  from wallet_command_outcomes' [OF world first(1)] first(2) obtain row M where
    v1: "view w1 = (sr_store row (view w))\<lparr>v_scan_usage_events := M\<rparr>" and row: "command_row scanID cmd row"
    and res: "out_Status res = targetStatus cmd" "out_Row res = Some row"
    by auto
  have id: "sr_ID row = scanID" and live: "sr_live_id scanID row"
    and same: "sameTransition row (cmd_TransitionID cmd)" and status: "sr_Status row = targetStatus cmd"
    using row by (simp_all add: command_row_def sr_live_id_def sameTransition_def)
  have stored: "sr_row (view w1) scanID row"
    unfolding v1 using live by (simp add: sr_row_def sr_store_def)
  have only: "r = row" if "sr_row (view w1) scanID r" for r
    using that unfolding v1 by (rule sr_store_row [OF id])
  have "\<not> from_source scanID cmd (view w1) row'" for row'
  proof
    assume "from_source scanID cmd (view w1) row'"
    moreover have "row \<in># v_scan_results (view w1)" using stored by (simp add: sr_row_def)
    moreover have "row \<notin># sr_others scanID (view w1)" using id by (simp add: sr_others_def)
    ultimately show False
      using only same unfolding from_source_def by metis
  qed
  with wallet_command_outcomes' [OF world again]
  have same_tables: "\<exists>k. view w2 = (view w1)\<lparr>v_keepLedgerMissing := k\<rparr>"
    by (auto split: if_splits)
  have logical: "logical (sr_Status row) = sr_Status row"
    by (auto simp: status targetStatus_def logical_def)
  have db: db
    using first by (cases db) (auto simp: Apply_def returnP_def mkResult_def outcome_defs)
  have "if replay_failed E scanID w1 then out_Outcome res' = OutcomeRetryable
      else res' = \<lparr>out_Outcome = OutcomeAlreadyApplied, out_Status = logical (sr_Status row),
        out_Row = Some (row\<lparr>sr_Status := logical (sr_Status row)\<rparr>)\<rparr>"
    by (rule Apply_same_transition [OF world stored only same]) (use again db in simp_all)
  with same_tables res status logical show ?thesis by (auto split: if_splits)
qed

theorem wallet_command_replay_witness:
  "out_Outcome (projr (fst (mem_Apply 5 start_cmd (snd (mem_Apply 5 start_cmd ledger_demo)))))
     = OutcomeAlreadyApplied
   \<and> \<not> replay_failed mem_env 5 (snd (mem_Apply 5 start_cmd ledger_demo))"
proof -
  let ?w1 = "snd (mem_Apply 5 start_cmd ledger_demo)"
  obtain res where first: "mem_Apply 5 start_cmd ledger_demo = (Inr res, ?w1)" "out_Outcome res = OutcomeApplied"
    using demo_applied by (rule outcome_ofE)
  obtain res' where again: "mem_Apply 5 start_cmd ?w1 = (Inr res', snd (mem_Apply 5 start_cmd ?w1))"
    using demo_replayed by (rule outcome_ofE)
  have ok: "\<not> replay_failed mem_env 5 ?w1" by code_simp
  have "fst (mem_Apply 5 start_cmd ?w1) = Inr res'" by (subst again) simp
  with ok wallet_command_replay [OF mem_world first again] show ?thesis by simp
qed

end
