(* ===== verification/Strconv.thy ===== *)
theory Strconv
  imports Json
begin

text \<open>
  The functions of the package \<^verbatim>\<open>strconv\<close> that the request handlers call: \<^verbatim>\<open>ParseInt(s, 10, 64)\<close>,
  \<^verbatim>\<open>Atoi\<close> (the same, an \<^verbatim>\<open>int\<close> has 64 bits), \<^verbatim>\<open>ParseBool\<close> and \<^verbatim>\<open>FormatInt(i, 10)\<close>, which is
  \<open>show_int\<close>. \<open>None\<close> is an error.
\<close>

definition digit_value :: "char \<Rightarrow> int option" where
  "digit_value c =
     (let n = (of_char c :: nat) in if 48 \<le> n \<and> n \<le> 57 then Some (int n - 48) else None)"

fun read_digits :: "string \<Rightarrow> int \<Rightarrow> int option" where
  "read_digits [] acc = Some acc"
| "read_digits (c # cs) acc =
     (case digit_value c of None \<Rightarrow> None | Some d \<Rightarrow> read_digits cs (10 * acc + d))"

definition in_int64 :: "int \<Rightarrow> bool" where
  "in_int64 i \<longleftrightarrow> - (2 ^ 63) \<le> i \<and> i < 2 ^ 63"

definition ParseInt :: "string \<Rightarrow> int option" where
  "ParseInt s =
     (let (neg, digits) =
        (case s of
           c # cs \<Rightarrow> if c = CHR ''-'' then (True, cs) else if c = CHR ''+'' then (False, cs) else (False, s)
         | [] \<Rightarrow> (False, s))
      in if digits = '''' then None
         else
           (case read_digits digits 0 of
              None \<Rightarrow> None
            | Some n \<Rightarrow> let i = (if neg then - n else n) in if in_int64 i then Some i else None))"

definition Atoi :: "string \<Rightarrow> int option" where
  "Atoi s = ParseInt s"

definition ParseBool :: "string \<Rightarrow> bool option" where
  "ParseBool s =
     (if s \<in> set [''1'', ''t'', ''T'', ''TRUE'', ''true'', ''True''] then Some True
      else if s \<in> set [''0'', ''f'', ''F'', ''FALSE'', ''false'', ''False''] then Some False
      else None)"

section \<open>Reading back what was printed\<close>

lemma digit_value_char: "0 \<le> d \<Longrightarrow> d < 10 \<Longrightarrow> digit_value (digit_char d) = Some d"
proof -
  assume "0 \<le> d" "d < 10"
  then have "d \<in> set [0..9]" by simp
  moreover have "list_all (\<lambda>d. digit_value (digit_char d) = Some d) [0..9]" by code_simp
  ultimately show ?thesis by (simp only: list_all_iff)
qed

lemma read_digits_append:
  "read_digits (xs @ ys) acc = (case read_digits xs acc of None \<Rightarrow> None | Some n \<Rightarrow> read_digits ys n)"
  by (induction xs arbitrary: acc) (auto split: option.splits)

lemma read_show_digits: "0 \<le> i \<Longrightarrow> read_digits (show_digits i) 0 = Some i"
proof (induction i rule: show_digits.induct)
  case (1 i)
  then show ?case
    by (subst show_digits.simps) (auto simp: read_digits_append digit_value_char)
qed

lemma show_digits_nonempty [simp]: "show_digits i \<noteq> ''''"
  by (subst show_digits.simps) simp

lemma show_digits_first:
  assumes "0 \<le> i" "show_digits i = c # cs"
  shows "c \<noteq> CHR ''-'' \<and> c \<noteq> CHR ''+''"
proof -
  from read_show_digits [OF assms(1)] assms(2) have "digit_value c \<noteq> None" by (auto split: option.splits)
  then show ?thesis by (auto simp: digit_value_def)
qed

lemma ParseInt_show_int: "in_int64 i \<Longrightarrow> ParseInt (show_int i) = Some i"
proof (cases "i < 0")
  case True
  assume "in_int64 i"
  with True read_show_digits [of "- i"] show ?thesis
    by (simp add: show_int_def ParseInt_def)
next
  case False
  assume "in_int64 i"
  obtain c cs where cs: "show_digits i = c # cs" by (cases "show_digits i") auto
  with False \<open>in_int64 i\<close> read_show_digits [of i] show_digits_first [of i c cs] show ?thesis
    by (simp add: show_int_def ParseInt_def)
qed

lemma ParseInt_in_range: "ParseInt s = Some i \<Longrightarrow> in_int64 i"
  by (auto simp: ParseInt_def Let_def split: if_splits option.splits prod.splits)

end
