(* ===== verification/Http.thy ===== *)
theory Http
  imports Environment Strconv
begin

text \<open>
  Requests, responses and what the two internal APIs share: the helpers of
  \<^verbatim>\<open>internal/scanapi/respond.go\<close>, the bearer-token check of \<^verbatim>\<open>auth.go\<close> and the parsing of page
  parameters, which \<^verbatim>\<open>scanapi\<close> and \<^verbatim>\<open>cpapi\<close> each have a copy of.

  A handler is a program whose early returns are its errors: \<open>throwP\<close> of a response is
  \<^verbatim>\<open>write...(w, r, ...); return\<close>. A header, query parameter or path value that is absent is the
  empty string, as for Go's getters.
\<close>

record request =
  req_Header :: "string \<Rightarrow> string"
  req_Query :: "string \<Rightarrow> string"
  req_PathValue :: "string \<Rightarrow> string"
  req_Body :: string

record response =
  resp_Status :: int
  resp_RequestID :: "string option"
  resp_Body :: "any option"

type_synonym 'w handler = "request \<Rightarrow> ('w, response, response) prog"

definition serve :: "'w handler \<Rightarrow> request \<Rightarrow> 'w \<Rightarrow> response \<times> 'w" where
  "serve h r w = (case h r w of (Inl resp, w') \<Rightarrow> (resp, w') | (Inr resp, w') \<Rightarrow> (resp, w'))"

text \<open>
  A \<^verbatim>\<open>http.Handler\<close> as the server sees it: \<open>None\<close> is a panic of the handler, after which the server
  drops the connection without a response.
\<close>

type_synonym 'w http_handler = "request \<Rightarrow> 'w \<Rightarrow> response option \<times> 'w"

definition HandlerFunc :: "'w handler \<Rightarrow> 'w http_handler" where
  "HandlerFunc h r w = (case serve h r w of (resp, w') \<Rightarrow> (Some resp, w'))"

text \<open>
  Bodies are read up to 1 MiB and decoded by \<^verbatim>\<open>encoding/json\<close> with unknown fields refused; the decoder
  is a parameter, a failure is \<open>None\<close>.
\<close>

definition LimitReader :: "string \<Rightarrow> int \<Rightarrow> string" where
  "LimitReader body n = (if int (length body) \<le> n then body else take (nat n) body)"

definition decodeJSON :: "(string \<Rightarrow> 'a option) \<Rightarrow> request \<Rightarrow> 'a option" where
  "decodeJSON dec r = dec (LimitReader (req_Body r) 1048576)"

definition headerAuthorization :: string where "headerAuthorization = ''Authorization''"
definition headerUserID :: string where "headerUserID = ''X-User-Id''"
definition headerTenantID :: string where "headerTenantID = ''X-Tenant-Id''"
definition headerRequestID :: string where "headerRequestID = ''X-Request-Id''"

definition StatusOK :: int where "StatusOK = 200"
definition StatusCreated :: int where "StatusCreated = 201"
definition StatusNoContent :: int where "StatusNoContent = 204"
definition StatusBadRequest :: int where "StatusBadRequest = 400"
definition StatusUnauthorized :: int where "StatusUnauthorized = 401"
definition StatusForbidden :: int where "StatusForbidden = 403"
definition StatusNotFound :: int where "StatusNotFound = 404"
definition StatusConflict :: int where "StatusConflict = 409"
definition StatusServiceUnavailable :: int where "StatusServiceUnavailable = 503"

lemmas status_defs = StatusOK_def StatusCreated_def StatusNoContent_def StatusBadRequest_def
  StatusUnauthorized_def StatusForbidden_def StatusNotFound_def StatusConflict_def
  StatusServiceUnavailable_def

definition writeJSON :: "int \<Rightarrow> any \<Rightarrow> response" where
  "writeJSON status payload = \<lparr>resp_Status = status, resp_RequestID = None, resp_Body = Some payload\<rparr>"

definition WriteHeader :: "int \<Rightarrow> response" where
  "WriteHeader status = \<lparr>resp_Status = status, resp_RequestID = None, resp_Body = None\<rparr>"

definition writeError :: "request \<Rightarrow> int \<Rightarrow> string \<Rightarrow> string \<Rightarrow> response" where
  "writeError r status code message =
     (let rid = TrimSpace (req_Header r headerRequestID);
          resp = writeJSON status (AnyMap [(''error'', AnyString code), (''message'', AnyString message)])
      in if rid \<noteq> '''' then resp\<lparr>resp_RequestID := Some rid\<rparr> else resp)"

definition writeServiceUnavailable :: "request \<Rightarrow> string \<Rightarrow> response" where
  "writeServiceUnavailable r message = writeError r StatusServiceUnavailable ''service_unavailable'' message"

definition writeBadRequest :: "request \<Rightarrow> string \<Rightarrow> response" where
  "writeBadRequest r message = writeError r StatusBadRequest ''invalid_request'' message"

definition writeNotFound :: "request \<Rightarrow> string \<Rightarrow> response" where
  "writeNotFound r message = writeError r StatusNotFound ''not_found'' message"

definition writeServiceAuthError :: "request \<Rightarrow> response" where
  "writeServiceAuthError r =
     writeError r StatusUnauthorized ''service_auth_required'' ''Valid service bearer token is required.''"

definition normalizeAddress :: "string \<Rightarrow> string" where
  "normalizeAddress addr = ToLower (TrimSpace addr)"

lemma normalizeAddress_idem [simp]: "normalizeAddress (normalizeAddress a) = normalizeAddress a"
  by (simp add: normalizeAddress_def TrimSpace_ToLower)

lemma error_status [simp]:
  "resp_Status (writeError r s c m) = s" "resp_Status (writeJSON s b) = s"
  "resp_Status (WriteHeader s) = s" "resp_Status (writeServiceUnavailable r m) = StatusServiceUnavailable"
  "resp_Status (writeBadRequest r m) = StatusBadRequest" "resp_Status (writeNotFound r m) = StatusNotFound"
  by (simp_all add: writeError_def writeJSON_def WriteHeader_def writeServiceUnavailable_def
      writeBadRequest_def writeNotFound_def Let_def)

lemma wp_serve:
  assumes "wp view (h r) (\<lambda>x v'. case x of Inl resp \<Rightarrow> Q resp v' | Inr resp \<Rightarrow> Q resp v') (view w)"
    and "serve h r w = (resp, w')"
  shows "Q resp (view w')"
  using assms(2) wpD [OF assms(1)]
  by (cases "h r w") (auto simp: serve_def split: sum.splits)

section \<open>Service authentication\<close>

definition ServiceAuthMiddleware :: "string \<Rightarrow> 'w http_handler \<Rightarrow> 'w http_handler" where
  "ServiceAuthMiddleware expectedToken next r w =
     (let expected = TrimSpace expectedToken;
          header = TrimSpace (req_Header r headerAuthorization)
      in if \<not> HasPrefix (ToLower header) ''bearer '' then (Some (writeServiceAuthError r), w)
         else
           let raw = TrimSpace (drop (length ''Bearer '') header)
           in if raw = '''' \<or> expected = '''' then (Some (writeServiceAuthError r), w)
              else if raw \<noteq> expected then (Some (writeServiceAuthError r), w)
              else next r w)"

section \<open>Page parameters\<close>

definition parsePagination :: "string \<Rightarrow> string \<Rightarrow> int \<times> int" where
  "parsePagination limitStr offsetStr =
     (let limit = (if limitStr \<noteq> '''' then (case Atoi limitStr of Some v \<Rightarrow> v | None \<Rightarrow> 20) else 20);
          offset = (if offsetStr \<noteq> '''' then (case Atoi offsetStr of Some v \<Rightarrow> v | None \<Rightarrow> 0) else 0);
          limit = (if limit < 1 then 20 else limit);
          limit = (if limit > 100 then 100 else limit);
          offset = (if offset < 0 then 0 else offset)
      in (limit, offset))"

section \<open>Properties\<close>

definition service_authorized :: "string \<Rightarrow> request \<Rightarrow> bool" where
  "service_authorized token r \<longleftrightarrow>
     (let header = TrimSpace (req_Header r headerAuthorization) in
      TrimSpace token \<noteq> '''' \<and> ToLower (take 7 header) = ''bearer ''
      \<and> TrimSpace (drop 7 header) = TrimSpace token)"

lemma ServiceAuthMiddleware_cases:
  "ServiceAuthMiddleware token h r w =
     (if service_authorized token r then h r w else (Some (writeServiceAuthError r), w))"
proof -
  have len: "length ''bearer '' = 7" "length ''Bearer '' = 7" by simp_all
  show ?thesis
    unfolding ServiceAuthMiddleware_def service_authorized_def HasPrefix_def Let_def len ToLower_def take_map
    by (simp only: split: if_split) auto
qed

text \<open>
  Every route sits behind the token check: the wrapped handler runs exactly when the
  Authorization header is the word bearer, in any case, followed by the configured token, and the
  configured token is not blank; otherwise the answer is 401 and nothing has happened. With a blank
  configured token every request is refused.
\<close>

theorem auth_fails_closed:
  "ServiceAuthMiddleware token h r w =
     (if service_authorized token r then h r w else (Some (writeServiceAuthError r), w))"
  by (rule ServiceAuthMiddleware_cases)

text \<open>
  C38. Page parameters are always usable: whatever the client sends, the limit is between 1 and 100
  and the offset is a non-negative 64-bit number; and values in that range, printed in decimal, come
  back as they are.
\<close>

theorem page_parameters_in_bounds:
  "1 \<le> fst (parsePagination l off) \<and> fst (parsePagination l off) \<le> 100
   \<and> 0 \<le> snd (parsePagination l off) \<and> in_int64 (snd (parsePagination l off))
   \<and> (1 \<le> i \<and> i \<le> 100 \<and> 0 \<le> j \<and> in_int64 j
      \<longrightarrow> parsePagination (show_int i) (show_int j) = (i, j))"
proof -
  have "in_int64 (snd (parsePagination l off))"
    using ParseInt_in_range [of off]
    by (auto simp: parsePagination_def Let_def Atoi_def in_int64_def split: option.splits)
  moreover have "parsePagination (show_int i) (show_int j) = (i, j)"
    if "1 \<le> i \<and> i \<le> 100 \<and> 0 \<le> j \<and> in_int64 j"
  proof -
    have "ParseInt (show_int i) = Some i" "ParseInt (show_int j) = Some j"
      using that by (auto intro!: ParseInt_show_int simp: in_int64_def)
    moreover have "show_int i \<noteq> ''''" "show_int j \<noteq> ''''" by (simp_all add: show_int_def)
    ultimately show ?thesis using that by (simp add: parsePagination_def Atoi_def)
  qed
  ultimately show ?thesis by (auto simp: parsePagination_def Let_def split: option.splits)
qed

theorem page_parameters_in_bounds_witness:
  "parsePagination ''100'' ''40'' = (100, 40) \<and> fst (parsePagination ''9999'' ''-1'') \<le> 100"
proof -
  have "show_int 100 = ''100''" "show_int 40 = ''40''" "in_int64 40" by code_simp+
  then show ?thesis
    using page_parameters_in_bounds [of "''9999''" "''-1''" 100 40] by auto
qed

end
