(* ===== verification/Transition_Api.thy ===== *)
theory Transition_Api
  imports Wallet_Transition Http
begin

text \<open>
  \<^verbatim>\<open>internal/scanapi/transition.go\<close>: the validation of a transition request and the commands it
  lets through. A request that fails the validation is rejected for good, without a write. The
  projection of the stored row to the cache and the bus is not part of this theory.
\<close>

section \<open>Validation\<close>

record transitionBody =
  tb_TransitionID :: string
  tb_UserID :: string
  tb_Address :: string
  tb_SourceStates :: "string list"
  tb_TargetState :: string
  tb_QuotaAction :: string
  tb_Result :: "ScanResult option"
  tb_Error :: "string option"

definition quotaForTarget :: "string \<Rightarrow> string option" where
  "quotaForTarget target =
     (if target = StateRUNNING then Some QuotaNone
      else if target = StateSUCCESS then Some QuotaKeep
      else if target = StateFAILED then Some QuotaRelease
      else None)"

fun knownState :: "string list \<Rightarrow> bool" where
  "knownState [] = True"
| "knownState (state # states) =
     (if state \<in> set ['''', StatePENDING, StateRUNNING, StateSUCCESS, StateFAILED, StateTIMEOUT,
            StateUNREACHABLE]
      then knownState states else False)"

definition knownSources :: "string list \<Rightarrow> bool" where
  "knownSources states = (if length states = 0 then False else knownState states)"

definition transitionCommand :: "'w env \<Rightarrow> uuid \<Rightarrow> transitionBody \<Rightarrow> Command option" where
  "transitionCommand E headerUser body =
     (case uuid_Parse E (TrimSpace (tb_UserID body)) of
        None \<Rightarrow> None
      | Some userID \<Rightarrow>
          if userID = uuid_Nil \<or> userID \<noteq> headerUser then None
          else
            let address = normalizeAddress (tb_Address body) in
            if address = '''' \<or> TrimSpace (tb_TransitionID body) = ''''
               \<or> \<not> knownSources (tb_SourceStates body) then None
            else
              (case quotaForTarget (tb_TargetState body) of
                 None \<Rightarrow> None
               | Some quota \<Rightarrow>
                   if tb_QuotaAction body \<noteq> quota then None
                   else
                     let cmd = \<lparr>cmd_TransitionID = TrimSpace (tb_TransitionID body),
                           cmd_UserID = userID, cmd_Address = address,
                           cmd_SourceStates = tb_SourceStates body,
                           cmd_TargetState = tb_TargetState body,
                           cmd_QuotaAction = tb_QuotaAction body,
                           cmd_Result = None, cmd_Error = ''''\<rparr>
                     in if tb_TargetState body = StateRUNNING then
                          (if tb_Result body \<noteq> None \<or> tb_Error body \<noteq> None then None else Some cmd)
                        else if tb_TargetState body = StateSUCCESS then
                          (case tb_Result body of
                             None \<Rightarrow> None
                           | Some result \<Rightarrow>
                               if tb_Error body \<noteq> None then None
                               else
                                 let resultAddr = normalizeAddress (res_Address result)
                                 in if resultAddr \<noteq> address then None
                                    else Some (cmd\<lparr>cmd_Result := Some (result\<lparr>res_Address := resultAddr\<rparr>)\<rparr>))
                        else
                          (case tb_Error body of
                             None \<Rightarrow> None
                           | Some err \<Rightarrow>
                               if tb_Result body \<noteq> None \<or> TrimSpace err = '''' then None
                               else Some (cmd\<lparr>cmd_Error := TrimSpace err\<rparr>))))"

text \<open>The write half of the endpoint: the decoded body of an authenticated user is applied or rejected.\<close>

definition applyTransition ::
  "'w env \<Rightarrow> bool \<Rightarrow> 'w ScanUsageLedgerRepository option \<Rightarrow> uuid \<Rightarrow> uuid \<Rightarrow> transitionBody
   \<Rightarrow> ('w, panic, Result) prog" where
  "applyTransition E walletDB ledger headerUser scanID body =
     (case transitionCommand E headerUser body of
        None \<Rightarrow> returnP (mkResult OutcomeRejected '''')
      | Some cmd \<Rightarrow> Apply E walletDB ledger scanID cmd)"

section \<open>What gets through\<close>


lemma quota_distinct [simp]:
  "QuotaNone \<noteq> QuotaKeep" "QuotaNone \<noteq> QuotaRelease" "QuotaKeep \<noteq> QuotaRelease"
  "QuotaKeep \<noteq> QuotaNone" "QuotaRelease \<noteq> QuotaNone" "QuotaRelease \<noteq> QuotaKeep"
  by (simp_all add: QuotaNone_def QuotaKeep_def QuotaRelease_def)

text \<open>The shape of a command: what its target demands of quota, result and error.\<close>

definition wellformed_command :: "Command \<Rightarrow> bool" where
  "wellformed_command cmd \<longleftrightarrow>
     cmd_UserID cmd \<noteq> uuid_Nil \<and> cmd_Address cmd \<noteq> '''' \<and> cmd_TransitionID cmd \<noteq> ''''
     \<and> normalizeAddress (cmd_Address cmd) = cmd_Address cmd
     \<and> knownSources (cmd_SourceStates cmd)
     \<and> quotaForTarget (cmd_TargetState cmd) = Some (cmd_QuotaAction cmd)
     \<and> (cmd_TargetState cmd = StateSUCCESS
          \<longleftrightarrow> (\<exists>result. cmd_Result cmd = Some result \<and> res_Address result = cmd_Address cmd))
     \<and> (cmd_TargetState cmd = StateFAILED \<longleftrightarrow> cmd_Error cmd \<noteq> '''')"

lemma transitionCommand_wellformed:
  assumes "transitionCommand E headerUser body = Some cmd"
  shows "wellformed_command cmd \<and> cmd_UserID cmd = headerUser"
  using assms
  by (auto simp: transitionCommand_def wellformed_command_def quotaForTarget_def Let_def
      split: option.splits if_splits)

lemma wellformed_newRow: "wellformed_command cmd \<Longrightarrow> newRow scanID cmd \<noteq> None"
  by (auto simp: wellformed_command_def newRow_def Let_def split: option.splits)

lemma wellformed_quota:
  assumes "wellformed_command cmd"
  shows "cmd_TargetState cmd = StateSUCCESS \<longleftrightarrow> cmd_QuotaAction cmd = QuotaKeep"
    and "cmd_TargetState cmd = StateFAILED \<longleftrightarrow> cmd_QuotaAction cmd = QuotaRelease"
    and "targetStatus cmd = cmd_TargetState cmd"
  using assms by (auto simp: wellformed_command_def quotaForTarget_def targetStatus_def split: if_splits)

section \<open>Sequences of commands\<close>

text \<open>The wallet table and the ledger agree: a success holds its credit, a failure holds none.\<close>

definition wallet_ledger_agree :: "sys \<Rightarrow> bool" where
  "wallet_ledger_agree v \<longleftrightarrow>
     (\<forall>r. r \<in># v_scan_results v \<and> sr_DeletedAt r = None \<longrightarrow>
        (sr_Status r = StateSUCCESS \<longrightarrow> sr_ID r \<in> fst ` usage_entries v)
        \<and> (sr_Status r = StateFAILED \<longrightarrow> sr_ID r \<notin> fst ` usage_entries v))"

definition run_request ::
  "'w env \<Rightarrow> bool \<Rightarrow> uuid \<times> uuid \<times> transitionBody \<Rightarrow> 'w \<Rightarrow> 'w" where
  "run_request E db req w =
     (case req of (headerUser, scanID, body) \<Rightarrow>
        snd (applyTransition E db (Some (NewScanUsageLedgerRepository E)) headerUser scanID body w))"

definition run_requests ::
  "'w env \<Rightarrow> bool \<Rightarrow> (uuid \<times> uuid \<times> transitionBody) list \<Rightarrow> 'w \<Rightarrow> 'w" where
  "run_requests E db reqs w = fold (run_request E db) reqs w"

lemma agree_frame [simp]:
  "wallet_ledger_agree (v\<lparr>v_keepLedgerMissing := k\<rparr>) = wallet_ledger_agree v"
  by (simp add: wallet_ledger_agree_def)

lemma settled_entries:
  assumes "wellformed_command cmd" and "settled hasLedger scanID cmd v M"
  shows "usage_entry ` set_mset M = (if cmd_TargetState cmd = StateFAILED
      then spec_release scanID (usage_entries v) else usage_entries v)"
    and "cmd_TargetState cmd = StateSUCCESS \<Longrightarrow> scanID \<in> fst ` usage_entries v"
  using assms wellformed_quota [OF assms(1)] by (auto simp: settled_def split: if_splits)

lemma in_spec_release: "i \<in> fst ` spec_release j A \<longleftrightarrow> i \<in> fst ` A \<and> i \<noteq> j"
  by (force simp: spec_release_def)

lemma agree_applied:
  assumes wf: "wellformed_command cmd" and row: "command_row scanID cmd row"
    and settled: "settled hasLedger scanID cmd v M" and agree: "wallet_ledger_agree v"
  shows "wallet_ledger_agree ((sr_store row v)\<lparr>v_scan_usage_events := M\<rparr>)"
proof -
  note entries = settled_entries [OF wf settled]
  have id: "sr_ID row = scanID" and status: "sr_Status row = cmd_TargetState cmd"
    using row wellformed_quota(3) [OF wf] by (simp_all add: command_row_def sr_live_id_def)
  show ?thesis
    unfolding wallet_ledger_agree_def usage_entries_upd entries(1)
    using agree id status entries(2)
    by (auto simp: wallet_ledger_agree_def sr_store_def sr_others_def in_spec_release)
qed

lemma agree_request:
  assumes world: "world E view" and agree: "wallet_ledger_agree (view w)"
  shows "wallet_ledger_agree (view (run_request E db req w))"
proof -
  obtain u i body where req: "req = (u, i, body)" by (cases req)
  show ?thesis
  proof (cases "transitionCommand E u body")
    case None
    with agree req show ?thesis by (simp add: run_request_def applyTransition_def returnP_def)
  next
    case (Some cmd)
    obtain r w' where run: "Apply E db (Some (NewScanUsageLedgerRepository E)) i cmd w = (r, w')"
      by fastforce
    have wf: "wellformed_command cmd" using transitionCommand_wellformed [OF Some] by simp
    have "wallet_ledger_agree (view w')"
      using wallet_command_outcomes' [OF world run] agree agree_applied [OF wf]
      by (auto split: sum.splits panic.splits if_splits)
    with Some req run show ?thesis by (simp add: run_request_def applyTransition_def)
  qed
qed

lemma agree_requests:
  assumes world: "world E view"
  shows "wallet_ledger_agree (view w) \<Longrightarrow> wallet_ledger_agree (view (run_requests E db reqs w))"
  unfolding run_requests_def
  by (induction reqs arbitrary: w) (simp_all add: agree_request [OF world])

lemma applyTransition_answers:
  assumes world: "world E view"
    and run: "applyTransition E db (Some (NewScanUsageLedgerRepository E)) headerUser scanID body w = (r, w')"
  shows "\<exists>res. r = Inr res"
proof (cases "transitionCommand E headerUser body")
  case None
  with run show ?thesis by (auto simp: applyTransition_def returnP_def)
next
  case (Some cmd)
  with run have "Apply E db (Some (NewScanUsageLedgerRepository E)) scanID cmd w = (r, w')"
    by (simp add: applyTransition_def)
  from wallet_command_outcomes' [OF world this] wellformed_newRow [of cmd scanID]
    transitionCommand_wellformed [OF Some]
  show ?thesis by (auto split: sum.splits panic.splits)
qed

section \<open>Properties of the endpoint\<close>

text \<open>
  C37. What the validation lets through: the command belongs to the authenticated user, its
  address is non-empty and in normal form, its quota action is the one of its target (none to
  start, keep to succeed, release to fail), a result is there exactly for a success and is about
  the same address, an error text exactly for a failure. Such a command never makes the write
  panic: the endpoint always answers with an outcome.
\<close>

theorem validated_commands:
  assumes world: "world E view"
    and valid: "transitionCommand E headerUser body = Some cmd"
    and run: "applyTransition E db (Some (NewScanUsageLedgerRepository E)) headerUser scanID body w = (r, w')"
  shows "wellformed_command cmd \<and> cmd_UserID cmd = headerUser \<and> (\<exists>res. r = Inr res)"
  using transitionCommand_wellformed [OF valid] applyTransition_answers [OF world run] by simp

definition start_body :: transitionBody where
  "start_body = \<lparr>tb_TransitionID = '' t1 '', tb_UserID = ''x'', tb_Address = '' 0xAB'',
     tb_SourceStates = [StatePENDING], tb_TargetState = StateRUNNING, tb_QuotaAction = QuotaNone,
     tb_Result = None, tb_Error = None\<rparr>"

definition finish_body :: transitionBody where
  "finish_body = start_body\<lparr>tb_TransitionID := ''t2'', tb_SourceStates := [StatePENDING, StateRUNNING],
     tb_TargetState := StateFAILED, tb_QuotaAction := QuotaRelease, tb_Error := Some ''boom''\<rparr>"

definition reopen_body :: transitionBody where
  "reopen_body = start_body\<lparr>tb_TransitionID := ''t3'', tb_SourceStates := [StateFAILED]\<rparr>"

abbreviation mem_request :: "uuid \<Rightarrow> transitionBody \<Rightarrow> (mem, panic, Result) prog" where
  "mem_request \<equiv> applyTransition mem_env True (Some (NewScanUsageLedgerRepository mem_env)) 1"

lemma start_body_valid: "transitionCommand mem_env 1 start_body = Some start_cmd"
  by code_simp

theorem validated_commands_witness:
  "wellformed_command start_cmd \<and> (\<exists>res. fst (mem_request 5 start_body ledger_demo) = Inr res)"
  using validated_commands [OF mem_world start_body_valid prod.collapse [symmetric],
      of True 5 ledger_demo]
  by blast

text \<open>
  C10. Rows and credits stay in step: if every live wallet scan that succeeded holds its ledger
  reservation and every one that failed holds none, then this is still so after any sequence of
  transition requests, of any users, valid or not, with any database calls failing.
\<close>

theorem wallet_requests_keep_ledger_agreement:
  assumes "world E view" and "wallet_ledger_agree (view w)"
  shows "wallet_ledger_agree (view (run_requests E db reqs w))"
  using assms by (rule agree_requests)

lemma ledger_demo_agree: "wallet_ledger_agree (mem_view ledger_demo)"
  by (simp add: wallet_ledger_agree_def ledger_demo_def mem_view_def mem_norm_def mem_wf_def
      mem_sys_def mem_empty_def)

theorem wallet_requests_keep_ledger_agreement_witness:
  "wallet_ledger_agree (mem_view (run_requests mem_env True
     [(1, 5, start_body), (2, 5, start_body), (1, 5, finish_body)] ledger_demo))"
  by (rule wallet_requests_keep_ledger_agreement [OF mem_world ledger_demo_agree])

text \<open>The source states of a request do not include a final one.\<close>

definition ordinary_request :: "uuid \<times> uuid \<times> transitionBody \<Rightarrow> bool" where
  "ordinary_request req = (case req of (_, _, body) \<Rightarrow> list_all (\<lambda>s. \<not> IsTerminal s) (tb_SourceStates body))"

lemma transitionCommand_sources:
  "transitionCommand E headerUser body = Some cmd \<Longrightarrow> cmd_SourceStates cmd = tb_SourceStates body"
  by (auto simp: transitionCommand_def Let_def split: option.splits if_splits)

lemma final_row_request:
  assumes world: "world E view" and ordinary: "ordinary_request req"
    and row: "row \<in># v_scan_results (view w)" and final: "sr_DeletedAt row = None" "IsTerminal (sr_Status row)"
  shows "row \<in># v_scan_results (view (run_request E db req w))"
proof -
  obtain u i body where req: "req = (u, i, body)" by (cases req)
  show ?thesis
  proof (cases "transitionCommand E u body")
    case None
    with row req show ?thesis by (simp add: run_request_def applyTransition_def returnP_def)
  next
    case (Some cmd)
    obtain r w' where run: "Apply E db (Some (NewScanUsageLedgerRepository E)) i cmd w = (r, w')"
      by fastforce
    have uniq: "filter_mset (wallet_conflict row) (v_scan_results (view w)) = {#row#}"
      using row by (rule sql_engine.unique_rows [OF world.axioms(1) [OF world]])
    have status: "logical (sr_Status row) = sr_Status row"
      using final(2) by (auto simp: logical_def IsTerminal_def TerminalStates_def)
    have other: "sr_ID row \<noteq> i" if "from_source i cmd (view w) row'" for row'
    proof
      assume id: "sr_ID row = i"
      have "old = row" if "sr_row (view w) i old" for old
      proof -
        have "old \<in># filter_mset (wallet_conflict row) (v_scan_results (view w))"
          using that id by (simp add: sr_row_def sr_live_id_def wallet_conflict_def)
        with uniq show ?thesis by simp
      qed
      moreover have "sr_others i (view w) \<noteq> v_scan_results (view w)"
        using row id by (metis (mono_tags, lifting) mem_Collect_eq set_mset_filter sr_others_def)
      ultimately have "sr_Status row \<in> set (cmd_SourceStates cmd)"
        using \<open>from_source i cmd (view w) row'\<close> status by (auto simp: from_source_def)
      with ordinary req final(2) transitionCommand_sources [OF Some] show False
        by (auto simp: ordinary_request_def list_all_iff)
    qed
    have "row \<in># v_scan_results (view w')"
      using wallet_command_outcomes' [OF world run] row other
      by (fastforce simp: sr_store_def sr_others_def command_row_def sr_live_id_def
          split: sum.splits panic.splits if_splits)
    with Some req run show ?thesis by (simp add: run_request_def applyTransition_def)
  qed
qed

text \<open>
  C11. Final wallet rows stay: a live row in a terminal state survives unchanged every sequence of
  transition requests, of any users, as long as no request names a terminal state among its
  source states.
\<close>

theorem wallet_requests_keep_final_rows:
  assumes world: "world E view" and ordinary: "list_all ordinary_request reqs"
    and row: "row \<in># v_scan_results (view w)" and final: "sr_DeletedAt row = None" "IsTerminal (sr_Status row)"
  shows "row \<in># v_scan_results (view (run_requests E db reqs w))"
  using ordinary row unfolding run_requests_def
  by (induction reqs arbitrary: w) (simp_all add: final_row_request [OF world _ _ final])

definition failed_row :: ScanResultEntity where
  "failed_row = zero_ScanResultEntity\<lparr>sr_ID := 5, sr_UserID := 1, sr_Address := ''0xab'',
     sr_Status := StateFAILED, sr_Error := ''boom'', sr_TransitionID := Some ''t2''\<rparr>"

definition failed_demo :: mem where
  "failed_demo = mem_empty\<lparr>m_scan_results := [failed_row]\<rparr>"

lemma failed_demo_view: "v_scan_results (mem_view failed_demo) = {#failed_row#}"
  by (simp add: failed_demo_def mem_view_def mem_norm_def mem_wf_def mem_sys_def mem_empty_def)

lemma failed_row_final: "sr_DeletedAt failed_row = None" "IsTerminal (sr_Status failed_row)"
  by (simp_all add: failed_row_def zero_ScanResultEntity_def)

theorem wallet_requests_keep_final_rows_witness:
  "failed_row \<in># v_scan_results (mem_view (run_requests mem_env True
     [(1, 5, start_body), (1, 5, finish_body)] failed_demo))"
proof (rule wallet_requests_keep_final_rows [OF mem_world _ _ failed_row_final])
  show "list_all ordinary_request [(1, 5, start_body), (1, 5, finish_body)]" by code_simp
qed (simp add: failed_demo_view)

text \<open>
  The proviso of the previous property is not enforced: the validation accepts a terminal
  state as a source state, and a start request that names FAILED puts a failed scan back to
  RUNNING, although no valid transition of the lifecycle leaves FAILED.
\<close>

theorem terminal_source_reopens_row:
  "\<not> ValidTransition (sr_Status failed_row) StateRUNNING
   \<and> outcome_of (fst (mem_request 5 reopen_body failed_demo)) = Some OutcomeApplied
   \<and> map sr_Status (m_scan_results (snd (mem_request 5 reopen_body failed_demo))) = [StateRUNNING]"
  by code_simp

end
