(* ===== verification/Pending_Scans.thy ===== *)
theory Pending_Scans
  imports Mem_World
begin

text \<open>
  \<^verbatim>\<open>internal/repository/pending_v1_scan_repository.go\<close>: scans that were accepted and have no row
  yet live in Redis, one record per scan id; a wallet scan also holds a reservation per owner
  and address, so that an address is scanned once at a time. The compare-and-delete script is
  the operation \<open>redis_CompareDelete\<close> of the environment.
\<close>

section \<open>Keys\<close>

definition pendingV1ScanTTL :: gotime where
  "pendingV1ScanTTL = 48 * 3600 * 1000000000"

definition pendingV1RedisKey :: "'w env \<Rightarrow> uuid \<Rightarrow> string" where
  "pendingV1RedisKey E scanID = ''discovery:v1:pending_scan:'' @ uuid_String E scanID"

definition pendingV1WalletAddressRedisKey :: "'w env \<Rightarrow> uuid \<Rightarrow> string \<Rightarrow> string" where
  "pendingV1WalletAddressRedisKey E userID address =
     ''discovery:v1:pending_wallet:'' @ uuid_String E userID @ '':'' @ ToLower (TrimSpace address)"

section \<open>Operations\<close>

text \<open>A record is passed by pointer; \<open>None\<close> is nil.\<close>

definition pending_Put :: "'w env \<Rightarrow> PendingV1ScanRecord option \<Rightarrow> ('w, go_error, unit) prog" where
  "pending_Put E rec =
     (case rec of
        None \<Rightarrow> throwP (ErrorNew ''pending v1 scan record is required'')
      | Some r \<Rightarrow>
          (case json_Marshal_Pending E r of
             None \<Rightarrow> throwP (ErrorNew ''json: unsupported value'')
           | Some b \<Rightarrow>
               mapErrP ServiceError
                 (redis_Set E (pendingV1RedisKey E (pend_ScanID r)) b pendingV1ScanTTL)))"

definition pending_PutWallet :: "'w env \<Rightarrow> PendingV1ScanRecord option \<Rightarrow> ('w, go_error, bool) prog" where
  "pending_PutWallet E rec =
     (case rec of
        None \<Rightarrow> throwP (ErrorNew ''pending v1 wallet scan record is required'')
      | Some r \<Rightarrow>
          if pend_ScanID r = uuid_Nil \<or> pend_UserID r = uuid_Nil \<or> TrimSpace (pend_Address r) = ''''
          then throwP (ErrorNew ''pending v1 wallet scan record is incomplete'')
          else
            let r = r\<lparr>pend_Family := ''wallet''\<rparr>;
                key = pendingV1WalletAddressRedisKey E (pend_UserID r) (pend_Address r)
            in bindP (mapErrP (\<lambda>e. Wrapped ''redis reserve pending v1 wallet scan'' (ServiceError e))
                        (redis_SetNX E key (uuid_String E (pend_ScanID r)) pendingV1ScanTTL)) (\<lambda>reserved.
               if \<not> reserved then returnP False
               else
                 bindP (catchP (pending_Put E (Some r))
                          (\<lambda>err. bindP (catchP (mapErrP ServiceError (redis_Del E key)) (\<lambda>_. returnP ())) (\<lambda>_.
                                throwP err))) (\<lambda>_.
                 returnP True)))"

definition pending_Get :: "'w env \<Rightarrow> uuid \<Rightarrow> ('w, go_error, PendingV1ScanRecord option) prog" where
  "pending_Get E scanID =
     bindP (mapErrP (\<lambda>e. Wrapped ''redis get pending v1 scan'' (ServiceError e))
              (redis_Get E (pendingV1RedisKey E scanID))) (\<lambda>s.
     case s of
       None \<Rightarrow> returnP None
     | Some s \<Rightarrow>
         if s = '''' then returnP None
         else
           (case json_Unmarshal_Pending E s of
              None \<Rightarrow> throwP (Wrapped ''decode pending v1 scan'' (ErrorNew ''json''))
            | Some rec \<Rightarrow> returnP (Some rec)))"

definition pending_GetWalletByOwnerAddress ::
  "'w env \<Rightarrow> uuid \<Rightarrow> string \<Rightarrow> ('w, go_error, PendingV1ScanRecord option) prog" where
  "pending_GetWalletByOwnerAddress E userID address =
     bindP (mapErrP (\<lambda>e. Wrapped ''redis get pending v1 wallet scan reservation'' (ServiceError e))
              (redis_Get E (pendingV1WalletAddressRedisKey E userID address))) (\<lambda>s.
     case s of
       None \<Rightarrow> returnP None
     | Some s \<Rightarrow>
         (case uuid_Parse E (TrimSpace s) of
            None \<Rightarrow> throwP (Wrapped ''decode pending v1 wallet scan reservation'' (ErrorNew ''invalid UUID''))
          | Some scanID \<Rightarrow>
              bindP (pending_Get E scanID) (\<lambda>rec.
              if rec \<noteq> None then returnP rec
              else returnP (Some \<lparr>pend_ScanID = scanID, pend_UserID = userID, pend_Family = ''wallet'',
                pend_Address = ToLower (TrimSpace address), pend_Endpoint = '''', pend_CreatedAt = 0\<rparr>))))"

definition pending_DeleteWalletReservation ::
  "'w env \<Rightarrow> uuid \<Rightarrow> string \<Rightarrow> uuid \<Rightarrow> ('w, go_error, unit) prog" where
  "pending_DeleteWalletReservation E userID address scanID =
     (if scanID = uuid_Nil then returnP ()
      else
        mapErrP (\<lambda>e. Wrapped ''redis del pending v1 wallet scan reservation'' (ServiceError e))
          (redis_CompareDelete E (pendingV1WalletAddressRedisKey E userID address) (uuid_String E scanID)))"

text \<open>The error of the first read is kept and reported only at the end.\<close>

definition pending_Delete :: "'w env \<Rightarrow> uuid \<Rightarrow> ('w, go_error, unit) prog" where
  "pending_Delete E scanID =
     bindP (catchP (bindP (pending_Get E scanID) (\<lambda>rec. returnP (Inr rec))) (\<lambda>err. returnP (Inl err)))
       (\<lambda>got.
     bindP (mapErrP (\<lambda>e. Wrapped ''redis del pending v1 scan'' (ServiceError e))
              (redis_Del E (pendingV1RedisKey E scanID))) (\<lambda>_.
     bindP (case got of
              Inr (Some rec) \<Rightarrow>
                if pend_Family rec = ''wallet'' \<and> pend_UserID rec \<noteq> uuid_Nil
                   \<and> TrimSpace (pend_Address rec) \<noteq> ''''
                then pending_DeleteWalletReservation E (pend_UserID rec) (pend_Address rec) (pend_ScanID rec)
                else returnP ()
            | _ \<Rightarrow> returnP ()) (\<lambda>_.
     case got of Inl getErr \<Rightarrow> throwP getErr | Inr _ \<Rightarrow> returnP ())))"

section \<open>The two families of keys\<close>

lemma pending_keys_disjoint [simp]:
  "pendingV1RedisKey E i \<noteq> pendingV1WalletAddressRedisKey E u a"
  "pendingV1WalletAddressRedisKey E u a \<noteq> pendingV1RedisKey E i"
  by (simp_all add: pendingV1RedisKey_def pendingV1WalletAddressRedisKey_def)

lemma append_colon_inject:
  assumes "CHR '':'' \<notin> set xs" "CHR '':'' \<notin> set ys" and "xs @ CHR '':'' # us = ys @ CHR '':'' # vs"
  shows "xs = ys \<and> us = vs"
  using field_colon [OF assms(1), of us] field_colon [OF assms(2), of vs] assms(3) by auto

text \<open>What Redis holds of a reservation and of a record.\<close>

definition reserved_by :: "'w env \<Rightarrow> sys \<Rightarrow> uuid \<Rightarrow> string \<Rightarrow> string option" where
  "reserved_by E v userID address =
     map_option fst (v_cache v (pendingV1WalletAddressRedisKey E userID address))"

definition pending_stored :: "'w env \<Rightarrow> sys \<Rightarrow> uuid \<Rightarrow> string option" where
  "pending_stored E v scanID = map_option fst (v_cache v (pendingV1RedisKey E scanID))"

text \<open>Records sit under their own id.\<close>

definition pending_consistent :: "'w env \<Rightarrow> sys \<Rightarrow> bool" where
  "pending_consistent E v \<longleftrightarrow>
     (\<forall>scanID s rec. pending_stored E v scanID = Some s \<longrightarrow> json_Unmarshal_Pending E s = Some rec
        \<longrightarrow> pend_ScanID rec = scanID)"

context world
begin

lemma uuid_String_inject [simp]: "uuid_String E x = uuid_String E y \<longleftrightarrow> x = y"
  by (metis uuid_Parse_String option.inject)

lemma pending_key_inject [simp]: "pendingV1RedisKey E i = pendingV1RedisKey E j \<longleftrightarrow> i = j"
  by (simp add: pendingV1RedisKey_def)

lemma wallet_key_inject:
  "pendingV1WalletAddressRedisKey E u a = pendingV1WalletAddressRedisKey E u' a'
   \<longleftrightarrow> u = u' \<and> ToLower (TrimSpace a) = ToLower (TrimSpace a')"
  using append_colon_inject [OF uuid_String_colon uuid_String_colon]
  by (auto simp: pendingV1WalletAddressRedisKey_def)

lemmas wp_redis = wp_redis_Get wp_redis_SetNX wp_redis_CompareDelete wp_redis_Del wp_redis_Set

lemma wp_pending_Get:
  assumes "\<And>got. (pending_stored E v scanID = None \<or> pending_stored E v scanID = Some '''') \<Longrightarrow> Q (Inr None) v"
    and "\<And>s rec. pending_stored E v scanID = Some s \<Longrightarrow> s \<noteq> '''' \<Longrightarrow> json_Unmarshal_Pending E s = Some rec
        \<Longrightarrow> Q (Inr (Some rec)) v"
    and "\<And>e. Q (Inl e) v"
  shows "wp view (pending_Get E scanID) Q v"
  unfolding pending_Get_def
  by (intro wp_bind wp_mapErr wp_redis_Get wp_case_option wp_if wp_return wp_throw case_sum_InrI case_sum_InlI)
    (use assms in \<open>auto simp: pending_stored_def\<close>)

lemma wp_pending_Put:
  assumes "\<And>r b. rec = Some r \<Longrightarrow> json_Marshal_Pending E r = Some b
        \<Longrightarrow> Q (Inr ()) (v\<lparr>v_cache := (v_cache v)(pendingV1RedisKey E (pend_ScanID r) \<mapsto> (b, pendingV1ScanTTL))\<rparr>)"
    and "\<And>e. Q (Inl e) v"
  shows "wp view (pending_Put E rec) Q v"
  unfolding pending_Put_def
  by (intro wp_case_option wp_throw wp_mapErr wp_redis_Set case_sum_InrI case_sum_InlI) (use assms in auto)

text \<open>All outcomes of a reservation attempt.\<close>

lemma wp_pending_PutWallet:
  assumes granted: "\<And>r b. rec = Some r \<Longrightarrow> pend_ScanID r \<noteq> uuid_Nil \<Longrightarrow> pend_UserID r \<noteq> uuid_Nil
        \<Longrightarrow> TrimSpace (pend_Address r) \<noteq> ''''
        \<Longrightarrow> reserved_by E v (pend_UserID r) (pend_Address r) = None
        \<Longrightarrow> json_Marshal_Pending E (r\<lparr>pend_Family := ''wallet''\<rparr>) = Some b
        \<Longrightarrow> Q (Inr True) (v\<lparr>v_cache := (v_cache v)(
              pendingV1WalletAddressRedisKey E (pend_UserID r) (pend_Address r)
                \<mapsto> (uuid_String E (pend_ScanID r), pendingV1ScanTTL),
              pendingV1RedisKey E (pend_ScanID r) \<mapsto> (b, pendingV1ScanTTL))\<rparr>)"
    and busy: "\<And>r. rec = Some r \<Longrightarrow> reserved_by E v (pend_UserID r) (pend_Address r) \<noteq> None \<Longrightarrow> Q (Inr False) v"
    and failed: "\<And>e. Q (Inl e) v"
    and leaked: "\<And>r e. rec = Some r \<Longrightarrow> reserved_by E v (pend_UserID r) (pend_Address r) = None
        \<Longrightarrow> Q (Inl e) (v\<lparr>v_cache := (v_cache v)(
              pendingV1WalletAddressRedisKey E (pend_UserID r) (pend_Address r)
                \<mapsto> (uuid_String E (pend_ScanID r), pendingV1ScanTTL))\<rparr>)"
  shows "wp view (pending_PutWallet E rec) Q v"
proof -
  have undone: "v\<lparr>v_cache := (v_cache v)(k := None)\<rparr> = v" if "v_cache v k = None" for k
    using that by (simp add: fun_upd_idem)
  show ?thesis
    unfolding pending_PutWallet_def Let_def
    by (intro wp_case_option wp_if wp_throw wp_bind wp_mapErr wp_redis_SetNX wp_catch wp_pending_Put
        wp_redis_Del wp_return case_sum_InrI case_sum_InlI)
      (use assms undone in \<open>auto simp: reserved_by_def\<close>)
qed

lemma wp_pending_DeleteWalletReservation:
  assumes "reserved_by E v userID address = Some (uuid_String E scanID) \<Longrightarrow> scanID \<noteq> uuid_Nil
      \<Longrightarrow> Q (Inr ()) (v\<lparr>v_cache := (v_cache v)(pendingV1WalletAddressRedisKey E userID address := None)\<rparr>)"
    and "reserved_by E v userID address \<noteq> Some (uuid_String E scanID) \<or> scanID = uuid_Nil \<Longrightarrow> Q (Inr ()) v"
    and "\<And>e. Q (Inl e) v"
  shows "wp view (pending_DeleteWalletReservation E userID address scanID) Q v"
  unfolding pending_DeleteWalletReservation_def
  by (intro wp_if wp_return wp_mapErr wp_redis_CompareDelete case_sum_InrI case_sum_InlI)
    (use assms in \<open>auto simp: reserved_by_def\<close>)

lemma wp_pending_Delete:
  fixes v :: sys and scanID :: uuid
  defines "without \<equiv> v\<lparr>v_cache := (v_cache v)(pendingV1RedisKey E scanID := None)\<rparr>"
  assumes released: "\<And>s rec. pending_stored E v scanID = Some s \<Longrightarrow> json_Unmarshal_Pending E s = Some rec
        \<Longrightarrow> reserved_by E v (pend_UserID rec) (pend_Address rec) = Some (uuid_String E (pend_ScanID rec))
        \<Longrightarrow> Q (Inr ()) (without\<lparr>v_cache := (v_cache without)(
              pendingV1WalletAddressRedisKey E (pend_UserID rec) (pend_Address rec) := None)\<rparr>)"
    and removed: "(\<And>s rec. pending_stored E v scanID = Some s \<Longrightarrow> s \<noteq> '''' \<Longrightarrow> json_Unmarshal_Pending E s = Some rec
        \<Longrightarrow> reserved_by E v (pend_UserID rec) (pend_Address rec) \<noteq> Some (uuid_String E (pend_ScanID rec))
          \<or> pend_Family rec \<noteq> ''wallet'' \<or> pend_UserID rec = uuid_Nil \<or> pend_ScanID rec = uuid_Nil
          \<or> TrimSpace (pend_Address rec) = '''')
        \<Longrightarrow> Q (Inr ()) without"
    and failed: "\<And>e. Q (Inl e) v" "\<And>e. Q (Inl e) without"
  shows "wp view (pending_Delete E scanID) Q v"
proof -
  have same: "reserved_by E without u a = reserved_by E v u a" for u a
    by (simp add: without_def reserved_by_def)
  note defs = without_def [symmetric]
  show ?thesis
    unfolding pending_Delete_def
    by (intro wp_bind wp_catch wp_pending_Get wp_return wp_mapErr wp_redis_Del case_sum_InrI case_sum_InlI
      wp_case_sum wp_case_option wp_if wp_throw wp_pending_DeleteWalletReservation)
      (auto simp: defs same intro!: removed released failed)
qed

lemma wp_pending_GetWallet:
  assumes none: "reserved_by E v userID address = None \<Longrightarrow> Q (Inr None) v"
    and found: "\<And>s scanID rec s'. reserved_by E v userID address = Some s \<Longrightarrow> uuid_Parse E (TrimSpace s) = Some scanID
        \<Longrightarrow> pending_stored E v scanID = Some s' \<Longrightarrow> json_Unmarshal_Pending E s' = Some rec \<Longrightarrow> Q (Inr (Some rec)) v"
    and bare: "\<And>s scanID. reserved_by E v userID address = Some s \<Longrightarrow> uuid_Parse E (TrimSpace s) = Some scanID
        \<Longrightarrow> pending_stored E v scanID = None \<or> pending_stored E v scanID = Some ''''
        \<Longrightarrow> Q (Inr (Some \<lparr>pend_ScanID = scanID, pend_UserID = userID, pend_Family = ''wallet'',
              pend_Address = ToLower (TrimSpace address), pend_Endpoint = '''', pend_CreatedAt = 0\<rparr>)) v"
    and failed: "\<And>e. Q (Inl e) v"
  shows "wp view (pending_GetWalletByOwnerAddress E userID address) Q v"
  unfolding pending_GetWalletByOwnerAddress_def
  by (intro wp_bind wp_mapErr wp_redis_Get wp_case_option wp_if wp_return wp_throw wp_pending_Get
      case_sum_InrI case_sum_InlI)
    (use failed none in \<open>auto simp: reserved_by_def intro: found bare\<close>)

end

section \<open>Histories\<close>

datatype pending_call =
    CallPut "PendingV1ScanRecord option"
  | CallPutWallet "PendingV1ScanRecord option"
  | CallDelete uuid
  | CallDeleteReservation uuid string uuid

fun run_pending :: "'w env \<Rightarrow> pending_call \<Rightarrow> 'w \<Rightarrow> 'w" where
  "run_pending E (CallPut rec) w = snd (pending_Put E rec w)"
| "run_pending E (CallPutWallet rec) w = snd (pending_PutWallet E rec w)"
| "run_pending E (CallDelete scanID) w = snd (pending_Delete E scanID w)"
| "run_pending E (CallDeleteReservation userID address scanID) w =
     snd (pending_DeleteWalletReservation E userID address scanID w)"

fun gives_up :: "uuid \<Rightarrow> pending_call \<Rightarrow> bool" where
  "gives_up scanID (CallDelete i) = (i = scanID)"
| "gives_up scanID (CallDeleteReservation _ _ i) = (i = scanID)"
| "gives_up scanID _ = False"

text \<open>
  The passing of time in Redis: every entry carries what is left of its time to live; an entry
  whose time has run out is gone, and one without a time to live (0) stays.
\<close>

definition age ::
  "gotime \<Rightarrow> (string \<rightharpoonup> string \<times> gotime) \<Rightarrow> (string \<rightharpoonup> string \<times> gotime)" where
  "age d c k =
     (case c k of
        None \<Rightarrow> None
      | Some (s, ttl) \<Rightarrow>
          if ttl = 0 then Some (s, ttl) else if d < ttl then Some (s, ttl - d) else None)"

text \<open>The keys of the pending store; other clients of the same Redis use other keys.\<close>

definition pending_key :: "'w env \<Rightarrow> string \<Rightarrow> bool" where
  "pending_key E k \<longleftrightarrow> (\<exists>scanID. k = pendingV1RedisKey E scanID)
     \<or> (\<exists>userID address. k = pendingV1WalletAddressRedisKey E userID address)"

text \<open>
  What can happen after a scan got its reservation, with the time that has passed: any calls of the
  pending store, successful or not, except those that delete this scan or its reservation; the
  passing of time, for every entry alike; and calls of other clients.
\<close>

inductive holding :: "'w env \<Rightarrow> ('w \<Rightarrow> sys) \<Rightarrow> uuid \<Rightarrow> 'w \<Rightarrow> gotime \<Rightarrow> 'w \<Rightarrow> bool"
  for E view scanID w where
  start: "holding E view scanID w 0 w"
| call: "holding E view scanID w T w1 \<Longrightarrow> \<not> gives_up scanID c
    \<Longrightarrow> holding E view scanID w T (run_pending E c w1)"
| elapse: "holding E view scanID w T w1 \<Longrightarrow> 0 \<le> d
    \<Longrightarrow> v_cache (view w2) = age d (v_cache (view w1)) \<Longrightarrow> holding E view scanID w (T + d) w2"
| other: "holding E view scanID w T w1
    \<Longrightarrow> (\<And>k. pending_key E k \<Longrightarrow> v_cache (view w2) k = v_cache (view w1) k)
    \<Longrightarrow> holding E view scanID w T w2"

text \<open>The reservation \<open>T\<close> after it was granted.\<close>

definition held :: "'w env \<Rightarrow> uuid \<Rightarrow> uuid \<Rightarrow> string \<Rightarrow> gotime \<Rightarrow> sys \<Rightarrow> bool" where
  "held E scanID userID address T v \<longleftrightarrow>
     v_cache v (pendingV1WalletAddressRedisKey E userID address)
       = Some (uuid_String E scanID, pendingV1ScanTTL - T)
     \<and> pending_consistent E v"

lemma held_reserved:
  "held E scanID userID address T v \<Longrightarrow> reserved_by E v userID address = Some (uuid_String E scanID)"
  by (simp add: held_def reserved_by_def)

lemma pending_stored_wallet_upd [simp]:
  "pending_stored E (v\<lparr>v_cache := c(pendingV1WalletAddressRedisKey E u a := x)\<rparr>) i
   = pending_stored E (v\<lparr>v_cache := c\<rparr>) i"
  by (simp add: pending_stored_def)

lemma reserved_by_pending_upd [simp]:
  "reserved_by E (v\<lparr>v_cache := c(pendingV1RedisKey E i := x)\<rparr>) u a = reserved_by E (v\<lparr>v_cache := c\<rparr>) u a"
  by (simp add: reserved_by_def)

lemma consistent_wallet_upd [simp]:
  "pending_consistent E (v\<lparr>v_cache := c(pendingV1WalletAddressRedisKey E u a := x)\<rparr>)
   = pending_consistent E (v\<lparr>v_cache := c\<rparr>)"
  by (simp add: pending_consistent_def)

context world
begin

lemma pending_stored_upd [simp]:
  "pending_stored E (v\<lparr>v_cache := c(pendingV1RedisKey E i := x)\<rparr>) j
   = (if j = i then map_option fst x else pending_stored E (v\<lparr>v_cache := c\<rparr>) j)"
  by (simp add: pending_stored_def)

lemma consistent_put:
  assumes "pending_consistent E (v\<lparr>v_cache := c\<rparr>)" and "json_Marshal_Pending E r = Some b"
  shows "pending_consistent E (v\<lparr>v_cache := c(pendingV1RedisKey E (pend_ScanID r) \<mapsto> (b, t))\<rparr>)"
  unfolding pending_consistent_def
proof (intro allI impI)
  fix i s rec
  assume stored: "pending_stored E (v\<lparr>v_cache := c(pendingV1RedisKey E (pend_ScanID r) \<mapsto> (b, t))\<rparr>) i = Some s"
    and decoded: "json_Unmarshal_Pending E s = Some rec"
  show "pend_ScanID rec = i"
  proof (cases "i = pend_ScanID r")
    case True
    with stored decoded have "json_Unmarshal_Pending E b = Some rec" by simp
    from pending_codec_ids [OF assms(2) this] True show ?thesis by simp
  next
    case False
    with stored decoded assms(1) show ?thesis by (simp add: pending_consistent_def)
  qed
qed

lemma consistent_delete:
  assumes "pending_consistent E (v\<lparr>v_cache := c\<rparr>)"
  shows "pending_consistent E (v\<lparr>v_cache := c(pendingV1RedisKey E i := None)\<rparr>)"
  using assms unfolding pending_consistent_def pending_stored_upd by simp

lemma reserved_other:
  "reserved_by E (v\<lparr>v_cache := c(pendingV1WalletAddressRedisKey E u' a' := x)\<rparr>) u a
   = (if u' = u \<and> ToLower (TrimSpace a') = ToLower (TrimSpace a) then map_option fst x
      else reserved_by E (v\<lparr>v_cache := c\<rparr>) u a)"
  by (auto simp: reserved_by_def wallet_key_inject)

lemma reserved_by_normal:
  "ToLower (TrimSpace a) = ToLower (TrimSpace a') \<Longrightarrow> reserved_by E v u a = reserved_by E v u a'"
  by (simp add: reserved_by_def pendingV1WalletAddressRedisKey_def)

lemma other_address:
  assumes "held E scanID userID address T v"
    and "reserved_by E v u a \<noteq> Some (uuid_String E scanID)"
  shows "pendingV1WalletAddressRedisKey E u a \<noteq> pendingV1WalletAddressRedisKey E userID address"
  using held_reserved [OF assms(1)] assms(2) by (auto simp: reserved_by_def)

lemma held_Put:
  assumes "held E scanID userID address T v"
  shows "wp view (pending_Put E rec) (\<lambda>_ v'. held E scanID userID address T v') v"
  by (rule wp_pending_Put) (use assms consistent_put [where v = v and c = "v_cache v"] in \<open>simp_all add: held_def\<close>)

lemma held_PutWallet:
  assumes h: "held E scanID userID address T v"
  shows "wp view (pending_PutWallet E rec) (\<lambda>_ v'. held E scanID userID address T v') v"
proof -
  have other: "pendingV1WalletAddressRedisKey E u a \<noteq> pendingV1WalletAddressRedisKey E userID address"
    if "reserved_by E v u a = None" for u a
    by (rule other_address [OF h]) (simp add: that)
  have con: "pending_consistent E (v\<lparr>v_cache := (v_cache v)(pendingV1WalletAddressRedisKey E u a := x)\<rparr>)" for u a x
    using h by (simp add: held_def)
  have put: "pending_consistent E (v\<lparr>v_cache := (v_cache v)(
      pendingV1WalletAddressRedisKey E u a := x, pendingV1RedisKey E (pend_ScanID r) \<mapsto> (b, t))\<rparr>)"
    if "json_Marshal_Pending E (r\<lparr>pend_Family := f\<rparr>) = Some b" for u a x r f b t
    using consistent_put [OF con that] by simp
  show ?thesis
    by (rule wp_pending_PutWallet)
      (use h other in \<open>simp_all add: held_def put con not_sym [OF other] del: consistent_wallet_upd\<close>)
qed

lemma held_Delete:
  assumes h: "held E scanID userID address T v" and "i \<noteq> scanID"
  shows "wp view (pending_Delete E i) (\<lambda>_ v'. held E scanID userID address T v') v"
proof -
  have con: "pending_consistent E (v\<lparr>v_cache := (v_cache v)(pendingV1RedisKey E i := None)\<rparr>)"
    using h by (intro consistent_delete) (simp add: held_def)
  have other: "pendingV1WalletAddressRedisKey E (pend_UserID rec) (pend_Address rec)
      \<noteq> pendingV1WalletAddressRedisKey E userID address"
    if "pending_stored E v i = Some s" "json_Unmarshal_Pending E s = Some rec"
      "reserved_by E v (pend_UserID rec) (pend_Address rec) = Some (uuid_String E (pend_ScanID rec))" for s rec
  proof (rule other_address [OF h])
    have "pend_ScanID rec = i" using h that(1,2) by (auto simp: held_def pending_consistent_def)
    with that(3) assms(2)
    show "reserved_by E v (pend_UserID rec) (pend_Address rec) \<noteq> Some (uuid_String E scanID)" by simp
  qed
  show ?thesis
    by (rule wp_pending_Delete) (use h in \<open>simp_all add: held_def con not_sym [OF other]\<close>)
qed

lemma held_DeleteWalletReservation:
  assumes h: "held E scanID userID address T v" and "i \<noteq> scanID"
  shows "wp view (pending_DeleteWalletReservation E u a i) (\<lambda>_ v'. held E scanID userID address T v') v"
proof -
  have other: "pendingV1WalletAddressRedisKey E u a \<noteq> pendingV1WalletAddressRedisKey E userID address"
    if "reserved_by E v u a = Some (uuid_String E i)"
    by (rule other_address [OF h]) (use that assms(2) in simp)
  show ?thesis
    by (intro wp_pending_DeleteWalletReservation) (use h in \<open>simp_all add: held_def not_sym [OF other]\<close>)
qed

lemma held_call:
  assumes "held E scanID userID address T (view w)" and "\<not> gives_up scanID c"
  shows "held E scanID userID address T (view (run_pending E c w))"
  using assms
  by (cases c) (simp_all add: wp_world [OF held_Put] wp_world [OF held_PutWallet]
      wp_world [OF held_Delete] wp_world [OF held_DeleteWalletReservation])

lemma held_age:
  assumes h: "held E scanID userID address T v" and c: "v_cache v' = age d (v_cache v)"
    and d: "0 \<le> d" "T + d < pendingV1ScanTTL"
  shows "held E scanID userID address (T + d) v'"
proof -
  have "pend_ScanID rec = i"
    if "pending_stored E v' i = Some s" "json_Unmarshal_Pending E s = Some rec" for i s rec
  proof -
    have "pending_stored E v i = Some s"
      using that(1) c by (auto simp: pending_stored_def age_def split: option.splits if_splits)
    with that(2) h show ?thesis by (auto simp: held_def pending_consistent_def)
  qed
  moreover have "v_cache v' (pendingV1WalletAddressRedisKey E userID address)
      = Some (uuid_String E scanID, pendingV1ScanTTL - (T + d))"
    using h d unfolding c by (simp add: held_def age_def)
  ultimately show ?thesis by (auto simp: held_def pending_consistent_def)
qed

lemma held_run:
  assumes "holding E view scanID w T w'" and "held E scanID userID address 0 (view w)"
  shows "T < pendingV1ScanTTL \<Longrightarrow> held E scanID userID address T (view w')"
  using assms
proof (induction rule: holding.induct)
  case start
  then show ?case by simp
next
  case (call T w1 c)
  then show ?case by (intro held_call) simp_all
next
  case (elapse T w1 d w2)
  then show ?case by (intro held_age [OF _ elapse.hyps(3)]) simp_all
next
  case (other T w1 w2)
  then have old: "held E scanID userID address T (view w1)" by simp
  have "pending_stored E (view w2) i = pending_stored E (view w1) i" for i
    using other.hyps(2) [of "pendingV1RedisKey E i"] by (auto simp: pending_stored_def pending_key_def)
  moreover have "v_cache (view w2) (pendingV1WalletAddressRedisKey E userID address)
      = v_cache (view w1) (pendingV1WalletAddressRedisKey E userID address)"
    by (rule other.hyps(2)) (auto simp: pending_key_def)
  ultimately show ?case using old by (simp add: held_def pending_consistent_def)
qed

lemma held_granted:
  assumes "pending_PutWallet E (Some rec) w = (Inr True, w')" and "pending_consistent E (view w)"
  shows "held E (pend_ScanID rec) (pend_UserID rec) (pend_Address rec) 0 (view w')"
proof -
  have con: "pending_consistent E ((view w)\<lparr>v_cache := (v_cache (view w))(
      pendingV1WalletAddressRedisKey E u a := x)\<rparr>)" for u a x
    using assms(2) by simp
  have put: "pending_consistent E ((view w)\<lparr>v_cache := (v_cache (view w))(
      pendingV1WalletAddressRedisKey E u a := x, pendingV1RedisKey E (pend_ScanID r) \<mapsto> (b, t))\<rparr>)"
    if "json_Marshal_Pending E (r\<lparr>pend_Family := f\<rparr>) = Some b" for u a x r f b t
    using consistent_put [OF con that] by simp
  have "wp view (pending_PutWallet E (Some rec)) (\<lambda>r v'. r = Inr True
      \<longrightarrow> held E (pend_ScanID rec) (pend_UserID rec) (pend_Address rec) 0 v') (view w)"
    by (rule wp_pending_PutWallet) (simp_all add: held_def put del: consistent_wallet_upd)
  from wpD [OF this assms(1)] show ?thesis by simp
qed

lemma taken_not_granted:
  assumes "reserved_by E (view w) (pend_UserID rec) (pend_Address rec) \<noteq> None"
  shows "fst (pending_PutWallet E (Some rec) w) \<noteq> Inr True"
proof -
  have "wp view (pending_PutWallet E (Some rec)) (\<lambda>r _. r \<noteq> Inr True) (view w)"
    by (rule wp_pending_PutWallet) (use assms in auto)
  from wpD [OF this prod.collapse [symmetric]] show ?thesis by simp
qed

lemma free_not_refused:
  assumes "reserved_by E (view w) (pend_UserID rec) (pend_Address rec) = None"
  shows "fst (pending_PutWallet E (Some rec) w) \<noteq> Inr False"
proof -
  have "wp view (pending_PutWallet E (Some rec)) (\<lambda>r _. r \<noteq> Inr False) (view w)"
    by (rule wp_pending_PutWallet) (use assms in auto)
  from wpD [OF this prod.collapse [symmetric]] show ?thesis by simp
qed

end

section \<open>Properties of the pending store\<close>

text \<open>
  C22. A wallet address is reserved by one scan at a time, for 48 hours. After a reservation was
  granted, and as long as less than its time to live has passed, it stands through every history of
  calls of the pending store by other scans, failing calls included, of time passing (records and
  other reservations may expire) and of other clients, who use other keys; it ends early only when
  this scan or its reservation is deleted. While it stands, no attempt to reserve the address again,
  in any spelling of its case and surrounding space, is granted. When its time has run out it is
  gone, and an attempt is no longer refused.
\<close>

theorem wallet_reservation_is_exclusive:
  assumes world: "world E view"
    and put: "pending_PutWallet E (Some rec) w0 = (Inr True, w)" and con: "pending_consistent E (view w0)"
    and run: "holding E view (pend_ScanID rec) w T w'" and time: "T < pendingV1ScanTTL"
    and same: "pend_UserID rec' = pend_UserID rec"
      "ToLower (TrimSpace (pend_Address rec')) = ToLower (TrimSpace (pend_Address rec))"
  shows "reserved_by E (view w') (pend_UserID rec) (pend_Address rec) = Some (uuid_String E (pend_ScanID rec))
       \<and> fst (pending_PutWallet E (Some rec') w') \<noteq> Inr True
       \<and> (\<forall>d w2. pendingV1ScanTTL \<le> T + d \<longrightarrow> v_cache (view w2) = age d (v_cache (view w'))
           \<longrightarrow> reserved_by E (view w2) (pend_UserID rec) (pend_Address rec) = None
             \<and> fst (pending_PutWallet E (Some rec') w2) \<noteq> Inr False)"
proof -
  have held: "held E (pend_ScanID rec) (pend_UserID rec) (pend_Address rec) T (view w')"
    using world.held_run [OF world run world.held_granted [OF world put con] time] .
  have spelling: "reserved_by E v (pend_UserID rec') (pend_Address rec')
      = reserved_by E v (pend_UserID rec) (pend_Address rec)" for v
    using same(1) world.reserved_by_normal [OF world same(2)] by simp
  have gone: "reserved_by E (view w2) (pend_UserID rec) (pend_Address rec) = None"
    if "pendingV1ScanTTL \<le> T + d" and "v_cache (view w2) = age d (v_cache (view w'))" for d w2
    using held that time by (simp add: reserved_by_def held_def age_def)
  show ?thesis
    using held_reserved [OF held] gone
      world.taken_not_granted [OF world, of w' rec'] world.free_not_refused [OF world, of _ rec']
    by (simp add: spelling)
qed

definition pending_demo :: "uuid \<Rightarrow> string \<Rightarrow> PendingV1ScanRecord" where
  "pending_demo scanID address = \<lparr>pend_ScanID = scanID, pend_UserID = 1, pend_Family = '''',
     pend_Address = address, pend_Endpoint = '''', pend_CreatedAt = 0\<rparr>"

definition reserved_demo :: mem where
  "reserved_demo = snd (pending_PutWallet mem_env (Some (pending_demo 5 ''0xAB'')) mem_empty)"

lemma reserved_demo_cache:
  "mem_view reserved_demo = (mem_view mem_empty)\<lparr>v_cache := Map.empty(
     pendingV1WalletAddressRedisKey mem_env 1 ''0xAB'' \<mapsto> (''xxxxx'', pendingV1ScanTTL),
     pendingV1RedisKey mem_env 5 \<mapsto> (''xxxxx:x:0xAB'', pendingV1ScanTTL))\<rparr>"
proof -
  have eq: "reserved_demo = mem_empty\<lparr>m_cache :=
      [(pendingV1RedisKey mem_env 5, ''xxxxx:x:0xAB'', pendingV1ScanTTL),
       (pendingV1WalletAddressRedisKey mem_env 1 ''0xAB'', ''xxxxx'', pendingV1ScanTTL)]\<rparr>"
    by code_simp
  show ?thesis
    unfolding eq by (simp add: mem_view_def mem_norm_def mem_wf_def mem_sys_def mem_empty_def)
qed

text \<open>The example one hour later.\<close>

definition hour :: gotime where "hour = 3600 * 1000000000"

definition aged_demo :: mem where
  "aged_demo = mem_empty\<lparr>m_cache :=
     [(pendingV1RedisKey mem_env 5, ''xxxxx:x:0xAB'', pendingV1ScanTTL - hour),
      (pendingV1WalletAddressRedisKey mem_env 1 ''0xAB'', ''xxxxx'', pendingV1ScanTTL - hour)]\<rparr>"

lemma aged_demo_cache: "v_cache (mem_view aged_demo) = age hour (v_cache (mem_view reserved_demo))"
proof -
  have empty: "v_cache (mem_view mem_empty) = Map.empty"
    by (simp add: mem_view_def mem_norm_def mem_wf_def mem_sys_def mem_empty_def)
  have "v_cache (mem_view aged_demo) = Map.empty(
      pendingV1WalletAddressRedisKey mem_env 1 ''0xAB'' \<mapsto> (''xxxxx'', pendingV1ScanTTL - hour),
      pendingV1RedisKey mem_env 5 \<mapsto> (''xxxxx:x:0xAB'', pendingV1ScanTTL - hour))"
    by (simp add: aged_demo_def mem_view_def mem_norm_def mem_wf_def mem_sys_def mem_empty_def)
  then show ?thesis
    unfolding reserved_demo_cache
    by (auto simp: age_def pendingV1ScanTTL_def hour_def)
qed

theorem wallet_reservation_is_exclusive_witness:
  "fst (pending_PutWallet mem_env (Some (pending_demo 7 '' 0xAb ''))
     (run_pending mem_env (CallDelete 6) aged_demo)) \<noteq> Inr True"
proof -
  have put: "pending_PutWallet mem_env (Some (pending_demo 5 ''0xAB'')) mem_empty = (Inr True, reserved_demo)"
    by code_simp
  have con: "pending_consistent mem_env (mem_view mem_empty)"
    by (simp add: pending_consistent_def pending_stored_def mem_view_def mem_norm_def mem_wf_def
        mem_sys_def mem_empty_def)
  have id: "pend_ScanID (pending_demo 5 ''0xAB'') = 5" by (simp add: pending_demo_def)
  have "holding mem_env mem_view 5 reserved_demo (0 + hour) aged_demo"
    by (rule holding.elapse [OF holding.start]) (simp add: hour_def, rule aged_demo_cache)
  then have run: "holding mem_env mem_view (pend_ScanID (pending_demo 5 ''0xAB'')) reserved_demo hour
      (run_pending mem_env (CallDelete 6) aged_demo)"
    unfolding id by (intro holding.call) simp_all
  have "hour < pendingV1ScanTTL" "pend_UserID (pending_demo 7 '' 0xAb '') = pend_UserID (pending_demo 5 ''0xAB'')"
    "ToLower (TrimSpace (pend_Address (pending_demo 7 '' 0xAb '')))
      = ToLower (TrimSpace (pend_Address (pending_demo 5 ''0xAB'')))"
    by code_simp+
  from wallet_reservation_is_exclusive [OF mem_world put con run this] show ?thesis by blast
qed

text \<open>
  C23. What was reserved is found and can be given back: after a granted reservation, reading the
  scan or the owner's address (in any spelling) returns the record unless Redis fails, and a
  deletion that returns removes the record together with the reservation, so that the address is
  free again.
\<close>

theorem pending_reservation_round_trip:
  assumes world: "world E view"
    and put: "pending_PutWallet E (Some rec) w = (Inr True, w1)"
    and ascii: "list_all is_ascii (pend_Address rec)" "list_all is_ascii (pend_Endpoint rec)"
    and spelling: "ToLower (TrimSpace address) = ToLower (TrimSpace (pend_Address rec))"
  shows "(\<forall>r w2. pending_Get E (pend_ScanID rec) w1 = (Inr r, w2)
            \<longrightarrow> r = Some (rec\<lparr>pend_Family := ''wallet''\<rparr>))
       \<and> (\<forall>r w2. pending_GetWalletByOwnerAddress E (pend_UserID rec) address w1 = (Inr r, w2)
            \<longrightarrow> r = Some (rec\<lparr>pend_Family := ''wallet''\<rparr>))
       \<and> (\<forall>w2. pending_Delete E (pend_ScanID rec) w1 = (Inr (), w2)
            \<longrightarrow> pending_stored E (view w2) (pend_ScanID rec) = None
              \<and> reserved_by E (view w2) (pend_UserID rec) address = None)"
proof -
  let ?rec = "rec\<lparr>pend_Family := ''wallet''\<rparr>"
  define stored where "stored = (\<lambda>v. pend_ScanID rec \<noteq> uuid_Nil \<and> pend_UserID rec \<noteq> uuid_Nil
    \<and> TrimSpace (pend_Address rec) \<noteq> ''''
    \<and> reserved_by E v (pend_UserID rec) (pend_Address rec) = Some (uuid_String E (pend_ScanID rec))
    \<and> (\<exists>b. b \<noteq> '''' \<and> pending_stored E v (pend_ScanID rec) = Some b \<and> json_Unmarshal_Pending E b = Some ?rec))"
  have "wp view (pending_PutWallet E (Some rec)) (\<lambda>r v'. r = Inr True \<longrightarrow> stored v') (view w)"
    by (rule world.wp_pending_PutWallet [OF world])
      (use ascii in \<open>auto simp: stored_def world.pending_stored_upd [OF world] world.reserved_other [OF world]
        is_ascii_def dest: world.pending_codec [OF world]\<close>)
  from wpD [OF this put] have st: "stored (view w1)" by simp
  then obtain b where b: "b \<noteq> ''''" "pending_stored E (view w1) (pend_ScanID rec) = Some b"
    "json_Unmarshal_Pending E b = Some ?rec" by (auto simp: stored_def)
  have res: "reserved_by E (view w1) (pend_UserID rec) address = Some (uuid_String E (pend_ScanID rec))"
    using st world.reserved_by_normal [OF world spelling] by (simp add: stored_def)
  have "wp view (pending_Get E (pend_ScanID rec)) (\<lambda>r _. \<forall>x. r = Inr x \<longrightarrow> x = Some ?rec) (view w1)"
    by (rule world.wp_pending_Get [OF world]) (use b in auto)
  moreover have "wp view (pending_GetWalletByOwnerAddress E (pend_UserID rec) address)
      (\<lambda>r _. \<forall>x. r = Inr x \<longrightarrow> x = Some ?rec) (view w1)"
    by (rule world.wp_pending_GetWallet [OF world])
      (use b res in \<open>auto simp: world.uuid_String_trimmed [OF world] world.uuid_Parse_String [OF world]\<close>)
  moreover have "wp view (pending_Delete E (pend_ScanID rec)) (\<lambda>r v'. r = Inr ()
      \<longrightarrow> pending_stored E v' (pend_ScanID rec) = None \<and> reserved_by E v' (pend_UserID rec) address = None) (view w1)"
  proof (rule world.wp_pending_Delete [OF world], goal_cases)
    case (1 s rec')
    with b have "rec' = ?rec" by simp
    with spelling show ?case
      by (simp add: world.pending_stored_upd [OF world] world.reserved_other [OF world])
  next
    case 2
    from 2 [OF b(2,1,3)] st show ?case by (simp add: stored_def)
  qed simp_all
  ultimately show ?thesis by (auto dest: wpD)
qed

theorem pending_reservation_round_trip_witness:
  "pending_Delete mem_env 5 reserved_demo = (Inr (), snd (pending_Delete mem_env 5 reserved_demo))
   \<and> reserved_by mem_env (mem_view (snd (pending_Delete mem_env 5 reserved_demo))) 1 ''0xab'' = None"
proof -
  have put: "pending_PutWallet mem_env (Some (pending_demo 5 ''0xAB'')) mem_empty = (Inr True, reserved_demo)"
    by code_simp
  have del: "pending_Delete mem_env 5 reserved_demo = (Inr (), snd (pending_Delete mem_env 5 reserved_demo))"
    by code_simp
  have fields: "pend_ScanID (pending_demo 5 ''0xAB'') = 5" "pend_UserID (pending_demo 5 ''0xAB'') = 1"
    by (simp_all add: pending_demo_def)
  have "list_all is_ascii (pend_Address (pending_demo 5 ''0xAB''))"
    "list_all is_ascii (pend_Endpoint (pending_demo 5 ''0xAB''))"
    "ToLower (TrimSpace ''0xab'') = ToLower (TrimSpace (pend_Address (pending_demo 5 ''0xAB'')))"
    by code_simp+
  from pending_reservation_round_trip [OF mem_world put this, unfolded fields] del show ?thesis by blast
qed

text \<open>
  Every outcome of a reservation attempt: granted (then the address was free and is now held by
  this scan, with its record stored), refused (then it was held and nothing changed), or an error,
  after which nothing has changed or, when the record could not be stored and the reservation could
  not be taken back either, the reservation alone is left behind until it expires.
\<close>

theorem reservation_attempt_outcomes:
  assumes world: "world E view" and run: "pending_PutWallet E (Some rec) w = (r, w')"
  defines "key \<equiv> pendingV1WalletAddressRedisKey E (pend_UserID rec) (pend_Address rec)"
    and "reservation \<equiv> (uuid_String E (pend_ScanID rec), pendingV1ScanTTL)"
  shows "case r of
      Inr True \<Rightarrow> reserved_by E (view w) (pend_UserID rec) (pend_Address rec) = None
        \<and> (\<exists>b. json_Marshal_Pending E (rec\<lparr>pend_Family := ''wallet''\<rparr>) = Some b
             \<and> view w' = (view w)\<lparr>v_cache := (v_cache (view w))(key \<mapsto> reservation,
                 pendingV1RedisKey E (pend_ScanID rec) \<mapsto> (b, pendingV1ScanTTL))\<rparr>)
    | Inr False \<Rightarrow> reserved_by E (view w) (pend_UserID rec) (pend_Address rec) \<noteq> None \<and> view w' = view w
    | Inl _ \<Rightarrow> view w' = view w
        \<or> reserved_by E (view w) (pend_UserID rec) (pend_Address rec) = None
          \<and> view w' = (view w)\<lparr>v_cache := (v_cache (view w))(key \<mapsto> reservation)\<rparr>"
proof -
  let ?Q = "\<lambda>r v'. case r of
      Inr True \<Rightarrow> reserved_by E (view w) (pend_UserID rec) (pend_Address rec) = None
        \<and> (\<exists>b. json_Marshal_Pending E (rec\<lparr>pend_Family := ''wallet''\<rparr>) = Some b
             \<and> v' = (view w)\<lparr>v_cache := (v_cache (view w))(key \<mapsto> reservation,
                 pendingV1RedisKey E (pend_ScanID rec) \<mapsto> (b, pendingV1ScanTTL))\<rparr>)
    | Inr False \<Rightarrow> reserved_by E (view w) (pend_UserID rec) (pend_Address rec) \<noteq> None \<and> v' = view w
    | Inl _ \<Rightarrow> v' = view w
        \<or> reserved_by E (view w) (pend_UserID rec) (pend_Address rec) = None
          \<and> v' = (view w)\<lparr>v_cache := (v_cache (view w))(key \<mapsto> reservation)\<rparr>"
  have "wp view (pending_PutWallet E (Some rec)) ?Q (view w)"
    by (rule world.wp_pending_PutWallet [OF world]) (auto simp: key_def reservation_def)
  from wpD [OF this run] show ?thesis .
qed

theorem reservation_attempt_outcomes_witness:
  "(\<exists>e. fst (pending_PutWallet mem_env (Some (pending_demo 5 ''0xAB''))
        (mem_empty\<lparr>m_faults := [False, True, True]\<rparr>)) = Inl e)
   \<and> reserved_by mem_env (mem_view (mem_empty\<lparr>m_faults := [False, True, True]\<rparr>)) 1 ''0xAB'' = None
   \<and> v_outbox (mem_view (snd (pending_PutWallet mem_env (Some (pending_demo 5 ''0xAB''))
        (mem_empty\<lparr>m_faults := [False, True, True]\<rparr>)))) = []"
proof -
  let ?w = "mem_empty\<lparr>m_faults := [False, True, True]\<rparr>"
  let ?run = "pending_PutWallet mem_env (Some (pending_demo 5 ''0xAB'')) ?w"
  have "case fst ?run of Inl _ \<Rightarrow> True | _ \<Rightarrow> False" by code_simp
  then obtain e where e: "fst ?run = Inl e" by (auto split: sum.splits)
  have v: "v_cache (mem_view ?w) = Map.empty" "v_outbox (mem_view ?w) = []"
    by (simp_all add: mem_view_def mem_norm_def mem_wf_def mem_sys_def mem_empty_def)
  from reservation_attempt_outcomes [OF mem_world prod.collapse [symmetric], of "pending_demo 5 ''0xAB''" ?w] e v
  show ?thesis by (auto simp: reserved_by_def)
qed

end
