(* ===== verification/Scan_Repositories.thy ===== *)
theory Scan_Repositories
  imports Storage "HOL-Library.Product_Lexorder"
begin

text \<open>
  \<^verbatim>\<open>internal/repository/scan_result_repository.go\<close> and \<^verbatim>\<open>tls_scan_result_repository.go\<close>: what an
  owner can read, list and delete of the scan tables. Every query is on live rows; a delete is a
  soft delete. The lists are ordered by creation time and id, newest first: a sort key is the
  pair of both, negated.
\<close>

section \<open>Wallet scans\<close>

definition wallet_newest :: "ScanResultEntity \<Rightarrow> int \<times> int" where
  "wallet_newest r = (- sr_CreatedAt r, - uint (sr_ID r))"

definition owned_wallet_id :: "uuid \<Rightarrow> uuid \<Rightarrow> ScanResultEntity \<Rightarrow> bool" where
  "owned_wallet_id userID scanID r \<longleftrightarrow> sr_DeletedAt r = None \<and> sr_ID r = scanID \<and> sr_UserID r = userID"

definition FindOwnedWalletScanByID ::
  "'w env \<Rightarrow> uuid \<Rightarrow> uuid \<Rightarrow> ('w, go_error, ScanResultEntity option) prog" where
  "FindOwnedWalletScanByID E userID scanID =
     catchP
       (bindP (gorm_First (scan_results E) (owned_wallet_id userID scanID)) (\<lambda>ent. returnP (Some ent)))
       (\<lambda>err. if err = ErrRecordNotFound then returnP None else throwP err)"

definition DeleteOwnedWalletScan :: "'w env \<Rightarrow> uuid \<Rightarrow> uuid \<Rightarrow> ('w, go_error, bool) prog" where
  "DeleteOwnedWalletScan E userID scanID =
     bindP (nowP E) (\<lambda>now.
     bindP (gorm_Updates (scan_results E) (owned_wallet_id userID scanID)
              (\<lambda>r. r\<lparr>sr_DeletedAt := Some now\<rparr>)) (\<lambda>rowsAffected.
     returnP (rowsAffected > 0)))"

definition owner_wallets :: "uuid \<Rightarrow> string \<Rightarrow> ScanResultEntity \<Rightarrow> bool" where
  "owner_wallets userID address r \<longleftrightarrow> sr_DeletedAt r = None \<and> sr_UserID r = userID
     \<and> (if TrimSpace address \<noteq> '''' then ToLower (sr_Address r) = ToLower (TrimSpace address) else True)"

definition ListOwnerWalletScansDiscoveryV1 ::
  "'w env \<Rightarrow> uuid \<Rightarrow> string \<Rightarrow> int \<Rightarrow> int \<Rightarrow> ('w, go_error, ScanResultEntity list \<times> int) prog" where
  "ListOwnerWalletScansDiscoveryV1 E userID address limit offset =
     bindP (gorm_Count (scan_results E) (owner_wallets userID address)) (\<lambda>total.
     bindP (gorm_FindPage (scan_results E) (owner_wallets userID address) wallet_newest limit offset) (\<lambda>out.
     returnP (out, total)))"

definition ListOwnerWalletScansByAddress ::
  "'w env \<Rightarrow> uuid \<Rightarrow> string \<Rightarrow> ('w, go_error, ScanResultEntity list) prog" where
  "ListOwnerWalletScansByAddress E userID address =
     gorm_Find (scan_results E)
       (\<lambda>r. sr_DeletedAt r = None \<and> sr_UserID r = userID \<and> ToLower (sr_Address r) = ToLower (TrimSpace address))
       wallet_newest"

section \<open>TLS scans\<close>

definition tls_newest :: "TLSScanResultEntity \<Rightarrow> int \<times> int" where
  "tls_newest r = (- tls_CreatedAt r, - uint (tls_ID r))"

definition default_tls_id :: "uuid \<Rightarrow> TLSScanResultEntity \<Rightarrow> bool" where
  "default_tls_id scanID r \<longleftrightarrow> tls_DeletedAt r = None \<and> tls_ID r = scanID \<and> tls_Default r"

definition owned_tls_id :: "uuid \<Rightarrow> uuid \<Rightarrow> TLSScanResultEntity \<Rightarrow> bool" where
  "owned_tls_id userID scanID r \<longleftrightarrow> tls_DeletedAt r = None \<and> tls_ID r = scanID
     \<and> tls_UserID r = Some userID \<and> \<not> tls_Default r"

definition owner_tls :: "uuid \<Rightarrow> TLSScanResultEntity \<Rightarrow> bool" where
  "owner_tls userID r \<longleftrightarrow> tls_DeletedAt r = None \<and> tls_UserID r = Some userID \<and> \<not> tls_Default r"

definition FindDefaultTLSScanByID ::
  "'w env \<Rightarrow> uuid \<Rightarrow> ('w, go_error, TLSScanResultEntity option) prog" where
  "FindDefaultTLSScanByID E scanID =
     catchP
       (bindP (gorm_First (tls_scan_results E) (default_tls_id scanID)) (\<lambda>ent. returnP (Some ent)))
       (\<lambda>err. if err = ErrRecordNotFound then returnP None else throwP err)"

definition FindOwnedUserTLSScanByID ::
  "'w env \<Rightarrow> uuid \<Rightarrow> uuid \<Rightarrow> ('w, go_error, TLSScanResultEntity option) prog" where
  "FindOwnedUserTLSScanByID E userID scanID =
     catchP
       (bindP (gorm_First (tls_scan_results E) (owned_tls_id userID scanID)) (\<lambda>ent. returnP (Some ent)))
       (\<lambda>err. if err = ErrRecordNotFound then returnP None else throwP err)"

definition DeleteOwnedUserTLSScan :: "'w env \<Rightarrow> uuid \<Rightarrow> uuid \<Rightarrow> ('w, go_error, bool) prog" where
  "DeleteOwnedUserTLSScan E userID scanID =
     bindP (nowP E) (\<lambda>now.
     bindP (gorm_Updates (tls_scan_results E) (owned_tls_id userID scanID)
              (\<lambda>r. r\<lparr>tls_DeletedAt := Some now\<rparr>)) (\<lambda>rowsAffected.
     returnP (rowsAffected > 0)))"

definition ListOwnerUserTLSScansDiscoveryV1 ::
  "'w env \<Rightarrow> uuid \<Rightarrow> int \<Rightarrow> int \<Rightarrow> ('w, go_error, TLSScanResultEntity list \<times> int) prog" where
  "ListOwnerUserTLSScansDiscoveryV1 E userID limit offset =
     bindP (gorm_Count (tls_scan_results E) (owner_tls userID)) (\<lambda>total.
     bindP (gorm_FindPage (tls_scan_results E) (owner_tls userID) tls_newest limit offset) (\<lambda>out.
     returnP (out, total)))"

definition FindAllDefault :: "'w env \<Rightarrow> ('w, go_error, TLSScanResultEntity list) prog" where
  "FindAllDefault E =
     gorm_Find (tls_scan_results E) (\<lambda>r. tls_DeletedAt r = None \<and> tls_Default r) (\<lambda>r. - tls_CreatedAt r)"

section \<open>Pages\<close>

lemma gorm_page_append:
  assumes "0 \<le> limit" "0 \<le> offset"
  shows "gorm_page limit offset rs @ gorm_page limit (offset + limit) rs
       = take (nat (2 * limit)) (drop (nat offset) rs)"
proof -
  have page: "gorm_page limit n rs = take (nat limit) (drop (nat n) rs)" if "0 \<le> n" for n
    using assms(1) that by (auto simp: gorm_page_def Let_def)
  have "drop (nat (offset + limit)) rs = drop (nat limit) (drop (nat offset) rs)"
    using assms by (simp add: nat_add_distrib add.commute)
  moreover have "nat (2 * limit) = nat limit + nat limit" using assms(1) by simp
  ultimately show ?thesis using assms by (simp add: page take_add)
qed

lemma gorm_page_in_bounds: "0 \<le> limit \<Longrightarrow> int (length (gorm_page limit offset rs)) \<le> limit"
  by (auto simp: gorm_page_def Let_def min_def split: if_splits)

lemma sorted_key_unique:
  assumes "mset xs = mset ys" "inj_on key (set xs)" "sorted (map key xs)" "sorted (map key ys)"
  shows "xs = ys"
  by (metis assms sort_key_inj_key_eq sort_key_id_if_sorted)

context sql_engine
begin

text \<open>
  When the sort key tells rows apart, the whole ordered result is determined by the table, and
  every page is a piece of it.
\<close>

lemma ordered_rows_unique:
  assumes keys: "\<And>r s. key r = key s \<Longrightarrow> conflict r s"
    and "mset xs = filter_mset p (get (view w))" "sorted (map key xs)"
    and "mset ys = filter_mset p (get (view w))" "sorted (map key ys)"
  shows "xs = ys"
proof (rule sorted_key_unique)
  have "set xs \<subseteq> set_mset (get (view w))"
    using arg_cong [OF assms(2), of set_mset] by auto
  then have row: "r \<in># get (view w)" if "r \<in> set xs" for r using that by blast
  show "inj_on key (set xs)"
  proof (rule inj_onI)
    fix r s
    assume "r \<in> set xs" "s \<in> set xs" "key r = key s"
    then have "s \<in># filter_mset (conflict r) (get (view w))" using keys row by simp
    with unique_rows [OF row [OF \<open>r \<in> set xs\<close>]] show "r = s" by simp
  qed
qed (use assms in auto)

end

section \<open>What an owner sees and deletes\<close>

definition wallet_page_of :: "sys \<Rightarrow> uuid \<Rightarrow> string \<Rightarrow> ScanResultEntity list \<Rightarrow> bool" where
  "wallet_page_of v userID address rows \<longleftrightarrow>
     mset rows = filter_mset (owner_wallets userID address) (v_scan_results v)
     \<and> sorted (map wallet_newest rows)"

definition tls_page_of :: "sys \<Rightarrow> uuid \<Rightarrow> TLSScanResultEntity list \<Rightarrow> bool" where
  "tls_page_of v userID rows \<longleftrightarrow>
     mset rows = filter_mset (owner_tls userID) (v_tls_scan_results v) \<and> sorted (map tls_newest rows)"

context world
begin

lemma wp_FindOwnedWalletScanByID:
  assumes "(\<And>r. r \<in># v_scan_results v \<Longrightarrow> \<not> owned_wallet_id userID scanID r) \<Longrightarrow> Q (Inr None) v"
    and "\<And>r. r \<in># v_scan_results v \<Longrightarrow> owned_wallet_id userID scanID r \<Longrightarrow> Q (Inr (Some r)) v"
    and "\<And>e. Q (Inl e) v"
  shows "wp view (FindOwnedWalletScanByID E userID scanID) Q v"
  unfolding FindOwnedWalletScanByID_def
  by (intro wp_catch wp_bind wallet.wp_First wp_return wp_throw wp_if case_sum_InrI case_sum_InlI)
    (use assms in \<open>auto simp: filter_mset_eq_conv\<close>)

lemma wp_FindOwnedUserTLSScanByID:
  assumes "(\<And>r. r \<in># v_tls_scan_results v \<Longrightarrow> \<not> owned_tls_id userID scanID r) \<Longrightarrow> Q (Inr None) v"
    and "\<And>r. r \<in># v_tls_scan_results v \<Longrightarrow> owned_tls_id userID scanID r \<Longrightarrow> Q (Inr (Some r)) v"
    and "\<And>e. Q (Inl e) v"
  shows "wp view (FindOwnedUserTLSScanByID E userID scanID) Q v"
  unfolding FindOwnedUserTLSScanByID_def
  by (intro wp_catch wp_bind tls.wp_First wp_return wp_throw wp_if case_sum_InrI case_sum_InlI)
    (use assms in \<open>auto simp: filter_mset_eq_conv\<close>)

lemma wp_FindDefaultTLSScanByID:
  assumes "(\<And>r. r \<in># v_tls_scan_results v \<Longrightarrow> \<not> default_tls_id scanID r) \<Longrightarrow> Q (Inr None) v"
    and "\<And>r. r \<in># v_tls_scan_results v \<Longrightarrow> default_tls_id scanID r \<Longrightarrow> Q (Inr (Some r)) v"
    and "\<And>e. Q (Inl e) v"
  shows "wp view (FindDefaultTLSScanByID E scanID) Q v"
  unfolding FindDefaultTLSScanByID_def
  by (intro wp_catch wp_bind tls.wp_First wp_return wp_throw wp_if case_sum_InrI case_sum_InlI)
    (use assms in \<open>auto simp: filter_mset_eq_conv\<close>)

lemma wp_DeleteOwnedWalletScan:
  assumes "\<And>r now. r \<in># v_scan_results v \<Longrightarrow> owned_wallet_id userID scanID r
        \<Longrightarrow> Q (Inr True) (v\<lparr>v_scan_results := add_mset (r\<lparr>sr_DeletedAt := Some now\<rparr>) (sr_others scanID v)\<rparr>)"
    and "(\<And>r. r \<in># v_scan_results v \<Longrightarrow> \<not> owned_wallet_id userID scanID r) \<Longrightarrow> Q (Inr False) v"
    and "\<And>e. Q (Inl e) v"
  shows "wp view (DeleteOwnedWalletScan E userID scanID) Q v"
  unfolding DeleteOwnedWalletScan_def
  by (intro wp_bind wp_now wp_return case_sum_InrI case_sum_InlI
      wallet.wp_Updates_key [where key = sr_ID and k = scanID])
    (use assms in \<open>auto simp: wallet_conflict_def owned_wallet_id_def sr_others_def intro!: wp_return\<close>)

lemma wp_DeleteOwnedUserTLSScan:
  assumes "\<And>r now. r \<in># v_tls_scan_results v \<Longrightarrow> owned_tls_id userID scanID r
        \<Longrightarrow> Q (Inr True) (v\<lparr>v_tls_scan_results := add_mset (r\<lparr>tls_DeletedAt := Some now\<rparr>) (tls_others scanID v)\<rparr>)"
    and "(\<And>r. r \<in># v_tls_scan_results v \<Longrightarrow> \<not> owned_tls_id userID scanID r) \<Longrightarrow> Q (Inr False) v"
    and "\<And>e. Q (Inl e) v"
  shows "wp view (DeleteOwnedUserTLSScan E userID scanID) Q v"
  unfolding DeleteOwnedUserTLSScan_def
  by (intro wp_bind wp_now wp_return case_sum_InrI case_sum_InlI
      tls.wp_Updates_key [where key = tls_ID and k = scanID])
    (use assms in \<open>auto simp: tls_conflict_def owned_tls_id_def tls_others_def intro!: wp_return\<close>)

lemma wp_ListOwnerWalletScans:
  assumes "\<And>rows. wallet_page_of v userID address rows
        \<Longrightarrow> Q (Inr (gorm_page limit offset rows, int (length rows))) v"
    and "\<And>e. Q (Inl e) v"
  shows "wp view (ListOwnerWalletScansDiscoveryV1 E userID address limit offset) Q v"
  unfolding ListOwnerWalletScansDiscoveryV1_def
  by (intro wp_bind wallet.wp_Count wallet.wp_FindPage wp_return case_sum_InrI case_sum_InlI)
    (use assms in \<open>auto simp: wallet_page_of_def size_mset [symmetric]\<close>)

lemma wp_ListOwnerTLSScans:
  assumes "\<And>rows. tls_page_of v userID rows
        \<Longrightarrow> Q (Inr (gorm_page limit offset rows, int (length rows))) v"
    and "\<And>e. Q (Inl e) v"
  shows "wp view (ListOwnerUserTLSScansDiscoveryV1 E userID limit offset) Q v"
  unfolding ListOwnerUserTLSScansDiscoveryV1_def
  by (intro wp_bind tls.wp_Count tls.wp_FindPage wp_return case_sum_InrI case_sum_InlI)
    (use assms in \<open>auto simp: tls_page_of_def size_mset [symmetric]\<close>)

lemma wp_ListOwnerWalletScansByAddress:
  assumes "\<And>rows. mset rows = filter_mset (\<lambda>r. sr_DeletedAt r = None \<and> sr_UserID r = userID
        \<and> ToLower (sr_Address r) = ToLower (TrimSpace address)) (v_scan_results v)
        \<Longrightarrow> sorted (map wallet_newest rows) \<Longrightarrow> Q (Inr rows) v"
    and "\<And>e. Q (Inl e) v"
  shows "wp view (ListOwnerWalletScansByAddress E userID address) Q v"
  unfolding ListOwnerWalletScansByAddress_def by (intro wallet.wp_Find) (use assms in auto)

lemma wallet_partition:
  assumes "r \<in># v_scan_results (view w)" "sr_ID r = scanID"
  shows "v_scan_results (view w) = add_mset r (sr_others scanID (view w))"
  using partition_unique_key [where key = sr_ID, of r "v_scan_results (view w)"]
    wallet.unique_rows [OF assms(1)] assms(2)
  by (simp add: wallet_conflict_def [abs_def] sr_others_def eq_commute [of "sr_ID r"])

lemma tls_partition:
  assumes "r \<in># v_tls_scan_results (view w)" "tls_ID r = scanID"
  shows "v_tls_scan_results (view w) = add_mset r (tls_others scanID (view w))"
  using partition_unique_key [where key = tls_ID, of r "v_tls_scan_results (view w)"]
    tls.unique_rows [OF assms(1)] assms(2)
  by (simp add: tls_conflict_def [abs_def] tls_others_def eq_commute [of "tls_ID r"])

lemma wallet_newest_key: "wallet_newest r = wallet_newest s \<Longrightarrow> wallet_conflict r s"
  by (simp add: wallet_newest_def wallet_conflict_def word_uint_eq_iff)

lemma wallet_page_unique:
  "wallet_page_of (view w) userID address xs \<Longrightarrow> wallet_page_of (view w) userID address ys \<Longrightarrow> xs = ys"
  unfolding wallet_page_of_def by (rule wallet.ordered_rows_unique [OF wallet_newest_key]) auto

end

section \<open>Properties of the repositories\<close>

text \<open>
  Deleting a wallet scan is scoped to its owner: it reports success exactly when the caller owns
  a live row of that id, marks that one row deleted, changes nothing else (the usage ledger keeps
  the credit), leaves every row of other users alone, and afterwards the owner no longer finds the
  scan.
\<close>

theorem wallet_delete_is_scoped:
  assumes world: "world E view" and run: "DeleteOwnedWalletScan E userID scanID w = (Inr deleted, w')"
  shows "deleted = (\<exists>r. r \<in># v_scan_results (view w) \<and> owned_wallet_id userID scanID r)
       \<and> view w' = (view w)\<lparr>v_scan_results := v_scan_results (view w')\<rparr>
       \<and> filter_mset (\<lambda>r. \<not> (sr_UserID r = userID \<and> sr_ID r = scanID)) (v_scan_results (view w'))
         = filter_mset (\<lambda>r. \<not> (sr_UserID r = userID \<and> sr_ID r = scanID)) (v_scan_results (view w))
       \<and> (\<forall>x w''. FindOwnedWalletScanByID E userID scanID w' = (Inr x, w'') \<longrightarrow> x = None)"
    (is "?found \<and> ?frame \<and> ?others (view w') \<and> _")
proof -
  let ?Q = "\<lambda>r v'. \<forall>b. r = Inr b \<longrightarrow>
      b = (\<exists>r. r \<in># v_scan_results (view w) \<and> owned_wallet_id userID scanID r)
      \<and> v' = (view w)\<lparr>v_scan_results := v_scan_results v'\<rparr> \<and> ?others v'
      \<and> (\<forall>r. r \<in># v_scan_results v' \<longrightarrow> \<not> owned_wallet_id userID scanID r)"
  have "wp view (DeleteOwnedWalletScan E userID scanID) ?Q (view w)"
  proof (rule world.wp_DeleteOwnedWalletScan [OF world], goal_cases)
    case (1 r now)
    then have r: "sr_ID r = scanID" "sr_UserID r = userID" by (simp_all add: owned_wallet_id_def)
    have "?others ((view w)\<lparr>v_scan_results := add_mset (r\<lparr>sr_DeletedAt := Some now\<rparr>) (sr_others scanID (view w))\<rparr>)"
      using arg_cong [OF world.wallet_partition [OF world 1(1) r(1)],
          of "filter_mset (\<lambda>r. \<not> (sr_UserID r = userID \<and> sr_ID r = scanID))"] r by simp
    with 1 show ?case by (auto simp: owned_wallet_id_def sr_others_def)
  qed auto
  from wpD [OF this run] have eff: ?found ?frame "?others (view w')"
    and gone: "\<And>r. r \<in># v_scan_results (view w') \<Longrightarrow> \<not> owned_wallet_id userID scanID r"
    by blast+
  have "wp view (FindOwnedWalletScanByID E userID scanID) (\<lambda>r _. \<forall>x. r = Inr x \<longrightarrow> x = None) (view w')"
    by (rule world.wp_FindOwnedWalletScanByID [OF world]) (use gone in auto)
  with eff show ?thesis by (blast dest: wpD)
qed

definition wallet_rows_demo :: mem where
  "wallet_rows_demo = mem_empty\<lparr>m_scan_results := map (\<lambda>(i, u, t). zero_ScanResultEntity\<lparr>sr_ID := i,
     sr_UserID := u, sr_Address := ''0xAB'', sr_Status := StateSUCCESS, sr_CreatedAt := t\<rparr>)
     [(5, 1, 10), (6, 2, 11), (7, 1, 10), (8, 1, 12)]\<rparr>"

theorem wallet_delete_is_scoped_witness:
  "fst (DeleteOwnedWalletScan mem_env 1 5 wallet_rows_demo) = Inr True
   \<and> fst (DeleteOwnedWalletScan mem_env 2 5 wallet_rows_demo) = Inr False
   \<and> fst (FindOwnedWalletScanByID mem_env 1 5 (snd (DeleteOwnedWalletScan mem_env 1 5 wallet_rows_demo)))
       \<notin> Inr ` range Some"
proof -
  let ?run = "\<lambda>u. DeleteOwnedWalletScan mem_env u 5 wallet_rows_demo"
  have ok: "fst (?run 1) = Inr True" "fst (?run 2) = Inr False" by code_simp+
  then have "?run 1 = (Inr True, snd (?run 1))" by (metis prod.collapse)
  from wallet_delete_is_scoped [OF mem_world this]
  have "fst (FindOwnedWalletScanByID mem_env 1 5 (snd (?run 1))) \<notin> Inr ` range Some"
    by (cases "FindOwnedWalletScanByID mem_env 1 5 (snd (?run 1))") auto
  with ok show ?thesis by blast
qed

text \<open>
  Paging loses and repeats nothing: a page of an owner's wallet scans has at most the requested
  size, and together with the next page it is one contiguous piece of the list of exactly the
  owner's live scans of that address, newest first, which does not depend on how the database
  returns its rows; both report the length of that list as the total.
\<close>

theorem wallet_pages_tile:
  assumes world: "world E view" and page: "0 \<le> limit" "0 \<le> offset"
    and first: "ListOwnerWalletScansDiscoveryV1 E userID address limit offset w = (Inr (items, n), w1)"
    and then_next: "ListOwnerWalletScansDiscoveryV1 E userID address limit (offset + limit) w1
        = (Inr (items', n'), w2)"
  shows "\<exists>rows. mset rows = filter_mset (owner_wallets userID address) (v_scan_results (view w))
       \<and> sorted (map wallet_newest rows) \<and> int (length items) \<le> limit
       \<and> items @ items' = take (nat (2 * limit)) (drop (nat offset) rows)
       \<and> n = int (length rows) \<and> n' = n \<and> view w2 = view w"
proof -
  have listed: "\<exists>rows. wallet_page_of (view u) userID address rows \<and> xs = gorm_page limit off rows
      \<and> t = int (length rows) \<and> view u' = view u"
    if "ListOwnerWalletScansDiscoveryV1 E userID address limit off u = (Inr (xs, t), u')" for off u xs t u'
  proof -
    have "wp view (ListOwnerWalletScansDiscoveryV1 E userID address limit off)
        (\<lambda>r v'. \<forall>xs t. r = Inr (xs, t) \<longrightarrow> (\<exists>rows. wallet_page_of (view u) userID address rows
           \<and> xs = gorm_page limit off rows \<and> t = int (length rows) \<and> v' = view u)) (view u)"
      by (rule world.wp_ListOwnerWalletScans [OF world]) auto
    from wpD [OF this that] show ?thesis by blast
  qed
  from listed [OF first] obtain rows where rows: "wallet_page_of (view w) userID address rows"
      "items = gorm_page limit offset rows" "n = int (length rows)" "view w1 = view w"
    by blast
  from listed [OF then_next] rows(4) obtain rows' where rows': "wallet_page_of (view w) userID address rows'"
      "items' = gorm_page limit (offset + limit) rows'" "n' = int (length rows')" "view w2 = view w"
    by auto
  have "rows' = rows" using rows' rows by (metis world.wallet_page_unique [OF world])
  with rows rows' page show ?thesis
    by (auto simp: wallet_page_of_def gorm_page_append gorm_page_in_bounds)
qed

theorem wallet_pages_tile_witness:
  "\<exists>rows. mset rows = filter_mset (owner_wallets 1 ''0xab'') (v_scan_results (mem_view wallet_rows_demo))
     \<and> map sr_ID (take 4 rows) = [8, 7, 5]"
proof -
  let ?list = "\<lambda>off. ListOwnerWalletScansDiscoveryV1 mem_env 1 ''0xab'' 2 off"
  let ?w1 = "snd (?list 0 wallet_rows_demo)"
  define items where "items = (case fst (?list 0 wallet_rows_demo) of Inr (xs, _) \<Rightarrow> xs | _ \<Rightarrow> [])"
  define items' where "items' = (case fst (?list (0 + 2) ?w1) of Inr (xs, _) \<Rightarrow> xs | _ \<Rightarrow> [])"
  have "fst (?list 0 wallet_rows_demo) = Inr (items, 3)" unfolding items_def by code_simp
  then have first: "?list 0 wallet_rows_demo = (Inr (items, 3), ?w1)" by (metis prod.collapse)
  have "fst (?list (0 + 2) ?w1) = Inr (items', 3)" unfolding items'_def by code_simp
  then have then_next: "?list (0 + 2) ?w1 = (Inr (items', 3), snd (?list (0 + 2) ?w1))" by (metis prod.collapse)
  have ids: "map sr_ID (items @ items') = [8, 7, 5]" unfolding items_def items'_def by code_simp
  from wallet_pages_tile [OF mem_world _ _ first then_next] obtain rows where
    "mset rows = filter_mset (owner_wallets 1 ''0xab'') (v_scan_results (mem_view wallet_rows_demo))"
    "items @ items' = take 4 rows"
    by auto
  with ids show ?thesis by metis
qed

end
