(* ===== verification/Chain_Config.thy ===== *)
theory Chain_Config
  imports Prelude
begin

text \<open>
  \<^verbatim>\<open>internal/config/chain.go\<close>: the list of chains, its validation and the map from network names to
  EIP-155 ids. The file that holds it is read and parsed outside the model; an \<^verbatim>\<open>int64\<close> is only
  compared here and is an \<open>int\<close>.
\<close>

record Blockchain =
  bc_Name :: string
  bc_ChainID :: int

record ChainConfig =
  cc_Blockchains :: "Blockchain list"

datatype chain_error =
    NameRequired nat
  | DuplicateName string
  | ChainIDNotPositive nat string
  | DuplicateChainID int string string

text \<open>The loop of \<^verbatim>\<open>Validate\<close>: the index, the names and the ids seen so far.\<close>

fun validate_from ::
  "nat \<Rightarrow> string list \<Rightarrow> (int \<times> string) list \<Rightarrow> Blockchain list \<Rightarrow> chain_error option" where
  "validate_from i seenName seenChain [] = None"
| "validate_from i seenName seenChain (b # bs) =
     (let name = TrimSpace (bc_Name b) in
      if name = '''' then Some (NameRequired i)
      else if name \<in> set seenName then Some (DuplicateName name)
      else if bc_ChainID b \<le> 0 then Some (ChainIDNotPositive i name)
      else
        (case map_of seenChain (bc_ChainID b) of
           Some prev \<Rightarrow> Some (DuplicateChainID (bc_ChainID b) prev name)
         | None \<Rightarrow> validate_from (i + 1) (name # seenName) ((bc_ChainID b, name) # seenChain) bs))"

definition Validate :: "ChainConfig \<Rightarrow> chain_error option" where
  "Validate c = validate_from 0 [] [] (cc_Blockchains c)"

definition ChainIDByNetwork :: "ChainConfig \<Rightarrow> string \<rightharpoonup> int" where
  "ChainIDByNetwork c =
     fold (\<lambda>b m. if bc_ChainID b > 0 then m(bc_Name b \<mapsto> bc_ChainID b) else m) (cc_Blockchains c) Map.empty"

section \<open>What validation guarantees\<close>

lemma validate_from_ok:
  "validate_from i seenName seenChain bs = None \<longleftrightarrow>
     (\<forall>b \<in> set bs. TrimSpace (bc_Name b) \<noteq> '''' \<and> TrimSpace (bc_Name b) \<notin> set seenName
        \<and> 0 < bc_ChainID b \<and> bc_ChainID b \<notin> fst ` set seenChain)
     \<and> distinct (map (\<lambda>b. TrimSpace (bc_Name b)) bs) \<and> distinct (map bc_ChainID bs)"
proof (induction bs arbitrary: i seenName seenChain)
  case (Cons b bs)
  let ?name = "TrimSpace (bc_Name b)"
  have step: "validate_from i seenName seenChain (b # bs) = None \<longleftrightarrow>
      ?name \<noteq> '''' \<and> ?name \<notin> set seenName \<and> 0 < bc_ChainID b \<and> bc_ChainID b \<notin> fst ` set seenChain
      \<and> validate_from (i + 1) (?name # seenName) ((bc_ChainID b, ?name) # seenChain) bs = None"
    using map_of_eq_None_iff [of seenChain "bc_ChainID b"]
    by (cases "map_of seenChain (bc_ChainID b)") (simp_all add: Let_def not_le)
  have fresh: "?name \<notin> (\<lambda>b. TrimSpace (bc_Name b)) ` set bs \<longleftrightarrow> (\<forall>b' \<in> set bs. TrimSpace (bc_Name b') \<noteq> ?name)"
    "bc_ChainID b \<notin> bc_ChainID ` set bs \<longleftrightarrow> (\<forall>b' \<in> set bs. bc_ChainID b' \<noteq> bc_ChainID b)"
    by (auto simp: image_iff)
  show ?case
    unfolding step Cons.IH list.map distinct.simps set_map fresh by auto
qed simp

lemma fold_networks:
  assumes "\<forall>b \<in> set bs. 0 < bc_ChainID b" and "distinct (map bc_Name bs)"
  shows "fold (\<lambda>b m. if bc_ChainID b > 0 then m(bc_Name b \<mapsto> bc_ChainID b) else m) bs m n
       = (case map_of (map (\<lambda>b. (bc_Name b, bc_ChainID b)) bs) n of None \<Rightarrow> m n | Some i \<Rightarrow> Some i)"
  using assms
proof (induction bs arbitrary: m)
  case (Cons b bs)
  have "map_of (map (\<lambda>b. (bc_Name b, bc_ChainID b)) bs) (bc_Name b) = None"
    using Cons.prems(2) by (auto simp: map_of_eq_None_iff image_iff)
  with Cons show ?case by (auto split: option.splits)
qed simp

lemma distinct_trimmed: "distinct (map (\<lambda>b. TrimSpace (bc_Name b)) bs) \<Longrightarrow> distinct (map bc_Name bs)"
  using distinct_map [of TrimSpace "map bc_Name bs"] by (simp add: o_def)

text \<open>
  Validation accepts a configuration exactly when every name is non-blank, every id is positive,
  and no two entries share an id or a name up to surrounding space; for an accepted one the network
  map is the table itself: each entry's name leads to its id, no other name leads anywhere, and no
  two names lead to the same id.
\<close>

theorem validated_chain_map:
  "(Validate c = None \<longleftrightarrow>
      (\<forall>b \<in> set (cc_Blockchains c). TrimSpace (bc_Name b) \<noteq> '''' \<and> 0 < bc_ChainID b)
      \<and> distinct (map (\<lambda>b. TrimSpace (bc_Name b)) (cc_Blockchains c))
      \<and> distinct (map bc_ChainID (cc_Blockchains c)))
   \<and> (Validate c = None \<longrightarrow>
      (\<forall>n i. ChainIDByNetwork c n = Some i
         \<longleftrightarrow> \<lparr>bc_Name = n, bc_ChainID = i\<rparr> \<in> set (cc_Blockchains c))
      \<and> inj_on (ChainIDByNetwork c) (dom (ChainIDByNetwork c)))"
proof -
  let ?bs = "cc_Blockchains c"
  have ok: "Validate c = None \<longleftrightarrow> (\<forall>b \<in> set ?bs. TrimSpace (bc_Name b) \<noteq> '''' \<and> 0 < bc_ChainID b)
      \<and> distinct (map (\<lambda>b. TrimSpace (bc_Name b)) ?bs) \<and> distinct (map bc_ChainID ?bs)"
    by (auto simp: Validate_def validate_from_ok)
  have table: "ChainIDByNetwork c n = Some i \<longleftrightarrow> \<lparr>bc_Name = n, bc_ChainID = i\<rparr> \<in> set ?bs"
    if valid: "Validate c = None" for n i
  proof -
    have names: "distinct (map bc_Name ?bs)" using valid ok distinct_trimmed by blast
    have "ChainIDByNetwork c n = map_of (map (\<lambda>b. (bc_Name b, bc_ChainID b)) ?bs) n"
      using fold_networks [OF _ names] valid ok by (auto simp: ChainIDByNetwork_def split: option.splits)
    also have "\<dots> = Some i \<longleftrightarrow> (n, i) \<in> (\<lambda>b. (bc_Name b, bc_ChainID b)) ` set ?bs"
      using names by (simp add: o_def)
    also have "\<dots> \<longleftrightarrow> \<lparr>bc_Name = n, bc_ChainID = i\<rparr> \<in> set ?bs"
    proof
      assume "(n, i) \<in> (\<lambda>b. (bc_Name b, bc_ChainID b)) ` set ?bs"
      then obtain b where "b \<in> set ?bs" "n = bc_Name b" "i = bc_ChainID b" by auto
      moreover have "\<lparr>bc_Name = bc_Name b, bc_ChainID = bc_ChainID b\<rparr> = b" by simp
      ultimately show "\<lparr>bc_Name = n, bc_ChainID = i\<rparr> \<in> set ?bs" by metis
    qed (auto intro: rev_image_eqI)
    finally show ?thesis .
  qed
  have "inj_on (ChainIDByNetwork c) (dom (ChainIDByNetwork c))" if valid: "Validate c = None"
  proof (rule inj_onI)
    fix n n'
    assume "n \<in> dom (ChainIDByNetwork c)" "ChainIDByNetwork c n = ChainIDByNetwork c n'"
    then obtain i where "ChainIDByNetwork c n = Some i" "ChainIDByNetwork c n' = Some i"
      by (metis domD)
    then have "\<lparr>bc_Name = n, bc_ChainID = i\<rparr> \<in> set ?bs" "\<lparr>bc_Name = n', bc_ChainID = i\<rparr> \<in> set ?bs"
      using table [OF valid] by simp_all
    moreover have "inj_on bc_ChainID (set ?bs)" using ok valid by (simp add: distinct_map)
    ultimately have "\<lparr>bc_Name = n, bc_ChainID = i\<rparr> = \<lparr>bc_Name = n', bc_ChainID = i\<rparr>"
      by (intro inj_onD [of bc_ChainID "set ?bs"]) simp_all
    then show "n = n'" by simp
  qed
  with ok table show ?thesis by blast
qed

definition chains_demo :: ChainConfig where
  "chains_demo = \<lparr>cc_Blockchains = [\<lparr>bc_Name = ''ethereum'', bc_ChainID = 1\<rparr>,
     \<lparr>bc_Name = ''base'', bc_ChainID = 8453\<rparr>]\<rparr>"

theorem validated_chain_map_witness:
  "ChainIDByNetwork chains_demo ''base'' = Some 8453
   \<and> inj_on (ChainIDByNetwork chains_demo) (dom (ChainIDByNetwork chains_demo))"
proof -
  have valid: "Validate chains_demo = None" by code_simp
  have "\<lparr>bc_Name = ''base'', bc_ChainID = 8453\<rparr> \<in> set (cc_Blockchains chains_demo)"
    by (simp add: chains_demo_def)
  with validated_chain_map [of chains_demo] valid show ?thesis by blast
qed

text \<open>
  Validation compares names without their surrounding space, the network map keeps it: a
  configuration entry with a space after its name is accepted, and its name as a scan reports it
  leads to no id.
\<close>

theorem padded_chain_name_is_lost:
  "Validate \<lparr>cc_Blockchains = [\<lparr>bc_Name = ''ethereum '', bc_ChainID = 1\<rparr>]\<rparr> = None
   \<and> ChainIDByNetwork \<lparr>cc_Blockchains = [\<lparr>bc_Name = ''ethereum '', bc_ChainID = 1\<rparr>]\<rparr> ''ethereum'' = None"
  by code_simp

end
