(* ===== verification/Json_Decode.thy ===== *)
theory Json_Decode
  imports Strconv
begin

text \<open>
  The part of \<^verbatim>\<open>encoding/json\<close> that reads documents back: the syntax of RFC 8259 as \<^verbatim>\<open>json.Unmarshal\<close>
  accepts it, up to its nesting limit, and the assignment of a document to the Go types the sources
  decode into. Bytes above 127 are taken to be valid UTF-8, as in \<open>Json\<close>.
\<close>

text \<open>A string is kept with the bytes between its quotes and with the text they stand for.\<close>

datatype jval =
    VNull
  | VBool bool
  | VNum string
  | VStr string string
  | VArr "jval list"
  | VObj "(string \<times> jval) list"

section \<open>Lexical structure\<close>

definition is_json_space :: "char \<Rightarrow> bool" where
  "is_json_space c \<longleftrightarrow> (let n = (of_char c :: nat) in n = 32 \<or> n = 9 \<or> n = 10 \<or> n = 13)"

definition skip_space :: "string \<Rightarrow> string" where
  "skip_space s = dropWhile is_json_space s"

definition hex_digit :: "char \<Rightarrow> nat option" where
  "hex_digit c =
     (let n = (of_char c :: nat) in
      if 48 \<le> n \<and> n \<le> 57 then Some (n - 48)
      else if 97 \<le> n \<and> n \<le> 102 then Some (n - 87)
      else if 65 \<le> n \<and> n \<le> 70 then Some (n - 55)
      else None)"

definition hex4 :: "string \<Rightarrow> nat option" where
  "hex4 s =
     (case map hex_digit (take 4 s) of
        [Some a, Some b, Some c, Some d] \<Rightarrow> Some (4096 * a + 256 * b + 16 * c + d)
      | _ \<Rightarrow> None)"

definition utf8_encode :: "nat \<Rightarrow> string" where
  "utf8_encode n =
     (if n < 128 then [char_of n]
      else if n < 2048 then [char_of (192 + n div 64), char_of (128 + n mod 64)]
      else if n < 65536
      then [char_of (224 + n div 4096), char_of (128 + n div 64 mod 64), char_of (128 + n mod 64)]
      else [char_of (240 + n div 262144), char_of (128 + n div 4096 mod 64),
            char_of (128 + n div 64 mod 64), char_of (128 + n mod 64)])"

text \<open>
  What follows a backslash, and how much of the input it takes. A surrogate that is not the first half
  of a pair stands for the replacement character.
\<close>

definition unescape_u :: "string \<Rightarrow> (string \<times> string) option" where
  "unescape_u cs =
     (case hex4 cs of
        None \<Rightarrow> None
      | Some n \<Rightarrow>
          let rest = drop 4 cs in
          if n < 55296 \<or> 57344 \<le> n then Some (utf8_encode n, rest)
          else if 56320 \<le> n then Some (utf8_encode 65533, rest)
          else
            (case (take 2 rest = [CHR 0x5C, CHR ''u''], hex4 (drop 2 rest)) of
               (True, Some m) \<Rightarrow>
                 if 56320 \<le> m \<and> m < 57344
                 then Some (utf8_encode (65536 + 1024 * (n - 55296) + (m - 56320)), drop 6 rest)
                 else Some (utf8_encode 65533, rest)
             | _ \<Rightarrow> Some (utf8_encode 65533, rest)))"

definition unescape :: "string \<Rightarrow> (string \<times> string) option" where
  "unescape cs =
     (case cs of
        [] \<Rightarrow> None
      | c # rest \<Rightarrow>
          if c = CHR 0x22 \<or> c = CHR 0x5C \<or> c = CHR ''/'' then Some ([c], rest)
          else if c = CHR ''b'' then Some ([CHR 0x08], rest)
          else if c = CHR ''f'' then Some ([CHR 0x0C], rest)
          else if c = CHR ''n'' then Some ([CHR 0x0A], rest)
          else if c = CHR ''r'' then Some ([CHR 0x0D], rest)
          else if c = CHR ''t'' then Some ([CHR 0x09], rest)
          else if c = CHR ''u'' then unescape_u rest
          else None)"

lemma unescape_shorter: "unescape cs = Some (bs, rest) \<Longrightarrow> length rest < length cs"
  by (auto simp: unescape_def unescape_u_def Let_def split: list.splits if_splits option.splits prod.splits bool.splits)

text \<open>The inside of a string, after its opening quote.\<close>

function scan_string :: "string \<Rightarrow> (string \<times> string) option" where
  "scan_string s =
     (case s of
        [] \<Rightarrow> None
      | c # cs \<Rightarrow>
          if c = CHR 0x22 then Some ([], cs)
          else if (of_char c :: nat) < 32 then None
          else if c = CHR 0x5C then
            (case unescape cs of
               None \<Rightarrow> None
             | Some (bs, rest) \<Rightarrow> map_option (\<lambda>(t, r). (bs @ t, r)) (scan_string rest))
          else map_option (\<lambda>(t, r). (c # t, r)) (scan_string cs))"
  by pat_completeness auto
termination
  by (relation "measure length") (auto dest: unescape_shorter)

declare scan_string.simps [simp del]

definition is_digit :: "char \<Rightarrow> bool" where
  "is_digit c \<longleftrightarrow> digit_value c \<noteq> None"

definition digits :: "string \<Rightarrow> string \<times> string" where
  "digits s = (takeWhile is_digit s, dropWhile is_digit s)"

text \<open>A number: sign, integer part without leading zeros, fraction, exponent; at least one digit each.\<close>

definition scan_int :: "string \<Rightarrow> (string \<times> string) option" where
  "scan_int s =
     (case s of
        c # cs \<Rightarrow> if c = CHR ''0'' then Some (''0'', cs)
          else if is_digit c then Some (digits s) else None
      | [] \<Rightarrow> None)"

definition scan_frac :: "string \<Rightarrow> (string \<times> string) option" where
  "scan_frac s =
     (case s of
        c # cs \<Rightarrow> if c \<noteq> CHR ''.'' then Some ('''', s)
          else (case digits cs of (ds, rest) \<Rightarrow> if ds = '''' then None else Some (c # ds, rest))
      | [] \<Rightarrow> Some ('''', s))"

definition scan_exp :: "string \<Rightarrow> (string \<times> string) option" where
  "scan_exp s =
     (case s of
        c # cs \<Rightarrow> if c \<noteq> CHR ''e'' \<and> c \<noteq> CHR ''E'' then Some ('''', s)
          else
            let (sign, body) = (case cs of
                d # ds \<Rightarrow> if d = CHR ''+'' \<or> d = CHR ''-'' then ([d], ds) else ('''', cs)
              | [] \<Rightarrow> ('''', cs))
            in (case digits body of (ds, rest) \<Rightarrow> if ds = '''' then None else Some (c # sign @ ds, rest))
      | [] \<Rightarrow> Some ('''', s))"

definition scan_number :: "string \<Rightarrow> (string \<times> string) option" where
  "scan_number s =
     (let (sign, body) = (case s of c # cs \<Rightarrow> if c = CHR ''-'' then ([c], cs) else ('''', s) | [] \<Rightarrow> ('''', s))
      in case scan_int body of
           None \<Rightarrow> None
         | Some (i, s1) \<Rightarrow>
             (case scan_frac s1 of
                None \<Rightarrow> None
              | Some (f, s2) \<Rightarrow>
                  (case scan_exp s2 of
                     None \<Rightarrow> None
                   | Some (e, s3) \<Rightarrow> Some (sign @ i @ f @ e, s3))))"

section \<open>Documents\<close>

definition maxNestingDepth :: nat where
  "maxNestingDepth = 10000"

text \<open>
  The first argument bounds the number of nested calls; \<open>scan_value_fuel\<close> below shows that one more than
  twice the length of the input is enough. The second is the nesting depth.
\<close>

fun scan_value :: "nat \<Rightarrow> nat \<Rightarrow> string \<Rightarrow> (jval \<times> string) option"
  and scan_elems :: "nat \<Rightarrow> nat \<Rightarrow> string \<Rightarrow> (jval list \<times> string) option"
  and scan_fields :: "nat \<Rightarrow> nat \<Rightarrow> string \<Rightarrow> ((string \<times> jval) list \<times> string) option" where
  "scan_value 0 d s = None"
| "scan_value (Suc fuel) d s =
     (case skip_space s of
        [] \<Rightarrow> None
      | c # cs \<Rightarrow>
          if c = CHR 0x22 then map_option (\<lambda>(t, r). (VStr (take (length cs - Suc (length r)) cs) t, r)) (scan_string cs)
          else if c = CHR ''['' then
            (if maxNestingDepth \<le> d then None
             else if take 1 (skip_space cs) = '']'' then Some (VArr [], drop 1 (skip_space cs))
             else map_option (\<lambda>(vs, r). (VArr vs, r)) (scan_elems fuel (Suc d) cs))
          else if c = CHR ''{'' then
            (if maxNestingDepth \<le> d then None
             else if take 1 (skip_space cs) = ''}'' then Some (VObj [], drop 1 (skip_space cs))
             else map_option (\<lambda>(kvs, r). (VObj kvs, r)) (scan_fields fuel (Suc d) cs))
          else if HasPrefix (c # cs) ''null'' then Some (VNull, drop 3 cs)
          else if HasPrefix (c # cs) ''true'' then Some (VBool True, drop 3 cs)
          else if HasPrefix (c # cs) ''false'' then Some (VBool False, drop 4 cs)
          else map_option (\<lambda>(t, r). (VNum t, r)) (scan_number (c # cs)))"
| "scan_elems 0 d s = None"
| "scan_elems (Suc fuel) d s =
     (case scan_value fuel d s of
        None \<Rightarrow> None
      | Some (v, rest) \<Rightarrow>
          (case skip_space rest of
             c # cs \<Rightarrow>
               if c = CHR '','' then map_option (\<lambda>(vs, r). (v # vs, r)) (scan_elems fuel d cs)
               else if c = CHR '']'' then Some ([v], cs)
               else None
           | [] \<Rightarrow> None))"
| "scan_fields 0 d s = None"
| "scan_fields (Suc fuel) d s =
     (case skip_space s of
        [] \<Rightarrow> None
      | q # ks \<Rightarrow>
          if q \<noteq> CHR 0x22 then None
          else
            (case scan_string ks of
               None \<Rightarrow> None
             | Some (k, rest) \<Rightarrow>
                 (case skip_space rest of
                    [] \<Rightarrow> None
                  | p # ps \<Rightarrow>
                      if p \<noteq> CHR '':'' then None
                      else
                        (case scan_value fuel d ps of
                           None \<Rightarrow> None
                         | Some (v, rest) \<Rightarrow>
                             (case skip_space rest of
                                c # cs \<Rightarrow>
                                  if c = CHR '','' then map_option (\<lambda>(kvs, r). ((k, v) # kvs, r)) (scan_fields fuel d cs)
                                  else if c = CHR ''}'' then Some ([(k, v)], cs)
                                  else None
                              | [] \<Rightarrow> None)))))"

definition json_parse :: "string \<Rightarrow> jval option" where
  "json_parse s =
     (case scan_value (Suc (2 * length s)) 0 s of
        Some (v, rest) \<Rightarrow> if skip_space rest = '''' then Some v else None
      | None \<Rightarrow> None)"

section \<open>The bound on nested calls\<close>

lemma skip_space_length: "length (skip_space s) \<le> length s"
  by (simp add: skip_space_def length_dropWhile_le)

lemma skip_space_Cons: "skip_space s = c # cs \<Longrightarrow> length cs < length s"
  using skip_space_length [of s] by simp

lemma scan_string_shorter: "scan_string s = Some (t, rest) \<Longrightarrow> length rest < length s"
proof (induction s arbitrary: t rest rule: scan_string.induct)
  case (1 s)
  show ?case
  proof (cases s)
    case Nil
    with 1 show ?thesis by (simp add: scan_string.simps)
  next
    case (Cons c cs)
    note step = "1.prems" [unfolded scan_string.simps [of s], unfolded Cons list.case]
    show ?thesis
    proof (cases "c = CHR 0x5C")
      case True
      with step obtain bs r t' where u: "unescape cs = Some (bs, r)" and "scan_string r = Some (t', rest)"
        by (auto split: option.splits if_splits)
      with "1.IH"(1) [OF Cons _ _ True u] True have "length rest < length r" by simp
      with unescape_shorter [OF u] Cons show ?thesis by simp
    next
      case False
      with step consider "rest = cs" | t' where "c \<noteq> CHR 0x22" "\<not> (of_char c :: nat) < 32" "scan_string cs = Some (t', rest)"
        by (auto split: if_splits)
      then show ?thesis
      proof cases
        case 2
        with "1.IH"(2) [OF Cons _ _ False] Cons show ?thesis by fastforce
      qed (simp add: Cons)
    qed
  qed
qed

lemma scan_int_shorter: "scan_int s = Some (t, rest) \<Longrightarrow> length rest < length s"
  by (auto simp: scan_int_def digits_def split: list.splits if_splits
      intro: le_imp_less_Suc length_dropWhile_le)

lemma scan_frac_le: "scan_frac s = Some (t, rest) \<Longrightarrow> length rest \<le> length s"
  by (auto simp: scan_frac_def digits_def split: list.splits if_splits
      intro: le_SucI length_dropWhile_le)

lemma scan_exp_le: "scan_exp s = Some (t, rest) \<Longrightarrow> length rest \<le> length s"
  by (auto simp: scan_exp_def digits_def split: list.splits if_splits
      intro: le_SucI length_dropWhile_le)

lemma scan_number_shorter: "scan_number s = Some (t, rest) \<Longrightarrow> length rest < length s"
  by (fastforce simp: scan_number_def split: list.splits if_splits option.splits prod.splits
      dest!: scan_int_shorter scan_frac_le scan_exp_le)

lemma less_skip: "skip_space s = c # cs \<Longrightarrow> length r \<le> length cs \<Longrightarrow> length r < length s"
  using skip_space_Cons by fastforce

lemma HasPrefix_length: "HasPrefix s p \<Longrightarrow> length p \<le> length s"
  by (metis HasPrefix_def length_take min.absorb_iff2 min.commute)

lemma scan_shorter:
  "scan_value fuel d s = Some (v, rest) \<Longrightarrow> length rest < length s"
  "scan_elems fuel d s = Some (vs, rest) \<Longrightarrow> length rest < length s"
  "scan_fields fuel d s = Some (kvs, rest) \<Longrightarrow> length rest < length s"
proof (induction fuel d s and fuel d s and fuel d s arbitrary: v rest and vs rest and kvs rest
    rule: scan_value_scan_elems_scan_fields.induct)
  case (2 fuel d s)
  then obtain c cs where s: "skip_space s = c # cs" by (auto split: list.splits)
  have "length rest \<le> length cs"
    using 2 s skip_space_length [of cs]
    by (auto split: if_splits dest!: scan_string_shorter scan_number_shorter) (fastforce intro: less_imp_le)+
  then show ?case by (rule less_skip [OF s])
next
  case (4 fuel d s)
  then show ?case
    by (fastforce split: option.splits list.splits prod.splits if_splits dest: skip_space_Cons)
next
  case (6 fuel d s)
  then obtain ks k r0 ps v r1 where steps: "skip_space s = CHR 0x22 # ks" "scan_string ks = Some (k, r0)"
      "skip_space r0 = CHR '':'' # ps" "scan_value fuel d ps = Some (v, r1)"
    by (auto split: list.splits option.splits if_splits)
  have step: "(case skip_space r1 of
      c # cs \<Rightarrow>
        if c = CHR '','' then map_option (\<lambda>(kvs, r). ((k, v) # kvs, r)) (scan_fields fuel d cs)
        else if c = CHR ''}'' then Some ([(k, v)], cs)
        else None
    | [] \<Rightarrow> None) = Some (kvs, rest)"
    using "6.prems" by (simp add: steps)
  from step obtain c cs where r1: "skip_space r1 = c # cs" by (auto split: list.splits)
  have "length cs < length s"
    using skip_space_Cons [OF steps(1)] scan_string_shorter [OF steps(2)] skip_space_Cons [OF steps(3)]
      6(1) [OF steps(1) _ steps(2) _ steps(3) _ steps(4)] skip_space_Cons [OF r1]
    by simp
  moreover have "rest = cs \<or> length rest < length cs"
    using step 6(2) [OF steps(1) _ steps(2) _ steps(3) _ steps(4) _ r1] by (auto simp: r1 split: if_splits)
  ultimately show ?case by auto
qed simp_all

lemma scan_value_cong:
  assumes "\<And>t. length t < length s \<Longrightarrow> scan_elems n (Suc d) t = scan_elems m (Suc d) t"
    and "\<And>t. length t < length s \<Longrightarrow> scan_fields n (Suc d) t = scan_fields m (Suc d) t"
  shows "scan_value (Suc n) d s = scan_value (Suc m) d s"
proof (cases "skip_space s")
  case (Cons c cs)
  from assms [OF skip_space_Cons [OF this]] show ?thesis by (simp only: scan_value.simps Cons list.case)
qed simp

lemma scan_elems_cong:
  assumes "scan_value n d s = scan_value m d s"
    and "\<And>t. length t < length s \<Longrightarrow> scan_elems n d t = scan_elems m d t"
  shows "scan_elems (Suc n) d s = scan_elems (Suc m) d s"
proof (cases "scan_value m d s")
  case (Some p)
  obtain x r where p: "p = (x, r)" by fastforce
  show ?thesis
  proof (cases "skip_space r")
    case (Cons c cs)
    have "length cs < length s"
      using skip_space_Cons [OF Cons] scan_shorter(1) [OF Some [unfolded p]] by simp
    then show ?thesis using assms(2) by (simp only: scan_elems.simps assms(1) Some p option.case prod.case Cons list.case)
  qed (simp add: assms(1) Some p)
qed (simp add: assms(1))

lemma scan_fields_cong:
  assumes val: "\<And>t. length t < length s \<Longrightarrow> scan_value n d t = scan_value m d t"
    and rest: "\<And>t. length t < length s \<Longrightarrow> scan_fields n d t = scan_fields m d t"
  shows "scan_fields (Suc n) d s = scan_fields (Suc m) d s"
proof (cases "\<exists>q ks k r p ps. skip_space s = q # ks \<and> scan_string ks = Some (k, r) \<and> skip_space r = p # ps")
  case True
  then obtain q ks k r p ps where key: "skip_space s = q # ks" "scan_string ks = Some (k, r)" "skip_space r = p # ps"
    by blast
  have ps: "length ps < length s"
    using skip_space_Cons [OF key(1)] scan_string_shorter [OF key(2)] skip_space_Cons [OF key(3)] by simp
  show ?thesis
  proof (cases "\<exists>x r' c cs. scan_value m d ps = Some (x, r') \<and> skip_space r' = c # cs")
    case True
    then obtain x r' c cs where field: "scan_value m d ps = Some (x, r')" "skip_space r' = c # cs" by blast
    have "length cs < length s"
      using ps scan_shorter(1) [OF field(1)] skip_space_Cons [OF field(2)] by simp
    then show ?thesis
      by (simp only: scan_fields.simps key list.case option.case prod.case val [OF ps] field rest)
  next
    case False
    then show ?thesis
      by (auto simp: key val [OF ps] split: option.splits list.splits)
  qed
next
  case False
  then show ?thesis by (auto split: option.splits list.splits)
qed

lemma scan_fuel_step:
  "(2 * length s < fuel \<longrightarrow> scan_value (Suc fuel) d s = scan_value fuel d s)
   \<and> (Suc (2 * length s) < fuel \<longrightarrow> scan_elems (Suc fuel) d s = scan_elems fuel d s)
   \<and> (Suc (2 * length s) < fuel \<longrightarrow> scan_fields (Suc fuel) d s = scan_fields fuel d s)"
proof (induction fuel arbitrary: d s)
  case (Suc fuel)
  have IH: "2 * length t < fuel \<Longrightarrow> scan_value (Suc fuel) d t = scan_value fuel d t"
      "Suc (2 * length t) < fuel \<Longrightarrow> scan_elems (Suc fuel) d t = scan_elems fuel d t"
      "Suc (2 * length t) < fuel \<Longrightarrow> scan_fields (Suc fuel) d t = scan_fields fuel d t" for d t
    using Suc.IH [of t d] by blast+
  show ?case
    by (intro conjI impI scan_value_cong scan_elems_cong scan_fields_cong IH) linarith+
qed simp

lemma scan_value_fuel: "2 * length s < n \<Longrightarrow> 2 * length s < m \<Longrightarrow> scan_value n d s = scan_value m d s"
proof -
  have up: "scan_value n d s = scan_value (Suc (2 * length s)) d s" if "2 * length s < n" for n
    using that
  proof (induction n)
    case (Suc n)
    then show ?case using scan_fuel_step [of s n d] by (cases "2 * length s < n") (auto simp: less_Suc_eq)
  qed simp
  show "2 * length s < n \<Longrightarrow> 2 * length s < m \<Longrightarrow> scan_value n d s = scan_value m d s"
    using up [of n] up [of m] by simp
qed

section \<open>Reading back what was written\<close>

fun jval_of :: "json \<Rightarrow> jval" where
  "jval_of JNull = VNull"
| "jval_of (JBool b) = VBool b"
| "jval_of (JInt i) = VNum (show_int i)"
| "jval_of (JStr s) = VStr (escape_bytes s) s"
| "jval_of (JArr xs) = VArr (map jval_of xs)"
| "jval_of (JObj kvs) = VObj (map (\<lambda>(k, v). (k, jval_of v)) kvs)"

fun json_depth :: "json \<Rightarrow> nat" where
  "json_depth (JArr xs) = Suc (foldr max (map json_depth xs) 0)"
| "json_depth (JObj kvs) = Suc (foldr max (map (\<lambda>(k, v). json_depth v) kvs) 0)"
| "json_depth _ = 0"

subsection \<open>Strings\<close>

lemma hex_digit_char: "d < 16 \<Longrightarrow> hex_digit (hex_char d) = Some d"
  by (auto simp: hex_digit_def hex_char_def Let_def)

lemma hex4_small: "n < 256 \<Longrightarrow> hex4 (CHR ''0'' # CHR ''0'' # hex_char (n div 16) # hex_char (n mod 16) # r) = Some n"
  using hex_digit_char [of "n div 16"] hex_digit_char [of "n mod 16"]
  by (simp add: hex4_def hex_digit_def [of "CHR ''0''"])

lemma hex4_lines:
  "hex4 (CHR ''2'' # CHR ''0'' # CHR ''2'' # CHR ''8'' # r) = Some 8232"
  "hex4 (CHR ''2'' # CHR ''0'' # CHR ''2'' # CHR ''9'' # r) = Some 8233"
  by (simp_all add: hex4_def hex_digit_def)

lemma char_codes:
  "(of_char c = (34 :: nat)) = (c = CHR 0x22)" "(of_char c = (92 :: nat)) = (c = CHR 0x5C)"
  "(of_char c = (8 :: nat)) = (c = CHR 0x08)" "(of_char c = (12 :: nat)) = (c = CHR 0x0C)"
  "(of_char c = (10 :: nat)) = (c = CHR 0x0A)" "(of_char c = (13 :: nat)) = (c = CHR 0x0D)"
  "(of_char c = (9 :: nat)) = (c = CHR 0x09)"
  by (simp_all flip: of_char_eq_iff [where 'a = nat])

lemma scan_string_escape_char:
  "scan_string (escape_char c @ r) = map_option (\<lambda>(t, q). (c # t, q)) (scan_string r)"
proof -
  let ?n = "of_char c :: nat"
  consider (short) "?n \<in> {34, 92, 8, 12, 10, 13, 9}"
    | (hex) "?n \<notin> {34, 92, 8, 12, 10, 13, 9}" "?n < 32 \<or> ?n = 60 \<or> ?n = 62 \<or> ?n = 38"
    | (plain) "?n \<noteq> 34" "?n \<noteq> 92" "\<not> ?n < 32" "?n \<noteq> 60" "?n \<noteq> 62" "?n \<noteq> 38"
    by auto
  then show ?thesis
  proof cases
    case short
    then show ?thesis
      by (elim insertE emptyE; simp add: char_codes escape_char_def;
          subst scan_string.simps; simp add: unescape_def)
  next
    case hex
    then have n: "?n < 128" by auto
    have c: "utf8_encode ?n = [c]" using n by (simp add: utf8_encode_def)
    from hex n have "escape_char c =
        [CHR 0x5C, CHR ''u'', CHR ''0'', CHR ''0'', hex_char (?n div 16), hex_char (?n mod 16)]"
      by (auto simp: escape_char_def Let_def)
    with n c show ?thesis
      by simp (subst scan_string.simps, simp add: unescape_def unescape_u_def hex4_small)
  next
    case plain
    then have "c \<noteq> CHR 0x22" "c \<noteq> CHR 0x5C" "escape_char c = [c]" by (auto simp: escape_char_def Let_def)
    with plain show ?thesis by simp (subst scan_string.simps, simp)
  qed
qed

lemma take2D: "take 2 cs = [a, b] \<Longrightarrow> cs = a # b # drop 2 cs"
  by (metis append_Cons append_Nil append_take_drop_id)

lemma scan_escape_bytes: "scan_string (escape_bytes s @ CHR 0x22 # rest) = Some (s, rest)"
proof (induction s rule: escape_bytes.induct)
  case 1
  show ?case by (simp, subst scan_string.simps, simp)
next
  case (2 c cs)
  consider (lines) d where "c = CHR 0xE2" "d = CHR 0xA8 \<or> d = CHR 0xA9" "take 2 cs = [CHR 0x80, d]"
    | (plain) "\<not> (c = CHR 0xE2 \<and> take 2 cs = [CHR 0x80, CHR 0xA8])"
      "\<not> (c = CHR 0xE2 \<and> take 2 cs = [CHR 0x80, CHR 0xA9])" by blast
  then show ?case
  proof cases
    case lines
    then have IH: "scan_string (escape_bytes (drop 2 cs) @ CHR 0x22 # rest) = Some (drop 2 cs, rest)"
      using 2(1,2) by auto
    from lines(1,2) IH take2D [OF lines(3)] show ?thesis
      by (elim disjE; simp add: lines(3);
          subst scan_string.simps; simp add: unescape_def unescape_u_def hex4_lines utf8_encode_def char_of_def bit_0)
  next
    case plain
    then show ?thesis using 2(3) by (auto simp: scan_string_escape_char)
  qed
qed

subsection \<open>Numbers\<close>

text \<open>What may follow a value inside a document that was written: the end, or one of the delimiters.\<close>

definition value_ends :: "string \<Rightarrow> bool" where
  "value_ends rest \<longleftrightarrow> (case rest of [] \<Rightarrow> True | c # _ \<Rightarrow> c = CHR '','' \<or> c = CHR '']'' \<or> c = CHR ''}'')"

lemma is_digit_char: "0 \<le> d \<Longrightarrow> d < 10 \<Longrightarrow> is_digit (digit_char d)"
  by (simp add: is_digit_def digit_value_char)

lemma show_digits_digit: "0 \<le> i \<Longrightarrow> c \<in> set (show_digits i) \<Longrightarrow> is_digit c"
proof (induction i rule: show_digits.induct)
  case (1 i)
  then show ?case by (subst (asm) (2) show_digits.simps) (auto simp: is_digit_char split: if_splits)
qed

lemma digit_char_zero: "0 \<le> d \<Longrightarrow> d < 10 \<Longrightarrow> digit_char d = CHR ''0'' \<Longrightarrow> d = 0"
  using digit_value_char [of d] by (simp add: digit_value_def)

lemma show_digits_leading: "0 < i \<Longrightarrow> hd (show_digits i) \<noteq> CHR ''0''"
proof (induction i rule: show_digits.induct)
  case (1 i)
  then show ?case using digit_char_zero [of i] by (subst show_digits.simps) (auto simp: hd_append)
qed

lemma digits_append: "(\<forall>c\<in>set ds. is_digit c) \<Longrightarrow> value_ends rest \<Longrightarrow> digits (ds @ rest) = (ds, rest)"
  by (cases rest) (auto simp: digits_def value_ends_def is_digit_def digit_value_def)

lemma value_ends_scan: "value_ends rest \<Longrightarrow> scan_frac rest = Some ('''', rest) \<and> scan_exp rest = Some ('''', rest)"
  by (auto simp: value_ends_def scan_frac_def scan_exp_def split: list.splits)

lemma show_digits_zero: "show_digits 0 = ''0''"
  by (subst show_digits.simps) (simp add: digit_char_def char_of_def bit_0)

lemma scan_int_show_digits:
  assumes "0 \<le> i" "value_ends rest"
  shows "scan_int (show_digits i @ rest) = Some (show_digits i, rest)"
proof (cases "i = 0")
  case True
  then show ?thesis by (simp add: show_digits_zero scan_int_def)
next
  case False
  obtain c cs where cs: "show_digits i = c # cs" by (cases "show_digits i") auto
  with False assms(1) show_digits_leading [of i] have "c \<noteq> CHR ''0''" by simp
  moreover have "\<forall>c\<in>set (show_digits i). is_digit c" using assms(1) show_digits_digit by blast
  ultimately show ?thesis using digits_append [OF _ assms(2), of "show_digits i"] cs by (simp add: scan_int_def)
qed

lemma scan_number_show_int: "value_ends rest \<Longrightarrow> scan_number (show_int i @ rest) = Some (show_int i, rest)"
proof -
  assume ends: "value_ends rest"
  obtain c cs where cs: "show_digits i = c # cs" by (cases "show_digits i") auto
  show ?thesis
  proof (cases "i < 0")
    case True
    then show ?thesis
      using scan_int_show_digits [OF _ ends, of "- i"] value_ends_scan [OF ends]
      by (simp add: show_int_def scan_number_def)
  next
    case False
    then show ?thesis
      using scan_int_show_digits [OF _ ends, of i] value_ends_scan [OF ends] show_digits_first [OF _ cs] cs
      by (simp add: show_int_def scan_number_def)
  qed
qed

lemma show_int_first:
  assumes "show_int i = c # cs"
  shows "c = CHR ''-'' \<or> is_digit c"
  using assms show_digits_digit [of i c] by (cases "i < 0") (auto simp: show_int_def)

subsection \<open>Documents\<close>

definition text_first :: "char \<Rightarrow> bool" where
  "text_first c \<longleftrightarrow> \<not> is_json_space c \<and> c \<noteq> CHR '']'' \<and> c \<noteq> CHR ''}''"

lemma json_text_first: "\<exists>c cs. json_text v = c # cs \<and> text_first c"
proof (cases v)
  case (JInt i)
  have "show_int i \<noteq> ''''" by (simp add: show_int_def)
  then obtain c cs where "show_int i = c # cs" by (cases "show_int i") auto
  moreover from show_int_first [OF this] have "text_first c"
    by (auto simp: text_first_def is_json_space_def is_digit_def digit_value_def Let_def split: if_splits)
  ultimately show ?thesis by (simp add: JInt)
qed (auto simp: text_first_def is_json_space_def json_string_def)

lemma skip_space_text: "skip_space (json_text v @ rest) = json_text v @ rest"
  using json_text_first [of v] by (auto simp: skip_space_def text_first_def)

lemma skip_space_id: "\<not> is_json_space c \<Longrightarrow> skip_space (c # cs) = c # cs"
  by (simp add: skip_space_def)

lemma json_delims [simp]:
  "skip_space (CHR 0x22 # cs) = CHR 0x22 # cs" "skip_space (CHR ''['' # cs) = CHR ''['' # cs"
  "skip_space (CHR '']'' # cs) = CHR '']'' # cs" "skip_space (CHR ''{'' # cs) = CHR ''{'' # cs"
  "skip_space (CHR ''}'' # cs) = CHR ''}'' # cs" "skip_space (CHR '','' # cs) = CHR '','' # cs"
  "skip_space (CHR '':'' # cs) = CHR '':'' # cs"
  "value_ends (CHR '']'' # cs)" "value_ends (CHR ''}'' # cs)" "value_ends (CHR '','' # cs)" "value_ends []"
  by (simp_all add: skip_space_id is_json_space_def value_ends_def)

lemma scan_value_number:
  assumes "value_ends rest"
  shows "scan_value (Suc n) d (show_int i @ rest) = Some (VNum (show_int i), rest)"
proof -
  obtain c cs where cs: "show_int i = c # cs" by (cases "show_int i") (auto simp: show_int_def split: if_splits)
  from show_int_first [OF cs] have "c \<noteq> CHR 0x22" "c \<noteq> CHR ''[''" "c \<noteq> CHR ''{''" "c \<noteq> CHR ''n''"
      "c \<noteq> CHR ''t''" "c \<noteq> CHR ''f''" "\<not> is_json_space c"
    by (auto simp: is_json_space_def is_digit_def digit_value_def Let_def split: if_splits)
  with scan_number_show_int [OF assms, of i] show ?thesis
    by (simp add: cs skip_space_id HasPrefix_def)
qed

lemma scan_value_array:
  assumes "d < maxNestingDepth"
  shows "scan_value (Suc n) d (CHR ''['' # CHR '']'' # cs) = Some (VArr [], cs)"
    and "\<not> is_json_space c \<Longrightarrow> c \<noteq> CHR '']''
      \<Longrightarrow> scan_value (Suc n) d (CHR ''['' # c # cs)
        = map_option (\<lambda>(vs, r). (VArr vs, r)) (scan_elems n (Suc d) (c # cs))"
  using assms by (simp_all add: skip_space_id)

lemma scan_value_object:
  assumes "d < maxNestingDepth"
  shows "scan_value (Suc n) d (CHR ''{'' # CHR ''}'' # cs) = Some (VObj [], cs)"
    and "scan_value (Suc n) d (CHR ''{'' # CHR 0x22 # cs)
        = map_option (\<lambda>(kvs, r). (VObj kvs, r)) (scan_fields n (Suc d) (CHR 0x22 # cs))"
  using assms by simp_all

lemma scan_value_atoms:
  "scan_value (Suc n) d (''null'' @ rest) = Some (VNull, rest)"
  "scan_value (Suc n) d (''true'' @ rest) = Some (VBool True, rest)"
  "scan_value (Suc n) d (''false'' @ rest) = Some (VBool False, rest)"
  "scan_value (Suc n) d (json_string t @ rest) = Some (VStr (escape_bytes t) t, rest)"
  by (simp_all add: skip_space_id is_json_space_def HasPrefix_def json_string_def scan_escape_bytes)

lemma scan_elems_written:
  "scan_value n d (t @ CHR '']'' # rest) = Some (v, CHR '']'' # rest)
    \<Longrightarrow> scan_elems (Suc n) d (t @ CHR '']'' # rest) = Some ([v], rest)"
  "scan_value n d (t @ CHR '','' # us @ rest) = Some (v, CHR '','' # us @ rest)
    \<Longrightarrow> scan_elems n d (us @ rest) = Some (vs, r)
    \<Longrightarrow> scan_elems (Suc n) d (t @ CHR '','' # us @ rest) = Some (v # vs, r)"
  by simp_all

lemma scan_fields_written:
  "scan_value n d (t @ CHR ''}'' # rest) = Some (v, CHR ''}'' # rest)
    \<Longrightarrow> scan_fields (Suc n) d (json_string k @ CHR '':'' # t @ CHR ''}'' # rest) = Some ([(k, v)], rest)"
  "scan_value n d (t @ CHR '','' # us @ rest) = Some (v, CHR '','' # us @ rest)
    \<Longrightarrow> scan_fields n d (us @ rest) = Some (kvs, r)
    \<Longrightarrow> scan_fields (Suc n) d (json_string k @ CHR '':'' # t @ CHR '','' # us @ rest) = Some ((k, v) # kvs, r)"
  by (simp_all add: json_string_def scan_escape_bytes)

lemma json_elems_first: "xs \<noteq> [] \<Longrightarrow> \<exists>c cs. json_elems xs = c # cs \<and> text_first c"
  using json_text_first [of "hd xs"] by (cases xs rule: json_elems.cases) auto

lemma json_fields_first: "kvs \<noteq> [] \<Longrightarrow> \<exists>cs. json_fields kvs = CHR 0x22 # cs"
  by (cases kvs rule: json_fields.cases) (auto simp: json_string_def)

declare scan_value.simps [simp del] scan_elems.simps [simp del] scan_fields.simps [simp del]

lemma scan_written:
  "2 * length (json_text v) < n \<Longrightarrow> json_depth v + d \<le> maxNestingDepth \<Longrightarrow> value_ends rest
    \<Longrightarrow> scan_value n d (json_text v @ rest) = Some (jval_of v, rest)"
  "xs \<noteq> [] \<Longrightarrow> Suc (2 * length (json_elems xs)) < n
    \<Longrightarrow> foldr max (map json_depth xs) 0 + d \<le> maxNestingDepth
    \<Longrightarrow> scan_elems n d (json_elems xs @ CHR '']'' # rest) = Some (map jval_of xs, rest)"
  "kvs \<noteq> [] \<Longrightarrow> Suc (2 * length (json_fields kvs)) < n
    \<Longrightarrow> foldr max (map (\<lambda>(k, v). json_depth v) kvs) 0 + d \<le> maxNestingDepth
    \<Longrightarrow> scan_fields n d (json_fields kvs @ CHR ''}'' # rest)
      = Some (map (\<lambda>(k, v). (k, jval_of v)) kvs, rest)"
proof (induction v and xs and kvs arbitrary: n d rest and n d rest and n d rest
    rule: json_text_json_elems_json_fields.induct)
  case 1
  then show ?case using scan_value_atoms(1) by (cases n) simp_all
next
  case (2 b)
  then show ?case using scan_value_atoms(2,3) by (cases n) simp_all
next
  case (3 i)
  then show ?case by (cases n) (simp_all add: scan_value_number)
next
  case (4 s)
  then show ?case by (cases n) (simp_all add: scan_value_atoms)
next
  case (5 xs)
  then obtain m where m: "n = Suc m" by (cases n) auto
  from 5(3) have d: "d < maxNestingDepth" by simp
  show ?case
  proof (cases "xs = []")
    case True
    with d show ?thesis by (simp add: m scan_value_array)
  next
    case False
    with json_elems_first obtain c cs where c: "json_elems xs = c # cs" "text_first c" by blast
    from 5(1) [OF False, of m "Suc d" rest] 5(2,3) c d show ?thesis
      by (simp add: m scan_value_array(2) text_first_def)
  qed
next
  case (6 kvs)
  then obtain m where m: "n = Suc m" by (cases n) auto
  from 6(3) have d: "d < maxNestingDepth" by simp
  show ?case
  proof (cases "kvs = []")
    case True
    with d show ?thesis by (simp add: m scan_value_object)
  next
    case False
    with json_fields_first obtain cs where c: "json_fields kvs = CHR 0x22 # cs" by blast
    from 6(1) [OF False, of m "Suc d" rest] 6(2,3) c d show ?thesis
      by (simp add: m scan_value_object(2))
  qed
next
  case (8 x)
  then show ?case by (cases n) (simp_all add: scan_elems_written(1))
next
  case (9 x y xs)
  then obtain m where m: "n = Suc m" by (cases n) auto
  from 9(3-) have v: "scan_value m d (json_text x @ CHR '','' # json_elems (y # xs) @ CHR '']'' # rest)
      = Some (jval_of x, CHR '','' # json_elems (y # xs) @ CHR '']'' # rest)"
    by (intro 9(1)) (simp_all add: m)
  from 9(3-) have "scan_elems m d (json_elems (y # xs) @ CHR '']'' # rest) = Some (map jval_of (y # xs), rest)"
    by (intro 9(2)) (simp_all add: m)
  from scan_elems_written(2) [OF v this] show ?case by (simp add: m)
next
  case (11 k v)
  then show ?case by (cases n) (simp_all add: scan_fields_written(1))
next
  case (12 k v kv kvs)
  then obtain m where m: "n = Suc m" by (cases n) auto
  from 12(3-) have v: "scan_value m d (json_text v @ CHR '','' # json_fields (kv # kvs) @ CHR ''}'' # rest)
      = Some (jval_of v, CHR '','' # json_fields (kv # kvs) @ CHR ''}'' # rest)"
    by (intro 12(1)) (simp_all add: m)
  from 12(3-) have "scan_fields m d (json_fields (kv # kvs) @ CHR ''}'' # rest)
      = Some (map (\<lambda>(k, v). (k, jval_of v)) (kv # kvs), rest)"
    by (intro 12(2)) (simp_all add: m)
  from scan_fields_written(2) [OF v this] show ?case by (simp add: m)
qed simp_all

theorem json_parse_text: "json_depth v \<le> maxNestingDepth \<Longrightarrow> json_parse (json_text v) = Some (jval_of v)"
  using scan_written(1) [of v "Suc (2 * length (json_text v))" 0 "[]"]
  by (simp add: json_parse_def skip_space_def)

section \<open>Assignment to Go values\<close>

text \<open>
  A pointer or slice set from \<^verbatim>\<open>null\<close> becomes nil, any other target keeps its value; \<open>None\<close> is an
  \<^verbatim>\<open>UnmarshalTypeError\<close>. A field is found by its name up to the folding of letters, with the long s and
  the Kelvin sign taken for s and k; an object may name it twice, and unknown names are skipped.
\<close>

fun fold_name :: "string \<Rightarrow> string" where
  "fold_name [] = []"
| "fold_name (c # cs) =
     (if c = CHR 0xC5 \<and> take 1 cs = [CHR 0xBF] then CHR ''s'' # fold_name (drop 1 cs)
      else if c = CHR 0xE2 \<and> take 2 cs = [CHR 0x84, CHR 0xAA] then CHR ''k'' # fold_name (drop 2 cs)
      else lower_char c # fold_name cs)"

definition assign_string :: "jval \<Rightarrow> string \<Rightarrow> string option" where
  "assign_string j old = (case j of VStr raw s \<Rightarrow> Some s | VNull \<Rightarrow> Some old | _ \<Rightarrow> None)"

definition assign_int64 :: "jval \<Rightarrow> int \<Rightarrow> int option" where
  "assign_int64 j old = (case j of VNum t \<Rightarrow> ParseInt t | VNull \<Rightarrow> Some old | _ \<Rightarrow> None)"

fun traverse :: "('a \<Rightarrow> 'b option) \<Rightarrow> 'a list \<Rightarrow> 'b list option" where
  "traverse f [] = Some []"
| "traverse f (x # xs) =
     (case f x of None \<Rightarrow> None | Some y \<Rightarrow> map_option (\<lambda>ys. y # ys) (traverse f xs))"

definition assign_slice :: "(jval \<Rightarrow> 'a option) \<Rightarrow> jval \<Rightarrow> 'a list option option" where
  "assign_slice elem j =
     (case j of VNull \<Rightarrow> Some None | VArr js \<Rightarrow> map_option Some (traverse elem js) | _ \<Rightarrow> None)"

fun assign_fields :: "(string \<Rightarrow> jval \<Rightarrow> 'a \<Rightarrow> 'a option) \<Rightarrow> (string \<times> jval) list \<Rightarrow> 'a \<Rightarrow> 'a option" where
  "assign_fields field [] a = Some a"
| "assign_fields field ((k, j) # kvs) a =
     (case field (fold_name k) j a of None \<Rightarrow> None | Some a' \<Rightarrow> assign_fields field kvs a')"

definition assign_struct :: "(string \<Rightarrow> jval \<Rightarrow> 'a \<Rightarrow> 'a option) \<Rightarrow> jval \<Rightarrow> 'a \<Rightarrow> 'a option" where
  "assign_struct field j old =
     (case j of VNull \<Rightarrow> Some old | VObj kvs \<Rightarrow> assign_fields field kvs old | _ \<Rightarrow> None)"

lemma traverse_map_Some: "traverse f (map g xs) = Some ys" if "\<And>x. f (g x) = Some (h x)" "ys = map h xs"
  unfolding that(2) by (induction xs) (simp_all add: that(1))

end
