(* ===== verification/Stored_Results.thy ===== *)
theory Stored_Results
  imports Json_Decode Domain
begin

text \<open>
  Wallet rows read back as results (\<^verbatim>\<open>internal/domain/scan_result.go\<close>): the JSON arrays of the text
  columns decoded as \<^verbatim>\<open>json.Unmarshal\<close> decodes them, and the round trip with \<open>FromScanResult\<close>.
\<close>

section \<open>Decoding the text columns\<close>

definition unmarshal_strings :: "string \<Rightarrow> string list option option" where
  "unmarshal_strings s =
     (case json_parse s of None \<Rightarrow> None | Some j \<Rightarrow> assign_slice (\<lambda>e. assign_string e '''') j)"

definition delegation_field :: "string \<Rightarrow> jval \<Rightarrow> Delegation \<Rightarrow> Delegation option" where
  "delegation_field name j d =
     (if name = ''chain_id'' then map_option (\<lambda>i. d\<lparr>ChainID := i\<rparr>) (assign_int64 j (ChainID d))
      else if name = ''delegated_address''
      then map_option (\<lambda>a. d\<lparr>DelegatedAddress := a\<rparr>) (assign_string j (DelegatedAddress d))
      else Some d)"

definition zero_Delegation :: Delegation where
  "zero_Delegation = \<lparr>ChainID = 0, DelegatedAddress = ''''\<rparr>"

definition unmarshal_delegations :: "string \<Rightarrow> Delegation list option option" where
  "unmarshal_delegations s =
     (case json_parse s of
        None \<Rightarrow> None
      | Some j \<Rightarrow> assign_slice (\<lambda>e. assign_struct delegation_field e zero_Delegation) j)"

definition parseStringArray :: "string \<Rightarrow> string list option" where
  "parseStringArray s =
     (if s = '''' \<or> s = ''[]'' then Some []
      else (case unmarshal_strings s of None \<Rightarrow> Some [] | Some arr \<Rightarrow> arr))"

definition parseDelegations :: "string \<Rightarrow> Delegation list option" where
  "parseDelegations s =
     (if s = '''' \<or> s = ''[]'' \<or> s = ''null'' then Some []
      else (case unmarshal_delegations s of
          None \<Rightarrow> Some [] | Some None \<Rightarrow> Some [] | Some (Some arr) \<Rightarrow> Some arr))"

definition ToScanResult :: "ScanResultEntity \<Rightarrow> ScanResult" where
  "ToScanResult s = \<lparr>res_Address = sr_Address s, res_Type = sr_Type s, res_Algorithm = sr_Algorithm s,
     res_NISTLevel = sr_NISTLevel s, res_KeyExposed = sr_KeyExposed s, res_PublicKey = sr_PublicKey s,
     res_TransactionHash = sr_TransactionHash s, res_ExposedNetwork = sr_ExposedNetwork s,
     res_IsEOA = sr_IsEOA s, res_IsERC4337 = sr_IsERC4337 s, res_RiskScore = sr_RiskScore s,
     res_PublicKeyRecovery = sr_PublicKeyRecovery s, res_ScannedAt = sr_UpdatedAt s,
     res_Networks = parseStringArray (sr_Networks s), res_Delegations = parseDelegations (sr_Delegations s),
     res_Connections = parseStringArray (sr_Connections s)\<rparr>"

section \<open>Round trips of the columns\<close>

definition slice_items :: "'a list option \<Rightarrow> 'a list" where
  "slice_items xs = (case xs of None \<Rightarrow> [] | Some ys \<Rightarrow> ys)"

lemma slice_items_simps [simp]: "slice_items None = []" "slice_items (Some ys) = ys"
  by (simp_all add: slice_items_def)

lemma foldr_max_zero: "(\<And>x. x \<in> set xs \<Longrightarrow> f x = (0 :: nat)) \<Longrightarrow> foldr max (map f xs) 0 = 0"
  by (induction xs) simp_all

lemma json_text_array: "xs \<noteq> [] \<Longrightarrow> json_text (JArr xs) \<noteq> '''' \<and> json_text (JArr xs) \<noteq> ''[]'' \<and> json_text (JArr xs) \<noteq> ''null''"
  using json_elems_first [of xs] by (auto simp: text_first_def)

lemma parse_strings_text: "parseStringArray (stringArrayToString arr) = Some (slice_items arr)"
proof (cases "slice_items arr = []")
  case True
  then show ?thesis by (cases arr) (auto simp: stringArrayToString_def parseStringArray_def)
next
  case False
  then obtain ys where ys: "arr = Some ys" "ys \<noteq> []" by (cases arr) auto
  have "json_parse (json_text (JArr (map JStr ys))) = Some (VArr (map (\<lambda>s. VStr (escape_bytes s) s) ys))"
    by (subst json_parse_text) (simp_all add: maxNestingDepth_def foldr_max_zero comp_def)
  with ys json_text_array [of "map JStr ys"] show ?thesis
    by (simp add: stringArrayToString_def parseStringArray_def unmarshal_strings_def assign_slice_def
        traverse_map_Some [where h = id] assign_string_def list.case_eq_if del: json_text.simps)
qed

lemma delegation_text:
  assumes "in_int64 (ChainID d)"
  shows "assign_struct delegation_field (jval_of (json_delegation d)) zero_Delegation = Some d"
proof -
  have "fold_name ''chain_id'' = ''chain_id''" "fold_name ''delegated_address'' = ''delegated_address''"
    by code_simp+
  with assms show ?thesis
    by (simp add: json_delegation_def assign_struct_def delegation_field_def zero_Delegation_def
        assign_int64_def assign_string_def ParseInt_show_int)
qed

lemma traverse_Some: "(\<And>x. x \<in> set xs \<Longrightarrow> f x = Some (h x)) \<Longrightarrow> traverse f xs = Some (map h xs)"
  by (induction xs) simp_all

lemma traverse_map: "traverse f (map g xs) = traverse (f \<circ> g) xs"
  by (induction xs) (simp_all split: option.split)

lemma parse_delegations_text:
  assumes "\<forall>d\<in>set (slice_items arr). in_int64 (ChainID d)"
  shows "parseDelegations (delegationsToString arr) = Some (slice_items arr)"
proof (cases "slice_items arr = []")
  case True
  then show ?thesis by (cases arr) (auto simp: delegationsToString_def parseDelegations_def)
next
  case False
  then obtain ys where ys: "arr = Some ys" "ys \<noteq> []" by (cases arr) auto
  have "json_parse (json_text (JArr (map json_delegation ys))) = Some (VArr (map (jval_of \<circ> json_delegation) ys))"
  proof (subst json_parse_text)
    have "foldr max (map (\<lambda>d. 1) ys) 0 \<le> (1 :: nat)" by (induction ys) simp_all
    then show "json_depth (JArr (map json_delegation ys)) \<le> maxNestingDepth"
      by (simp add: maxNestingDepth_def comp_def json_delegation_def)
  qed simp
  moreover have "traverse (\<lambda>e. assign_struct delegation_field e zero_Delegation)
      (map (jval_of \<circ> json_delegation) ys) = Some ys"
    unfolding traverse_map using assms ys
    by (subst traverse_Some [where h = id]) (simp_all add: delegation_text)
  ultimately show ?thesis using ys json_text_array [of "map json_delegation ys"]
    by (simp add: delegationsToString_def parseDelegations_def unmarshal_delegations_def assign_slice_def
        list.case_eq_if del: json_text.simps)
qed

text \<open>
  C34. A stored wallet result comes back as it was: the row that \<open>FromScanResult\<close> builds, whatever
  identity, status and time it is stored with, is read back as the same result, with its instant taken
  from the row and nil lists replaced by empty ones.
\<close>

theorem stored_result_round_trip:
  assumes "\<forall>d\<in>set (slice_items (res_Delegations r)). in_int64 (ChainID d)"
  shows "ToScanResult ((FromScanResult userID r)\<lparr>sr_ID := i, sr_Status := status, sr_Error := err,
      sr_UpdatedAt := t\<rparr>)
    = r\<lparr>res_ScannedAt := t, res_Networks := Some (slice_items (res_Networks r)),
        res_Delegations := Some (slice_items (res_Delegations r)),
        res_Connections := Some (slice_items (res_Connections r))\<rparr>"
  using parse_delegations_text [OF assms]
  by (simp add: ToScanResult_def FromScanResult_def parse_strings_text)

definition stored_demo :: ScanResult where
  "stored_demo = \<lparr>res_Address = ''0xab'', res_Type = ''EOA'', res_Algorithm = ''ECDSA-secp256k1'',
     res_NISTLevel = 1, res_KeyExposed = True, res_PublicKey = ''04'', res_TransactionHash = '''',
     res_ExposedNetwork = ''mainnet'', res_IsEOA = True, res_IsERC4337 = False, res_RiskScore = 0,
     res_PublicKeyRecovery = '''', res_ScannedAt = 5, res_Networks = Some [''mainnet'', ''a<b''],
     res_Delegations = Some [\<lparr>ChainID = -7, DelegatedAddress = ''0xcd''\<rparr>], res_Connections = None\<rparr>"

theorem stored_result_round_trip_witness:
  "ToScanResult ((FromScanResult 1 stored_demo)\<lparr>sr_ID := 2, sr_Status := ''SUCCESS'', sr_Error := '''',
      sr_UpdatedAt := 9\<rparr>) = stored_demo\<lparr>res_ScannedAt := 9, res_Connections := Some []\<rparr>"
  using stored_result_round_trip [where r = stored_demo and userID = 1 and i = 2 and status = "''SUCCESS''" and err = "''''" and t = 9]
  by (simp add: stored_demo_def in_int64_def)

end
