(* ===== verification/Scan_Api.thy ===== *)
theory Scan_Api
  imports Http Ledger Pending_Scans Scan_Repositories Chain_Config Stored_Results
begin

text \<open>
  \<^verbatim>\<open>internal/scanapi/handler.go\<close> and \<^verbatim>\<open>wallet_filter.go\<close>: the endpoints of the internal scan API.
  The stores a handler was built with may be nil: the record of the handler says which are there.
  The decoders of the request bodies are parameters here and defined in \<open>Request_Bodies\<close>.
\<close>

section \<open>The handler and its requests\<close>

record 'w Handler =
  api_pending :: bool
  api_walletScans :: bool
  api_tlsScans :: bool
  api_ledger :: "'w ScanUsageLedgerRepository option"
  api_cache :: bool
  api_chainCfg :: "ChainConfig option"
  api_walletDB :: bool
  api_events :: bool

record reserveWalletPendingRequest =
  rw_ScanID :: uuid
  rw_Address :: string
  rw_CreatedAt :: "gotime option"

record putTLSPendingRequest =
  pt_ScanID :: uuid
  pt_Endpoint :: string
  pt_CreatedAt :: "gotime option"

record scan_codec =
  decode_reserve :: "string \<Rightarrow> reserveWalletPendingRequest option"
  decode_tls :: "string \<Rightarrow> putTLSPendingRequest option"

definition pendingDown :: string where
  "pendingDown = ''pending scan store is temporarily unavailable''"
definition walletDown :: string where
  "walletDown = ''wallet scan store is temporarily unavailable''"
definition tlsDown :: string where
  "tlsDown = ''tls scan store is temporarily unavailable''"
definition ledgerDown :: string where
  "ledgerDown = ''ledger store is temporarily unavailable''"

text \<open>\<^verbatim>\<open>if err != nil { writeServiceUnavailable(...); return }\<close> and the guards before it.\<close>

definition orUnavailable :: "request \<Rightarrow> string \<Rightarrow> ('w, go_error, 'a) prog \<Rightarrow> ('w, response, 'a) prog" where
  "orUnavailable r message m = mapErrP (\<lambda>_. writeServiceUnavailable r message) m"

definition requireStore :: "request \<Rightarrow> string \<Rightarrow> bool \<Rightarrow> ('w, response, unit) prog" where
  "requireStore r message there =
     (if \<not> there then throwP (writeServiceUnavailable r message) else returnP ())"

definition requireUserID :: "'w env \<Rightarrow> request \<Rightarrow> ('w, response, uuid) prog" where
  "requireUserID E r =
     (let raw = TrimSpace (req_Header r headerUserID) in
      if raw = '''' then throwP (writeBadRequest r ''X-User-Id header is required'')
      else
        (case uuid_Parse E raw of
           None \<Rightarrow> throwP (writeBadRequest r ''X-User-Id must be a valid UUID'')
         | Some userID \<Rightarrow>
             if userID = uuid_Nil then throwP (writeBadRequest r ''X-User-Id must be a valid UUID'')
             else returnP userID))"

definition parseScanIDPath :: "'w env \<Rightarrow> request \<Rightarrow> ('w, response, uuid) prog" where
  "parseScanIDPath E r =
     (let raw = TrimSpace (req_PathValue r ''scan_id'') in
      if raw = '''' then throwP (writeBadRequest r ''scan_id must be a UUID'')
      else
        (case uuid_Parse E raw of
           None \<Rightarrow> throwP (writeBadRequest r ''scan_id must be a UUID'')
         | Some i \<Rightarrow> returnP i))"

definition parseBoolQuery :: "string \<Rightarrow> bool option" where
  "parseBoolQuery raw =
     (let raw = TrimSpace raw in if raw = '''' then Some False else ParseBool raw)"

section \<open>JSON of records and rows\<close>

definition any_int :: "int \<Rightarrow> any" where
  "any_int i = AnyInt64 (word_of_int i)"

definition pendingRecordJSON :: "'w env \<Rightarrow> PendingV1ScanRecord \<Rightarrow> any" where
  "pendingRecordJSON E rec = AnyMap (
     [(''scan_id'', AnyString (uuid_String E (pend_ScanID rec))),
      (''user_id'', AnyString (uuid_String E (pend_UserID rec))),
      (''family'', AnyString (pend_Family rec)),
      (''created_at'', AnyString (format_rfc3339 True (pend_CreatedAt rec)))]
     @ (if pend_Address rec \<noteq> '''' then [(''address'', AnyString (pend_Address rec))] else [])
     @ (if pend_Endpoint rec \<noteq> '''' then [(''endpoint'', AnyString (pend_Endpoint rec))] else []))"

definition walletScanRowJSON :: "'w env \<Rightarrow> ScanResultEntity \<Rightarrow> any" where
  "walletScanRowJSON E e = AnyMap
     [(''id'', AnyString (uuid_String E (sr_ID e))),
      (''user_id'', AnyString (uuid_String E (sr_UserID e))),
      (''address'', AnyString (sr_Address e)), (''type'', AnyString (sr_Type e)),
      (''algorithm'', AnyString (sr_Algorithm e)), (''nist_level'', any_int (sr_NISTLevel e)),
      (''key_exposed'', AnyBool (sr_KeyExposed e)), (''public_key'', AnyString (sr_PublicKey e)),
      (''transaction_hash'', AnyString (sr_TransactionHash e)),
      (''exposed_network'', AnyString (sr_ExposedNetwork e)),
      (''public_key_recovery'', AnyString (sr_PublicKeyRecovery e)),
      (''is_eoa'', AnyBool (sr_IsEOA e)), (''is_erc4337'', AnyBool (sr_IsERC4337 e)),
      (''risk_score'', AnyFloat (sr_RiskScore e)), (''networks'', AnyString (sr_Networks e)),
      (''delegations'', AnyString (sr_Delegations e)), (''connections'', AnyString (sr_Connections e)),
      (''status'', AnyString (sr_Status e)), (''error'', AnyString (sr_Error e)),
      (''created_at'', AnyString (format_rfc3339 True (sr_CreatedAt e))),
      (''updated_at'', AnyString (format_rfc3339 True (sr_UpdatedAt e)))]"

definition tlsScanRowJSON :: "'w env \<Rightarrow> TLSScanResultEntity \<Rightarrow> any" where
  "tlsScanRowJSON E e = AnyMap (
     [(''id'', AnyString (uuid_String E (tls_ID e))),
      (''url'', AnyString (tls_URL e)), (''host'', AnyString (tls_Host e)),
      (''port'', any_int (tls_Port e)), (''protocol_version'', AnyString (tls_ProtocolVersion e)),
      (''nist_level'', any_int (tls_NISTLevel e)), (''risk_score'', AnyFloat (tls_RiskScore e)),
      (''pqc_risk'', AnyString (tls_PQCRisk e)), (''kex_algorithm'', AnyString (tls_KexAlgorithm e)),
      (''kex_pqc_ready'', AnyBool (tls_KexPQCReady e)), (''pqc_mode'', AnyString (tls_PQCMode e)),
      (''pfs'', AnyBool (tls_PFS e)), (''alpn'', AnyString (tls_ALPN e)),
      (''ocsp_stapled'', AnyBool (tls_OCSPStapled e)), (''curve'', AnyString (tls_Curve e)),
      (''certificate'', AnyString (tls_Certificate e)),
      (''cipher_suites'', AnyString (tls_CipherSuites e)),
      (''supported_pqcs'', AnyString (tls_SupportedPQCs e)),
      (''recommendations'', AnyString (tls_Recommendations e)),
      (''nist_levels'', AnyString (tls_NISTLevels e)), (''default'', AnyBool (tls_Default e)),
      (''status'', AnyString (tls_Status e)), (''error'', AnyString (tls_Error e)),
      (''created_at'', AnyString (format_rfc3339 True (tls_CreatedAt e))),
      (''updated_at'', AnyString (format_rfc3339 True (tls_UpdatedAt e)))]
     @ (case tls_UserID e of None \<Rightarrow> [] | Some u \<Rightarrow> [(''user_id'', AnyString (uuid_String E u))]))"

definition pageJSON :: "any list \<Rightarrow> int \<Rightarrow> int \<Rightarrow> int \<Rightarrow> response" where
  "pageJSON items n limit offset =
     writeJSON StatusOK (AnyMap [(''items'', AnySlice items), (''total'', any_int n),
       (''limit'', any_int limit), (''offset'', any_int offset)])"

section \<open>Pending scans\<close>

definition ReserveWalletPending :: "'w env \<Rightarrow> scan_codec \<Rightarrow> 'w Handler \<Rightarrow> 'w handler" where
  "ReserveWalletPending E C h r =
     bindP (requireUserID E r) (\<lambda>userID.
     bindP (requireStore r pendingDown (api_pending h)) (\<lambda>_.
     case decodeJSON (decode_reserve C) r of
       None \<Rightarrow> throwP (writeBadRequest r ''invalid request body'')
     | Some req \<Rightarrow>
         if rw_ScanID req = uuid_Nil \<or> TrimSpace (rw_Address req) = ''''
         then throwP (writeBadRequest r ''scan_id and address are required'')
         else
           bindP (nowP E) (\<lambda>now.
           let rec = \<lparr>pend_ScanID = rw_ScanID req, pend_UserID = userID, pend_Family = ''wallet'',
                 pend_Address = normalizeAddress (rw_Address req), pend_Endpoint = '''',
                 pend_CreatedAt = (case rw_CreatedAt req of None \<Rightarrow> now | Some t \<Rightarrow> t)\<rparr>
           in bindP (orUnavailable r pendingDown (pending_PutWallet E (Some rec))) (\<lambda>reserved.
              if \<not> reserved then
                throwP (writeJSON StatusConflict (AnyMap [(''error'', AnyString ''SCAN_IN_PROGRESS''),
                  (''message'', AnyString ''A wallet scan is already in progress for this target.'')]))
              else
                returnP (writeJSON StatusCreated
                  (AnyMap [(''reserved'', AnyBool True), (''record'', pendingRecordJSON E rec)]))))))"

definition GetWalletPendingByAddress :: "'w env \<Rightarrow> 'w Handler \<Rightarrow> 'w handler" where
  "GetWalletPendingByAddress E h r =
     bindP (requireUserID E r) (\<lambda>userID.
     bindP (requireStore r pendingDown (api_pending h)) (\<lambda>_.
     let addr = normalizeAddress (req_Query r ''address'') in
     if addr = '''' then throwP (writeBadRequest r ''address query parameter is required'')
     else
       bindP (orUnavailable r pendingDown (pending_GetWalletByOwnerAddress E userID addr)) (\<lambda>rec.
       case rec of
         None \<Rightarrow> throwP (writeNotFound r ''pending scan not found'')
       | Some rec \<Rightarrow> returnP (writeJSON StatusOK (pendingRecordJSON E rec)))))"

definition ReleaseWalletPendingReservation :: "'w env \<Rightarrow> 'w Handler \<Rightarrow> 'w handler" where
  "ReleaseWalletPendingReservation E h r =
     bindP (requireUserID E r) (\<lambda>userID.
     bindP (requireStore r pendingDown (api_pending h)) (\<lambda>_.
     let addr = normalizeAddress (req_Query r ''address'');
         scanIDStr = TrimSpace (req_Query r ''scan_id'')
     in if addr = '''' \<or> scanIDStr = ''''
        then throwP (writeBadRequest r ''address and scan_id query parameters are required'')
        else
          (case uuid_Parse E scanIDStr of
             None \<Rightarrow> throwP (writeBadRequest r ''scan_id must be a UUID'')
           | Some scanID \<Rightarrow>
               bindP (orUnavailable r pendingDown (pending_DeleteWalletReservation E userID addr scanID)) (\<lambda>_.
               returnP (WriteHeader StatusNoContent)))))"

definition PutTLSPending :: "'w env \<Rightarrow> scan_codec \<Rightarrow> 'w Handler \<Rightarrow> 'w handler" where
  "PutTLSPending E C h r =
     bindP (requireUserID E r) (\<lambda>userID.
     bindP (requireStore r pendingDown (api_pending h)) (\<lambda>_.
     case decodeJSON (decode_tls C) r of
       None \<Rightarrow> throwP (writeBadRequest r ''invalid request body'')
     | Some req \<Rightarrow>
         if pt_ScanID req = uuid_Nil \<or> TrimSpace (pt_Endpoint req) = ''''
         then throwP (writeBadRequest r ''scan_id and endpoint are required'')
         else
           bindP (nowP E) (\<lambda>now.
           let rec = \<lparr>pend_ScanID = pt_ScanID req, pend_UserID = userID, pend_Family = ''tls'',
                 pend_Address = '''', pend_Endpoint = TrimSpace (pt_Endpoint req),
                 pend_CreatedAt = (case pt_CreatedAt req of None \<Rightarrow> now | Some t \<Rightarrow> t)\<rparr>
           in bindP (orUnavailable r pendingDown (pending_Put E (Some rec))) (\<lambda>_.
              returnP (writeJSON StatusCreated (pendingRecordJSON E rec))))))"

definition GetPendingScan :: "'w env \<Rightarrow> 'w Handler \<Rightarrow> 'w handler" where
  "GetPendingScan E h r =
     bindP (requireUserID E r) (\<lambda>userID.
     bindP (requireStore r pendingDown (api_pending h)) (\<lambda>_.
     bindP (parseScanIDPath E r) (\<lambda>scanID.
     bindP (orUnavailable r pendingDown (pending_Get E scanID)) (\<lambda>rec.
     case rec of
       None \<Rightarrow> throwP (writeNotFound r ''pending scan not found'')
     | Some rec \<Rightarrow>
         if pend_UserID rec \<noteq> userID then throwP (writeNotFound r ''pending scan not found'')
         else returnP (writeJSON StatusOK (pendingRecordJSON E rec))))))"

definition ReleasePendingScan :: "'w env \<Rightarrow> 'w Handler \<Rightarrow> 'w handler" where
  "ReleasePendingScan E h r =
     bindP (requireUserID E r) (\<lambda>_.
     bindP (requireStore r pendingDown (api_pending h)) (\<lambda>_.
     bindP (parseScanIDPath E r) (\<lambda>scanID.
     bindP (orUnavailable r pendingDown (pending_Delete E scanID)) (\<lambda>_.
     returnP (WriteHeader StatusNoContent)))))"

section \<open>Filters of wallet rows\<close>

definition upper_char :: "char \<Rightarrow> char" where
  "upper_char c =
     (let n = (of_char c :: nat) in if 97 \<le> n \<and> n \<le> 122 then char_of (n - 32) else c)"

definition ToUpper :: "string \<Rightarrow> string" where
  "ToUpper s = map upper_char s"

definition walletEntityIsCompleted :: "ScanResultEntity \<Rightarrow> bool" where
  "walletEntityIsCompleted e \<longleftrightarrow> ToUpper (TrimSpace (sr_Status e)) = StateSUCCESS"

definition parseNetworksFromEntity :: "string \<Rightarrow> string list" where
  "parseNetworksFromEntity networksJSON =
     (if networksJSON = '''' \<or> networksJSON = ''[]'' then []
      else (case unmarshal_strings networksJSON of None \<Rightarrow> [] | Some None \<Rightarrow> [] | Some (Some arr) \<Rightarrow> arr))"

fun matches_chain :: "(string \<rightharpoonup> int) \<Rightarrow> int \<Rightarrow> string list \<Rightarrow> bool" where
  "matches_chain byName want [] = False"
| "matches_chain byName want (n # nets) =
     (if n = show_int want then True
      else if byName n = Some want then True
      else matches_chain byName want nets)"

definition walletEntityMatchesChainID ::
  "ScanResultEntity \<Rightarrow> int \<Rightarrow> ChainConfig option \<Rightarrow> bool" where
  "walletEntityMatchesChainID e want cfg =
     (case cfg of
        None \<Rightarrow> False
      | Some cfg \<Rightarrow> matches_chain (ChainIDByNetwork cfg) want (parseNetworksFromEntity (sr_Networks e)))"

text \<open>Slicing out of range panics: \<open>None\<close>.\<close>

definition paginateWalletScanEntities :: "'a list \<Rightarrow> int \<Rightarrow> int \<Rightarrow> 'a list option" where
  "paginateWalletScanEntities xs limit offset =
     (if offset \<ge> int (length xs) then Some []
      else
        let stop = offset + limit;
            stop = (if stop > int (length xs) then int (length xs) else stop)
        in if 0 \<le> offset \<and> offset \<le> stop then Some (take (nat (stop - offset)) (drop (nat offset) xs))
           else None)"

fun firstCompleted :: "(ScanResultEntity \<Rightarrow> bool) \<Rightarrow> ScanResultEntity list \<Rightarrow> ScanResultEntity list" where
  "firstCompleted matching [] = []"
| "firstCompleted matching (ent # ents) =
     (if \<not> walletEntityIsCompleted ent then firstCompleted matching ents
      else if \<not> matching ent then firstCompleted matching ents
      else [ent])"

section \<open>Wallet scans\<close>

text \<open>
  The four ways to list: the latest completed scan of an address, one page of the scans of an
  address on a chain (filtered and paged in memory), of an address, or of the owner. The in-memory
  paging cannot panic on parsed page parameters; should it, there would be no response.
\<close>

definition listWalletEntities ::
  "'w env \<Rightarrow> 'w Handler \<Rightarrow> uuid \<Rightarrow> bool \<Rightarrow> string \<Rightarrow> int option \<Rightarrow> int \<Rightarrow> int
   \<Rightarrow> ('w, go_error, (ScanResultEntity list \<times> int) option) prog" where
  "listWalletEntities E h userID latest normalizedAddr chainID limit offset =
     (if latest then
        bindP (ListOwnerWalletScansByAddress E userID normalizedAddr) (\<lambda>all.
        let entities = firstCompleted (\<lambda>ent. case chainID of None \<Rightarrow> True
              | Some c \<Rightarrow> walletEntityMatchesChainID ent c (api_chainCfg h)) all
        in returnP (Some (entities, int (length entities))))
      else if normalizedAddr \<noteq> '''' \<and> chainID \<noteq> None then
        bindP (ListOwnerWalletScansByAddress E userID normalizedAddr) (\<lambda>all.
        let filtered = filter (\<lambda>ent. walletEntityMatchesChainID ent (the chainID) (api_chainCfg h)) all
        in returnP (map_option (\<lambda>entities. (entities, int (length filtered)))
             (paginateWalletScanEntities filtered limit offset)))
      else if normalizedAddr \<noteq> '''' then
        bindP (ListOwnerWalletScansDiscoveryV1 E userID normalizedAddr limit offset) (\<lambda>res.
        returnP (Some res))
      else
        bindP (ListOwnerWalletScansDiscoveryV1 E userID '''' limit offset) (\<lambda>res.
        returnP (Some res)))"

definition ListWalletScans :: "'w env \<Rightarrow> 'w Handler \<Rightarrow> request \<Rightarrow> ('w, response, response option) prog" where
  "ListWalletScans E h r =
     bindP (requireUserID E r) (\<lambda>userID.
     bindP (requireStore r walletDown (api_walletScans h)) (\<lambda>_.
     case parsePagination (req_Query r ''limit'') (req_Query r ''offset'') of (limit, offset) \<Rightarrow>
     let addrQ = TrimSpace (req_Query r ''address'');
         chainQ = TrimSpace (req_Query r ''chain_id'')
     in (case parseBoolQuery (req_Query r ''latest'') of
           None \<Rightarrow> throwP (writeBadRequest r ''latest must be a boolean'')
         | Some latest \<Rightarrow>
             if latest \<and> addrQ = '''' then throwP (writeBadRequest r ''latest requires address'')
             else if chainQ \<noteq> '''' \<and> addrQ = '''' then throwP (writeBadRequest r ''chain_id requires address'')
             else
               let normalizedAddr = normalizeAddress addrQ;
                   chainID = (if chainQ = '''' then None else ParseInt chainQ)
               in if chainQ \<noteq> '''' \<and> (case chainID of None \<Rightarrow> True | Some v \<Rightarrow> v \<le> 0)
                  then throwP (writeBadRequest r ''chain_id must be a positive integer'')
                  else
                    bindP (orUnavailable r walletDown
                             (listWalletEntities E h userID latest normalizedAddr chainID limit offset)) (\<lambda>res.
                    returnP (map_option (\<lambda>(entities, n).
                      pageJSON (map (walletScanRowJSON E) entities) n limit offset) res)))))"

definition GetWalletScan :: "'w env \<Rightarrow> 'w Handler \<Rightarrow> 'w handler" where
  "GetWalletScan E h r =
     bindP (requireUserID E r) (\<lambda>userID.
     bindP (requireStore r walletDown (api_walletScans h)) (\<lambda>_.
     bindP (parseScanIDPath E r) (\<lambda>scanID.
     bindP (orUnavailable r walletDown (FindOwnedWalletScanByID E userID scanID)) (\<lambda>ent.
     case ent of
       None \<Rightarrow> throwP (writeNotFound r ''scan not found'')
     | Some ent \<Rightarrow> returnP (writeJSON StatusOK (walletScanRowJSON E ent))))))"

definition DeleteWalletScanHandler :: "'w env \<Rightarrow> 'w Handler \<Rightarrow> 'w handler" where
  "DeleteWalletScanHandler E h r =
     bindP (requireUserID E r) (\<lambda>userID.
     bindP (requireStore r walletDown (api_walletScans h)) (\<lambda>_.
     bindP (parseScanIDPath E r) (\<lambda>scanID.
     bindP (orUnavailable r walletDown (FindOwnedWalletScanByID E userID scanID)) (\<lambda>found.
     case found of
       None \<Rightarrow> throwP (writeNotFound r ''scan not found'')
     | Some ent \<Rightarrow>
         bindP (orUnavailable r walletDown (DeleteOwnedWalletScan E userID scanID)) (\<lambda>deleted.
         if \<not> deleted then throwP (writeNotFound r ''scan not found'')
         else
           bindP (if api_cache h then
                    bindP (orUnavailable r walletDown
                             (ListOwnerWalletScansByAddress E userID (sr_Address ent))) (\<lambda>remaining.
                    if length remaining = 0
                    then catchP (orUnavailable r walletDown (DeleteWalletScan E userID (sr_Address ent)))
                           (\<lambda>_. returnP ())
                    else returnP ())
                  else returnP ()) (\<lambda>_.
           returnP (WriteHeader StatusNoContent)))))))"

section \<open>TLS scans\<close>

definition ListTLSScans :: "'w env \<Rightarrow> 'w Handler \<Rightarrow> 'w handler" where
  "ListTLSScans E h r =
     bindP (requireUserID E r) (\<lambda>userID.
     bindP (requireStore r tlsDown (api_tlsScans h)) (\<lambda>_.
     case parsePagination (req_Query r ''limit'') (req_Query r ''offset'') of (limit, offset) \<Rightarrow>
     bindP (orUnavailable r tlsDown (ListOwnerUserTLSScansDiscoveryV1 E userID limit offset)) (\<lambda>(entities, n).
     returnP (pageJSON (map (tlsScanRowJSON E) entities) n limit offset))))"

definition ListTLSDefaultScans :: "'w env \<Rightarrow> 'w Handler \<Rightarrow> 'w handler" where
  "ListTLSDefaultScans E h r =
     bindP (requireUserID E r) (\<lambda>_.
     bindP (requireStore r tlsDown (api_tlsScans h)) (\<lambda>_.
     bindP (orUnavailable r tlsDown (FindAllDefault E)) (\<lambda>entities.
     let items = map (tlsScanRowJSON E) entities
     in returnP (pageJSON items (int (length items)) (int (length items)) 0))))"

definition GetTLSScan :: "'w env \<Rightarrow> 'w Handler \<Rightarrow> 'w handler" where
  "GetTLSScan E h r =
     bindP (requireUserID E r) (\<lambda>userID.
     bindP (requireStore r tlsDown (api_tlsScans h)) (\<lambda>_.
     bindP (parseScanIDPath E r) (\<lambda>scanID.
     bindP (orUnavailable r tlsDown (FindOwnedUserTLSScanByID E userID scanID)) (\<lambda>own.
     bindP (case own of
              None \<Rightarrow> orUnavailable r tlsDown (FindDefaultTLSScanByID E scanID)
            | Some ent \<Rightarrow> returnP (Some ent)) (\<lambda>found.
     case found of
       None \<Rightarrow> throwP (writeNotFound r ''scan not found'')
     | Some ent \<Rightarrow> returnP (writeJSON StatusOK (tlsScanRowJSON E ent)))))))"

definition DeleteTLSScanHandler :: "'w env \<Rightarrow> 'w Handler \<Rightarrow> 'w handler" where
  "DeleteTLSScanHandler E h r =
     bindP (requireUserID E r) (\<lambda>userID.
     bindP (requireStore r tlsDown (api_tlsScans h)) (\<lambda>_.
     bindP (parseScanIDPath E r) (\<lambda>scanID.
     bindP (orUnavailable r tlsDown (FindOwnedUserTLSScanByID E userID scanID)) (\<lambda>found.
     case found of
       None \<Rightarrow> throwP (writeNotFound r ''scan not found'')
     | Some ent \<Rightarrow>
         bindP (orUnavailable r tlsDown (DeleteOwnedUserTLSScan E userID scanID)) (\<lambda>deleted.
         if \<not> deleted then throwP (writeNotFound r ''scan not found'')
         else
           bindP (if api_cache h \<and> tls_URL ent \<noteq> ''''
                  then catchP (orUnavailable r tlsDown (DeleteTLSScan E userID (tls_URL ent)))
                         (\<lambda>_. returnP ())
                  else returnP ()) (\<lambda>_.
           returnP (WriteHeader StatusNoContent)))))))"

section \<open>Ledger\<close>

definition GetScanLedgerUsage :: "'w env \<Rightarrow> 'w Handler \<Rightarrow> 'w handler" where
  "GetScanLedgerUsage E h r =
     bindP (requireUserID E r) (\<lambda>userID.
     case api_ledger h of
       None \<Rightarrow> throwP (writeServiceUnavailable r ledgerDown)
     | Some ledger \<Rightarrow>
         let kindStr = TrimSpace (req_Query r ''kind'') in
         if kindStr = '''' then throwP (writeBadRequest r ''kind query parameter is required'')
         else if kindStr \<noteq> ScanUsageKindWallet \<and> kindStr \<noteq> ScanUsageKindEndpoint
         then throwP (writeBadRequest r ''kind must be wallet or endpoint'')
         else
           bindP (orUnavailable r ledgerDown (ledger_CountSuccessUsage ledger userID kindStr)) (\<lambda>successCount.
           bindP (orUnavailable r ledgerDown (ledger_CountInFlightScans ledger userID kindStr)) (\<lambda>inFlight.
           bindP (orUnavailable r ledgerDown (ledger_CountVisibleSuccessScans ledger userID kindStr)) (\<lambda>visible.
           returnP (writeJSON StatusOK (AnyMap
             [(''user_id'', AnyString (uuid_String E userID)), (''kind'', AnyString kindStr),
              (''success_count'', any_int successCount), (''in_flight_count'', any_int inFlight),
              (''visible_success_count'', any_int visible)]))))))"

section \<open>Rules for the handlers\<close>

definition request_user :: "'w env \<Rightarrow> request \<Rightarrow> uuid option" where
  "request_user E r =
     (case uuid_Parse E (TrimSpace (req_Header r headerUserID)) of
        None \<Rightarrow> None
      | Some u \<Rightarrow> if u = uuid_Nil \<or> TrimSpace (req_Header r headerUserID) = '''' then None else Some u)"

definition request_scan :: "'w env \<Rightarrow> request \<Rightarrow> uuid option" where
  "request_scan E r =
     (if TrimSpace (req_PathValue r ''scan_id'') = '''' then None
      else uuid_Parse E (TrimSpace (req_PathValue r ''scan_id'')))"

lemma wp_requireUserID:
  assumes "\<And>u. request_user E r = Some u \<Longrightarrow> Q (Inr u) v"
    and "\<And>resp. request_user E r = None \<Longrightarrow> resp_Status resp = StatusBadRequest \<Longrightarrow> Q (Inl resp) v"
  shows "wp view (requireUserID E r) Q v"
  unfolding requireUserID_def Let_def
  by (intro wp_if wp_throw wp_case_option wp_return)
    (use assms in \<open>auto simp: request_user_def split: option.splits\<close>)

lemma wp_parseScanIDPath:
  assumes "\<And>i. request_scan E r = Some i \<Longrightarrow> Q (Inr i) v"
    and "\<And>resp. request_scan E r = None \<Longrightarrow> resp_Status resp = StatusBadRequest \<Longrightarrow> Q (Inl resp) v"
  shows "wp view (parseScanIDPath E r) Q v"
  unfolding parseScanIDPath_def Let_def
  by (intro wp_if wp_throw wp_case_option wp_return) (use assms in \<open>auto simp: request_scan_def\<close>)

lemma wp_requireStore:
  assumes "there \<Longrightarrow> Q (Inr ()) v"
    and "\<And>resp. resp_Status resp = StatusServiceUnavailable \<Longrightarrow> Q (Inl resp) v"
  shows "wp view (requireStore r message there) Q v"
  unfolding requireStore_def by (intro wp_if wp_throw wp_return) (use assms in auto)

lemma wp_orUnavailable:
  assumes "wp view m (\<lambda>x v'. case x of
      Inl _ \<Rightarrow> (\<forall>resp. resp_Status resp = StatusServiceUnavailable \<longrightarrow> Q (Inl resp) v')
    | Inr y \<Rightarrow> Q (Inr y) v') v"
  shows "wp view (orUnavailable r message m) Q v"
  unfolding orUnavailable_def
  by (rule wp_mapErr, rule wp_mono [OF assms]) (auto split: sum.splits)

lemmas wp_handler = wp_bind wp_return wp_throw wp_if wp_case_option wp_case_prod wp_requireUserID
  wp_parseScanIDPath wp_requireStore wp_orUnavailable case_sum_InrI case_sum_InlI

section \<open>Ownership\<close>

text \<open>A change on behalf of one owner: soft deletions of this owner's rows and cache evictions.\<close>

definition owner_change :: "uuid \<Rightarrow> sys \<Rightarrow> sys \<Rightarrow> bool" where
  "owner_change u v v' \<longleftrightarrow>
     v' = v\<lparr>v_scan_results := v_scan_results v', v_tls_scan_results := v_tls_scan_results v',
            v_cache := v_cache v'\<rparr>
     \<and> filter_mset (\<lambda>r. sr_UserID r \<noteq> u) (v_scan_results v') = filter_mset (\<lambda>r. sr_UserID r \<noteq> u) (v_scan_results v)
     \<and> filter_mset (\<lambda>r. tls_UserID r \<noteq> Some u) (v_tls_scan_results v')
       = filter_mset (\<lambda>r. tls_UserID r \<noteq> Some u) (v_tls_scan_results v)
     \<and> v_cache v' \<subseteq>\<^sub>m v_cache v"

lemma owner_change_refl [simp]: "owner_change u v v"
  by (simp add: owner_change_def)

lemma owner_change_evict:
  "owner_change u v (v\<lparr>v_scan_results := M\<rparr>)
   \<Longrightarrow> owner_change u v (v\<lparr>v_scan_results := M, v_cache := (v_cache v)(k := None)\<rparr>)"
  "owner_change u v (v\<lparr>v_tls_scan_results := N\<rparr>)
   \<Longrightarrow> owner_change u v (v\<lparr>v_tls_scan_results := N, v_cache := (v_cache v)(k := None)\<rparr>)"
  by (auto simp: owner_change_def map_le_def)

definition deleted_wallet :: "uuid \<Rightarrow> uuid \<Rightarrow> sys \<Rightarrow> sys \<Rightarrow> bool" where
  "deleted_wallet u i v v' \<longleftrightarrow> (\<exists>r. r \<in># v_scan_results v \<and> owned_wallet_id u i r)
     \<and> (\<forall>r. r \<in># v_scan_results v' \<longrightarrow> \<not> owned_wallet_id u i r)"

definition deleted_tls :: "uuid \<Rightarrow> uuid \<Rightarrow> sys \<Rightarrow> sys \<Rightarrow> bool" where
  "deleted_tls u i v v' \<longleftrightarrow> (\<exists>r. r \<in># v_tls_scan_results v \<and> owned_tls_id u i r)
     \<and> (\<forall>r. r \<in># v_tls_scan_results v' \<longrightarrow> \<not> owned_tls_id u i r)"

text \<open>
  What a delete endpoint may do: nothing without a caller; otherwise only a change on the caller's
  behalf, a 204 only for a scan of the caller that is gone afterwards, and with any other answer
  but 503 nothing.
\<close>

definition delete_post ::
  "'w env \<Rightarrow> (uuid \<Rightarrow> uuid \<Rightarrow> sys \<Rightarrow> sys \<Rightarrow> bool) \<Rightarrow> request \<Rightarrow> sys \<Rightarrow> response \<Rightarrow> sys \<Rightarrow> bool" where
  "delete_post E deleted r v resp v' \<longleftrightarrow>
     (case request_user E r of
        None \<Rightarrow> v' = v \<and> resp_Status resp = StatusBadRequest
      | Some u \<Rightarrow> owner_change u v v'
          \<and> (resp_Status resp = StatusNoContent
             \<longrightarrow> (\<exists>i. request_scan E r = Some i \<and> deleted u i v v'))
          \<and> (resp_Status resp \<noteq> StatusNoContent \<and> resp_Status resp \<noteq> StatusServiceUnavailable \<longrightarrow> v' = v))"

lemma deleted_frame [simp]:
  "deleted_wallet u i v (v'\<lparr>v_cache := c\<rparr>) = deleted_wallet u i v v'"
  "deleted_tls u i v (v'\<lparr>v_cache := c\<rparr>) = deleted_tls u i v v'"
  by (simp_all add: deleted_wallet_def deleted_tls_def)

context world
begin

lemma wallet_deletion:
  assumes "r \<in># v_scan_results (view w)" and "owned_wallet_id u i r"
  shows "owner_change u (view w) ((view w)\<lparr>v_scan_results :=
      add_mset (r\<lparr>sr_DeletedAt := Some now\<rparr>) (sr_others i (view w))\<rparr>)"
    and "deleted_wallet u i (view w) ((view w)\<lparr>v_scan_results :=
      add_mset (r\<lparr>sr_DeletedAt := Some now\<rparr>) (sr_others i (view w))\<rparr>)"
proof -
  have id: "sr_ID r = i" and user: "sr_UserID r = u" using assms(2) by (simp_all add: owned_wallet_id_def)
  show "owner_change u (view w) ((view w)\<lparr>v_scan_results :=
      add_mset (r\<lparr>sr_DeletedAt := Some now\<rparr>) (sr_others i (view w))\<rparr>)"
    using arg_cong [OF wallet_partition [OF assms(1) id], of "filter_mset (\<lambda>r. sr_UserID r \<noteq> u)"] user
    by (simp add: owner_change_def)
  show "deleted_wallet u i (view w) ((view w)\<lparr>v_scan_results :=
      add_mset (r\<lparr>sr_DeletedAt := Some now\<rparr>) (sr_others i (view w))\<rparr>)"
    using assms by (auto simp: deleted_wallet_def owned_wallet_id_def sr_others_def)
qed

lemma tls_deletion:
  assumes "r \<in># v_tls_scan_results (view w)" and "owned_tls_id u i r"
  shows "owner_change u (view w) ((view w)\<lparr>v_tls_scan_results :=
      add_mset (r\<lparr>tls_DeletedAt := Some now\<rparr>) (tls_others i (view w))\<rparr>)"
    and "deleted_tls u i (view w) ((view w)\<lparr>v_tls_scan_results :=
      add_mset (r\<lparr>tls_DeletedAt := Some now\<rparr>) (tls_others i (view w))\<rparr>)"
proof -
  have id: "tls_ID r = i" and user: "tls_UserID r = Some u" using assms(2) by (simp_all add: owned_tls_id_def)
  show "owner_change u (view w) ((view w)\<lparr>v_tls_scan_results :=
      add_mset (r\<lparr>tls_DeletedAt := Some now\<rparr>) (tls_others i (view w))\<rparr>)"
    using arg_cong [OF tls_partition [OF assms(1) id], of "filter_mset (\<lambda>r. tls_UserID r \<noteq> Some u)"] user
    by (simp add: owner_change_def)
  show "deleted_tls u i (view w) ((view w)\<lparr>v_tls_scan_results :=
      add_mset (r\<lparr>tls_DeletedAt := Some now\<rparr>) (tls_others i (view w))\<rparr>)"
    using assms by (auto simp: deleted_tls_def owned_tls_id_def tls_others_def)
qed


lemma wp_DeleteWalletScanHandler:
  "wp view (DeleteWalletScanHandler E h r)
     (\<lambda>x v'. case x of Inl resp \<Rightarrow> delete_post E deleted_wallet r (view w) resp v'
       | Inr resp \<Rightarrow> delete_post E deleted_wallet r (view w) resp v') (view w)"
  unfolding DeleteWalletScanHandler_def DeleteWalletScan_def
  by (intro wp_handler wp_FindOwnedWalletScanByID wp_DeleteOwnedWalletScan wp_ListOwnerWalletScansByAddress
      wp_catch wp_mapErr wp_redis_Del)
    (auto simp: delete_post_def status_defs wallet_deletion owner_change_evict intro!: wp_return)

lemma wp_DeleteTLSScanHandler:
  "wp view (DeleteTLSScanHandler E h r)
     (\<lambda>x v'. case x of Inl resp \<Rightarrow> delete_post E deleted_tls r (view w) resp v'
       | Inr resp \<Rightarrow> delete_post E deleted_tls r (view w) resp v') (view w)"
  unfolding DeleteTLSScanHandler_def DeleteTLSScan_def
  by (intro wp_handler wp_FindOwnedUserTLSScanByID wp_DeleteOwnedUserTLSScan wp_catch wp_mapErr wp_redis_Del)
    (auto simp: delete_post_def status_defs tls_deletion owner_change_evict intro!: wp_return)

end

text \<open>What a read endpoint may answer with 200: a document about something the caller may see.\<close>

definition read_post ::
  "'w env \<Rightarrow> (uuid \<Rightarrow> uuid \<Rightarrow> any \<Rightarrow> bool) \<Rightarrow> request \<Rightarrow> sys \<Rightarrow> response \<Rightarrow> sys \<Rightarrow> bool" where
  "read_post E visible r v resp v' \<longleftrightarrow> v' = v
     \<and> (resp_Status resp = StatusOK \<longrightarrow>
         (\<exists>u i doc. request_user E r = Some u \<and> request_scan E r = Some i
            \<and> resp_Body resp = Some doc \<and> visible u i doc))"

definition wallet_visible :: "'w env \<Rightarrow> sys \<Rightarrow> uuid \<Rightarrow> uuid \<Rightarrow> any \<Rightarrow> bool" where
  "wallet_visible E v u i doc \<longleftrightarrow>
     (\<exists>row. row \<in># v_scan_results v \<and> owned_wallet_id u i row \<and> doc = walletScanRowJSON E row)"

definition tls_visible :: "'w env \<Rightarrow> sys \<Rightarrow> uuid \<Rightarrow> uuid \<Rightarrow> any \<Rightarrow> bool" where
  "tls_visible E v u i doc \<longleftrightarrow>
     (\<exists>row. row \<in># v_tls_scan_results v \<and> (owned_tls_id u i row \<or> default_tls_id i row)
        \<and> doc = tlsScanRowJSON E row)"

definition pending_visible :: "'w env \<Rightarrow> sys \<Rightarrow> uuid \<Rightarrow> uuid \<Rightarrow> any \<Rightarrow> bool" where
  "pending_visible E v u i doc \<longleftrightarrow>
     (\<exists>s rec. pending_stored E v i = Some s \<and> json_Unmarshal_Pending E s = Some rec
        \<and> pend_UserID rec = u \<and> doc = pendingRecordJSON E rec)"

lemma body_simps [simp]:
  "resp_Body (writeJSON s b) = Some b"
  by (simp add: writeJSON_def)

context world
begin

lemma wp_GetWalletScan:
  "wp view (GetWalletScan E h r)
     (\<lambda>x v'. case x of Inl resp \<Rightarrow> read_post E (wallet_visible E v) r v resp v'
       | Inr resp \<Rightarrow> read_post E (wallet_visible E v) r v resp v') v"
  unfolding GetWalletScan_def
  by (intro wp_handler wp_FindOwnedWalletScanByID)
    (auto simp: read_post_def status_defs wallet_visible_def)

lemma wp_GetTLSScan:
  "wp view (GetTLSScan E h r)
     (\<lambda>x v'. case x of Inl resp \<Rightarrow> read_post E (tls_visible E v) r v resp v'
       | Inr resp \<Rightarrow> read_post E (tls_visible E v) r v resp v') v"
  unfolding GetTLSScan_def
  by (intro wp_handler wp_FindOwnedUserTLSScanByID wp_FindDefaultTLSScanByID)
    (auto simp: read_post_def status_defs tls_visible_def)

lemma wp_GetPendingScan:
  "wp view (GetPendingScan E h r)
     (\<lambda>x v'. case x of Inl resp \<Rightarrow> read_post E (pending_visible E v) r v resp v'
       | Inr resp \<Rightarrow> read_post E (pending_visible E v) r v resp v') v"
  unfolding GetPendingScan_def
  by (intro wp_handler wp_pending_Get)
    (auto simp: read_post_def status_defs pending_visible_def)

end

section \<open>Properties of the endpoints\<close>

text \<open>
  C28. The delete endpoints act for their caller only. Without a valid user header nothing happens.
  Otherwise rows of other users, the usage ledger and everything else stay as they are, no cache
  entry is added or altered, 204 is answered only when the caller owned the scan and it is gone, and
  400 and 404 mean that nothing was changed.
\<close>

theorem delete_endpoints_are_owner_scoped:
  assumes world: "world E view"
  shows "(serve (DeleteWalletScanHandler E h) r w = (resp, w')
          \<longrightarrow> delete_post E deleted_wallet r (view w) resp (view w'))
       \<and> (serve (DeleteTLSScanHandler E h) r w = (resp, w')
          \<longrightarrow> delete_post E deleted_tls r (view w) resp (view w'))"
  using wp_serve [of view "DeleteWalletScanHandler E h" r, OF world.wp_DeleteWalletScanHandler [OF world]]
    wp_serve [of view "DeleteTLSScanHandler E h" r, OF world.wp_DeleteTLSScanHandler [OF world]] by blast

definition request_demo :: "string \<Rightarrow> string \<Rightarrow> request" where
  "request_demo user scan = \<lparr>req_Header = (\<lambda>k. if k = headerUserID then user else ''''), req_Query = (\<lambda>_. ''''),
     req_PathValue = (\<lambda>k. if k = ''scan_id'' then scan else ''''), req_Body = ''''\<rparr>"

definition api_demo :: "mem Handler" where
  "api_demo = \<lparr>api_pending = True, api_walletScans = True, api_tlsScans = True,
     api_ledger = Some (NewScanUsageLedgerRepository mem_env), api_cache = True, api_chainCfg = None,
     api_walletDB = True, api_events = True\<rparr>"

theorem delete_endpoints_are_owner_scoped_witness:
  "resp_Status (fst (serve (DeleteWalletScanHandler mem_env api_demo) (request_demo ''x'' ''xxxxx'') wallet_rows_demo)) = 204
   \<and> deleted_wallet 1 5 (mem_view wallet_rows_demo)
       (mem_view (snd (serve (DeleteWalletScanHandler mem_env api_demo) (request_demo ''x'' ''xxxxx'') wallet_rows_demo)))"
proof -
  let ?run = "serve (DeleteWalletScanHandler mem_env api_demo) (request_demo ''x'' ''xxxxx'') wallet_rows_demo"
  have ok: "resp_Status (fst ?run) = 204"
    and ids: "request_user mem_env (request_demo ''x'' ''xxxxx'') = Some 1"
      "request_scan mem_env (request_demo ''x'' ''xxxxx'') = Some 5"
    by code_simp+
  have "delete_post mem_env deleted_wallet (request_demo ''x'' ''xxxxx'') (mem_view wallet_rows_demo)
      (fst ?run) (mem_view (snd ?run))"
    using delete_endpoints_are_owner_scoped [OF mem_world] prod.collapse [symmetric, of ?run] by blast
  with ok ids show ?thesis by (simp add: delete_post_def StatusNoContent_def)
qed

text \<open>
  C29. The read endpoints show a caller only what is the caller's: a 200 of the wallet endpoint is the
  document of a live wallet scan of the caller, of the TLS endpoint that of a live TLS scan of the
  caller or of the shared catalog, of the pending endpoint that of a pending record of the caller,
  each with the id asked for; and reading changes nothing.
\<close>

theorem read_endpoints_are_owner_scoped:
  assumes world: "world E view"
  shows "(serve (GetWalletScan E h) r w = (resp, w') \<longrightarrow> read_post E (wallet_visible E (view w)) r (view w) resp (view w'))
       \<and> (serve (GetTLSScan E h) r w = (resp, w') \<longrightarrow> read_post E (tls_visible E (view w)) r (view w) resp (view w'))
       \<and> (serve (GetPendingScan E h) r w = (resp, w')
          \<longrightarrow> read_post E (pending_visible E (view w)) r (view w) resp (view w'))"
  using wp_serve [of view "GetWalletScan E h" r, OF world.wp_GetWalletScan [OF world]]
    wp_serve [of view "GetTLSScan E h" r, OF world.wp_GetTLSScan [OF world]]
    wp_serve [of view "GetPendingScan E h" r, OF world.wp_GetPendingScan [OF world]] by blast

theorem read_endpoints_are_owner_scoped_witness:
  "\<exists>doc. resp_Body (fst (serve (GetWalletScan mem_env api_demo) (request_demo ''x'' ''xxxxx'') wallet_rows_demo)) = Some doc
     \<and> wallet_visible mem_env (mem_view wallet_rows_demo) 1 5 doc"
proof -
  let ?run = "serve (GetWalletScan mem_env api_demo) (request_demo ''x'' ''xxxxx'') wallet_rows_demo"
  have ok: "resp_Status (fst ?run) = 200"
    and ids: "request_user mem_env (request_demo ''x'' ''xxxxx'') = Some 1"
      "request_scan mem_env (request_demo ''x'' ''xxxxx'') = Some 5"
    by code_simp+
  have "read_post mem_env (wallet_visible mem_env (mem_view wallet_rows_demo)) (request_demo ''x'' ''xxxxx'')
      (mem_view wallet_rows_demo) (fst ?run) (mem_view (snd ?run))"
    using read_endpoints_are_owner_scoped [OF mem_world] prod.collapse [symmetric, of ?run] by blast
  with ok ids show ?thesis by (auto simp: read_post_def StatusOK_def)
qed

text \<open>
  Releasing a pending scan is not scoped to its owner: a request of another user deletes the
  record of this user's pending scan and frees its address, although the same user may not even read
  the record.
\<close>

theorem pending_release_ignores_owner:
  "resp_Status (fst (serve (GetPendingScan mem_env api_demo) (request_demo ''xx'' ''xxxxx'') reserved_demo)) = StatusNotFound
   \<and> resp_Status (fst (serve (ReleasePendingScan mem_env api_demo) (request_demo ''xx'' ''xxxxx'') reserved_demo))
     = StatusNoContent
   \<and> m_cache (snd (serve (ReleasePendingScan mem_env api_demo) (request_demo ''xx'' ''xxxxx'') reserved_demo)) = []"
  by code_simp

lemma paginate_gorm_page:
  assumes "0 \<le> limit" "0 \<le> offset"
  shows "paginateWalletScanEntities xs limit offset = Some (gorm_page limit offset xs)"
proof (cases "offset \<ge> int (length xs)")
  case True
  then show ?thesis using assms
    by (cases xs) (auto simp: paginateWalletScanEntities_def gorm_page_def Let_def)
next
  case False
  then show ?thesis using assms
    by (auto simp: paginateWalletScanEntities_def gorm_page_def Let_def nat_diff_distrib nat_add_distrib
        take_drop add.commute)
qed

lemma bindP_result: "(\<And>x w'. m w = (Inr x, w') \<Longrightarrow> fst (f x w') \<noteq> Inr y) \<Longrightarrow> fst (bindP m f w) \<noteq> Inr y"
  by (auto simp: bindP_def split: prod.splits sum.splits)

lemma listWalletEntities_page:
  assumes "0 \<le> limit" "0 \<le> offset"
  shows "fst (listWalletEntities E h userID latest addr chainID limit offset w) \<noteq> Inr None"
  unfolding listWalletEntities_def Let_def
  by (auto simp: returnP_def paginate_gorm_page [OF assms] intro!: bindP_result)

lemma ListWalletScans_responds: "fst (ListWalletScans E h r w) \<noteq> Inr None"
proof -
  have bounds: "0 \<le> limit" "0 \<le> offset" if "parsePagination a b = (limit, offset)" for a b limit offset
    using that by (auto simp: parsePagination_def Let_def split: if_splits option.splits)
  have page: "res \<noteq> None"
    if "orUnavailable r m (listWalletEntities E h u latest addr chainID limit offset) w' = (Inr res, w'')"
      and "parsePagination a b = (limit, offset)"
    for a b limit offset u latest addr chainID m w' w'' res
    using listWalletEntities_page [OF bounds [OF that(2)], of E h u latest addr chainID w'] that(1)
    by (cases "listWalletEntities E h u latest addr chainID limit offset w'")
      (auto simp: orUnavailable_def mapErrP_def catchP_def throwP_def split: sum.splits)
  show ?thesis
    unfolding ListWalletScans_def Let_def
    by (intro bindP_result) (auto simp: throwP_def returnP_def intro!: bindP_result dest: page
        split: prod.split option.split)
qed

text \<open>
  The two ways of paging agree: cutting a page out of a list in memory gives what LIMIT and OFFSET
  give on the same list, for every page the query parameters can ask for, and never slices out of
  range, so that the list endpoint always has a response.
\<close>

theorem memory_pages_are_sql_pages:
  "(case parsePagination l off of (limit, offset) \<Rightarrow>
      paginateWalletScanEntities xs limit offset = Some (gorm_page limit offset xs))
   \<and> fst (ListWalletScans E h r w) \<noteq> Inr None"
proof -
  have bounds: "0 \<le> fst (parsePagination a b)" "0 \<le> snd (parsePagination a b)" for a b
    by (auto simp: parsePagination_def Let_def)
  then have "paginateWalletScanEntities xs (fst (parsePagination l off)) (snd (parsePagination l off))
      = Some (gorm_page (fst (parsePagination l off)) (snd (parsePagination l off)) xs)"
    by (rule paginate_gorm_page)
  with ListWalletScans_responds show ?thesis by (simp add: case_prod_beta)
qed

end
