(* ===== verification/Wallet_Observation.thy ===== *)
theory Wallet_Observation
  imports Environment
begin

text \<open>
  \<^verbatim>\<open>internal/walletobservation/export.go\<close>: the observation event of a wallet scan result. The
  constants of the shared contract and its validation are parameters.
\<close>

record v01 =
  EventTypeWalletObserved :: string
  EventVersion :: string
  ProducerCafeDiscovery :: string
  SubjectTypeWallet :: string
  AccountKindEOA :: string
  AccountKindERC4337SmartAccount :: string
  AccountKindContractAccount :: string
  AccountKindUnknown :: string
  AlgorithmSecp256k1ECRecover :: string
  PQPostureClassicalOnly :: string
  PQPostureHybrid :: string
  PQPostureFullPQ :: string
  PQPostureUnknown :: string
  Event_Validate :: "ObservedEvent \<Rightarrow> bool"

record ExportMeta =
  meta_EventID :: string
  meta_CorrelationID :: string
  meta_CausationID :: string
  meta_OccurredAt :: gotime

definition ExportMetaForScanJob :: "'w env \<Rightarrow> uuid \<Rightarrow> ExportMeta" where
  "ExportMetaForScanJob E scanID =
     (let s = uuid_String E scanID
      in \<lparr>meta_EventID = ''evt_disc_'' @ filter (\<lambda>c. c \<noteq> CHR ''-'') s, meta_CorrelationID = s,
          meta_CausationID = s, meta_OccurredAt = 0\<rparr>)"

definition deriveCurrentPQPosture :: "v01 \<Rightarrow> ScanResult option \<Rightarrow> string" where
  "deriveCurrentPQPosture V scan =
     (case scan of None \<Rightarrow> PQPostureUnknown V | Some scan \<Rightarrow>
      if res_NISTLevel scan = NISTLevel1 then PQPostureClassicalOnly V
      else if res_NISTLevel scan = NISTLevel2 \<or> res_NISTLevel scan = NISTLevel3
           \<or> res_NISTLevel scan = NISTLevel4 then PQPostureHybrid V
      else if res_NISTLevel scan = NISTLevel5 then PQPostureFullPQ V
      else PQPostureUnknown V)"

definition walletSubjectID :: "string \<Rightarrow> string" where
  "walletSubjectID normalizedAddress =
     (let a = TrimSpace (ToLower normalizedAddress);
          a = (if \<not> HasPrefix a ''0x'' then ''0x'' @ a else a)
      in ''wallet:'' @ a)"

definition mapAccountKind :: "v01 \<Rightarrow> ScanResult \<Rightarrow> string" where
  "mapAccountKind V scan =
     (let k = DeriveWalletTypeV1 (res_Type scan) (res_IsEOA scan) (res_IsERC4337 scan) in
      if k = WalletTypeEOA then AccountKindEOA V
      else if k = WalletTypeSmartAccount then AccountKindERC4337SmartAccount V
      else if k = WalletTypeContract then AccountKindContractAccount V
      else AccountKindUnknown V)"

definition mapAlgorithm :: "v01 \<Rightarrow> ScanResult \<Rightarrow> string" where
  "mapAlgorithm V scan =
     (if res_Algorithm scan = AlgorithmECDSAsecp256k1 then AlgorithmSecp256k1ECRecover V
      else if res_Algorithm scan = '''' then ''''
      else AlgorithmSecp256k1ECRecover V)"

text \<open>
  A Go map used as a set is the list of its keys in the order of insertion. The early return for an
  empty table is the value of the loop on it.
\<close>

fun seen_ids :: "(string \<rightharpoonup> int) \<Rightarrow> string list \<Rightarrow> int list \<Rightarrow> int list" where
  "seen_ids byName [] seen = seen"
| "seen_ids byName (n # ns) seen =
     (case byName n of
        None \<Rightarrow> seen_ids byName ns seen
      | Some i \<Rightarrow> if i = 0 then seen_ids byName ns seen
          else seen_ids byName ns (if i \<in> set seen then seen else seen @ [i]))"

definition resolveChainIDs :: "string list \<Rightarrow> (string \<rightharpoonup> int) \<Rightarrow> int list" where
  "resolveChainIDs networks byName = sort (seen_ids byName networks [])"

fun uniq_names :: "string list \<Rightarrow> string list \<Rightarrow> string list" where
  "uniq_names [] seen = seen"
| "uniq_names (n # ns) seen =
     (let n = TrimSpace n in
      if n = '''' then uniq_names ns seen
      else uniq_names ns (if n \<in> set seen then seen else seen @ [n]))"

definition isMultichain :: "int list \<Rightarrow> string list \<Rightarrow> bool" where
  "isMultichain chainIDs networkNames =
     (if length chainIDs > 1 then True else length (uniq_names networkNames []) > 1)"

text \<open>The networks of a result may be the nil slice. A nil result gives the zero event.\<close>

definition networks_of :: "ScanResult \<Rightarrow> string list" where
  "networks_of scan = (case res_Networks scan of None \<Rightarrow> [] | Some ns \<Rightarrow> ns)"

definition zero_ObservedEvent :: ObservedEvent where
  "zero_ObservedEvent = \<lparr>obs_EventID = '''', obs_EventType = '''', obs_EventVersion = '''', obs_OccurredAt = 0,
     obs_CorrelationID = '''', obs_CausationID = '''', obs_Producer = '''', obs_SubjectType = '''',
     obs_SubjectID = '''', obs_Payload = \<lparr>obs_ChainIDs = [], obs_AccountKind = '''',
       obs_CurrentAlgorithm = '''', obs_PublicKeyExposed = False, obs_IsMultichain = False,
       obs_ObservedAt = 0, obs_CurrentPQPosture = ''''\<rparr>\<rparr>"

definition ToWalletObservedEvent :: "v01 \<Rightarrow> ExportMeta \<Rightarrow> ScanResult option \<Rightarrow> (string \<rightharpoonup> int) \<Rightarrow> ObservedEvent" where
  "ToWalletObservedEvent V meta scan byName = (case scan of None \<Rightarrow> zero_ObservedEvent | Some scan \<Rightarrow>
     (let occurred = (if meta_OccurredAt meta = 0 then res_ScannedAt scan else meta_OccurredAt meta);
          chainIDs = resolveChainIDs (networks_of scan) byName;
          isMulti = isMultichain chainIDs (networks_of scan)
      in \<lparr>obs_EventID = meta_EventID meta, obs_EventType = EventTypeWalletObserved V,
          obs_EventVersion = EventVersion V, obs_OccurredAt = occurred,
          obs_CorrelationID = meta_CorrelationID meta, obs_CausationID = meta_CausationID meta,
          obs_Producer = ProducerCafeDiscovery V, obs_SubjectType = SubjectTypeWallet V,
          obs_SubjectID = walletSubjectID (res_Address scan),
          obs_Payload = \<lparr>obs_ChainIDs = chainIDs, obs_AccountKind = mapAccountKind V scan,
            obs_CurrentAlgorithm = mapAlgorithm V scan, obs_PublicKeyExposed = res_KeyExposed scan,
            obs_IsMultichain = isMulti, obs_ObservedAt = res_ScannedAt scan,
            obs_CurrentPQPosture = deriveCurrentPQPosture V (Some scan)\<rparr>\<rparr>))"

section \<open>What the event says about networks\<close>

lemma seen_ids_set:
  "set (seen_ids byName ns seen) = set seen \<union> {i. i \<noteq> 0 \<and> (\<exists>n \<in> set ns. byName n = Some i)}"
  by (induction ns arbitrary: seen) (auto split: option.splits)

lemma seen_ids_distinct: "distinct seen \<Longrightarrow> distinct (seen_ids byName ns seen)"
  by (induction ns arbitrary: seen) (auto split: option.splits)

lemma uniq_names_set: "set (uniq_names ns seen) = set seen \<union> (TrimSpace ` set ns - {''''})"
  by (induction ns arbitrary: seen) (auto simp: Let_def)

lemma uniq_names_distinct: "distinct seen \<Longrightarrow> distinct (uniq_names ns seen)"
  by (induction ns arbitrary: seen) (auto simp: Let_def)

lemma resolveChainIDs_spec:
  "sorted_wrt (<) (resolveChainIDs ns byName)"
  "set (resolveChainIDs ns byName) = {i. i \<noteq> 0 \<and> (\<exists>n \<in> set ns. byName n = Some i)}"
  using seen_ids_distinct [of "[]" byName ns] seen_ids_set [of byName ns "[]"]
  by (simp_all add: resolveChainIDs_def strict_sorted_iff)

lemma isMultichain_spec:
  "isMultichain (resolveChainIDs ns byName) ns
   \<longleftrightarrow> card (set (resolveChainIDs ns byName)) > 1 \<or> card (TrimSpace ` set ns - {''''}) > 1"
proof -
  have "length (resolveChainIDs ns byName) = card (set (resolveChainIDs ns byName))"
    using resolveChainIDs_spec(1) by (simp add: strict_sorted_iff distinct_card)
  moreover have "length (uniq_names ns []) = card (TrimSpace ` set ns - {''''})"
    using distinct_card [OF uniq_names_distinct [of "[]" ns]] uniq_names_set [of ns "[]"] by simp
  ultimately show ?thesis by (simp add: isMultichain_def)
qed

text \<open>
  C36. The exported event is canonical: its chain ids are exactly the known, non-zero ids of the
  result's networks, strictly increasing; it is multichain exactly when there are two of them or two
  different non-blank network names; and two results that differ only in the order and repetition of
  their networks give the same event.
\<close>

theorem observed_event_is_canonical:
  "sorted_wrt (<) (obs_ChainIDs (obs_Payload (ToWalletObservedEvent V meta (Some scan) byName)))
   \<and> set (obs_ChainIDs (obs_Payload (ToWalletObservedEvent V meta (Some scan) byName)))
     = {i. i \<noteq> 0 \<and> (\<exists>n \<in> set (networks_of scan). byName n = Some i)}
   \<and> (obs_IsMultichain (obs_Payload (ToWalletObservedEvent V meta (Some scan) byName))
      \<longleftrightarrow> card {i. i \<noteq> 0 \<and> (\<exists>n \<in> set (networks_of scan). byName n = Some i)} > 1
        \<or> card (TrimSpace ` set (networks_of scan) - {''''}) > 1)
   \<and> (scan' = scan\<lparr>res_Networks := Some ns\<rparr> \<and> set ns = set (networks_of scan)
      \<longrightarrow> ToWalletObservedEvent V meta (Some scan') byName = ToWalletObservedEvent V meta (Some scan) byName)"
proof -
  have ids: "resolveChainIDs ns byName = resolveChainIDs (networks_of scan) byName"
    if "set ns = set (networks_of scan)"
    using that by (intro strict_sorted_equal) (simp_all add: resolveChainIDs_spec)
  have multi: "isMultichain (resolveChainIDs (networks_of scan) byName) ns
      = isMultichain (resolveChainIDs (networks_of scan) byName) (networks_of scan)"
    if "set ns = set (networks_of scan)"
    using isMultichain_spec [of ns byName] isMultichain_spec [of "networks_of scan" byName] ids [OF that] that
    by simp
  show ?thesis
    using ids multi
    by (auto simp: ToWalletObservedEvent_def Let_def resolveChainIDs_spec isMultichain_spec networks_of_def
        mapAccountKind_def mapAlgorithm_def deriveCurrentPQPosture_def)
qed

definition observed_demo :: "string list \<Rightarrow> ScanResult" where
  "observed_demo ns = \<lparr>res_Address = ''0xAB'', res_Type = AccountTypeEOA, res_Algorithm = '''', res_NISTLevel = 1,
     res_KeyExposed = False, res_PublicKey = '''', res_TransactionHash = '''', res_ExposedNetwork = '''',
     res_IsEOA = True, res_IsERC4337 = False, res_RiskScore = 0, res_PublicKeyRecovery = '''',
     res_ScannedAt = 9, res_Networks = Some ns, res_Delegations = None, res_Connections = None\<rparr>"

definition v01_demo :: v01 where
  "v01_demo = \<lparr>EventTypeWalletObserved = ''wallet.observed'', EventVersion = ''0.1'',
     ProducerCafeDiscovery = ''discovery'', SubjectTypeWallet = ''wallet'', AccountKindEOA = ''eoa'',
     AccountKindERC4337SmartAccount = ''aa'', AccountKindContractAccount = ''contract'',
     AccountKindUnknown = ''unknown'', AlgorithmSecp256k1ECRecover = ''secp256k1'',
     PQPostureClassicalOnly = ''classical'', PQPostureHybrid = ''hybrid'', PQPostureFullPQ = ''full'',
     PQPostureUnknown = ''unknown'', Event_Validate = (\<lambda>_. True)\<rparr>"

definition meta_demo :: ExportMeta where
  "meta_demo = \<lparr>meta_EventID = ''e1'', meta_CorrelationID = ''s1'', meta_CausationID = ''s1'', meta_OccurredAt = 0\<rparr>"

theorem observed_event_is_canonical_witness:
  "ToWalletObservedEvent v01_demo meta_demo (Some (observed_demo [''b'', ''a'', ''b''])) [''a'' \<mapsto> 1, ''b'' \<mapsto> 2]
     = ToWalletObservedEvent v01_demo meta_demo (Some (observed_demo [''a'', ''b''])) [''a'' \<mapsto> 1, ''b'' \<mapsto> 2]
   \<and> resolveChainIDs [''b'', ''a'', ''b''] [''a'' \<mapsto> 1, ''b'' \<mapsto> 2] = [1, 2]"
proof
  show "ToWalletObservedEvent v01_demo meta_demo (Some (observed_demo [''b'', ''a'', ''b''])) [''a'' \<mapsto> 1, ''b'' \<mapsto> 2]
      = ToWalletObservedEvent v01_demo meta_demo (Some (observed_demo [''a'', ''b''])) [''a'' \<mapsto> 1, ''b'' \<mapsto> 2]"
    using observed_event_is_canonical [of v01_demo meta_demo "observed_demo [''a'', ''b'']" "[''a'' \<mapsto> 1, ''b'' \<mapsto> 2]"
        "observed_demo [''b'', ''a'', ''b'']" "[''b'', ''a'', ''b'']"]
    by (auto simp: observed_demo_def networks_of_def)
  show "resolveChainIDs [''b'', ''a'', ''b''] [''a'' \<mapsto> 1, ''b'' \<mapsto> 2] = [1, 2]"
    by (simp add: resolveChainIDs_def)
qed

end
