(* ===== verification/Transition_Endpoint.thy ===== *)
theory Transition_Endpoint
  imports Transition_Api Scan_Api Wallet_Observation
begin

text \<open>
  The rest of \<^verbatim>\<open>internal/scanapi/transition.go\<close>: the endpoint around the validated write, with the
  projection of a stored terminal row to the cache and the message bus.
\<close>

section \<open>The projection\<close>

definition handler_publishScanReady :: "'w env \<Rightarrow> 'w Handler \<Rightarrow> ScanResultEntity \<Rightarrow> ('w, 'e, bool) prog" where
  "handler_publishScanReady E h row =
     (if \<not> api_events h then returnP False
      else
        let status = (if sr_Status row = StateSUCCESS then ''success'' else ''failed'');
            ready = \<lparr>ready_UserID = uuid_String E (sr_UserID row), ready_Kind = ''wallet'',
              ready_Endpoint = '''', ready_Address = sr_Address row, ready_Status = status\<rparr>
        in catchP (bindP (nats_Publish E (ScanReady ready)) (\<lambda>_. returnP True)) (\<lambda>_. returnP False))"

definition observed_event :: "'w env \<Rightarrow> v01 \<Rightarrow> 'w Handler \<Rightarrow> ScanResultEntity \<Rightarrow> ObservedEvent" where
  "observed_event E V h row =
     (let byName = (case api_chainCfg h of None \<Rightarrow> Map.empty | Some cfg \<Rightarrow> ChainIDByNetwork cfg)
      in ToWalletObservedEvent V (ExportMetaForScanJob E (sr_ID row)) (Some (ToScanResult row)) byName)"

definition publishWalletObserved ::
  "'w env \<Rightarrow> v01 \<Rightarrow> 'w Handler \<Rightarrow> ScanResultEntity \<Rightarrow> ('w, 'e, unit) prog" where
  "publishWalletObserved E V h row =
     (if \<not> api_events h then returnP ()
      else
        let ev = observed_event E V h row in
        if \<not> Event_Validate V ev then returnP ()
        else catchP (nats_Publish E (WalletObserved ev)) (\<lambda>_. returnP ()))"

definition projectTerminal ::
  "'w env \<Rightarrow> v01 \<Rightarrow> 'w Handler \<Rightarrow> ScanResultEntity \<Rightarrow> ('w, 'e, bool \<times> bool) prog" where
  "projectTerminal E V h row =
     (if \<not> api_cache h then returnP (False, False)
      else
        bindP (catchP (bindP
                 (if sr_Status row = StateSUCCESS
                  then SaveWalletScan E (sr_UserID row) (sr_Address row) (ToScanResult row)
                  else SaveWalletFailure E (sr_UserID row) (sr_Address row) (sr_Error row))
                 (\<lambda>_. returnP True)) (\<lambda>_. returnP False)) (\<lambda>saved.
        if \<not> saved then returnP (False, False)
        else
          bindP (handler_publishScanReady E h row) (\<lambda>readyOK.
          bindP (if sr_Status row = StateSUCCESS then publishWalletObserved E V h row else returnP ()) (\<lambda>_.
          returnP (True, readyOK)))))"

definition projectTransition ::
  "'w env \<Rightarrow> v01 \<Rightarrow> 'w Handler \<Rightarrow> Result \<Rightarrow> ('w, 'e, bool \<times> bool) prog" where
  "projectTransition E V h res =
     (if out_Outcome res = OutcomeApplied \<or> out_Outcome res = OutcomeAlreadyApplied then
        (case out_Row res of
           None \<Rightarrow> returnP (False, False)
         | Some row \<Rightarrow>
             if \<not> IsTerminal (sr_Status row) then returnP (False, False)
             else projectTerminal E V h row)
      else returnP (False, False))"

section \<open>The endpoint\<close>

definition writeTransition :: "Result \<Rightarrow> bool \<Rightarrow> bool \<Rightarrow> response" where
  "writeTransition res projectionReady readyPublished =
     writeJSON StatusOK (AnyMap ([(''outcome'', AnyString (out_Outcome res))]
       @ (if out_Status res \<noteq> '''' then [(''status'', AnyString (out_Status res))] else [])
       @ [(''projection_ready'', AnyBool projectionReady), (''ready_published'', AnyBool readyPublished)]))"

text \<open>A panic of the write leaves the connection without a response: the error \<open>None\<close>.\<close>

definition ApplyWalletTransition ::
  "'w env \<Rightarrow> v01 \<Rightarrow> (string \<Rightarrow> transitionBody option) \<Rightarrow> 'w Handler \<Rightarrow> request
   \<Rightarrow> ('w, response option, response) prog" where
  "ApplyWalletTransition E V D h r =
     bindP (mapErrP Some (requireUserID E r)) (\<lambda>headerUser.
     bindP (mapErrP Some (parseScanIDPath E r)) (\<lambda>scanID.
     case decodeJSON D r of
       None \<Rightarrow> throwP (Some (writeBadRequest r ''invalid request body''))
     | Some body \<Rightarrow>
         (case transitionCommand E headerUser body of
            None \<Rightarrow> returnP (writeTransition (mkResult OutcomeRejected '''') False False)
          | Some cmd \<Rightarrow>
              bindP (mapErrP (\<lambda>_. None) (Apply E (api_walletDB h) (api_ledger h) scanID cmd)) (\<lambda>res.
              bindP (projectTransition E V h res) (\<lambda>(ready, published).
              returnP (writeTransition res ready published))))))"

section \<open>What the projection does\<close>

definition ready_message :: "'w env \<Rightarrow> ScanResultEntity \<Rightarrow> nats_message" where
  "ready_message E row = ScanReady \<lparr>ready_UserID = uuid_String E (sr_UserID row), ready_Kind = ''wallet'',
     ready_Endpoint = '''', ready_Address = sr_Address row,
     ready_Status = (if sr_Status row = StateSUCCESS then ''success'' else ''failed'')\<rparr>"

definition cached_row :: "'w env \<Rightarrow> ScanResultEntity \<Rightarrow> string \<Rightarrow> bool" where
  "cached_row E row doc \<longleftrightarrow>
     (if sr_Status row = StateSUCCESS then json_Marshal_ScanResult E (ToScanResult row) = Some doc
      else doc = failure_payload (sr_Error row))"

text \<open>
  The contract of the projection: it never touches a table; when it reports readiness, the cache entry
  of the row's owner and address is the document of the row; a ready message was sent exactly when that
  is reported; an observation may follow for a success, and only a valid one.
\<close>

definition projected ::
  "'w env \<Rightarrow> v01 \<Rightarrow> 'w Handler \<Rightarrow> Result \<Rightarrow> sys \<Rightarrow> bool \<times> bool \<Rightarrow> sys \<Rightarrow> bool" where
  "projected E V h res v flags v' \<longleftrightarrow>
     (case flags of (ready, published) \<Rightarrow>
        if ready then \<exists>row doc obs. out_Row res = Some row \<and> IsTerminal (sr_Status row)
            \<and> out_Outcome res \<in> {OutcomeApplied, OutcomeAlreadyApplied} \<and> cached_row E row doc
            \<and> v' = v\<lparr>v_cache := (v_cache v)(wallet_key E (sr_UserID row) (sr_Address row) \<mapsto> (doc, scanResultTTL)),
                 v_outbox := v_outbox v @ (if published then [ready_message E row] else []) @ obs\<rparr>
            \<and> (obs = [] \<or> obs = [WalletObserved (observed_event E V h row)] \<and> sr_Status row = StateSUCCESS
                 \<and> Event_Validate V (observed_event E V h row))
        else v' = v \<and> \<not> published)"

context world
begin

lemma wp_handler_publishScanReady:
  assumes "\<And>sent. Q (Inr sent) (v\<lparr>v_outbox := v_outbox v @ (if sent then [ready_message E row] else [])\<rparr>)"
  shows "wp view (handler_publishScanReady E h row) Q v"
  unfolding handler_publishScanReady_def Let_def
  by (intro wp_intro) (use assms [of True] assms [of False] in \<open>auto simp: ready_message_def intro!: wp_return\<close>)

lemma wp_publishWalletObserved:
  assumes "Q (Inr ()) v"
    and "Event_Validate V (observed_event E V h row)
      \<Longrightarrow> Q (Inr ()) (v\<lparr>v_outbox := v_outbox v @ [WalletObserved (observed_event E V h row)]\<rparr>)"
  shows "wp view (publishWalletObserved E V h row) Q v"
  unfolding publishWalletObserved_def Let_def
  by (intro wp_intro) (use assms in \<open>auto intro!: wp_return\<close>)

lemma wp_save_row:
  assumes "\<And>doc. cached_row E row doc \<Longrightarrow> Q (Inr True) (v\<lparr>v_cache := (v_cache v)
        (wallet_key E (sr_UserID row) (sr_Address row) \<mapsto> (doc, scanResultTTL))\<rparr>)"
    and "Q (Inr False) v"
  shows "wp view (catchP (bindP
      (if sr_Status row = StateSUCCESS
       then SaveWalletScan E (sr_UserID row) (sr_Address row) (ToScanResult row)
       else SaveWalletFailure E (sr_UserID row) (sr_Address row) (sr_Error row))
      (\<lambda>_. returnP True)) (\<lambda>_. returnP False)) Q v"
  unfolding SaveWalletScan_def SaveWalletFailure_def
  by (intro wp_intro) (use assms in \<open>auto simp: cached_row_def intro!: wp_intro\<close>)

lemma wp_projectTerminal:
  assumes "Q (Inr (False, False)) v"
    and "\<And>doc published obs. cached_row E row doc
        \<Longrightarrow> obs = [] \<or> obs = [WalletObserved (observed_event E V h row)] \<and> sr_Status row = StateSUCCESS
              \<and> Event_Validate V (observed_event E V h row)
        \<Longrightarrow> Q (Inr (True, published)) (v\<lparr>v_cache := (v_cache v)
              (wallet_key E (sr_UserID row) (sr_Address row) \<mapsto> (doc, scanResultTTL)),
              v_outbox := v_outbox v @ (if published then [ready_message E row] else []) @ obs\<rparr>)"
  shows "wp view (projectTerminal E V h row) Q v"
  unfolding projectTerminal_def
  apply (intro wp_if wp_bind wp_return wp_save_row case_sum_InrI case_sum_InlI wp_handler_publishScanReady
      wp_publishWalletObserved)
  using assms(1) assms(2) [of _ "[]"] assms(2) [of _ "[WalletObserved (observed_event E V h row)]"]
  by simp_all

lemma wp_projectTransition: "wp view (projectTransition E V h res)
    (\<lambda>x v'. case x of Inl _ \<Rightarrow> False | Inr flags \<Rightarrow> projected E V h res v flags v') v"
  unfolding projectTransition_def
  by (intro wp_if wp_case_option wp_return wp_projectTerminal) (auto simp: projected_def)

end

lemma requireUserID_run:
  "request_user E r = Some u \<Longrightarrow> requireUserID E r = returnP u"
  "request_user E r = None \<Longrightarrow> \<exists>resp. requireUserID E r = throwP resp \<and> resp_Status resp = StatusBadRequest"
  by (auto simp: request_user_def requireUserID_def Let_def intro!: exI conjI split: option.splits if_splits)

lemma parseScanIDPath_run:
  "request_scan E r = Some i \<Longrightarrow> parseScanIDPath E r = returnP i"
  "request_scan E r = None \<Longrightarrow> \<exists>resp. parseScanIDPath E r = throwP resp \<and> resp_Status resp = StatusBadRequest"
  by (auto simp: request_scan_def parseScanIDPath_def Let_def intro!: exI conjI split: option.splits if_splits)

section \<open>What the endpoint answers\<close>

lemma ApplyWalletTransition_run:
  fixes E :: "'w env"
  assumes world: "world E view" and ledger: "api_ledger h = Some (NewScanUsageLedgerRepository E)"
    and run: "ApplyWalletTransition E V D h r w = (x, w')"
  shows "case x of
      Inl resp \<Rightarrow> map_option resp_Status resp = Some StatusBadRequest \<and> view w' = view w
        \<and> (request_user E r = None \<or> request_scan E r = None \<or> decodeJSON D r = None)
    | Inr resp \<Rightarrow> \<exists>u i body res w1 ready published.
        request_user E r = Some u \<and> request_scan E r = Some i \<and> decodeJSON D r = Some body
        \<and> applyTransition E (api_walletDB h) (api_ledger h) u i body w = (Inr res, w1)
        \<and> resp = writeTransition res ready published
        \<and> projected E V h res (view w1) (ready, published) (view w')"
proof (cases "request_user E r = None \<or> request_scan E r = None \<or> decodeJSON D r = None")
  case True
  then show ?thesis
    using run requireUserID_run [of E r] parseScanIDPath_run [of E r]
    by (cases "request_user E r"; cases "request_scan E r")
      (auto simp: ApplyWalletTransition_def bindP_def mapErrP_def catchP_def throwP_def returnP_def)
next
  case False
  then obtain u i body where req: "request_user E r = Some u" "request_scan E r = Some i" "decodeJSON D r = Some body"
    by auto
  note runs = requireUserID_run(1) [OF req(1)] parseScanIDPath_run(1) [OF req(2)] req(3)
  show ?thesis
  proof (cases "transitionCommand E u body")
    case None
    with run have "x = Inr (writeTransition (mkResult OutcomeRejected '''') False False)" "w' = w"
      by (auto simp: ApplyWalletTransition_def runs bindP_def mapErrP_def catchP_def returnP_def)
    with None req show ?thesis
      by (auto simp: applyTransition_def returnP_def projected_def intro!: exI [of _ False])
  next
    case (Some cmd)
    obtain y w1 where write_half: "Apply E (api_walletDB h) (api_ledger h) i cmd w = (y, w1)" by fastforce
    have applied: "applyTransition E (api_walletDB h) (api_ledger h) u i body w = (y, w1)"
      using Some write_half by (simp add: applyTransition_def)
    obtain res where res: "y = Inr res"
      using applyTransition_answers [OF world applied [unfolded ledger]] by blast
    obtain z :: "response option + bool \<times> bool" and w2 where
      project: "projectTransition E V h res w1 = (z, w2)"
      by fastforce
    from wpD [OF world.wp_projectTransition [OF world] project] obtain ready published where
      "z = Inr (ready, published)" "projected E V h res (view w1) (ready, published) (view w2)"
      by (auto split: sum.splits)
    moreover from this have "x = Inr (writeTransition res ready published)" "w' = w2"
      using run by (auto simp: ApplyWalletTransition_def runs Some write_half res project bindP_def mapErrP_def
          catchP_def returnP_def)
    ultimately show ?thesis using req applied res by auto
  qed
qed

text \<open>
  C12. The transition endpoint always answers, and says what happened. A request without a valid user,
  scan id or body gets 400 and changes nothing. Otherwise the answer reports the outcome of the
  validated write, and the system is as that write left it, except for the projection: readiness is
  reported exactly when the stored terminal row was put into the cache, as its own document, and the
  publication of a ready message exactly when one was sent; nothing else is added to the cache, and at
  most one valid observation event follows, for a success.
\<close>

theorem transition_endpoint_answers:
  fixes E :: "'w env"
  assumes world: "world E view" and ledger: "api_ledger h = Some (NewScanUsageLedgerRepository E)"
    and run: "ApplyWalletTransition E V D h r w = (x, w')"
  shows "case x of
      Inl resp \<Rightarrow> map_option resp_Status resp = Some StatusBadRequest \<and> view w' = view w
        \<and> (request_user E r = None \<or> request_scan E r = None \<or> decodeJSON D r = None)
    | Inr resp \<Rightarrow> \<exists>u i body res w1 ready published.
        request_user E r = Some u \<and> request_scan E r = Some i \<and> decodeJSON D r = Some body
        \<and> applyTransition E (api_walletDB h) (api_ledger h) u i body w = (Inr res, w1)
        \<and> resp = writeTransition res ready published
        \<and> projected E V h res (view w1) (ready, published) (view w')"
  using ApplyWalletTransition_run [OF assms] .

definition endpoint_demo_handler :: "mem Handler" where
  "endpoint_demo_handler = \<lparr>api_pending = True, api_walletScans = True, api_tlsScans = True,
     api_ledger = Some (NewScanUsageLedgerRepository mem_env), api_cache = True, api_chainCfg = None,
     api_walletDB = True, api_events = True\<rparr>"

definition endpoint_demo_request :: request where
  "endpoint_demo_request = \<lparr>req_Header = (\<lambda>k. if k = ''X-User-Id'' then ''x'' else ''''),
     req_Query = (\<lambda>_. ''''), req_PathValue = (\<lambda>k. if k = ''scan_id'' then ''xxxxx'' else ''''),
     req_Body = ''{}''\<rparr>"

definition endpoint_demo :: "(response option + response) \<times> mem" where
  "endpoint_demo = ApplyWalletTransition mem_env v01_demo (\<lambda>_. Some finish_body)
     endpoint_demo_handler endpoint_demo_request ledger_demo"

theorem transition_endpoint_answers_witness:
  "\<exists>res w1. applyTransition mem_env True (api_ledger endpoint_demo_handler) 1 5 finish_body ledger_demo = (Inr res, w1)
     \<and> fst endpoint_demo = Inr (writeTransition res True True)
     \<and> projected mem_env v01_demo endpoint_demo_handler res (mem_view w1)
         (True, True) (mem_view (snd endpoint_demo))"
proof -
  have handler: "api_ledger endpoint_demo_handler = Some (NewScanUsageLedgerRepository mem_env)"
      "api_walletDB endpoint_demo_handler = True"
    by (simp_all add: endpoint_demo_handler_def)
  have req: "request_user mem_env endpoint_demo_request = Some 1"
      "request_scan mem_env endpoint_demo_request = Some 5"
    by code_simp+
  have body: "decodeJSON (\<lambda>_. Some finish_body) endpoint_demo_request = Some finish_body"
    by (simp add: decodeJSON_def)
  have flags: "fst endpoint_demo = Inr (writeTransition
      \<lparr>out_Outcome = OutcomeApplied, out_Status = StateFAILED, out_Row = None\<rparr> True True)"
    by code_simp
  have "ApplyWalletTransition mem_env v01_demo (\<lambda>_. Some finish_body)
      endpoint_demo_handler endpoint_demo_request ledger_demo = (fst endpoint_demo, snd endpoint_demo)"
    by (simp add: endpoint_demo_def)
  note transition_endpoint_answers [OF mem_world handler(1) this]
  with flags req body handler show ?thesis
    by (auto simp: writeTransition_def writeJSON_def split: if_splits)
qed

end
