(* ===== verification/Policy_Store.thy ===== *)
theory Policy_Store
  imports Mem_World "HOL-Library.Product_Lexorder"
begin

text \<open>
  \<^verbatim>\<open>internal/cpstore\<close>: the owner-scoped store of crypto policies. An owner is a user id and a tenant
  id; a policy is visible to its owner while it is persisted and not deleted. The payload column
  holds a JSON document: it is encoded on the way in and decoded on the way out.
\<close>

section \<open>Addresses\<close>

definition is_hex_lower :: "char \<Rightarrow> bool" where
  "is_hex_lower c \<longleftrightarrow> (let n = (of_char c :: nat) in 48 \<le> n \<and> n \<le> 57 \<or> 97 \<le> n \<and> n \<le> 102)"

definition NormalizeWalletTargetAddress :: "string \<Rightarrow> string + string" where
  "NormalizeWalletTargetAddress address =
     (let a = TrimSpace address in
      if a = '''' then Inl ''target_address is required''
      else
        let a = (if HasPrefix a ''0X'' then ''0x'' @ drop 2 a else a);
            a = (if \<not> HasPrefix a ''0x'' then ''0x'' @ a else a);
            a = ToLower a
        in if length a \<noteq> 42 \<or> \<not> HasPrefix a ''0x''
           then Inl ''target_address must be a normalized EVM address''
           else if \<not> list_all is_hex_lower (drop 2 a)
           then Inl ''target_address must be a normalized EVM address''
           else Inr a)"

section \<open>Owners, errors and results\<close>

record OwnerScope =
  scope_UserID :: string
  scope_TenantID :: string

definition sameOwner :: "string \<Rightarrow> string \<Rightarrow> string \<Rightarrow> string \<Rightarrow> bool" where
  "sameOwner recordUserID recordTenantID userID tenantID \<longleftrightarrow>
     recordUserID = userID \<and> recordTenantID = tenantID"

datatype store_error =
    ErrOwnerRequired
  | ErrPolicyNotFound
  | ErrPolicyAlreadyExists
  | ErrForbidden
  | ErrInvalidWalletAddress string
  | ErrScanIDRequired
  | ErrPayloadSHA256Required
  | ErrPayloadRequired
  | ErrInvalidChainID
  | StoreFailure go_error

definition validateScope :: "OwnerScope \<Rightarrow> ('w, store_error, unit) prog" where
  "validateScope scope =
     (case ValidateOwnerScope (scope_UserID scope) (scope_TenantID scope) of
        None \<Rightarrow> returnP () | Some _ \<Rightarrow> throwP ErrOwnerRequired)"

record PolicyRecord =
  rec_ID :: uuid
  rec_UserID :: string
  rec_TenantID :: string
  rec_ScanID :: uuid
  rec_WalletAddress :: string
  rec_ChainID :: "64 word"
  rec_Payload :: JSONMap
  rec_PayloadSHA256 :: string
  rec_SignedMessageHash :: string
  rec_OwnershipStatus :: string
  rec_WalletControlMethod :: string
  rec_WalletControlVerifiedAt :: "gotime option"
  rec_ChallengeIssuedAt :: "gotime option"
  rec_ChallengeExpiresAt :: "gotime option"
  rec_Status :: string
  rec_PersistedAt :: gotime
  rec_CreatedAt :: gotime
  rec_UpdatedAt :: gotime

record CreatePolicyInput =
  in_ScanID :: uuid
  in_WalletAddress :: string
  in_ChainID :: "64 word"
  in_Payload :: JSONMap
  in_PayloadSHA256 :: string
  in_SignedMessageHash :: string
  in_WalletControlMethod :: string
  in_WalletControlVerifiedAt :: gotime
  in_ChallengeIssuedAt :: "gotime option"
  in_ChallengeExpiresAt :: "gotime option"

record CreatePolicyResult =
  cpr_PolicyID :: uuid
  cpr_ScanID :: uuid
  cpr_WalletAddress :: string
  cpr_ChainID :: "64 word"
  cpr_PayloadSHA256 :: string
  cpr_PersistedAt :: gotime

record ListPoliciesResult =
  lpr_Items :: "PolicyRecord list"
  lpr_Total :: int
  lpr_Limit :: int
  lpr_Offset :: int

record WalletReferenceCount =
  wrc_Exists :: bool
  wrc_PolicyCount :: int

record ScanReferenceCount =
  src_Referenced :: bool
  src_Count :: int

definition policyFromEntity :: "CryptoPolicyEntity \<Rightarrow> PolicyRecord" where
  "policyFromEntity ent = \<lparr>
     rec_ID = pol_ID ent, rec_UserID = pol_UserID ent, rec_TenantID = pol_TenantID ent,
     rec_ScanID = pol_ScanID ent, rec_WalletAddress = pol_WalletAddress ent,
     rec_ChainID = pol_ChainID ent, rec_Payload = CloneJSONMap (pol_Payload ent),
     rec_PayloadSHA256 = pol_PayloadSHA256 ent, rec_SignedMessageHash = pol_SignedMessageHash ent,
     rec_OwnershipStatus = pol_OwnershipStatus ent,
     rec_WalletControlMethod = pol_WalletControlMethod ent,
     rec_WalletControlVerifiedAt = pol_WalletControlVerifiedAt ent,
     rec_ChallengeIssuedAt = pol_ChallengeIssuedAt ent,
     rec_ChallengeExpiresAt = pol_ChallengeExpiresAt ent, rec_Status = pol_Status ent,
     rec_PersistedAt = pol_PersistedAt ent, rec_CreatedAt = pol_CreatedAt ent,
     rec_UpdatedAt = pol_UpdatedAt ent\<rparr>"

definition cloneTimeUTC :: "gotime option \<Rightarrow> gotime option" where
  "cloneTimeUTC t = (case t of None \<Rightarrow> None | Some u \<Rightarrow> if u = 0 then None else Some u)"

text \<open>The text of an error, and the test on it; a violated unique index is gorm's duplicate-key error.\<close>

fun Contains :: "string \<Rightarrow> string \<Rightarrow> bool" where
  "Contains [] sub = (sub = [])"
| "Contains (c # s) sub = (HasPrefix (c # s) sub \<or> Contains s sub)"

fun error_text :: "go_error \<Rightarrow> string" where
  "error_text ErrRecordNotFound = ''record not found''"
| "error_text (SqlError UniqueViolation) = ''duplicated key not allowed''"
| "error_text (SqlError (Fault s)) = s"
| "error_text (ServiceError s) = s"
| "error_text (ErrorNew s) = s"
| "error_text (Wrapped s e) = s @ '': '' @ error_text e"

definition isUniqueViolation :: "go_error \<Rightarrow> bool" where
  "isUniqueViolation err =
     (if err = SqlError UniqueViolation then True
      else
        let msg = ToLower (error_text err)
        in Contains msg ''unique'' \<or> Contains msg ''duplicate key'' \<or> Contains msg ''23505'')"

section \<open>The payload column\<close>

definition JSONMap_Value :: "'w env \<Rightarrow> JSONMap \<Rightarrow> (string, any) mapping option" where
  "JSONMap_Value E j = (case j of None \<Rightarrow> Some Mapping.empty | Some m \<Rightarrow> json_Marshal_any E m)"

definition JSONMap_Scan :: "'w env \<Rightarrow> (string, any) mapping option \<Rightarrow> JSONMap option" where
  "JSONMap_Scan E value =
     (case value of
        None \<Rightarrow> Some (Some Mapping.empty)
      | Some raw \<Rightarrow> (case json_Unmarshal_any E raw of None \<Rightarrow> None | Some m \<Rightarrow> Some (Some m)))"

definition pol_Create :: "'w env \<Rightarrow> CryptoPolicyEntity \<Rightarrow> ('w, go_error, unit) prog" where
  "pol_Create E ent =
     bindP (nowP E) (\<lambda>now.
     case JSONMap_Value E (pol_Payload ent) of
       None \<Rightarrow> throwP (ErrorNew ''json: unsupported value'')
     | Some doc \<Rightarrow> gorm_Create (crypto_policies E) (ent\<lparr>pol_Payload := Some doc,
         pol_CreatedAt := (if pol_CreatedAt ent = 0 then now else pol_CreatedAt ent),
         pol_UpdatedAt := (if pol_UpdatedAt ent = 0 then now else pol_UpdatedAt ent)\<rparr>))"

definition pol_read :: "'w env \<Rightarrow> CryptoPolicyEntity \<Rightarrow> ('w, go_error, CryptoPolicyEntity) prog" where
  "pol_read E row =
     (case JSONMap_Scan E (pol_Payload row) of
        None \<Rightarrow> throwP (ErrorNew ''json: cannot scan'')
      | Some m \<Rightarrow> returnP (row\<lparr>pol_Payload := m\<rparr>))"

fun pol_read_all :: "'w env \<Rightarrow> CryptoPolicyEntity list \<Rightarrow> ('w, go_error, CryptoPolicyEntity list) prog" where
  "pol_read_all E [] = returnP []"
| "pol_read_all E (row # rows) =
     bindP (pol_read E row) (\<lambda>ent. bindP (pol_read_all E rows) (\<lambda>ents. returnP (ent # ents)))"

definition owned_policy :: "OwnerScope \<Rightarrow> CryptoPolicyEntity \<Rightarrow> bool" where
  "owned_policy scope r \<longleftrightarrow> pol_DeletedAt r = None \<and> pol_UserID r = scope_UserID scope
     \<and> pol_TenantID r = scope_TenantID scope \<and> pol_Status r = CryptoPolicyStatusPersisted"

section \<open>Operations\<close>

definition CreatePolicy ::
  "'w env \<Rightarrow> OwnerScope \<Rightarrow> CreatePolicyInput \<Rightarrow> ('w, store_error, CreatePolicyResult) prog" where
  "CreatePolicy E scope inp =
     bindP (validateScope scope) (\<lambda>_.
     if in_ScanID inp = uuid_Nil then throwP ErrScanIDRequired
     else
       let sha = TrimSpace (in_PayloadSHA256 inp) in
       if sha = '''' then throwP ErrPayloadSHA256Required
       else if in_Payload inp = None then throwP ErrPayloadRequired
       else if sint (in_ChainID inp) < 1 then throwP ErrInvalidChainID
       else
         bindP (if in_WalletControlVerifiedAt inp = 0 then nowP E
                else returnP (in_WalletControlVerifiedAt inp)) (\<lambda>verifiedAt.
         case NormalizeWalletTargetAddress (in_WalletAddress inp) of
           Inl err \<Rightarrow> throwP (ErrInvalidWalletAddress err)
         | Inr normWallet \<Rightarrow>
             let methd = TrimSpace (in_WalletControlMethod inp);
                 methd = (if methd = '''' then ''eoa_signature'' else methd);
                 payload = NormalizePolicyPayload (in_Payload inp) (uuid_String E (in_ScanID inp))
                   normWallet (in_ChainID inp) verifiedAt
             in bindP (newUUIDP E) (\<lambda>policyID.
                bindP (mapErrP (\<lambda>err. if isUniqueViolation err then ErrPolicyAlreadyExists else StoreFailure err)
                  (pol_Create E \<lparr>pol_ID = policyID, pol_UserID = scope_UserID scope,
                     pol_TenantID = scope_TenantID scope, pol_ScanID = in_ScanID inp,
                     pol_WalletAddress = normWallet, pol_ChainID = in_ChainID inp,
                     pol_Payload = Some payload, pol_PayloadSHA256 = sha,
                     pol_SignedMessageHash = TrimSpace (in_SignedMessageHash inp),
                     pol_OwnershipStatus = ''verified'', pol_WalletControlMethod = methd,
                     pol_WalletControlVerifiedAt = Some verifiedAt,
                     pol_ChallengeIssuedAt = cloneTimeUTC (in_ChallengeIssuedAt inp),
                     pol_ChallengeExpiresAt = cloneTimeUTC (in_ChallengeExpiresAt inp),
                     pol_Status = CryptoPolicyStatusPersisted, pol_PersistedAt = verifiedAt,
                     pol_CreatedAt = verifiedAt, pol_UpdatedAt = verifiedAt, pol_DeletedAt = None\<rparr>)) (\<lambda>_.
                returnP \<lparr>cpr_PolicyID = policyID, cpr_ScanID = in_ScanID inp,
                  cpr_WalletAddress = normWallet, cpr_ChainID = in_ChainID inp,
                  cpr_PayloadSHA256 = sha, cpr_PersistedAt = verifiedAt\<rparr>))))"

definition GetPolicy :: "'w env \<Rightarrow> OwnerScope \<Rightarrow> uuid \<Rightarrow> ('w, store_error, PolicyRecord) prog" where
  "GetPolicy E scope policyID =
     bindP (validateScope scope) (\<lambda>_.
     bindP (mapErrP (\<lambda>err. if err = ErrRecordNotFound then ErrPolicyNotFound else StoreFailure err)
              (bindP (gorm_First (crypto_policies E) (\<lambda>r. pol_ID r = policyID \<and> owned_policy scope r))
                 (pol_read E))) (\<lambda>ent.
     returnP (policyFromEntity ent)))"

definition DeletePolicy :: "'w env \<Rightarrow> OwnerScope \<Rightarrow> uuid \<Rightarrow> ('w, store_error, unit) prog" where
  "DeletePolicy E scope policyID =
     bindP (validateScope scope) (\<lambda>_.
     bindP (nowP E) (\<lambda>now.
     bindP (mapErrP StoreFailure (gorm_Updates (crypto_policies E)
              (\<lambda>r. pol_ID r = policyID \<and> owned_policy scope r)
              (\<lambda>r. r\<lparr>pol_DeletedAt := Some now\<rparr>))) (\<lambda>rowsAffected.
     if rowsAffected = 0 then
       bindP (mapErrP (\<lambda>err. if err = ErrRecordNotFound then ErrPolicyNotFound else StoreFailure err)
                (bindP (gorm_First (crypto_policies E) (\<lambda>r. pol_ID r = policyID)) (pol_read E))) (\<lambda>other.
       if \<not> sameOwner (pol_UserID other) (pol_TenantID other) (scope_UserID scope) (scope_TenantID scope)
       then throwP ErrForbidden
       else throwP ErrPolicyNotFound)
     else returnP ())))"

text \<open>Ordered by \<^verbatim>\<open>persisted_at DESC, id ASC\<close>.\<close>

definition policy_newest :: "CryptoPolicyEntity \<Rightarrow> int \<times> int" where
  "policy_newest r = (- pol_PersistedAt r, uint (pol_ID r))"

definition ListPersistedPoliciesForScan ::
  "'w env \<Rightarrow> OwnerScope \<Rightarrow> uuid \<Rightarrow> int \<Rightarrow> int \<Rightarrow> ('w, store_error, ListPoliciesResult) prog" where
  "ListPersistedPoliciesForScan E scope scanID limit offset =
     bindP (validateScope scope) (\<lambda>_.
     if scanID = uuid_Nil then throwP ErrScanIDRequired
     else
       let limit = (if limit \<le> 0 then 20 else limit);
           limit = (if limit > 100 then 100 else limit);
           offset = (if offset < 0 then 0 else offset);
           base = (\<lambda>r. owned_policy scope r \<and> pol_ScanID r = scanID)
       in bindP (mapErrP StoreFailure (gorm_Count (crypto_policies E) base)) (\<lambda>total.
          bindP (mapErrP StoreFailure (bindP
                   (gorm_FindPage (crypto_policies E) base policy_newest limit offset)
                   (pol_read_all E))) (\<lambda>rows.
          returnP \<lparr>lpr_Items = map policyFromEntity rows, lpr_Total = total, lpr_Limit = limit,
            lpr_Offset = offset\<rparr>)))"

definition CountPoliciesByWallet ::
  "'w env \<Rightarrow> OwnerScope \<Rightarrow> string \<Rightarrow> ('w, store_error, WalletReferenceCount) prog" where
  "CountPoliciesByWallet E scope walletAddress =
     bindP (validateScope scope) (\<lambda>_.
     case NormalizeWalletTargetAddress walletAddress of
       Inl err \<Rightarrow> throwP (ErrInvalidWalletAddress err)
     | Inr needle \<Rightarrow>
         bindP (mapErrP StoreFailure (gorm_Count (crypto_policies E)
                  (\<lambda>r. owned_policy scope r \<and> pol_WalletAddress r = needle))) (\<lambda>policyCount.
         returnP \<lparr>wrc_Exists = (policyCount > 0), wrc_PolicyCount = policyCount\<rparr>))"

definition CountPoliciesByScan ::
  "'w env \<Rightarrow> OwnerScope \<Rightarrow> uuid \<Rightarrow> ('w, store_error, ScanReferenceCount) prog" where
  "CountPoliciesByScan E scope scanID =
     bindP (validateScope scope) (\<lambda>_.
     if scanID = uuid_Nil then throwP ErrScanIDRequired
     else
       bindP (mapErrP StoreFailure (gorm_Count (crypto_policies E)
                (\<lambda>r. owned_policy scope r \<and> pol_ScanID r = scanID))) (\<lambda>n.
       returnP \<lparr>src_Referenced = (n > 0), src_Count = n\<rparr>))"

section \<open>Normal form of addresses\<close>

lemma lower_hex [simp]: "is_hex_lower c \<Longrightarrow> lower_char c = c"
  by (auto simp: is_hex_lower_def lower_char_def Let_def)

lemma hex_no_space: "is_hex_lower c \<Longrightarrow> \<not> is_space c"
  by (auto simp: is_hex_lower_def is_space_def Let_def)

lemma hex_ascii: "is_hex_lower c \<Longrightarrow> is_ascii c"
  by (auto simp: is_hex_lower_def is_ascii_def Let_def)

definition normal_address :: "string \<Rightarrow> bool" where
  "normal_address a \<longleftrightarrow> length a = 42 \<and> HasPrefix a ''0x'' \<and> list_all is_hex_lower (drop 2 a)"

lemma normal_addressE:
  assumes "normal_address a"
  obtains ds where "a = CHR ''0'' # CHR ''x'' # ds" "length ds = 40" "list_all is_hex_lower ds"
proof -
  from assms obtain x y ds where a: "a = x # y # ds" "length ds = 40"
    by (auto simp: normal_address_def length_Suc_conv numeral_eq_Suc)
  with assms that show thesis by (auto simp: normal_address_def HasPrefix_def)
qed

lemma lower_char_zero: "lower_char c = CHR ''0'' \<longleftrightarrow> c = CHR ''0''"
proof -
  have "lower_char c = CHR ''0'' \<longleftrightarrow> (of_char (lower_char c) :: nat) = of_char (CHR ''0'')"
    by (simp only: of_char_eq_iff)
  also have "\<dots> \<longleftrightarrow> (of_char c :: nat) = of_char (CHR ''0'')"
    by (auto simp: lower_char_def Let_def)
  finally show ?thesis by (simp only: of_char_eq_iff)
qed

lemma lower_char_x: "lower_char c = CHR ''x'' \<longleftrightarrow> c = CHR ''x'' \<or> c = CHR ''X''"
proof -
  have "lower_char c = CHR ''x'' \<longleftrightarrow> (of_char (lower_char c) :: nat) = of_char (CHR ''x'')"
    by (simp only: of_char_eq_iff)
  also have "\<dots> \<longleftrightarrow> (of_char c :: nat) = of_char (CHR ''x'') \<or> (of_char c :: nat) = of_char (CHR ''X'')"
    by (auto simp: lower_char_def Let_def)
  finally show ?thesis by (simp only: of_char_eq_iff)
qed

lemma lower_prefix:
  "lower_char (CHR ''0'') = CHR ''0''" "lower_char (CHR ''x'') = CHR ''x''" "lower_char (CHR ''X'') = CHR ''x''"
  by (simp_all add: lower_char_zero lower_char_x)

lemma normal_address_ascii:
  assumes "normal_address a"
  shows "list_all is_ascii a"
proof -
  obtain ds where "a = CHR ''0'' # CHR ''x'' # ds" "list_all is_hex_lower ds"
    using normal_addressE [OF assms] by metis
  then show ?thesis by (auto simp: list_all_iff is_ascii_def dest!: hex_ascii)
qed

lemma normal_address_trimmed:
  assumes "normal_address a"
  shows "ToLower (TrimSpace a) = a"
proof -
  obtain ds where ds: "a = CHR ''0'' # CHR ''x'' # ds" "length ds = 40" "list_all is_hex_lower ds"
    using normal_addressE [OF assms] by metis
  have keep: "dropWhile is_space xs = xs" if "xs \<noteq> []" "\<not> is_space (hd xs)" for xs
    using that by (cases xs) auto
  have "ds \<noteq> []" using ds(2) by auto
  then have "\<not> is_space (last ds)" using ds(3) hex_no_space by (simp add: list_all_iff)
  with \<open>ds \<noteq> []\<close> have "dropWhile is_space (rev a) = rev a"
    by (intro keep) (simp_all add: ds(1) hd_append hd_rev)
  moreover have "dropWhile is_space a = a" by (rule keep) (simp_all add: ds(1) is_space_def)
  moreover have "map lower_char ds = ds" using ds(3) by (induction ds) simp_all
  ultimately show ?thesis by (simp add: TrimSpace_def ToLower_def ds(1) lower_prefix)
qed

lemma HasPrefix_pair: "HasPrefix s [x, y] \<longleftrightarrow> (\<exists>r. s = x # y # r)"
proof (cases s)
  case (Cons a as)
  then show ?thesis by (cases as) (auto simp: HasPrefix_def)
qed (simp add: HasPrefix_def)

lemma HasPrefix_lower: "HasPrefix (ToLower t) ''0x'' \<longleftrightarrow> HasPrefix t ''0x'' \<or> HasPrefix t ''0X''"
  by (auto simp: HasPrefix_pair ToLower_def lower_char_zero lower_char_x Cons_eq_map_conv)

text \<open>The last steps of the normaliser.\<close>

definition check_address :: "string \<Rightarrow> string + string" where
  "check_address a =
     (if length a \<noteq> 42 \<or> \<not> HasPrefix a ''0x''
      then Inl ''target_address must be a normalized EVM address''
      else if \<not> list_all is_hex_lower (drop 2 a)
      then Inl ''target_address must be a normalized EVM address''
      else Inr a)"

lemma check_address_Inr: "check_address a = Inr b \<longleftrightarrow> a = b \<and> normal_address b"
  by (auto simp: check_address_def normal_address_def)

lemma hex_of_normal:
  assumes "normal_address b"
  shows "\<not> HasPrefix (drop 2 b) ''0x''" and "drop 2 b = l \<longleftrightarrow> b = CHR ''0'' # CHR ''x'' # l"
proof -
  obtain ds where ds: "b = CHR ''0'' # CHR ''x'' # ds" "list_all is_hex_lower ds"
    using normal_addressE [OF assms] by metis
  have "\<not> is_hex_lower (CHR ''x'')" by (simp add: is_hex_lower_def)
  with ds show "\<not> HasPrefix (drop 2 b) ''0x''"
    by (auto simp: HasPrefix_def list_all_iff dest!: in_set_takeD [of _ 2]) (metis in_set_takeD list.set_intros)
  show "drop 2 b = l \<longleftrightarrow> b = CHR ''0'' # CHR ''x'' # l" using ds(1) by auto
qed

lemma Normalize_Inr:
  "NormalizeWalletTargetAddress s = Inr b
   \<longleftrightarrow> normal_address b \<and> ToLower (TrimSpace s) \<in> {b, drop 2 b}"
proof -
  let ?t = "TrimSpace s"
  let ?l = "ToLower ?t"
  have prefix: "HasPrefix ?l ''0x'' \<longleftrightarrow> HasPrefix ?t ''0x'' \<or> HasPrefix ?t ''0X''"
    by (rule HasPrefix_lower)
  show ?thesis
  proof (cases "HasPrefix ?l ''0x''")
    case True
    with prefix obtain y r where t: "?t = CHR ''0'' # y # r" "y \<in> {CHR ''x'', CHR ''X''}"
      by (auto simp: HasPrefix_pair)
    then have "NormalizeWalletTargetAddress s = check_address ?l"
      by (auto simp: NormalizeWalletTargetAddress_def check_address_def Let_def HasPrefix_pair
          ToLower_def lower_prefix)
    moreover have "normal_address b \<Longrightarrow> ?l \<noteq> drop 2 b" using True hex_of_normal(1) by metis
    ultimately show ?thesis by (auto simp: check_address_Inr)
  next
    case False
    with prefix have "NormalizeWalletTargetAddress s
        = (if ?t = '''' then Inl ''target_address is required'' else check_address (CHR ''0'' # CHR ''x'' # ?l))"
      by (auto simp: NormalizeWalletTargetAddress_def check_address_def Let_def HasPrefix_pair
          ToLower_def lower_prefix)
    moreover have "normal_address b \<Longrightarrow> ?l \<noteq> b" using False by (auto simp: normal_address_def)
    moreover have "normal_address b \<Longrightarrow> ?t = '''' \<Longrightarrow> ?l \<noteq> drop 2 b"
      by (auto simp: normal_address_def ToLower_def)
    ultimately show ?thesis using hex_of_normal(2) [of b ?l] by (auto simp: check_address_Inr)
  qed
qed

lemma Normalize_normal: "NormalizeWalletTargetAddress b = Inr b \<longleftrightarrow> normal_address b"
  by (auto simp: Normalize_Inr normal_address_trimmed elim: normal_addressE)

text \<open>
  Wallet addresses have one normal form: the normaliser returns \<open>b\<close> exactly when \<open>b\<close> is 0x
  followed by forty lower-case hexadecimal digits and the input, up to letter case and surrounding
  space, is \<open>b\<close> or \<open>b\<close> without its prefix; the addresses it leaves alone are exactly the normal
  forms.
\<close>

theorem wallet_target_normal_form:
  "(NormalizeWalletTargetAddress s = Inr b
      \<longleftrightarrow> normal_address b \<and> ToLower (TrimSpace s) \<in> {b, drop 2 b})
   \<and> (NormalizeWalletTargetAddress b = Inr b \<longleftrightarrow> normal_address b)"
  using Normalize_Inr Normalize_normal by blast

section \<open>Rules for the operations\<close>

text \<open>What the guards of \<^verbatim>\<open>CreatePolicy\<close> reject, in their order.\<close>

definition policy_input_error :: "OwnerScope \<Rightarrow> CreatePolicyInput \<Rightarrow> store_error option" where
  "policy_input_error scope inp =
     (if scope_UserID scope = '''' then Some ErrOwnerRequired
      else if in_ScanID inp = uuid_Nil then Some ErrScanIDRequired
      else if TrimSpace (in_PayloadSHA256 inp) = '''' then Some ErrPayloadSHA256Required
      else if in_Payload inp = None then Some ErrPayloadRequired
      else if sint (in_ChainID inp) < 1 then Some ErrInvalidChainID
      else case NormalizeWalletTargetAddress (in_WalletAddress inp) of
          Inl err \<Rightarrow> Some (ErrInvalidWalletAddress err) | Inr _ \<Rightarrow> None)"

text \<open>\<open>row\<close> is what the store keeps for an accepted input.\<close>

definition policy_row_of :: "'w env \<Rightarrow> OwnerScope \<Rightarrow> CreatePolicyInput \<Rightarrow> CryptoPolicyEntity \<Rightarrow> bool" where
  "policy_row_of E scope inp row \<longleftrightarrow>
     pol_ID row \<noteq> uuid_Nil \<and> owned_policy scope row \<and> pol_ScanID row = in_ScanID inp
     \<and> NormalizeWalletTargetAddress (in_WalletAddress inp) = Inr (pol_WalletAddress row)
     \<and> pol_ChainID row = in_ChainID inp \<and> pol_PayloadSHA256 row = TrimSpace (in_PayloadSHA256 inp)
     \<and> (in_WalletControlVerifiedAt inp \<noteq> 0 \<longrightarrow> pol_PersistedAt row = in_WalletControlVerifiedAt inp)
     \<and> (\<exists>doc. pol_Payload row = Some doc
          \<and> json_Marshal_any E (NormalizePolicyPayload (in_Payload inp) (uuid_String E (in_ScanID inp))
              (pol_WalletAddress row) (in_ChainID inp) (pol_PersistedAt row)) = Some doc)"

definition policy_result_of :: "CryptoPolicyEntity \<Rightarrow> CreatePolicyResult" where
  "policy_result_of row = \<lparr>cpr_PolicyID = pol_ID row, cpr_ScanID = pol_ScanID row,
     cpr_WalletAddress = pol_WalletAddress row, cpr_ChainID = pol_ChainID row,
     cpr_PayloadSHA256 = pol_PayloadSHA256 row, cpr_PersistedAt = pol_PersistedAt row\<rparr>"

lemma wp_validateScope [wp_intro]:
  "(scope_UserID scope \<noteq> '''' \<Longrightarrow> Q (Inr ()) v) \<Longrightarrow> (scope_UserID scope = '''' \<Longrightarrow> Q (Inl ErrOwnerRequired) v)
   \<Longrightarrow> wp view (validateScope scope) Q v"
  by (auto simp: validateScope_def ValidateOwnerScope_def intro!: wp_return wp_throw)

lemma wp_pol_read [wp_intro]:
  assumes "\<And>m. JSONMap_Scan E (pol_Payload row) = Some m \<Longrightarrow> Q (Inr (row\<lparr>pol_Payload := m\<rparr>)) v"
    and "\<And>e. JSONMap_Scan E (pol_Payload row) = None \<Longrightarrow> Q (Inl (ErrorNew e)) v"
  shows "wp view (pol_read E row) Q v"
  using assms by (auto simp: pol_read_def intro!: wp_return wp_throw split: option.splits)

lemma wp_pol_read_all:
  assumes "\<And>ents. list_all2 (\<lambda>row ent. \<exists>m. ent = row\<lparr>pol_Payload := m\<rparr>
        \<and> JSONMap_Scan E (pol_Payload row) = Some m) rows ents \<Longrightarrow> Q (Inr ents) v"
    and "\<And>e. Q (Inl (ErrorNew e)) v"
  shows "wp view (pol_read_all E rows) Q v"
  using assms
proof (induction rows arbitrary: Q)
  case Nil
  then show ?case by (auto intro!: wp_return)
next
  case (Cons row rows)
  show ?case
    unfolding pol_read_all.simps
    by (intro wp_intro Cons.IH) (auto intro!: wp_return Cons.prems)
qed

context world
begin

lemma wp_pol_Create:
  assumes "\<And>t doc. JSONMap_Value E (pol_Payload ent) = Some doc
        \<Longrightarrow> filter_mset (policy_conflict ent) (v_crypto_policies v) = {#}
        \<Longrightarrow> Q (Inr ()) (v\<lparr>v_crypto_policies := add_mset (ent\<lparr>pol_Payload := Some doc,
               pol_CreatedAt := (if pol_CreatedAt ent = 0 then t else pol_CreatedAt ent),
               pol_UpdatedAt := (if pol_UpdatedAt ent = 0 then t else pol_UpdatedAt ent)\<rparr>) (v_crypto_policies v)\<rparr>)"
    and "\<And>e. Q (Inl e) v"
  shows "wp view (pol_Create E ent) Q v"
  unfolding pol_Create_def
  by (intro wp_intro policy.wp_Create assms)
    (simp_all add: policy_conflict_def [abs_def] policy_active_def)

lemma wp_CreatePolicy:
  assumes rejected: "\<And>e. policy_input_error scope inp = Some e \<Longrightarrow> Q (Inl e) v"
    and failed: "\<And>e. policy_input_error scope inp = None
        \<Longrightarrow> e = ErrPolicyAlreadyExists \<or> (\<exists>e'. e = StoreFailure e') \<Longrightarrow> Q (Inl e) v"
    and stored: "\<And>row. policy_input_error scope inp = None \<Longrightarrow> policy_row_of E scope inp row
        \<Longrightarrow> filter_mset (policy_conflict row) (v_crypto_policies v) = {#}
        \<Longrightarrow> Q (Inr (policy_result_of row)) (v\<lparr>v_crypto_policies := add_mset row (v_crypto_policies v)\<rparr>)"
  shows "wp view (CreatePolicy E scope inp) Q v"
proof -
  have guard: "Q (Inl e) v" if "policy_input_error scope inp = Some e" for e by (rule rejected [OF that])
  have fail: "Q (Inl (if isUniqueViolation e then ErrPolicyAlreadyExists else StoreFailure e)) v"
    if "policy_input_error scope inp = None" for e
    by (rule failed [OF that]) simp
  have store: "Q (Inr res) v'" if "v' = v\<lparr>v_crypto_policies := add_mset row (v_crypto_policies v)\<rparr>"
      "res = policy_result_of row" "policy_input_error scope inp = None" "policy_row_of E scope inp row"
      "filter_mset (policy_conflict row) (v_crypto_policies v) = {#}" for res v' row
    using stored that by blast
  note row_simps = policy_result_of_def policy_row_of_def owned_policy_def policy_input_error_def
    JSONMap_Value_def policy_conflict_def [abs_def] policy_active_def
  show ?thesis
    unfolding CreatePolicy_def Let_def
    by (intro wp_intro wp_pol_Create; ((rule store, rule refl) | rule fail | rule guard)?)
      (simp_all add: row_simps)
qed

lemma wp_GetPolicy:
  assumes "\<And>row m. row \<in># v_crypto_policies v \<Longrightarrow> pol_ID row = policyID \<Longrightarrow> owned_policy scope row
        \<Longrightarrow> scope_UserID scope \<noteq> '''' \<Longrightarrow> JSONMap_Scan E (pol_Payload row) = Some m
        \<Longrightarrow> Q (Inr (policyFromEntity (row\<lparr>pol_Payload := m\<rparr>))) v"
    and "\<And>e. e = ErrOwnerRequired \<and> scope_UserID scope = ''''
        \<or> e = ErrPolicyNotFound
          \<and> (\<forall>row \<in># v_crypto_policies v. pol_ID row = policyID \<longrightarrow> \<not> owned_policy scope row)
        \<or> (\<exists>e'. e = StoreFailure e') \<Longrightarrow> Q (Inl e) v"
  shows "wp view (GetPolicy E scope policyID) Q v"
  unfolding GetPolicy_def
  by (intro wp_intro policy.wp_First) (auto intro!: assms)

lemma wp_DeletePolicy:
  assumes "\<And>row t. row \<in># v_crypto_policies v \<Longrightarrow> pol_ID row = policyID \<Longrightarrow> owned_policy scope row
        \<Longrightarrow> scope_UserID scope \<noteq> ''''
        \<Longrightarrow> Q (Inr ()) (v\<lparr>v_crypto_policies := add_mset (row\<lparr>pol_DeletedAt := Some t\<rparr>)
               (filter_mset (\<lambda>s. pol_ID s \<noteq> policyID) (v_crypto_policies v))\<rparr>)"
    and "\<And>e. e = ErrOwnerRequired \<and> scope_UserID scope = ''''
        \<or> e = ErrPolicyNotFound
          \<and> (\<forall>row \<in># v_crypto_policies v. pol_ID row = policyID \<longrightarrow> \<not> owned_policy scope row)
        \<or> e = ErrForbidden \<and> (\<exists>row \<in># v_crypto_policies v. pol_ID row = policyID
             \<and> (pol_UserID row, pol_TenantID row) \<noteq> (scope_UserID scope, scope_TenantID scope))
        \<or> (\<exists>e'. e = StoreFailure e') \<Longrightarrow> Q (Inl e) v"
  shows "wp view (DeletePolicy E scope policyID) Q v"
  unfolding DeletePolicy_def
  by (intro wp_intro policy.wp_Updates_key [where key = pol_ID and k = policyID] policy.wp_First)
    (use assms(1) in \<open>auto intro!: assms(2) simp: policy_conflict_def sameOwner_def\<close>)

end

context world
begin

text \<open>The constraints of the table, for one of its rows and the others.\<close>

lemma policy_others:
  assumes row: "row \<in># v_crypto_policies (view w)"
  shows "filter_mset (\<lambda>s. pol_ID s \<noteq> pol_ID row) (v_crypto_policies (view w))
      = v_crypto_policies (view w) - {#row#}"
    and "s \<in># v_crypto_policies (view w) - {#row#} \<Longrightarrow> \<not> policy_conflict row s"
proof -
  let ?M = "v_crypto_policies (view w)"
  have uniq: "filter_mset (policy_conflict row) ?M = {#row#}" by (rule policy.unique_rows [OF row])
  have "filter_mset (\<lambda>s. pol_ID s = pol_ID row) ?M = {#row#}"
    by (rule filter_unique_key [of policy_conflict row ?M pol_ID, OF uniq])
      (simp_all add: policy_conflict_def)
  from partition_unique_key [OF this]
  show rest: "filter_mset (\<lambda>s. pol_ID s \<noteq> pol_ID row) ?M = ?M - {#row#}"
    by (metis add_mset_remove_trivial)
  show "\<not> policy_conflict row s" if s: "s \<in># ?M - {#row#}"
  proof
    assume "policy_conflict row s"
    with s have "s \<in># filter_mset (policy_conflict row) ?M" by (auto dest: in_diffD)
    with uniq have "s = row" by simp
    with s rest show False by (metis (mono_tags, lifting) mem_Collect_eq set_mset_filter)
  qed
qed

text \<open>The document of a stored policy, read back.\<close>

lemma stored_payload:
  assumes row: "policy_row_of E scope inp row" and scan: "JSONMap_Scan E (pol_Payload row) = Some m"
  shows "\<exists>m'. m = Some m' \<and> Mapping.lookup m' ''wallet_address'' = Some (AnyString (pol_WalletAddress row))
    \<and> (\<forall>k \<in> set policy_stripped_keys. Mapping.lookup m' k = None)"
proof -
  let ?payload = "NormalizePolicyPayload (in_Payload inp) (uuid_String E (in_ScanID inp))
    (pol_WalletAddress row) (in_ChainID inp) (pol_PersistedAt row)"
  from row obtain doc where doc: "pol_Payload row = Some doc" "json_Marshal_any E ?payload = Some doc"
    by (auto simp: policy_row_of_def)
  from any_codec [OF doc(2)] obtain m' where m': "json_Unmarshal_any E doc = Some m'"
      "Mapping.keys m' = Mapping.keys ?payload"
      "\<And>k s. Mapping.lookup ?payload k = Some (AnyString s) \<Longrightarrow> list_all is_ascii s
         \<Longrightarrow> Mapping.lookup m' k = Some (AnyString s)"
    by blast
  have "list_all is_ascii (pol_WalletAddress row)"
    using row by (intro normal_address_ascii) (auto simp: policy_row_of_def Normalize_Inr)
  then have "Mapping.lookup m' ''wallet_address'' = Some (AnyString (pol_WalletAddress row))"
    by (intro m'(3) NormalizePolicyPayload_server)
  moreover have "Mapping.lookup m' k = None" if "k \<in> set policy_stripped_keys" for k
    using NormalizePolicyPayload_stripped [OF that] m'(2) by (metis domIff keys_dom_lookup)
  moreover have "m = Some m'" using scan doc(1) m'(1) by (simp add: JSONMap_Scan_def)
  ultimately show ?thesis by blast
qed

end

section \<open>Properties of the store\<close>

text \<open>
  C24. Creating a policy: an input that a guard rejects gives that guard's error; every error leaves
  the system as it was; success adds exactly one row, owned by the caller, for the address in normal
  form and with the payload as projected by the server, and only when the user had no active policy
  for that wallet.
\<close>

theorem policy_create_outcomes:
  assumes world: "world E view" and run: "CreatePolicy E scope inp w = (r, w')"
  shows "case r of
      Inl e \<Rightarrow> view w' = view w
        \<and> (case policy_input_error scope inp of Some e' \<Rightarrow> e = e'
           | None \<Rightarrow> e = ErrPolicyAlreadyExists \<or> (\<exists>e'. e = StoreFailure e'))
    | Inr res \<Rightarrow> policy_input_error scope inp = None \<and> (\<exists>row.
          view w' = (view w)\<lparr>v_crypto_policies := add_mset row (v_crypto_policies (view w))\<rparr>
        \<and> res = policy_result_of row \<and> policy_row_of E scope inp row
        \<and> normal_address (pol_WalletAddress row)
        \<and> (\<forall>old \<in># v_crypto_policies (view w). policy_active old
              \<and> pol_UserID old = scope_UserID scope \<longrightarrow> pol_WalletAddress old \<noteq> pol_WalletAddress row))"
    (is "?P r (view w')")
proof -
  have "wp view (CreatePolicy E scope inp) ?P (view w)"
    by (rule world.wp_CreatePolicy [OF world])
      (fastforce simp: policy_row_of_def owned_policy_def policy_conflict_def policy_active_def
        Normalize_Inr)+
  from wpD [OF this run] show ?thesis .
qed

definition policy_demo_scope :: OwnerScope where
  "policy_demo_scope = \<lparr>scope_UserID = ''u1'', scope_TenantID = ''t1''\<rparr>"

definition policy_demo_input :: CreatePolicyInput where
  "policy_demo_input = \<lparr>in_ScanID = 3, in_WalletAddress = '' 0XABCDEFabcdef0123456789ABCDEFabcdef012345 '',
     in_ChainID = 1, in_Payload = Some (Mapping.update ''signature'' (AnyString ''s'')
       (Mapping.update ''note'' (AnyString ''n'') Mapping.empty)),
     in_PayloadSHA256 = ''ff'', in_SignedMessageHash = '''', in_WalletControlMethod = '''',
     in_WalletControlVerifiedAt = 7, in_ChallengeIssuedAt = None, in_ChallengeExpiresAt = None\<rparr>"

lemma policy_demo_create:
  "\<exists>w. CreatePolicy mem_env policy_demo_scope policy_demo_input (mem_empty\<lparr>m_uuids := [9]\<rparr>)
     = (Inr \<lparr>cpr_PolicyID = 9, cpr_ScanID = 3,
         cpr_WalletAddress = ''0xabcdefabcdef0123456789abcdefabcdef012345'', cpr_ChainID = 1,
         cpr_PayloadSHA256 = ''ff'', cpr_PersistedAt = 7\<rparr>, w)"
proof -
  have "fst (CreatePolicy mem_env policy_demo_scope policy_demo_input (mem_empty\<lparr>m_uuids := [9]\<rparr>))
     = Inr \<lparr>cpr_PolicyID = 9, cpr_ScanID = 3,
         cpr_WalletAddress = ''0xabcdefabcdef0123456789abcdefabcdef012345'', cpr_ChainID = 1,
         cpr_PayloadSHA256 = ''ff'', cpr_PersistedAt = 7\<rparr>"
    by code_simp
  then show ?thesis by (metis prod.collapse)
qed

abbreviation policy_demo_result :: CreatePolicyResult where
  "policy_demo_result \<equiv> \<lparr>cpr_PolicyID = 9, cpr_ScanID = 3,
     cpr_WalletAddress = ''0xabcdefabcdef0123456789abcdefabcdef012345'', cpr_ChainID = 1,
     cpr_PayloadSHA256 = ''ff'', cpr_PersistedAt = 7\<rparr>"

theorem policy_create_outcomes_witness:
  "\<exists>w. CreatePolicy mem_env policy_demo_scope policy_demo_input (mem_empty\<lparr>m_uuids := [9]\<rparr>)
       = (Inr policy_demo_result, w)
     \<and> (\<exists>row. v_crypto_policies (mem_view w) = add_mset row (v_crypto_policies (mem_view (mem_empty\<lparr>m_uuids := [9]\<rparr>)))
          \<and> owned_policy policy_demo_scope row \<and> pol_ID row = 9)"
proof -
  obtain w where run: "CreatePolicy mem_env policy_demo_scope policy_demo_input (mem_empty\<lparr>m_uuids := [9]\<rparr>)
      = (Inr policy_demo_result, w)"
    using policy_demo_create by blast
  from policy_create_outcomes [OF mem_world run] obtain row where
    "mem_view w = (mem_view (mem_empty\<lparr>m_uuids := [9]\<rparr>))\<lparr>v_crypto_policies :=
       add_mset row (v_crypto_policies (mem_view (mem_empty\<lparr>m_uuids := [9]\<rparr>)))\<rparr>"
    "policy_demo_result = policy_result_of row" "policy_row_of mem_env policy_demo_scope policy_demo_input row"
    by auto
  with run show ?thesis by (auto simp: policy_result_of_def policy_row_of_def)
qed

text \<open>
  C25. A created policy can be read back by its owner and by nobody else: reading it right after its
  creation never reports it missing to the owner, and whatever a read returns was asked for by the
  same user in the same tenant and carries the created values; its payload has the server's wallet
  address and none of the signing material of the request, through the JSON codec.
\<close>

theorem policy_create_get_round_trip:
  assumes world: "world E view" and created: "CreatePolicy E scope inp w = (Inr res, w1)"
    and got: "GetPolicy E scope' (cpr_PolicyID res) w1 = (r, w2)"
  shows "view w2 = view w1 \<and> (scope' = scope \<longrightarrow> r \<noteq> Inl ErrPolicyNotFound)
    \<and> (\<forall>rec. r = Inr rec \<longrightarrow> scope' = scope \<and> rec_ID rec = cpr_PolicyID res
         \<and> rec_UserID rec = scope_UserID scope \<and> rec_TenantID rec = scope_TenantID scope
         \<and> rec_ScanID rec = in_ScanID inp \<and> rec_WalletAddress rec = cpr_WalletAddress res
         \<and> rec_ChainID rec = in_ChainID inp \<and> rec_PayloadSHA256 rec = cpr_PayloadSHA256 res
         \<and> rec_PersistedAt rec = cpr_PersistedAt res
         \<and> (\<exists>m. rec_Payload rec = Some m
              \<and> Mapping.lookup m ''wallet_address'' = Some (AnyString (cpr_WalletAddress res))
              \<and> (\<forall>k \<in> set policy_stripped_keys. Mapping.lookup m k = None)))"
    (is "?P r (view w2)")
proof -
  have "wp view (CreatePolicy E scope inp) (\<lambda>r v'. \<forall>res. r = Inr res \<longrightarrow> (\<exists>row. v' = (view w)
      \<lparr>v_crypto_policies := add_mset row (v_crypto_policies (view w))\<rparr> \<and> res = policy_result_of row
      \<and> policy_row_of E scope inp row
      \<and> filter_mset (policy_conflict row) (v_crypto_policies (view w)) = {#})) (view w)"
    by (rule world.wp_CreatePolicy [OF world]) auto
  from wpD [OF this created] obtain row where row: "res = policy_result_of row"
      "v_crypto_policies (view w1) = add_mset row (v_crypto_policies (view w))" "policy_row_of E scope inp row"
      "filter_mset (policy_conflict row) (v_crypto_policies (view w)) = {#}"
    by auto
  have id: "cpr_PolicyID res = pol_ID row" by (simp add: row(1) policy_result_of_def)
  have only: "r = row" if "r \<in># v_crypto_policies (view w1)" "pol_ID r = pol_ID row" for r
    using that row(2,4) by (auto simp: policy_conflict_def)
  have owner: "scope'' = scope" if "owned_policy scope'' row" for scope'' :: OwnerScope
    using that row(3) by (auto simp: owned_policy_def policy_row_of_def)
  have "wp view (GetPolicy E scope' (cpr_PolicyID res)) ?P (view w1)"
  proof (rule world.wp_GetPolicy [OF world])
    fix got m
    assume "got \<in># v_crypto_policies (view w1)" "pol_ID got = cpr_PolicyID res" "owned_policy scope' got"
      and scan: "JSONMap_Scan E (pol_Payload got) = Some m"
    with only id owner have got: "got = row" "scope' = scope" by metis+
    from world.stored_payload [OF world row(3) scan [unfolded got]] row(3) got
    show "?P (Inr (policyFromEntity (got\<lparr>pol_Payload := m\<rparr>))) (view w1)"
      by (auto simp: row(1) policyFromEntity_def policy_result_of_def policy_row_of_def owned_policy_def)
  next
    fix e
    show "e = ErrOwnerRequired \<and> scope_UserID scope' = ''''
        \<or> e = ErrPolicyNotFound \<and> (\<forall>row \<in># v_crypto_policies (view w1). pol_ID row = cpr_PolicyID res
            \<longrightarrow> \<not> owned_policy scope' row)
        \<or> (\<exists>e'. e = StoreFailure e') \<Longrightarrow> ?P (Inl e) (view w1)"
      using row(2,3) by (auto simp: id policy_row_of_def)
  qed
  from wpD [OF this got] show ?thesis .
qed

theorem policy_create_get_round_trip_witness:
  "\<exists>w w2 rec. CreatePolicy mem_env policy_demo_scope policy_demo_input (mem_empty\<lparr>m_uuids := [9]\<rparr>)
       = (Inr policy_demo_result, w)
     \<and> GetPolicy mem_env policy_demo_scope (cpr_PolicyID policy_demo_result) w = (Inr rec, w2)
     \<and> rec_WalletAddress rec = cpr_WalletAddress policy_demo_result"
proof -
  let ?create = "CreatePolicy mem_env policy_demo_scope policy_demo_input (mem_empty\<lparr>m_uuids := [9]\<rparr>)"
  let ?get = "GetPolicy mem_env policy_demo_scope (cpr_PolicyID policy_demo_result) (snd ?create)"
  have created: "?create = (Inr policy_demo_result, snd ?create)" using policy_demo_create by (metis snd_conv)
  have "\<not> isl (fst ?get)" by code_simp
  then obtain rec where got: "?get = (Inr rec, snd ?get)" by (metis isl_def prod.collapse sum.collapse(2))
  from policy_create_get_round_trip [OF mem_world created got]
  have "rec_WalletAddress rec = cpr_WalletAddress policy_demo_result" by blast
  with created got show ?thesis by blast
qed

text \<open>
  C26. Deleting a policy: every error leaves the system as it was; \<^verbatim>\<open>ErrForbidden\<close> is only reported
  for a policy of another owner and \<^verbatim>\<open>ErrPolicyNotFound\<close> only when the caller owns no such live
  policy; success marks exactly that policy as deleted, after which no owner sees it and the user has
  no active policy for its wallet, so that a new one can be created.
\<close>

theorem policy_delete_outcomes:
  assumes world: "world E view" and run: "DeletePolicy E scope policyID w = (r, w')"
  shows "case r of
      Inl e \<Rightarrow> view w' = view w
        \<and> (e = ErrForbidden \<longrightarrow> (\<exists>row \<in># v_crypto_policies (view w). pol_ID row = policyID
             \<and> (pol_UserID row, pol_TenantID row) \<noteq> (scope_UserID scope, scope_TenantID scope)))
        \<and> (e = ErrPolicyNotFound \<longrightarrow> (\<forall>row \<in># v_crypto_policies (view w).
             pol_ID row = policyID \<longrightarrow> \<not> owned_policy scope row))
    | Inr _ \<Rightarrow> \<exists>row t. row \<in># v_crypto_policies (view w) \<and> pol_ID row = policyID \<and> owned_policy scope row
        \<and> view w' = (view w)\<lparr>v_crypto_policies := add_mset (row\<lparr>pol_DeletedAt := Some t\<rparr>)
             (v_crypto_policies (view w) - {#row#})\<rparr>
        \<and> (\<forall>s \<in># v_crypto_policies (view w'). \<forall>any. pol_ID s = policyID \<longrightarrow> \<not> owned_policy any s)
        \<and> (\<forall>s \<in># v_crypto_policies (view w'). policy_active s \<and> pol_UserID s = scope_UserID scope
             \<longrightarrow> pol_WalletAddress s \<noteq> pol_WalletAddress row)"
    (is "?P r (view w')")
proof -
  let ?M = "v_crypto_policies (view w)"
  have "wp view (DeletePolicy E scope policyID) ?P (view w)"
  proof (rule world.wp_DeletePolicy [OF world])
    fix row t
    assume row: "row \<in># ?M" "pol_ID row = policyID" "owned_policy scope row"
    note other = world.policy_others [OF world row(1)]
    have "s \<in># ?M - {#row#} \<Longrightarrow> policy_active s \<Longrightarrow> pol_UserID s = scope_UserID scope
        \<Longrightarrow> pol_WalletAddress s \<noteq> pol_WalletAddress row" for s
      using other(2) [of s] row(3) by (auto simp: owned_policy_def policy_conflict_def policy_active_def)
    moreover have "s \<in># ?M - {#row#} \<Longrightarrow> pol_ID s \<noteq> policyID" for s
      using other(2) [of s] row(2) by (auto simp: policy_conflict_def)
    ultimately show "?P (Inr ()) ((view w)\<lparr>v_crypto_policies := add_mset (row\<lparr>pol_DeletedAt := Some t\<rparr>)
        (filter_mset (\<lambda>s. pol_ID s \<noteq> policyID) ?M)\<rparr>)"
      using row by (auto simp: other(1) [unfolded row(2)] owned_policy_def policy_active_def
          intro!: exI [of _ row] exI [of _ t])
  qed auto
  from wpD [OF this run] show ?thesis .
qed

theorem policy_delete_outcomes_witness:
  "\<exists>w w2. CreatePolicy mem_env policy_demo_scope policy_demo_input (mem_empty\<lparr>m_uuids := [9]\<rparr>)
       = (Inr policy_demo_result, w)
     \<and> DeletePolicy mem_env policy_demo_scope 9 w = (Inr (), w2)
     \<and> filter_mset (\<lambda>s. pol_ID s = 9 \<and> owned_policy policy_demo_scope s) (v_crypto_policies (mem_view w2)) = {#}"
proof -
  let ?create = "CreatePolicy mem_env policy_demo_scope policy_demo_input (mem_empty\<lparr>m_uuids := [9]\<rparr>)"
  let ?delete = "DeletePolicy mem_env policy_demo_scope 9 (snd ?create)"
  have created: "?create = (Inr policy_demo_result, snd ?create)" using policy_demo_create by (metis snd_conv)
  have "fst ?delete = Inr ()" by code_simp
  then have deleted: "?delete = (Inr (), snd ?delete)" by (metis prod.collapse)
  from policy_delete_outcomes [OF mem_world deleted]
  have "filter_mset (\<lambda>s. pol_ID s = 9 \<and> owned_policy policy_demo_scope s)
      (v_crypto_policies (mem_view (snd ?delete))) = {#}"
    by auto
  with created deleted show ?thesis by blast
qed

end
