(* ===== verification/Policy_Api.thy ===== *)
theory Policy_Api
  imports Http Policy_Store "HOL-Library.List_Lexorder" "HOL-Library.Char_ord"
begin

text \<open>
  \<^verbatim>\<open>internal/cpapi\<close>: the endpoints of the internal crypto-policy API, over the store of
  \<^verbatim>\<open>internal/cpstore\<close>. The decoder of the request body is a parameter (\<open>Request_Bodies\<close> defines it); the package's own copies of
  the response helpers have the prefix \<open>cp_\<close>, as have the handlers that share their name with an
  operation of the store.
\<close>

section \<open>Responses\<close>

definition cp_writeServiceUnavailable :: "request \<Rightarrow> response" where
  "cp_writeServiceUnavailable r =
     writeError r StatusServiceUnavailable ''PERSISTENCE_UNAVAILABLE'' ''Persistence is temporarily unavailable.''"

definition cp_writeBadRequest :: "request \<Rightarrow> string \<Rightarrow> response" where
  "cp_writeBadRequest r message = writeError r StatusBadRequest ''INVALID_REQUEST'' message"

definition writeInvalidWalletAddress :: "request \<Rightarrow> string \<Rightarrow> response" where
  "writeInvalidWalletAddress r message = writeError r StatusBadRequest ''INVALID_WALLET_ADDRESS'' message"

definition writePolicyNotFound :: "request \<Rightarrow> response" where
  "writePolicyNotFound r = writeError r StatusNotFound ''POLICY_NOT_FOUND'' ''Policy not found.''"

definition writeForbidden :: "request \<Rightarrow> response" where
  "writeForbidden r =
     writeError r StatusForbidden ''FORBIDDEN'' ''Resource is not accessible for the scoped owner.''"

definition writePolicyAlreadyExists :: "request \<Rightarrow> response" where
  "writePolicyAlreadyExists r = writeError r StatusConflict ''POLICY_ALREADY_EXISTS''
     ''An active crypto policy already exists for this wallet.''"

fun writeStoreError :: "request \<Rightarrow> store_error \<Rightarrow> response" where
  "writeStoreError r ErrPolicyNotFound = writePolicyNotFound r"
| "writeStoreError r ErrPolicyAlreadyExists = writePolicyAlreadyExists r"
| "writeStoreError r ErrForbidden = writeForbidden r"
| "writeStoreError r (ErrInvalidWalletAddress _) =
     writeInvalidWalletAddress r ''wallet_address must be a normalized EVM address''"
| "writeStoreError r ErrScanIDRequired = cp_writeBadRequest r ''scan_id is required''"
| "writeStoreError r ErrPayloadSHA256Required = cp_writeBadRequest r ''payload_sha256 is required''"
| "writeStoreError r ErrPayloadRequired = cp_writeBadRequest r ''payload is required''"
| "writeStoreError r ErrInvalidChainID = cp_writeBadRequest r ''chain_id must be >= 1''"
| "writeStoreError r ErrOwnerRequired = cp_writeBadRequest r ''X-User-Id header is required''"
| "writeStoreError r (StoreFailure _) = cp_writeServiceUnavailable r"

text \<open>A map in a response; the JSON encoder writes its keys in order.\<close>

definition any_JSONMap :: "JSONMap \<Rightarrow> any" where
  "any_JSONMap m = (case m of None \<Rightarrow> AnyNil | Some kvs \<Rightarrow> AnyMap (Mapping.ordered_entries kvs))"

definition policyRowJSON :: "'w env \<Rightarrow> PolicyRecord \<Rightarrow> any" where
  "policyRowJSON E rec = AnyMap (
     [(''id'', AnyString (uuid_String E (rec_ID rec))), (''user_id'', AnyString (rec_UserID rec)),
      (''scan_id'', AnyString (uuid_String E (rec_ScanID rec))),
      (''wallet_address'', AnyString (rec_WalletAddress rec)), (''chain_id'', AnyInt64 (rec_ChainID rec)),
      (''payload'', any_JSONMap (rec_Payload rec)), (''payload_sha256'', AnyString (rec_PayloadSHA256 rec)),
      (''status'', AnyString (rec_Status rec)),
      (''persisted_at'', AnyString (format_rfc3339 True (rec_PersistedAt rec))),
      (''created_at'', AnyString (format_rfc3339 True (rec_CreatedAt rec))),
      (''updated_at'', AnyString (format_rfc3339 True (rec_UpdatedAt rec)))]
     @ (if rec_TenantID rec \<noteq> '''' then [(''tenant_id'', AnyString (rec_TenantID rec))] else [])
     @ (if rec_SignedMessageHash rec \<noteq> ''''
        then [(''signed_message_hash'', AnyString (rec_SignedMessageHash rec))] else [])
     @ (if rec_OwnershipStatus rec \<noteq> ''''
        then [(''ownership_status'', AnyString (rec_OwnershipStatus rec))] else [])
     @ (if rec_WalletControlMethod rec \<noteq> ''''
        then [(''wallet_control_method'', AnyString (rec_WalletControlMethod rec))] else [])
     @ (case rec_WalletControlVerifiedAt rec of None \<Rightarrow> []
        | Some t \<Rightarrow> [(''wallet_control_verified_at'', AnyString (format_rfc3339 True t))])
     @ (case rec_ChallengeIssuedAt rec of None \<Rightarrow> []
        | Some t \<Rightarrow> [(''challenge_issued_at'', AnyString (format_rfc3339 True t))])
     @ (case rec_ChallengeExpiresAt rec of None \<Rightarrow> []
        | Some t \<Rightarrow> [(''challenge_expires_at'', AnyString (format_rfc3339 True t))]))"

definition createPolicyResponseJSON :: "'w env \<Rightarrow> CreatePolicyResult \<Rightarrow> any" where
  "createPolicyResponseJSON E result = AnyMap
     [(''policy_id'', AnyString (uuid_String E (cpr_PolicyID result))),
      (''scan_id'', AnyString (uuid_String E (cpr_ScanID result))),
      (''wallet_address'', AnyString (cpr_WalletAddress result)), (''chain_id'', AnyInt64 (cpr_ChainID result)),
      (''payload_sha256'', AnyString (cpr_PayloadSHA256 result)), (''status'', AnyString ''persisted''),
      (''ownership_status'', AnyString ''verified''), (''wallet_control_method'', AnyString ''eoa_signature''),
      (''persisted_at'', AnyString (format_rfc3339 True (cpr_PersistedAt result)))]"

section \<open>Requests\<close>

record CPHandler =
  cph_store :: bool

record createPolicyRequest =
  cp_ScanID :: uuid
  cp_WalletAddress :: string
  cp_ChainID :: "64 word"
  cp_Payload :: JSONMap
  cp_PayloadSHA256 :: string
  cp_SignedMessageHash :: string
  cp_WalletControlMethod :: string
  cp_WalletControlVerifiedAt :: gotime
  cp_ChallengeIssuedAt :: "gotime option"
  cp_ChallengeExpiresAt :: "gotime option"

type_synonym cp_codec = "string \<Rightarrow> createPolicyRequest option"

definition cp_decodeJSON :: "cp_codec \<Rightarrow> request \<Rightarrow> createPolicyRequest option" where
  "cp_decodeJSON C r = C (LimitReader (req_Body r) 1048576)"

definition requireOwnerScope :: "'w env \<Rightarrow> request \<Rightarrow> ('w, response, OwnerScope) prog" where
  "requireOwnerScope E r =
     (let rawUser = TrimSpace (req_Header r headerUserID) in
      if rawUser = '''' then throwP (cp_writeBadRequest r ''X-User-Id header is required'')
      else
        (case uuid_Parse E rawUser of
           None \<Rightarrow> throwP (cp_writeBadRequest r ''X-User-Id must be a valid UUID'')
         | Some _ \<Rightarrow> returnP \<lparr>scope_UserID = rawUser,
             scope_TenantID = TrimSpace (req_Header r headerTenantID)\<rparr>))"

definition cp_requireStore :: "CPHandler \<Rightarrow> request \<Rightarrow> ('w, response, unit) prog" where
  "cp_requireStore h r =
     (if \<not> cph_store h then throwP (cp_writeServiceUnavailable r) else returnP ())"

definition parseUUIDPath :: "'w env \<Rightarrow> request \<Rightarrow> string \<Rightarrow> ('w, response, uuid) prog" where
  "parseUUIDPath E r name =
     (let raw = TrimSpace (req_PathValue r name) in
      if raw = '''' then throwP (cp_writeBadRequest r (name @ '' must be a UUID''))
      else
        (case uuid_Parse E raw of
           None \<Rightarrow> throwP (cp_writeBadRequest r (name @ '' must be a UUID''))
         | Some i \<Rightarrow>
             if i = uuid_Nil then throwP (cp_writeBadRequest r (name @ '' must be a UUID''))
             else returnP i))"

definition parsePolicyIDPath :: "'w env \<Rightarrow> request \<Rightarrow> ('w, response, uuid) prog" where
  "parsePolicyIDPath E r = parseUUIDPath E r ''policy_id''"

text \<open>The query parameter \<^verbatim>\<open>scan_id\<close> of the listing and of the scan references.\<close>

definition scanIDQuery :: "'w env \<Rightarrow> request \<Rightarrow> ('w, response, uuid) prog" where
  "scanIDQuery E r =
     (let scanIDStr = TrimSpace (req_Query r ''scan_id'') in
      if scanIDStr = '''' then throwP (cp_writeBadRequest r ''scan_id query parameter is required'')
      else
        (case uuid_Parse E scanIDStr of
           None \<Rightarrow> throwP (cp_writeBadRequest r ''scan_id must be a valid UUID'')
         | Some scanID \<Rightarrow>
             if scanID = uuid_Nil then throwP (cp_writeBadRequest r ''scan_id must be a valid UUID'')
             else returnP scanID))"

text \<open>The package has its own copy of the page parameters.\<close>

definition cp_parsePagination :: "string \<Rightarrow> string \<Rightarrow> int \<times> int" where
  "cp_parsePagination limitStr offsetStr =
     (let limit = 20; offset = 0;
          limit = (if limitStr \<noteq> '''' then (case Atoi limitStr of Some v \<Rightarrow> v | None \<Rightarrow> limit) else limit);
          offset = (if offsetStr \<noteq> '''' then (case Atoi offsetStr of Some v \<Rightarrow> v | None \<Rightarrow> offset) else offset);
          limit = (if limit < 1 then 20 else limit);
          limit = (if limit > 100 then 100 else limit);
          offset = (if offset < 0 then 0 else offset)
      in (limit, offset))"

lemma cp_parsePagination_copy [simp]: "cp_parsePagination = parsePagination"
  by (simp add: fun_eq_iff cp_parsePagination_def parsePagination_def Let_def)

section \<open>Handlers\<close>

definition createPolicyInput :: "createPolicyRequest \<Rightarrow> CreatePolicyInput" where
  "createPolicyInput req = \<lparr>in_ScanID = cp_ScanID req, in_WalletAddress = cp_WalletAddress req,
     in_ChainID = cp_ChainID req, in_Payload = cp_Payload req, in_PayloadSHA256 = cp_PayloadSHA256 req,
     in_SignedMessageHash = cp_SignedMessageHash req, in_WalletControlMethod = cp_WalletControlMethod req,
     in_WalletControlVerifiedAt = cp_WalletControlVerifiedAt req,
     in_ChallengeIssuedAt = cp_ChallengeIssuedAt req, in_ChallengeExpiresAt = cp_ChallengeExpiresAt req\<rparr>"

definition cp_CreatePolicy :: "'w env \<Rightarrow> cp_codec \<Rightarrow> CPHandler \<Rightarrow> 'w handler" where
  "cp_CreatePolicy E C h r =
     bindP (requireOwnerScope E r) (\<lambda>scope.
     bindP (cp_requireStore h r) (\<lambda>_.
     case cp_decodeJSON C r of
       None \<Rightarrow> throwP (cp_writeBadRequest r ''invalid request body'')
     | Some req \<Rightarrow>
         if TrimSpace (cp_WalletAddress req) = '''' \<or> sint (cp_ChainID req) < 1 \<or> cp_ScanID req = uuid_Nil
            \<or> TrimSpace (cp_PayloadSHA256 req) = '''' \<or> cp_Payload req = None
            \<or> cp_WalletControlVerifiedAt req = 0
         then throwP (cp_writeBadRequest r ''scan_id, wallet_address, chain_id, payload, payload_sha256, and wallet_control_verified_at are required'')
         else
           bindP (mapErrP (writeStoreError r) (CreatePolicy E scope (createPolicyInput req))) (\<lambda>result.
           returnP (writeJSON StatusCreated (createPolicyResponseJSON E result)))))"

definition cp_GetPolicy :: "'w env \<Rightarrow> CPHandler \<Rightarrow> 'w handler" where
  "cp_GetPolicy E h r =
     bindP (requireOwnerScope E r) (\<lambda>scope.
     bindP (cp_requireStore h r) (\<lambda>_.
     bindP (parsePolicyIDPath E r) (\<lambda>policyID.
     bindP (mapErrP (writeStoreError r) (GetPolicy E scope policyID)) (\<lambda>rec.
     returnP (writeJSON StatusOK (policyRowJSON E rec))))))"

definition cp_DeletePolicy :: "'w env \<Rightarrow> CPHandler \<Rightarrow> 'w handler" where
  "cp_DeletePolicy E h r =
     bindP (requireOwnerScope E r) (\<lambda>scope.
     bindP (cp_requireStore h r) (\<lambda>_.
     bindP (parsePolicyIDPath E r) (\<lambda>policyID.
     bindP (mapErrP (writeStoreError r) (DeletePolicy E scope policyID)) (\<lambda>_.
     returnP (WriteHeader StatusNoContent)))))"

definition ListPoliciesByScan :: "'w env \<Rightarrow> CPHandler \<Rightarrow> 'w handler" where
  "ListPoliciesByScan E h r =
     bindP (requireOwnerScope E r) (\<lambda>scope.
     bindP (cp_requireStore h r) (\<lambda>_.
     bindP (scanIDQuery E r) (\<lambda>scanID.
     case cp_parsePagination (req_Query r ''limit'') (req_Query r ''offset'') of (limit, offset) \<Rightarrow>
     bindP (mapErrP (writeStoreError r) (ListPersistedPoliciesForScan E scope scanID limit offset)) (\<lambda>result.
     returnP (writeJSON StatusOK (AnyMap
       [(''items'', AnySlice (map (policyRowJSON E) (lpr_Items result))),
        (''total'', AnyInt64 (word_of_int (lpr_Total result))),
        (''limit'', AnyInt64 (word_of_int (lpr_Limit result))),
        (''offset'', AnyInt64 (word_of_int (lpr_Offset result)))]))))))"

definition cp_CountPoliciesByWallet :: "'w env \<Rightarrow> CPHandler \<Rightarrow> 'w handler" where
  "cp_CountPoliciesByWallet E h r =
     bindP (requireOwnerScope E r) (\<lambda>scope.
     bindP (cp_requireStore h r) (\<lambda>_.
     let wallet = TrimSpace (req_Query r ''wallet_address'') in
     if wallet = '''' then throwP (cp_writeBadRequest r ''wallet_address query parameter is required'')
     else
       bindP (mapErrP (writeStoreError r) (CountPoliciesByWallet E scope wallet)) (\<lambda>counts.
       returnP (writeJSON StatusOK (AnyMap [(''exists'', AnyBool (wrc_Exists counts)),
         (''policy_count'', AnyInt64 (word_of_int (wrc_PolicyCount counts)))])))))"

definition cp_CountPoliciesByScan :: "'w env \<Rightarrow> CPHandler \<Rightarrow> 'w handler" where
  "cp_CountPoliciesByScan E h r =
     bindP (requireOwnerScope E r) (\<lambda>scope.
     bindP (cp_requireStore h r) (\<lambda>_.
     bindP (scanIDQuery E r) (\<lambda>scanID.
     bindP (mapErrP (writeStoreError r) (CountPoliciesByScan E scope scanID)) (\<lambda>counts.
     returnP (writeJSON StatusOK (AnyMap [(''referenced'', AnyBool (src_Referenced counts)),
       (''count'', AnyInt64 (word_of_int (src_Count counts)))]))))))"

section \<open>Rules for the handlers\<close>

definition request_owner :: "'w env \<Rightarrow> request \<Rightarrow> OwnerScope option" where
  "request_owner E r =
     (let rawUser = TrimSpace (req_Header r headerUserID) in
      if rawUser = '''' \<or> uuid_Parse E rawUser = None then None
      else Some \<lparr>scope_UserID = rawUser, scope_TenantID = TrimSpace (req_Header r headerTenantID)\<rparr>)"

definition uuid_param :: "'w env \<Rightarrow> string \<Rightarrow> uuid option" where
  "uuid_param E s =
     (if TrimSpace s = '''' \<or> uuid_Parse E (TrimSpace s) = Some uuid_Nil then None
      else uuid_Parse E (TrimSpace s))"

lemma cp_status [simp]:
  "resp_Status (cp_writeServiceUnavailable r) = StatusServiceUnavailable"
  "resp_Status (cp_writeBadRequest r m) = StatusBadRequest"
  "resp_Status (writeInvalidWalletAddress r m) = StatusBadRequest"
  "resp_Status (writePolicyNotFound r) = StatusNotFound"
  "resp_Status (writeForbidden r) = StatusForbidden"
  "resp_Status (writePolicyAlreadyExists r) = StatusConflict"
  by (simp_all add: cp_writeServiceUnavailable_def cp_writeBadRequest_def writeInvalidWalletAddress_def
      writePolicyNotFound_def writeForbidden_def writePolicyAlreadyExists_def)

lemma wp_requireOwnerScope:
  assumes "\<And>scope. request_owner E r = Some scope \<Longrightarrow> scope_UserID scope \<noteq> '''' \<Longrightarrow> Q (Inr scope) v"
    and "\<And>resp. request_owner E r = None \<Longrightarrow> resp_Status resp = StatusBadRequest \<Longrightarrow> Q (Inl resp) v"
  shows "wp view (requireOwnerScope E r) Q v"
  unfolding requireOwnerScope_def Let_def
  by (intro wp_if wp_throw wp_case_option wp_return) (use assms in \<open>auto simp: request_owner_def Let_def\<close>)

lemma wp_cp_requireStore:
  assumes "cph_store h \<Longrightarrow> Q (Inr ()) v" and "\<And>resp. resp_Status resp = StatusServiceUnavailable \<Longrightarrow> Q (Inl resp) v"
  shows "wp view (cp_requireStore h r) Q v"
  unfolding cp_requireStore_def by (intro wp_if wp_throw wp_return) (use assms in auto)

lemma wp_parsePolicyIDPath:
  assumes "\<And>i. uuid_param E (req_PathValue r ''policy_id'') = Some i \<Longrightarrow> Q (Inr i) v"
    and "\<And>resp. resp_Status resp = StatusBadRequest \<Longrightarrow> Q (Inl resp) v"
  shows "wp view (parsePolicyIDPath E r) Q v"
  unfolding parsePolicyIDPath_def parseUUIDPath_def Let_def
  by (intro wp_if wp_throw wp_case_option wp_return) (use assms in \<open>auto simp: uuid_param_def\<close>)

lemma wp_scanIDQuery:
  assumes "\<And>i. uuid_param E (req_Query r ''scan_id'') = Some i \<Longrightarrow> i \<noteq> uuid_Nil \<Longrightarrow> Q (Inr i) v"
    and "\<And>resp. resp_Status resp = StatusBadRequest \<Longrightarrow> Q (Inl resp) v"
  shows "wp view (scanIDQuery E r) Q v"
  unfolding scanIDQuery_def Let_def
  by (intro wp_if wp_throw wp_case_option wp_return) (use assms in \<open>auto simp: uuid_param_def\<close>)

lemmas wp_cp = wp_bind wp_return wp_throw wp_if wp_case_option wp_case_prod wp_mapErr
  wp_requireOwnerScope wp_cp_requireStore wp_parsePolicyIDPath wp_scanIDQuery case_sum_InrI case_sum_InlI

lemma input_error_status:
  "policy_input_error scope inp = Some e \<Longrightarrow> resp_Status (writeStoreError r e) = StatusBadRequest"
  by (auto simp: policy_input_error_def split: if_splits sum.splits)

section \<open>Properties of the endpoints\<close>

text \<open>
  C27. Creating a policy over HTTP: a 201 is answered exactly by the runs that add a row, the row
  belongs to the owner named in the headers and the body describes it; every other answer is 400,
  409 or 503 and leaves the system as it was; without an owner the answer is 400.
\<close>

theorem create_policy_endpoint:
  assumes world: "world E view" and run: "serve (cp_CreatePolicy E C h) r w = (resp, w')"
  shows "if resp_Status resp = StatusCreated
    then \<exists>scope req row. request_owner E r = Some scope \<and> cp_decodeJSON C r = Some req \<and> cph_store h
      \<and> policy_row_of E scope (createPolicyInput req) row
      \<and> resp = writeJSON StatusCreated (createPolicyResponseJSON E (policy_result_of row))
      \<and> view w' = (view w)\<lparr>v_crypto_policies := add_mset row (v_crypto_policies (view w))\<rparr>
    else view w' = view w \<and> resp_Status resp \<in> {StatusBadRequest, StatusConflict, StatusServiceUnavailable}
      \<and> (request_owner E r = None \<longrightarrow> resp_Status resp = StatusBadRequest)"
    (is "?P resp (view w')")
proof (rule wp_serve [of view "cp_CreatePolicy E C h" r, OF _ run])
  show "wp view (cp_CreatePolicy E C h r)
      (\<lambda>x v'. case x of Inl resp \<Rightarrow> ?P resp v' | Inr resp \<Rightarrow> ?P resp v') (view w)"
    unfolding cp_CreatePolicy_def
    by (intro wp_cp world.wp_CreatePolicy [OF world])
      (auto simp: status_defs writeJSON_def dest: input_error_status [where r = r])
qed

context world
begin

lemma wp_CountPoliciesByWallet:
  assumes "\<And>needle. NormalizeWalletTargetAddress a = Inr needle
      \<Longrightarrow> let n = int (size (filter_mset (\<lambda>r. owned_policy scope r \<and> pol_WalletAddress r = needle) (v_crypto_policies v)))
         in Q (Inr \<lparr>wrc_Exists = (n > 0), wrc_PolicyCount = n\<rparr>) v"
    and "\<And>e. e \<in> {ErrOwnerRequired} \<union> range ErrInvalidWalletAddress \<union> range StoreFailure \<Longrightarrow> Q (Inl e) v"
  shows "wp view (CountPoliciesByWallet E scope a) Q v"
  unfolding CountPoliciesByWallet_def
  by (intro wp_intro policy.wp_Count) (use assms in \<open>auto simp: Let_def\<close>)

lemma wp_CountPoliciesByScan:
  assumes "let n = int (size (filter_mset (\<lambda>r. owned_policy scope r \<and> pol_ScanID r = scanID) (v_crypto_policies v)))
         in Q (Inr \<lparr>src_Referenced = (n > 0), src_Count = n\<rparr>) v"
    and "\<And>e. e \<in> {ErrOwnerRequired, ErrScanIDRequired} \<union> range StoreFailure \<Longrightarrow> Q (Inl e) v"
  shows "wp view (CountPoliciesByScan E scope scanID) Q v"
  unfolding CountPoliciesByScan_def
  by (intro wp_intro policy.wp_Count) (use assms in \<open>auto simp: Let_def\<close>)

lemma wp_ListPersistedPolicies:
  assumes "\<And>rows ents. mset rows = filter_mset (\<lambda>r. owned_policy scope r \<and> pol_ScanID r = scanID) (v_crypto_policies v)
      \<Longrightarrow> sorted (map policy_newest rows)
      \<Longrightarrow> list_all2 (\<lambda>row ent. \<exists>m. ent = row\<lparr>pol_Payload := m\<rparr> \<and> JSONMap_Scan E (pol_Payload row) = Some m)
            (gorm_page limit offset rows) ents
      \<Longrightarrow> Q (Inr \<lparr>lpr_Items = map policyFromEntity ents, lpr_Total = int (size (filter_mset
                    (\<lambda>r. owned_policy scope r \<and> pol_ScanID r = scanID) (v_crypto_policies v))),
                  lpr_Limit = limit, lpr_Offset = offset\<rparr>) v"
    and "\<And>e. e \<in> {ErrOwnerRequired, ErrScanIDRequired} \<union> range StoreFailure \<Longrightarrow> Q (Inl e) v"
    and limit: "1 \<le> limit" "limit \<le> 100" "0 \<le> offset"
  shows "wp view (ListPersistedPoliciesForScan E scope scanID limit offset) Q v"
proof -
  have bounds: "(if limit \<le> 0 then 20 else limit) = limit" "(if limit > 100 then 100 else limit) = limit"
      "(if offset < 0 then 0 else offset) = offset"
    using limit by auto
  show ?thesis
    unfolding ListPersistedPoliciesForScan_def Let_def bounds
    by (intro wp_intro policy.wp_Count policy.wp_FindPage wp_pol_read_all)
      (use assms(1,2) in auto)
qed

end

text \<open>
  What the reading endpoints may answer, as a relation between the request, the live policies of its
  owner and the response: no other row enters.
\<close>

type_synonym 'w answer = "'w env \<Rightarrow> request \<Rightarrow> CryptoPolicyEntity multiset \<Rightarrow> response \<Rightarrow> bool"

definition policy_document :: "'w env \<Rightarrow> CryptoPolicyEntity \<Rightarrow> any \<Rightarrow> bool" where
  "policy_document E row doc \<longleftrightarrow> (\<exists>m. JSONMap_Scan E (pol_Payload row) = Some m
     \<and> doc = policyRowJSON E (policyFromEntity (row\<lparr>pol_Payload := m\<rparr>)))"

definition get_answer :: "'w answer" where
  "get_answer E r own resp \<longleftrightarrow> (\<exists>row doc. row \<in># own
     \<and> uuid_param E (req_PathValue r ''policy_id'') = Some (pol_ID row)
     \<and> policy_document E row doc \<and> resp = writeJSON StatusOK doc)"

definition list_answer :: "'w answer" where
  "list_answer E r own resp \<longleftrightarrow> (\<exists>scanID rows docs limit offset.
     uuid_param E (req_Query r ''scan_id'') = Some scanID
     \<and> parsePagination (req_Query r ''limit'') (req_Query r ''offset'') = (limit, offset)
     \<and> mset rows = filter_mset (\<lambda>row. pol_ScanID row = scanID) own \<and> sorted (map policy_newest rows)
     \<and> list_all2 (policy_document E) (take (nat limit) (drop (nat offset) rows)) docs
     \<and> resp = writeJSON StatusOK (AnyMap [(''items'', AnySlice docs),
         (''total'', AnyInt64 (of_nat (length rows))), (''limit'', AnyInt64 (word_of_int limit)),
         (''offset'', AnyInt64 (word_of_int offset))]))"

definition wallet_count_answer :: "'w answer" where
  "wallet_count_answer E r own resp \<longleftrightarrow> (\<exists>needle.
     NormalizeWalletTargetAddress (TrimSpace (req_Query r ''wallet_address'')) = Inr needle
     \<and> (let n = size (filter_mset (\<lambda>row. pol_WalletAddress row = needle) own)
        in resp = writeJSON StatusOK (AnyMap [(''exists'', AnyBool (n > 0)), (''policy_count'', AnyInt64 (of_nat n))])))"

definition scan_count_answer :: "'w answer" where
  "scan_count_answer E r own resp \<longleftrightarrow> (\<exists>scanID. uuid_param E (req_Query r ''scan_id'') = Some scanID
     \<and> (let n = size (filter_mset (\<lambda>row. pol_ScanID row = scanID) own)
        in resp = writeJSON StatusOK (AnyMap [(''referenced'', AnyBool (n > 0)), (''count'', AnyInt64 (of_nat n))])))"

definition cp_read_post :: "'w env \<Rightarrow> 'w answer \<Rightarrow> request \<Rightarrow> sys \<Rightarrow> response \<Rightarrow> sys \<Rightarrow> bool" where
  "cp_read_post E answer r v resp v' \<longleftrightarrow> v' = v
     \<and> (case request_owner E r of
          None \<Rightarrow> resp_Status resp = StatusBadRequest
        | Some scope \<Rightarrow> resp_Status resp \<in> {StatusBadRequest, StatusNotFound, StatusServiceUnavailable}
            \<or> answer E r (filter_mset (owned_policy scope) (v_crypto_policies v)) resp)"

abbreviation cp_serves :: "('w \<Rightarrow> sys) \<Rightarrow> 'w env \<Rightarrow> 'w answer \<Rightarrow> 'w handler \<Rightarrow> request \<Rightarrow> sys \<Rightarrow> bool" where
  "cp_serves view E answer h r v \<equiv> wp view (h r)
     (\<lambda>x v'. case x of Inl resp \<Rightarrow> cp_read_post E answer r v resp v'
        | Inr resp \<Rightarrow> cp_read_post E answer r v resp v') v"

context world
begin


lemma cp_GetPolicy_serves: "cp_serves view E get_answer (cp_GetPolicy E h) r v"
  unfolding cp_GetPolicy_def
  by (intro wp_cp wp_GetPolicy)
    (auto simp: cp_read_post_def get_answer_def policy_document_def)

lemma cp_CountPoliciesByScan_serves: "cp_serves view E scan_count_answer (cp_CountPoliciesByScan E h) r v"
  unfolding cp_CountPoliciesByScan_def
  by (intro wp_cp wp_CountPoliciesByScan)
    (auto simp: cp_read_post_def scan_count_answer_def Let_def filter_filter_mset conj_commute
      intro!: wp_return)

lemma cp_CountPoliciesByWallet_serves:
  "cp_serves view E wallet_count_answer (cp_CountPoliciesByWallet E h) r v"
  unfolding cp_CountPoliciesByWallet_def Let_def
  by (intro wp_cp wp_CountPoliciesByWallet)
    (auto simp: cp_read_post_def wallet_count_answer_def Let_def filter_filter_mset conj_commute
      intro!: wp_return)

lemma list_answerI:
  assumes scope: "request_owner E r = Some scope" and scan: "uuid_param E (req_Query r ''scan_id'') = Some scanID"
    and page: "parsePagination (req_Query r ''limit'') (req_Query r ''offset'') = (limit, offset)"
    and rows: "mset rows = filter_mset (\<lambda>r. owned_policy scope r \<and> pol_ScanID r = scanID) (v_crypto_policies v)"
    and sorted: "sorted (map policy_newest rows)"
    and ents: "list_all2 (\<lambda>row ent. \<exists>m. ent = row\<lparr>pol_Payload := m\<rparr> \<and> JSONMap_Scan E (pol_Payload row) = Some m)
        (gorm_page limit offset rows) ents"
    and limit: "1 \<le> limit" "0 \<le> offset"
  shows "cp_read_post E list_answer r v (writeJSON StatusOK (AnyMap
      [(''items'', AnySlice (map (policyRowJSON E) (map policyFromEntity ents))),
       (''total'', AnyInt64 (word_of_int (int (size (filter_mset
          (\<lambda>r. owned_policy scope r \<and> pol_ScanID r = scanID) (v_crypto_policies v)))))),
       (''limit'', AnyInt64 (word_of_int limit)), (''offset'', AnyInt64 (word_of_int offset))])) v"
proof -
  let ?docs = "map (policyRowJSON E) (map policyFromEntity ents)"
  have "gorm_page limit offset rows = take (nat limit) (drop (nat offset) rows)"
    using limit by (simp add: gorm_page_def)
  with ents have docs: "list_all2 (policy_document E) (take (nat limit) (drop (nat offset) rows)) ?docs"
    by (auto simp: list_all2_map2 policy_document_def elim!: list_all2_mono)
  have n: "size (filter_mset (\<lambda>r. owned_policy scope r \<and> pol_ScanID r = scanID) (v_crypto_policies v)) = length rows"
    using arg_cong [OF rows, of size] by simp
  have own: "mset rows = filter_mset (\<lambda>row. pol_ScanID row = scanID)
      (filter_mset (owned_policy scope) (v_crypto_policies v))"
    using rows by (simp add: filter_filter_mset conj_commute)
  show ?thesis
    unfolding cp_read_post_def scope option.case n list_answer_def
    using scan page own sorted docs by (simp add: scope) blast
qed

lemma ListPoliciesByScan_serves: "cp_serves view E list_answer (ListPoliciesByScan E h) r v"
proof -
  have page: "1 \<le> limit" "limit \<le> 100" "0 \<le> offset" if "parsePagination l off = (limit, offset)" for l off limit offset
    using that by (auto simp: parsePagination_def Let_def split: if_splits option.splits)
  have refused: "cp_read_post E list_answer r v resp v"
    if "request_owner E r = None \<and> resp_Status resp = StatusBadRequest
      \<or> (\<exists>scope. request_owner E r = Some scope) \<and> resp_Status resp \<in> {StatusBadRequest, StatusServiceUnavailable}"
    for resp
    using that by (auto simp: cp_read_post_def)
  show ?thesis
    unfolding ListPoliciesByScan_def cp_parsePagination_copy
  proof (intro wp_cp wp_ListPersistedPolicies, goal_cases)
    case (1 scope scanID limit offset rows ents)
    then show ?case
      by (simp only: ListPoliciesResult.simps) (rule list_answerI; (assumption | erule page))
  qed (auto intro!: refused dest: page)
qed

end

text \<open>
  C30. The reading endpoints change nothing and see only the caller: without an owner in the headers
  the answer is 400; with one it is an error, or it is computed from that owner's live policies alone
  and is what the endpoint promises: the policy with the requested id, the requested page of the
  policies of a scan (newest first, with the number of all of them), or the number of policies of a
  wallet or a scan.
\<close>

theorem policy_reads_are_owner_scoped:
  assumes world: "world E view"
    and endpoint: "(endpoint, answer) \<in> {(cp_GetPolicy E h, get_answer), (ListPoliciesByScan E h, list_answer),
        (cp_CountPoliciesByWallet E h, wallet_count_answer), (cp_CountPoliciesByScan E h, scan_count_answer)}"
    and run: "serve endpoint r w = (resp, w')"
  shows "cp_read_post E answer r (view w) resp (view w')"
  by (rule wp_serve [OF _ run])
    (use endpoint world in \<open>auto intro: world.cp_GetPolicy_serves world.ListPoliciesByScan_serves
      world.cp_CountPoliciesByWallet_serves world.cp_CountPoliciesByScan_serves\<close>)

text \<open>A request for the witnesses: the headers name user 2 in tenant \<^verbatim>\<open>t1\<close>.\<close>

definition cp_demo_request :: "string \<Rightarrow> request" where
  "cp_demo_request user = \<lparr>req_Header = (\<lambda>k. if k = ''X-User-Id'' then user
       else if k = ''X-Tenant-Id'' then ''t1'' else ''''),
     req_Query = (\<lambda>k. if k = ''scan_id'' then ''xxx'' else ''''),
     req_PathValue = (\<lambda>k. if k = ''policy_id'' then ''xxxxxxxxx'' else ''''),
     req_Body = ''{}''\<rparr>"

definition cp_demo_codec :: cp_codec where
  "cp_demo_codec s = Some \<lparr>cp_ScanID = 3, cp_WalletAddress = ''0xABCDEFabcdef0123456789ABCDEFabcdef012345'',
     cp_ChainID = 1, cp_Payload = Some Mapping.empty, cp_PayloadSHA256 = ''ff'', cp_SignedMessageHash = '''',
     cp_WalletControlMethod = '''', cp_WalletControlVerifiedAt = 7, cp_ChallengeIssuedAt = None,
     cp_ChallengeExpiresAt = None\<rparr>"

definition cp_demo_created :: "response \<times> mem" where
  "cp_demo_created = serve (cp_CreatePolicy mem_env cp_demo_codec \<lparr>cph_store = True\<rparr>)
     (cp_demo_request ''xx'') (mem_empty\<lparr>m_uuids := [9]\<rparr>)"

theorem create_policy_endpoint_witness:
  "resp_Status (fst cp_demo_created) = StatusCreated
   \<and> (\<exists>row. v_crypto_policies (mem_view (snd cp_demo_created))
        = add_mset row (v_crypto_policies (mem_view (mem_empty\<lparr>m_uuids := [9]\<rparr>))))"
proof -
  have created: "resp_Status (fst cp_demo_created) = StatusCreated" by code_simp
  have "serve (cp_CreatePolicy mem_env cp_demo_codec \<lparr>cph_store = True\<rparr>)
      (cp_demo_request ''xx'') (mem_empty\<lparr>m_uuids := [9]\<rparr>) = (fst cp_demo_created, snd cp_demo_created)"
    by (simp add: cp_demo_created_def)
  from create_policy_endpoint [OF mem_world this] created obtain row where
    "mem_view (snd cp_demo_created) = (mem_view (mem_empty\<lparr>m_uuids := [9]\<rparr>))\<lparr>v_crypto_policies :=
       add_mset row (v_crypto_policies (mem_view (mem_empty\<lparr>m_uuids := [9]\<rparr>)))\<rparr>"
    by auto
  with created show ?thesis by (auto intro!: exI [of _ row])
qed

theorem policy_reads_are_owner_scoped_witness:
  "let list = serve (ListPoliciesByScan mem_env \<lparr>cph_store = True\<rparr>) (cp_demo_request ''xx'') (snd cp_demo_created)
   in resp_Status (fst list) = StatusOK
     \<and> cp_read_post mem_env list_answer (cp_demo_request ''xx'') (mem_view (snd cp_demo_created))
         (fst list) (mem_view (snd list))"
proof -
  let ?list = "serve (ListPoliciesByScan mem_env \<lparr>cph_store = True\<rparr>) (cp_demo_request ''xx'') (snd cp_demo_created)"
  have ok: "resp_Status (fst ?list) = StatusOK" by code_simp
  have "?list = (fst ?list, snd ?list)" by simp
  from policy_reads_are_owner_scoped [OF mem_world _ this, of list_answer "\<lparr>cph_store = True\<rparr>"] ok
  show ?thesis by (simp add: Let_def)
qed

end
