(* ===== verification/Serve_Mux.thy ===== *)
theory Serve_Mux
  imports Http
begin

text \<open>
  \<^verbatim>\<open>net/http.ServeMux\<close> as the sources use it: patterns of a method and a path whose segments are
  literals or single-segment wildcards. A request's path is the list of its segments, percent escapes
  left out; a path that ends in a slash has an empty last segment. Paths that are not clean are
  redirected to their clean form and do not reach a handler.
\<close>

section \<open>Patterns\<close>

datatype segment = Lit string | Wild string

fun split_slash :: "string \<Rightarrow> string list" where
  "split_slash [] = ['''']"
| "split_slash (c # cs) =
     (if c = CHR ''/'' then '''' # split_slash cs
      else (case split_slash cs of s # ss \<Rightarrow> (c # s) # ss | [] \<Rightarrow> [[c]]))"

definition parse_segment :: "string \<Rightarrow> segment" where
  "parse_segment s =
     (if length s > 2 \<and> hd s = CHR ''{'' \<and> last s = CHR ''}'' then Wild (butlast (tl s)) else Lit s)"

type_synonym pattern = "string \<times> segment list"

text \<open>\<^verbatim>\<open>METHOD /path\<close>; \<open>None\<close> is the panic on a malformed pattern.\<close>

definition parsePattern :: "string \<Rightarrow> pattern option" where
  "parsePattern s =
     (let method = takeWhile (\<lambda>c. c \<noteq> CHR '' '') s;
          path = drop (Suc (length method)) s
      in if method = '''' \<or> \<not> HasPrefix path ''/'' then None
         else Some (method, map parse_segment (split_slash (tl path))))"

section \<open>Conflicts\<close>

fun seg_covers :: "segment \<Rightarrow> segment \<Rightarrow> bool" where
  "seg_covers (Wild _) _ = True"
| "seg_covers (Lit a) (Lit b) = (a = b)"
| "seg_covers (Lit a) (Wild _) = False"

definition covers :: "segment list \<Rightarrow> segment list \<Rightarrow> bool" where
  "covers p q = list_all2 seg_covers p q"

definition overlaps :: "segment list \<Rightarrow> segment list \<Rightarrow> bool" where
  "overlaps p q = list_all2 (\<lambda>a b. seg_covers a b \<or> seg_covers b a) p q"

text \<open>
  Two patterns conflict when some path matches both and neither is more specific. Patterns for
  different methods never do (no pattern here is for \<^verbatim>\<open>HEAD\<close>, which a \<^verbatim>\<open>GET\<close> pattern includes).
\<close>

definition conflicts :: "pattern \<Rightarrow> pattern \<Rightarrow> bool" where
  "conflicts p q \<longleftrightarrow> fst p = fst q \<and> overlaps (snd p) (snd q) \<and> covers (snd p) (snd q) = covers (snd q) (snd p)"

type_synonym 'h mux = "(pattern \<times> 'h) list"

definition HandleFunc :: "string \<Rightarrow> 'h \<Rightarrow> 'h mux \<Rightarrow> 'h mux option" where
  "HandleFunc pattern h mux =
     (case parsePattern pattern of
        None \<Rightarrow> None
      | Some p \<Rightarrow> if list_ex (\<lambda>(q, _). conflicts p q) mux then None else Some (mux @ [(p, h)]))"

section \<open>Matching\<close>

text \<open>
  The walk through the routing tree: at each segment the patterns with that literal are tried first,
  then, if the segment is not empty, those with a wildcard.
\<close>

fun lit_step :: "string \<Rightarrow> (segment list \<times> 'a) list \<Rightarrow> (segment list \<times> 'a) list" where
  "lit_step s [] = []"
| "lit_step s ((Lit t # ps, x) # cands) = (if s = t then (ps, x) # lit_step s cands else lit_step s cands)"
| "lit_step s (_ # cands) = lit_step s cands"

fun wild_step :: "string \<Rightarrow> (segment list \<times> (string \<times> string) list \<times> 'h) list
  \<Rightarrow> (segment list \<times> (string \<times> string) list \<times> 'h) list" where
  "wild_step s [] = []"
| "wild_step s ((Wild x # ps, m, h) # cands) = (ps, m @ [(x, s)], h) # wild_step s cands"
| "wild_step s (_ # cands) = wild_step s cands"

fun matchPath :: "(segment list \<times> (string \<times> string) list \<times> 'h) list \<Rightarrow> string list
  \<Rightarrow> ((string \<times> string) list \<times> 'h) option" where
  "matchPath cands [] = map_of cands []"
| "matchPath cands (s # ss) =
     (case matchPath (lit_step s cands) ss of
        Some r \<Rightarrow> Some r
      | None \<Rightarrow> if s = [] then None else matchPath (wild_step s cands) ss)"

definition matchMethod :: "'h mux \<Rightarrow> string \<Rightarrow> string list \<Rightarrow> ((string \<times> string) list \<times> 'h) option" where
  "matchMethod mux method path =
     matchPath (List.map_filter (\<lambda>((m, p), h). if m = method then Some (p, [], h) else None) mux) path"

datatype 'h found = Found "(string \<times> string) list" 'h | NoRoute | OtherMethods "string list"

text \<open>
  \<^verbatim>\<open>HEAD\<close> falls back to \<^verbatim>\<open>GET\<close>. Without a match the answer is 405 when the path exists under other
  methods, with their names, and 404 otherwise.
\<close>

definition findHandler :: "'h mux \<Rightarrow> string \<Rightarrow> string list \<Rightarrow> 'h found" where
  "findHandler mux method path =
     (case matchMethod mux method path of
        Some (m, h) \<Rightarrow> Found m h
      | None \<Rightarrow>
          (case (if method = ''HEAD'' then matchMethod mux ''GET'' path else None) of
             Some (m, h) \<Rightarrow> Found m h
           | None \<Rightarrow>
               let allowed = filter (\<lambda>m. matchMethod mux m path \<noteq> None) (remdups (map (fst \<circ> fst) mux))
               in if allowed = [] then NoRoute
                  else OtherMethods (allowed @ (if ''GET'' \<in> set allowed then [''HEAD''] else []))))"

definition StatusMethodNotAllowed :: int where "StatusMethodNotAllowed = 405"
definition StatusTemporaryRedirect :: int where "StatusTemporaryRedirect = 307"

text \<open>
  \<^verbatim>\<open>cleanPath\<close> leaves a path as it is when it has no dot segments and no empty segment but the last.
\<close>

definition clean_path :: "string list \<Rightarrow> bool" where
  "clean_path path \<longleftrightarrow> path \<noteq> [] \<and> list_all (\<lambda>s. s \<noteq> ''.'' \<and> s \<noteq> ''..'') path
     \<and> list_all (\<lambda>s. s \<noteq> '''') (butlast path)"

definition path_values :: "(string \<times> string) list \<Rightarrow> string \<Rightarrow> string" where
  "path_values m x = (case map_of m x of None \<Rightarrow> '''' | Some s \<Rightarrow> s)"

text \<open>
  The handlers of a mux are named; \<open>run\<close> gives the handler of a name. A path that is not clean is
  redirected, whether or not its clean form has a route, except for \<^verbatim>\<open>CONNECT\<close>. The plain-text bodies of
  404 and 405 and the headers \<^verbatim>\<open>Allow\<close> and \<^verbatim>\<open>Location\<close> are left out.
\<close>

definition ServeHTTP :: "('h \<Rightarrow> 'w http_handler) \<Rightarrow> 'h mux \<Rightarrow> string \<Rightarrow> string list \<Rightarrow> 'w http_handler" where
  "ServeHTTP run mux method path r w =
     (if method \<noteq> ''CONNECT'' \<and> \<not> clean_path path then (Some (WriteHeader StatusTemporaryRedirect), w)
      else case findHandler mux method path of
        Found m h \<Rightarrow> run h (r\<lparr>req_PathValue := path_values m\<rparr>) w
      | NoRoute \<Rightarrow> (Some (WriteHeader StatusNotFound), w)
      | OtherMethods _ \<Rightarrow> (Some (WriteHeader StatusMethodNotAllowed), w))"

lemma matchPath_none [simp]: "matchPath [] path = None"
  by (induction path) simp_all

lemma lit_step_append [simp]: "lit_step s (xs @ ys) = lit_step s xs @ lit_step s ys"
  by (induction s xs rule: lit_step.induct) simp_all

lemma wild_step_append [simp]: "wild_step s (xs @ ys) = wild_step s xs @ wild_step s ys"
  by (induction s xs rule: wild_step.induct) simp_all

definition under :: "string \<Rightarrow> (segment list \<times> 'a) list \<Rightarrow> (segment list \<times> 'a) list" where
  "under t cands = map (\<lambda>(p, x). (Lit t # p, x)) cands"

lemma step_under [simp]:
  "lit_step s (under t cands) = (if s = t then cands else [])" "wild_step s (under t cands) = []"
  "map_of (under t cands) [] = None"
  by (induction cands) (auto simp: under_def)

lemma lit_step_length: "(p, x) \<in> set (lit_step s cands) \<Longrightarrow> \<exists>q. (q, x) \<in> set cands \<and> length q = Suc (length p)"
  by (induction s cands rule: lit_step.induct) (auto split: if_splits intro: exI [of _ "Lit s # p"])

lemma wild_step_length: "(p, x) \<in> set (wild_step s cands) \<Longrightarrow> \<exists>q y. (q, y) \<in> set cands \<and> length q = Suc (length p)"
  by (induction s cands rule: wild_step.induct) (auto, metis length_Cons)

lemma matchPath_length:
  "(\<And>p x. (p, x) \<in> set cands \<Longrightarrow> length p \<noteq> length path) \<Longrightarrow> matchPath cands path = None"
proof (induction path arbitrary: cands)
  case Nil
  then show ?case by (fastforce simp: map_of_eq_None_iff)
next
  case (Cons s ss)
  have "matchPath (lit_step s cands) ss = None" "matchPath (wild_step s cands) ss = None"
    using Cons.prems by (auto intro!: Cons.IH dest!: lit_step_length wild_step_length)
  then show ?case by simp
qed

end
