(* ===== verification/Api_Server.thy ===== *)
theory Api_Server
  imports Transition_Endpoint Policy_Api Serve_Mux
begin

text \<open>
  The internal HTTP server: the route tables (\<^verbatim>\<open>internal/scanroutes\<close>, \<^verbatim>\<open>internal/cproutes\<close>), their
  registration (\<^verbatim>\<open>internal/scanapi/server.go\<close>, \<^verbatim>\<open>internal/cpapi/server.go\<close>) on one mux, and the server
  around it, as \<^verbatim>\<open>cmd/persistence/main.go\<close> builds it: every route behind the token check.
\<close>

section \<open>Route tables\<close>

definition scan_V1Base :: string where "scan_V1Base = ''/internal/scan/v1''"

definition PendingWallet :: string where "PendingWallet = ''/pending/wallet''"
definition PendingTLS :: string where "PendingTLS = ''/pending/tls''"
definition PendingByScanID :: string where "PendingByScanID = ''/pending/{scan_id}''"
definition WalletScans :: string where "WalletScans = ''/wallets/scans''"
definition WalletScanByID :: string where "WalletScanByID = ''/wallets/scans/{scan_id}''"
definition WalletScanTransition :: string where
  "WalletScanTransition = ''/wallets/scans/{scan_id}/transition''"
definition TLSScans :: string where "TLSScans = ''/tls/scans''"
definition TLSScansDefaults :: string where "TLSScansDefaults = ''/tls/scans/defaults''"
definition TLSScanByID :: string where "TLSScanByID = ''/tls/scans/{scan_id}''"
definition LedgerUsage :: string where "LedgerUsage = ''/ledger/usage''"

definition scan_Join :: "string \<Rightarrow> string" where
  "scan_Join relative = scan_V1Base @ relative"

definition cp_V1Base :: string where "cp_V1Base = ''/internal/cp/v1''"

definition PolicyByID :: string where "PolicyByID = ''/policies/{policy_id}''"
definition Policies :: string where "Policies = ''/policies''"
definition ReferenceWallet :: string where "ReferenceWallet = ''/references/wallet''"
definition ReferenceScan :: string where "ReferenceScan = ''/references/scan''"

definition cp_Join :: "string \<Rightarrow> string" where
  "cp_Join relative = cp_V1Base @ relative"

section \<open>Registration\<close>

text \<open>The handler methods that are registered, by name.\<close>

datatype endpoint =
    M_ReserveWalletPending | M_GetWalletPendingByAddress | M_ReleaseWalletPendingReservation
  | M_PutTLSPending | M_GetPendingScan | M_ReleasePendingScan
  | M_ListWalletScans | M_GetWalletScan | M_DeleteWalletScan | M_ApplyWalletTransition
  | M_ListTLSScans | M_ListTLSDefaultScans | M_GetTLSScan | M_DeleteTLSScan | M_GetScanLedgerUsage
  | M_CreatePolicy | M_GetPolicy | M_DeletePolicy | M_ListPoliciesByScan
  | M_CountPoliciesByWallet | M_CountPoliciesByScan

fun register_all :: "string \<Rightarrow> (string \<times> string \<times> 'h) list \<Rightarrow> 'h mux \<Rightarrow> 'h mux option" where
  "register_all base [] mux = Some mux"
| "register_all base ((method, rel, fn) # rs) mux =
     Option.bind (HandleFunc (method @ '' '' @ base @ rel) fn mux) (register_all base rs)"

definition scan_RegisterRoutes :: "endpoint mux \<Rightarrow> endpoint mux option" where
  "scan_RegisterRoutes mux = register_all scan_V1Base
     [(''POST'', PendingWallet, M_ReserveWalletPending),
      (''GET'', PendingWallet, M_GetWalletPendingByAddress),
      (''DELETE'', PendingWallet, M_ReleaseWalletPendingReservation),
      (''POST'', PendingTLS, M_PutTLSPending),
      (''GET'', PendingByScanID, M_GetPendingScan),
      (''DELETE'', PendingByScanID, M_ReleasePendingScan),
      (''GET'', WalletScans, M_ListWalletScans),
      (''GET'', WalletScanByID, M_GetWalletScan),
      (''DELETE'', WalletScanByID, M_DeleteWalletScan),
      (''POST'', WalletScanTransition, M_ApplyWalletTransition),
      (''GET'', TLSScans, M_ListTLSScans),
      (''GET'', TLSScansDefaults, M_ListTLSDefaultScans),
      (''GET'', TLSScanByID, M_GetTLSScan),
      (''DELETE'', TLSScanByID, M_DeleteTLSScan),
      (''GET'', LedgerUsage, M_GetScanLedgerUsage)] mux"

definition cp_RegisterRoutes :: "endpoint mux \<Rightarrow> endpoint mux option" where
  "cp_RegisterRoutes mux = register_all cp_V1Base
     [(''POST'', Policies, M_CreatePolicy),
      (''GET'', PolicyByID, M_GetPolicy),
      (''DELETE'', PolicyByID, M_DeletePolicy),
      (''GET'', Policies, M_ListPoliciesByScan),
      (''GET'', ReferenceWallet, M_CountPoliciesByWallet),
      (''GET'', ReferenceScan, M_CountPoliciesByScan)] mux"

definition internalMux :: "endpoint mux option" where
  "internalMux = Option.bind (scan_RegisterRoutes []) cp_RegisterRoutes"

lemmas route_defs = scan_V1Base_def PendingWallet_def PendingTLS_def PendingByScanID_def WalletScans_def
  WalletScanByID_def WalletScanTransition_def TLSScans_def TLSScansDefaults_def TLSScanByID_def
  LedgerUsage_def cp_V1Base_def PolicyByID_def Policies_def ReferenceWallet_def ReferenceScan_def

section \<open>The server\<close>

record 'w server =
  srv_scan :: "'w Handler"
  srv_cp :: CPHandler
  srv_codec :: scan_codec
  srv_transition :: "string \<Rightarrow> transitionBody option"
  srv_policy :: cp_codec
  srv_v01 :: v01
  srv_token :: string

definition list_handler :: "(request \<Rightarrow> ('w, response, response option) prog) \<Rightarrow> 'w http_handler" where
  "list_handler h r w = (case h r w of (Inl resp, w') \<Rightarrow> (Some resp, w') | (Inr resp, w') \<Rightarrow> (resp, w'))"

definition transition_handler :: "(request \<Rightarrow> ('w, response option, response) prog) \<Rightarrow> 'w http_handler" where
  "transition_handler h r w = (case h r w of (Inl resp, w') \<Rightarrow> (resp, w') | (Inr resp, w') \<Rightarrow> (Some resp, w'))"

definition endpoint_handler :: "'w env \<Rightarrow> 'w server \<Rightarrow> endpoint \<Rightarrow> 'w http_handler" where
  "endpoint_handler E s e =
     (let h = srv_scan s; C = srv_codec s; cp = srv_cp s in
      case e of
        M_ReserveWalletPending \<Rightarrow> HandlerFunc (ReserveWalletPending E C h)
      | M_GetWalletPendingByAddress \<Rightarrow> HandlerFunc (GetWalletPendingByAddress E h)
      | M_ReleaseWalletPendingReservation \<Rightarrow> HandlerFunc (ReleaseWalletPendingReservation E h)
      | M_PutTLSPending \<Rightarrow> HandlerFunc (PutTLSPending E C h)
      | M_GetPendingScan \<Rightarrow> HandlerFunc (GetPendingScan E h)
      | M_ReleasePendingScan \<Rightarrow> HandlerFunc (ReleasePendingScan E h)
      | M_ListWalletScans \<Rightarrow> list_handler (ListWalletScans E h)
      | M_GetWalletScan \<Rightarrow> HandlerFunc (GetWalletScan E h)
      | M_DeleteWalletScan \<Rightarrow> HandlerFunc (DeleteWalletScanHandler E h)
      | M_ApplyWalletTransition \<Rightarrow>
          transition_handler (ApplyWalletTransition E (srv_v01 s) (srv_transition s) h)
      | M_ListTLSScans \<Rightarrow> HandlerFunc (ListTLSScans E h)
      | M_ListTLSDefaultScans \<Rightarrow> HandlerFunc (ListTLSDefaultScans E h)
      | M_GetTLSScan \<Rightarrow> HandlerFunc (GetTLSScan E h)
      | M_DeleteTLSScan \<Rightarrow> HandlerFunc (DeleteTLSScanHandler E h)
      | M_GetScanLedgerUsage \<Rightarrow> HandlerFunc (GetScanLedgerUsage E h)
      | M_CreatePolicy \<Rightarrow> HandlerFunc (cp_CreatePolicy E (srv_policy s) cp)
      | M_GetPolicy \<Rightarrow> HandlerFunc (cp_GetPolicy E cp)
      | M_DeletePolicy \<Rightarrow> HandlerFunc (cp_DeletePolicy E cp)
      | M_ListPoliciesByScan \<Rightarrow> HandlerFunc (ListPoliciesByScan E cp)
      | M_CountPoliciesByWallet \<Rightarrow> HandlerFunc (cp_CountPoliciesByWallet E cp)
      | M_CountPoliciesByScan \<Rightarrow> HandlerFunc (cp_CountPoliciesByScan E cp))"

definition NewServerFromMux :: "'w env \<Rightarrow> 'w server \<Rightarrow> endpoint mux \<Rightarrow> string \<Rightarrow> string list \<Rightarrow> 'w http_handler" where
  "NewServerFromMux E s mux method path =
     ServiceAuthMiddleware (srv_token s) (ServeHTTP (endpoint_handler E s) mux method path)"

text \<open>The scan routes on a mux of their own.\<close>

definition scan_NewServer :: "'w env \<Rightarrow> 'w server \<Rightarrow> string \<Rightarrow> string list \<Rightarrow> 'w http_handler option" where
  "scan_NewServer E s method path =
     map_option (\<lambda>mux. NewServerFromMux E s mux method path) (scan_RegisterRoutes [])"

text \<open>The server of the process; a panic during registration would be \<open>None\<close>.\<close>

definition internalServer :: "'w env \<Rightarrow> 'w server \<Rightarrow> string \<Rightarrow> string list \<Rightarrow> 'w http_handler option" where
  "internalServer E s method path = map_option (\<lambda>mux. NewServerFromMux E s mux method path) internalMux"

section \<open>Routing\<close>

text \<open>The documented routes: what each method and path is for.\<close>

definition pick :: "string \<Rightarrow> (string \<times> 'a) list \<Rightarrow> 'a option" where
  "pick method table = map_of table method"

definition scan_route :: "string \<Rightarrow> string list \<Rightarrow> ((string \<times> string) list \<times> endpoint) option" where
  "scan_route method rel =
      (case rel of
         [a, b] \<Rightarrow>
           if a = ''pending'' then
             (if b = ''wallet'' then
                pick method [(''POST'', [], M_ReserveWalletPending), (''GET'', [], M_GetWalletPendingByAddress),
                  (''DELETE'', [], M_ReleaseWalletPendingReservation)]
              else if b = ''tls'' \<and> method = ''POST'' then Some ([], M_PutTLSPending)
              else if b = '''' then None
              else pick method [(''GET'', [(''scan_id'', b)], M_GetPendingScan),
                  (''DELETE'', [(''scan_id'', b)], M_ReleasePendingScan)])
           else if a = ''wallets'' \<and> b = ''scans'' then pick method [(''GET'', [], M_ListWalletScans)]
           else if a = ''tls'' \<and> b = ''scans'' then pick method [(''GET'', [], M_ListTLSScans)]
           else if a = ''ledger'' \<and> b = ''usage'' then pick method [(''GET'', [], M_GetScanLedgerUsage)]
           else None
       | [a, b, c] \<Rightarrow>
           if b \<noteq> ''scans'' \<or> c = '''' then None
           else if a = ''wallets'' then
             pick method [(''GET'', [(''scan_id'', c)], M_GetWalletScan),
               (''DELETE'', [(''scan_id'', c)], M_DeleteWalletScan)]
           else if a = ''tls'' then
             (if c = ''defaults'' \<and> method = ''GET'' then Some ([], M_ListTLSDefaultScans)
              else pick method [(''GET'', [(''scan_id'', c)], M_GetTLSScan),
                (''DELETE'', [(''scan_id'', c)], M_DeleteTLSScan)])
           else None
       | [a, b, c, d] \<Rightarrow>
           if a = ''wallets'' \<and> b = ''scans'' \<and> c \<noteq> '''' \<and> d = ''transition''
           then pick method [(''POST'', [(''scan_id'', c)], M_ApplyWalletTransition)]
           else None
       | _ \<Rightarrow> None)"

definition cp_route :: "string \<Rightarrow> string list \<Rightarrow> ((string \<times> string) list \<times> endpoint) option" where
  "cp_route method rel =
      (case rel of
         [a] \<Rightarrow>
           if a = ''policies''
           then pick method [(''POST'', [], M_CreatePolicy), (''GET'', [], M_ListPoliciesByScan)]
           else None
       | [a, b] \<Rightarrow>
           if a = ''policies'' \<and> b \<noteq> ''''
           then pick method [(''GET'', [(''policy_id'', b)], M_GetPolicy),
             (''DELETE'', [(''policy_id'', b)], M_DeletePolicy)]
           else if a = ''references'' \<and> b = ''wallet''
           then pick method [(''GET'', [], M_CountPoliciesByWallet)]
           else if a = ''references'' \<and> b = ''scan''
           then pick method [(''GET'', [], M_CountPoliciesByScan)]
           else None
       | _ \<Rightarrow> None)"

definition documented_route :: "string \<Rightarrow> string list \<Rightarrow> ((string \<times> string) list \<times> endpoint) option" where
  "documented_route method path =
     (if take 3 path = [''internal'', ''scan'', ''v1''] then scan_route method (drop 3 path)
      else if take 3 path = [''internal'', ''cp'', ''v1''] then cp_route method (drop 3 path)
      else None)"

definition scan_path :: "segment list \<Rightarrow> segment list" where
  "scan_path ps = [Lit ''internal'', Lit ''scan'', Lit ''v1''] @ ps"

definition cp_path :: "segment list \<Rightarrow> segment list" where
  "cp_path ps = [Lit ''internal'', Lit ''cp'', Lit ''v1''] @ ps"

definition route_list :: "endpoint mux" where
  "route_list =
    [((''POST'', scan_path [Lit ''pending'', Lit ''wallet'']), M_ReserveWalletPending),
     ((''GET'', scan_path [Lit ''pending'', Lit ''wallet'']), M_GetWalletPendingByAddress),
     ((''DELETE'', scan_path [Lit ''pending'', Lit ''wallet'']), M_ReleaseWalletPendingReservation),
     ((''POST'', scan_path [Lit ''pending'', Lit ''tls'']), M_PutTLSPending),
     ((''GET'', scan_path [Lit ''pending'', Wild ''scan_id'']), M_GetPendingScan),
     ((''DELETE'', scan_path [Lit ''pending'', Wild ''scan_id'']), M_ReleasePendingScan),
     ((''GET'', scan_path [Lit ''wallets'', Lit ''scans'']), M_ListWalletScans),
     ((''GET'', scan_path [Lit ''wallets'', Lit ''scans'', Wild ''scan_id'']), M_GetWalletScan),
     ((''DELETE'', scan_path [Lit ''wallets'', Lit ''scans'', Wild ''scan_id'']), M_DeleteWalletScan),
     ((''POST'', scan_path [Lit ''wallets'', Lit ''scans'', Wild ''scan_id'', Lit ''transition'']),
        M_ApplyWalletTransition),
     ((''GET'', scan_path [Lit ''tls'', Lit ''scans'']), M_ListTLSScans),
     ((''GET'', scan_path [Lit ''tls'', Lit ''scans'', Lit ''defaults'']), M_ListTLSDefaultScans),
     ((''GET'', scan_path [Lit ''tls'', Lit ''scans'', Wild ''scan_id'']), M_GetTLSScan),
     ((''DELETE'', scan_path [Lit ''tls'', Lit ''scans'', Wild ''scan_id'']), M_DeleteTLSScan),
     ((''GET'', scan_path [Lit ''ledger'', Lit ''usage'']), M_GetScanLedgerUsage),
     ((''POST'', cp_path [Lit ''policies'']), M_CreatePolicy),
     ((''GET'', cp_path [Lit ''policies'', Wild ''policy_id'']), M_GetPolicy),
     ((''DELETE'', cp_path [Lit ''policies'', Wild ''policy_id'']), M_DeletePolicy),
     ((''GET'', cp_path [Lit ''policies'']), M_ListPoliciesByScan),
     ((''GET'', cp_path [Lit ''references'', Lit ''wallet'']), M_CountPoliciesByWallet),
     ((''GET'', cp_path [Lit ''references'', Lit ''scan'']), M_CountPoliciesByScan)]"

lemma internalMux_routes: "internalMux = Some route_list"
  by code_simp

definition scan_candidates :: "string \<Rightarrow> (segment list \<times> (string \<times> string) list \<times> endpoint) list" where
  "scan_candidates method = List.map_filter
     (\<lambda>((m, p), h). if m = method then Some (drop 3 p, [], h) else None) (take 15 route_list)"

definition cp_candidates :: "string \<Rightarrow> (segment list \<times> (string \<times> string) list \<times> endpoint) list" where
  "cp_candidates method = List.map_filter
     (\<lambda>((m, p), h). if m = method then Some (drop 3 p, [], h) else None) (drop 15 route_list)"

lemma map_filter_map: "List.map_filter (\<lambda>x. if P x then Some (f (g x)) else None) xs
    = map f (List.map_filter (\<lambda>x. if P x then Some (g x) else None) xs)"
  by (induction xs) (simp_all add: List.map_filter_simps)

lemma route_list_candidates:
  "List.map_filter (\<lambda>((m, p), h). if m = method then Some (p, [], h) else None) route_list
   = under ''internal'' (under ''scan'' (under ''v1'' (scan_candidates method))
       @ under ''cp'' (under ''v1'' (cp_candidates method)))"
  by (cases "method = ''GET''"; cases "method = ''POST''"; cases "method = ''DELETE''";
      simp add: scan_candidates_def cp_candidates_def route_list_def scan_path_def cp_path_def under_def
        List.map_filter_simps)

lemma matchMethod_prefix:
  "matchMethod route_list method path =
     (if take 3 path = [''internal'', ''scan'', ''v1''] then matchPath (scan_candidates method) (drop 3 path)
      else if take 3 path = [''internal'', ''cp'', ''v1''] then matchPath (cp_candidates method) (drop 3 path)
      else None)"
proof -
  consider "path = []" | a where "path = [a]" | a b where "path = [a, b]" | a b c rel where "path = a # b # c # rel"
    by (metis neq_Nil_conv)
  then show ?thesis
    unfolding matchMethod_def route_list_candidates by cases (auto split: option.split)
qed

lemmas candidate_simps = scan_candidates_def cp_candidates_def route_list_def scan_path_def cp_path_def
  List.map_filter_simps

lemma scan_candidates_methods:
  "scan_candidates ''GET'' =
    [([Lit ''pending'', Lit ''wallet''], [], M_GetWalletPendingByAddress),
     ([Lit ''pending'', Wild ''scan_id''], [], M_GetPendingScan),
     ([Lit ''wallets'', Lit ''scans''], [], M_ListWalletScans),
     ([Lit ''wallets'', Lit ''scans'', Wild ''scan_id''], [], M_GetWalletScan),
     ([Lit ''tls'', Lit ''scans''], [], M_ListTLSScans),
     ([Lit ''tls'', Lit ''scans'', Lit ''defaults''], [], M_ListTLSDefaultScans),
     ([Lit ''tls'', Lit ''scans'', Wild ''scan_id''], [], M_GetTLSScan),
     ([Lit ''ledger'', Lit ''usage''], [], M_GetScanLedgerUsage)]"
  "scan_candidates ''POST'' =
    [([Lit ''pending'', Lit ''wallet''], [], M_ReserveWalletPending),
     ([Lit ''pending'', Lit ''tls''], [], M_PutTLSPending),
     ([Lit ''wallets'', Lit ''scans'', Wild ''scan_id'', Lit ''transition''], [], M_ApplyWalletTransition)]"
  "scan_candidates ''DELETE'' =
    [([Lit ''pending'', Lit ''wallet''], [], M_ReleaseWalletPendingReservation),
     ([Lit ''pending'', Wild ''scan_id''], [], M_ReleasePendingScan),
     ([Lit ''wallets'', Lit ''scans'', Wild ''scan_id''], [], M_DeleteWalletScan),
     ([Lit ''tls'', Lit ''scans'', Wild ''scan_id''], [], M_DeleteTLSScan)]"
  by (simp_all add: candidate_simps)

lemma cp_candidates_methods:
  "cp_candidates ''GET'' =
    [([Lit ''policies'', Wild ''policy_id''], [], M_GetPolicy),
     ([Lit ''policies''], [], M_ListPoliciesByScan),
     ([Lit ''references'', Lit ''wallet''], [], M_CountPoliciesByWallet),
     ([Lit ''references'', Lit ''scan''], [], M_CountPoliciesByScan)]"
  "cp_candidates ''POST'' = [([Lit ''policies''], [], M_CreatePolicy)]"
  "cp_candidates ''DELETE'' = [([Lit ''policies'', Wild ''policy_id''], [], M_DeletePolicy)]"
  by (simp_all add: candidate_simps)

lemma other_methods:
  assumes "method \<noteq> ''GET''" "method \<noteq> ''POST''" "method \<noteq> ''DELETE''"
  shows "scan_candidates method = []" "cp_candidates method = []"
  using assms by (simp_all add: candidate_simps)

lemma short_list_cases:
  obtains (zero) "rel = []" | (one) a where "rel = [a]" | (two) a b where "rel = [a, b]"
    | (three) a b c where "rel = [a, b, c]" | (four) a b c d where "rel = [a, b, c, d]"
    | (more) a b c d e xs where "rel = a # b # c # d # e # xs"
  by (metis neq_Nil_conv)

lemmas scan_match = scan_route_def pick_def scan_candidates_methods

lemma scan_get_two: "matchPath (scan_candidates ''GET'') [a, b] = scan_route ''GET'' [a, b]"
  by (cases "a = ''pending''"; cases "a = ''wallets''"; cases "a = ''tls''"; cases "a = ''ledger''"; simp add: scan_match)

lemma scan_get_three: "matchPath (scan_candidates ''GET'') [a, b, c] = scan_route ''GET'' [a, b, c]"
  by (cases "a = ''pending''"; cases "a = ''wallets''"; cases "a = ''tls''"; cases "a = ''ledger''"; simp add: scan_match)

lemma scan_delete_two: "matchPath (scan_candidates ''DELETE'') [a, b] = scan_route ''DELETE'' [a, b]"
  by (cases "a = ''pending''"; cases "a = ''wallets''"; cases "a = ''tls''"; simp add: scan_match)

lemma scan_delete_three: "matchPath (scan_candidates ''DELETE'') [a, b, c] = scan_route ''DELETE'' [a, b, c]"
  by (cases "a = ''pending''"; cases "a = ''wallets''"; cases "a = ''tls''"; simp add: scan_match)

lemma scan_post_two: "matchPath (scan_candidates ''POST'') [a, b] = scan_route ''POST'' [a, b]"
  by (cases "a = ''pending''"; cases "a = ''wallets''"; simp add: scan_match)

lemma scan_post_four: "matchPath (scan_candidates ''POST'') [a, b, c, d] = scan_route ''POST'' [a, b, c, d]"
  by (cases "a = ''pending''"; cases "a = ''wallets''"; simp add: scan_match)

lemma cp_get_two: "matchPath (cp_candidates ''GET'') [a, b] = cp_route ''GET'' [a, b]"
  by (cases "a = ''policies''"; cases "a = ''references''"; simp add: cp_route_def pick_def cp_candidates_methods)

lemma scan_lengths:
  "(p, x) \<in> set (scan_candidates ''GET'') \<Longrightarrow> length p = 2 \<or> length p = 3"
  "(p, x) \<in> set (scan_candidates ''POST'') \<Longrightarrow> length p = 2 \<or> length p = 4"
  "(p, x) \<in> set (scan_candidates ''DELETE'') \<Longrightarrow> length p = 2 \<or> length p = 3"
  by (auto simp: scan_candidates_methods)

lemma cp_lengths:
  "(p, x) \<in> set (cp_candidates ''GET'') \<Longrightarrow> length p = 1 \<or> length p = 2"
  "(p, x) \<in> set (cp_candidates ''POST'') \<Longrightarrow> length p = 1"
  "(p, x) \<in> set (cp_candidates ''DELETE'') \<Longrightarrow> length p = 2"
  by (auto simp: cp_candidates_methods)

lemma scan_route_length: "length rel \<notin> {2, 3, 4} \<Longrightarrow> scan_route method rel = None"
  unfolding scan_route_def by (cases rel rule: short_list_cases) simp_all

lemma scan_route_methods:
  "scan_route ''GET'' [a, b, c, d] = None" "scan_route ''POST'' [a, b, c] = None" "scan_route ''DELETE'' [a, b, c, d] = None"
  by (simp_all add: scan_route_def pick_def)

lemma length_two: "length rel = 2 \<Longrightarrow> \<exists>a b. rel = [a, b]"
  and length_three: "length rel = 3 \<Longrightarrow> \<exists>a b c. rel = [a, b, c]"
  and length_four: "length rel = 4 \<Longrightarrow> \<exists>a b c d. rel = [a, b, c, d]"
  by (cases rel rule: short_list_cases; simp)+

lemma dispatch_lengths:
  assumes "\<And>p x. (p, x) \<in> set cands \<Longrightarrow> length p \<in> lens"
    and "\<And>rel. length rel \<in> lens \<Longrightarrow> matchPath cands rel = route rel"
    and "\<And>rel. length rel \<notin> lens \<Longrightarrow> route rel = None"
  shows "matchPath cands rel = route rel"
proof (cases "length rel \<in> lens")
  case False
  with assms(1) have "matchPath cands rel = None" by (intro matchPath_length) metis
  with False assms(3) show ?thesis by simp
qed (rule assms(2))

lemma scan_dispatch: "matchPath (scan_candidates method) rel = scan_route method rel"
proof -
  consider (get) "method = ''GET''" | (post) "method = ''POST''" | (delete) "method = ''DELETE''"
    | (other) "method \<noteq> ''GET''" "method \<noteq> ''POST''" "method \<noteq> ''DELETE''" by blast
  then show ?thesis
  proof cases
    case get
    show ?thesis unfolding get
    proof (rule dispatch_lengths [where lens = "{2, 3}"])
      show "matchPath (scan_candidates ''GET'') r = scan_route ''GET'' r" if "length r \<in> {2, 3}" for r
        using that scan_get_two scan_get_three by (auto dest!: length_two length_three)
      show "scan_route ''GET'' r = None" if "length r \<notin> {2, 3}" for r
        using that scan_route_length [of r] scan_route_methods(1) by (cases "length r = 4") (auto dest!: length_four)
    qed (use scan_lengths(1) in blast)
  next
    case post
    show ?thesis unfolding post
    proof (rule dispatch_lengths [where lens = "{2, 4}"])
      show "matchPath (scan_candidates ''POST'') r = scan_route ''POST'' r" if "length r \<in> {2, 4}" for r
        using that scan_post_two scan_post_four by (auto dest!: length_two length_four)
      show "scan_route ''POST'' r = None" if "length r \<notin> {2, 4}" for r
        using that scan_route_length [of r] scan_route_methods(2) by (cases "length r = 3") (auto dest!: length_three)
    qed (use scan_lengths(2) in blast)
  next
    case delete
    show ?thesis unfolding delete
    proof (rule dispatch_lengths [where lens = "{2, 3}"])
      show "matchPath (scan_candidates ''DELETE'') r = scan_route ''DELETE'' r" if "length r \<in> {2, 3}" for r
        using that scan_delete_two scan_delete_three by (auto dest!: length_two length_three)
      show "scan_route ''DELETE'' r = None" if "length r \<notin> {2, 3}" for r
        using that scan_route_length [of r] scan_route_methods(3) by (cases "length r = 4") (auto dest!: length_four)
    qed (use scan_lengths(3) in blast)
  next
    case other
    then have "scan_route method rel = None"
      unfolding scan_route_def pick_def by (cases rel rule: short_list_cases) simp_all
    with other show ?thesis by (simp add: other_methods)
  qed
qed

lemma cp_route_length: "length rel \<notin> {1, 2} \<Longrightarrow> cp_route method rel = None"
  unfolding cp_route_def by (cases rel rule: short_list_cases) simp_all

lemma length_one: "length rel = 1 \<Longrightarrow> \<exists>a. rel = [a]"
  by (cases rel rule: short_list_cases) simp_all

lemma cp_match:
  "matchPath (cp_candidates method) [a] = cp_route method [a]"
  "matchPath (cp_candidates method) [a, b] = cp_route method [a, b]"
proof -
  consider (get) "method = ''GET''" | (post) "method = ''POST''" | (delete) "method = ''DELETE''"
    | (other) "method \<noteq> ''GET''" "method \<noteq> ''POST''" "method \<noteq> ''DELETE''" by blast
  then show "matchPath (cp_candidates method) [a] = cp_route method [a]"
    by cases (simp_all add: cp_route_def pick_def cp_candidates_methods other_methods)
  consider (get) "method = ''GET''" | (post) "method = ''POST''" | (delete) "method = ''DELETE''"
    | (other) "method \<noteq> ''GET''" "method \<noteq> ''POST''" "method \<noteq> ''DELETE''" by blast
  then show "matchPath (cp_candidates method) [a, b] = cp_route method [a, b]"
    by cases (simp_all only: cp_get_two, simp_all add: cp_route_def pick_def cp_candidates_methods other_methods)
qed

lemma cp_dispatch: "matchPath (cp_candidates method) rel = cp_route method rel"
proof (rule dispatch_lengths [where lens = "{1, 2}"])
  show "length p \<in> {1, 2}" if "(p, x) \<in> set (cp_candidates method)" for p x
    using that other_methods(2) [of "method"] cp_lengths [of p x] by fastforce
  show "matchPath (cp_candidates method) r = cp_route method r" if len: "length r \<in> {1, 2}" for r
  proof -
    consider a where "r = [a]" | a b where "r = [a, b]" using len length_one length_two by blast
    then show ?thesis by cases (simp_all only: cp_match)
  qed
qed (rule cp_route_length)

lemma route_list_dispatch: "matchMethod route_list method path = documented_route method path"
  by (simp add: matchMethod_prefix documented_route_def scan_dispatch cp_dispatch)

text \<open>
  C18. The route table is the documented one. Registration meets no conflicting patterns, so the server
  starts; and for every method and path, the walk through the patterns finds exactly the documented
  handler with the documented path value, a literal segment taking precedence over the scan id: only
  reading \<^verbatim>\<open>/tls/scans/defaults\<close> lists the default scans and only posting to \<^verbatim>\<open>/pending/tls\<close> stores a
  pending TLS scan; the same paths under another method are about a scan of that name.
\<close>

theorem internal_routes_dispatch:
  "\<exists>mux. internalMux = Some mux \<and> (\<forall>method path. matchMethod mux method path = documented_route method path)"
  using internalMux_routes route_list_dispatch by blast


end
