(* ===== verification/Frames.thy ===== *)
theory Frames
  imports Environment
begin

text \<open>
  Frame conditions: how far a program can move the observable state. \<open>moves view R m\<close> says that every
  run of \<open>m\<close>, whatever its result, leads from a state to an \<open>R\<close>-related one. For a reflexive and
  transitive \<open>R\<close> this is closed under the combinators, which the locale \<open>frame\<close> proves once; it is
  used for programs that change nothing and for programs that change nothing but the cache.
\<close>

definition moves :: "('w \<Rightarrow> 'v) \<Rightarrow> ('v \<Rightarrow> 'v \<Rightarrow> bool) \<Rightarrow> ('w, 'e, 'a) prog \<Rightarrow> bool" where
  "moves view R m \<longleftrightarrow> (\<forall>w. R (view w) (view (snd (m w))))"

lemma movesD: "moves view R m \<Longrightarrow> m w = (r, w') \<Longrightarrow> R (view w) (view w')"
  unfolding moves_def by (metis snd_conv)

lemma movesI: "(\<And>w r w'. m w = (r, w') \<Longrightarrow> R (view w) (view w')) \<Longrightarrow> moves view R m"
  unfolding moves_def by (metis prod.collapse)

lemma moves_mono: "moves view R m \<Longrightarrow> (\<And>v v'. R v v' \<Longrightarrow> S v v') \<Longrightarrow> moves view S m"
  by (simp add: moves_def)

lemma moves_cases:
  "(b \<Longrightarrow> moves view R m) \<Longrightarrow> (\<not> b \<Longrightarrow> moves view R n) \<Longrightarrow> moves view R (if b then m else n)"
  "(o' = None \<Longrightarrow> moves view R m) \<Longrightarrow> (\<And>x. o' = Some x \<Longrightarrow> moves view R (f x))
    \<Longrightarrow> moves view R (case o' of None \<Rightarrow> m | Some x \<Rightarrow> f x)"
  "(\<And>a. s = Inl a \<Longrightarrow> moves view R (g a)) \<Longrightarrow> (\<And>b. s = Inr b \<Longrightarrow> moves view R (h b))
    \<Longrightarrow> moves view R (case s of Inl a \<Rightarrow> g a | Inr b \<Rightarrow> h b)"
  "(xs = [] \<Longrightarrow> moves view R m) \<Longrightarrow> (\<And>y ys. xs = y # ys \<Longrightarrow> moves view R (k y ys))
    \<Longrightarrow> moves view R (case xs of [] \<Rightarrow> m | y # ys \<Rightarrow> k y ys)"
  "(\<And>a b. p = (a, b) \<Longrightarrow> moves view R (l a b)) \<Longrightarrow> moves view R (case p of (a, b) \<Rightarrow> l a b)"
  by (auto split: option.split sum.split list.split prod.split)

locale frame =
  fixes R :: "'v \<Rightarrow> 'v \<Rightarrow> bool"
  assumes frame_refl: "R v v"
    and frame_trans: "R v v' \<Longrightarrow> R v' v'' \<Longrightarrow> R v v''"
begin

lemma moves_return: "moves view R (returnP x)"
  by (simp add: moves_def returnP_def frame_refl)

lemma moves_throw: "moves view R (throwP e)"
  by (simp add: moves_def throwP_def frame_refl)

lemma moves_bind: "moves view R m \<Longrightarrow> (\<And>x. moves view R (f x)) \<Longrightarrow> moves view R (bindP m f)"
  unfolding moves_def bindP_def
  by (auto split: prod.split sum.split) (metis snd_conv, metis frame_trans snd_conv)

lemma moves_catch: "moves view R m \<Longrightarrow> (\<And>e. moves view R (h e)) \<Longrightarrow> moves view R (catchP m h)"
  unfolding moves_def catchP_def
  by (auto split: prod.split sum.split) (metis frame_trans snd_conv, metis snd_conv)

lemma moves_mapErr: "moves view R m \<Longrightarrow> moves view R (mapErrP g m)"
  unfolding mapErrP_def by (intro moves_catch moves_throw)

lemma moves_check: "moves view R (checkP err)"
  unfolding checkP_def by (intro moves_cases moves_return moves_throw)

lemmas moves_intros = moves_return moves_throw moves_bind moves_catch moves_mapErr moves_check moves_cases

end

text \<open>Nothing changes, or nothing but the cache.\<close>

definition cache_only :: "sys \<Rightarrow> sys \<Rightarrow> bool" where
  "cache_only v v' \<longleftrightarrow> v' = v\<lparr>v_cache := v_cache v'\<rparr>"

interpretation same: frame "(=)"
  by unfold_locales simp_all

interpretation cache: frame cache_only
proof
  show "cache_only v v" for v by (simp add: cache_only_def)
  show "cache_only v v' \<Longrightarrow> cache_only v' v'' \<Longrightarrow> cache_only v v''" for v v' v''
    unfolding cache_only_def by (metis sys.surjective sys.update_convs(7))
qed

lemma moves_same_cache: "moves view (=) m \<Longrightarrow> moves view cache_only m"
  by (erule moves_mono) (simp add: cache_only_def)

context sql_engine
begin

lemma reads_select: "moves view (=) (mapErrP SqlError (sql_select T p))"
  by (intro same.moves_mapErr movesI) (metis select_ok select_err sumE)

lemma reads_count: "moves view (=) (mapErrP SqlError (sql_count T p))"
  by (intro same.moves_mapErr movesI) (metis count_ok count_err sumE)

lemma reads_gorm:
  "moves view (=) (gorm_First T p)" "moves view (=) (gorm_Count T p)"
  "moves view (=) (gorm_Find T p key)" "moves view (=) (gorm_FindPage T p key limit offset)"
  unfolding gorm_First_def gorm_Count_def gorm_FindPage_def gorm_Find_def
  by (intro same.moves_intros reads_select reads_count)+

end

context world
begin

lemma reads_services:
  "moves view (=) (nowP E)" "moves view (=) (redis_Get E k)"
proof -
  show "moves view (=) (nowP E)"
    by (rule movesI) (auto simp: nowP_def split: prod.splits dest: clock_view)
  show "moves view (=) (redis_Get E k)"
    by (rule movesI) (metis redis_Get_ok redis_Get_err sumE)
qed

lemma cache_onlyI: "v' = v\<lparr>v_cache := c\<rparr> \<Longrightarrow> cache_only v v'" "v' = v \<Longrightarrow> cache_only v v'"
  by (simp_all add: cache_only_def)

lemma cache_services:
  "moves view cache_only (redis_Set E k s ttl)" "moves view cache_only (redis_SetNX E k s ttl)"
  "moves view cache_only (redis_Del E k)" "moves view cache_only (redis_CompareDelete E k s)"
proof -
  show "moves view cache_only (redis_Set E k s ttl)"
    by (rule movesI) (metis redis_Set_ok redis_Set_err cache_onlyI sumE)
  show "moves view cache_only (redis_Del E k)"
    by (rule movesI) (metis redis_Del_ok redis_Del_err cache_onlyI sumE)
  show "moves view cache_only (redis_SetNX E k s ttl)"
    by (rule movesI) (metis redis_SetNX_ok redis_SetNX_err cache_onlyI sumE)
  show "moves view cache_only (redis_CompareDelete E k s)"
    by (rule movesI) (metis redis_CompareDelete_ok redis_CompareDelete_err cache_onlyI sumE)
qed

lemmas reads_tables = wallet.reads_gorm tls.reads_gorm usage.reads_gorm user.reads_gorm plan.reads_gorm
  policy.reads_gorm reads_services

end

end
