(* ===== verification/Plan_Limit.thy ===== *)
theory Plan_Limit
  imports Mem_World
begin

text \<open>
  The user and plan lookups (\<^verbatim>\<open>internal/repository/user_repository.go\<close>,
  \<^verbatim>\<open>plan_repository.go\<close>) and the resolver of a user's scan limit
  (\<^verbatim>\<open>internal/persistence/planlimit/resolver.go\<close>). Not found is a nil pointer without an error.
\<close>

section \<open>Lookups\<close>

definition orNil :: "('w, go_error, 'a) prog \<Rightarrow> ('w, go_error, 'a option) prog" where
  "orNil m =
     catchP (bindP m (\<lambda>x. returnP (Some x)))
       (\<lambda>err. if err = ErrRecordNotFound then returnP None else throwP err)"

definition userRepository_FindByEmail :: "'w env \<Rightarrow> string \<Rightarrow> ('w, go_error, User option) prog" where
  "userRepository_FindByEmail E email =
     orNil (gorm_First (users E) (\<lambda>u. user_DeletedAt u = None \<and> user_Email u = email))"

text \<open>
  The id is passed as text; Postgres parses it before it compares and refuses a text that is not
  a UUID.
\<close>

definition userRepository_FindByID :: "'w env \<Rightarrow> string \<Rightarrow> ('w, go_error, User option) prog" where
  "userRepository_FindByID E idText =
     (case uuid_Parse E idText of
        None \<Rightarrow> throwP (SqlError (Fault ''invalid input syntax for type uuid''))
      | Some i \<Rightarrow> orNil (gorm_First (users E) (\<lambda>u. user_DeletedAt u = None \<and> user_ID u = i)))"

definition userRepository_ExistsByEmail :: "'w env \<Rightarrow> string \<Rightarrow> ('w, go_error, bool) prog" where
  "userRepository_ExistsByEmail E email =
     bindP (gorm_Count (users E) (\<lambda>u. user_DeletedAt u = None \<and> user_Email u = email))
       (\<lambda>count. returnP (count > 0))"

definition planRepository_FindByID :: "'w env \<Rightarrow> uuid \<Rightarrow> ('w, go_error, Plan option) prog" where
  "planRepository_FindByID E planID =
     orNil (gorm_First (plans E) (\<lambda>p. plan_DeletedAt p = None \<and> plan_ID p = planID))"

definition planRepository_FindByType :: "'w env \<Rightarrow> string \<Rightarrow> ('w, go_error, Plan option) prog" where
  "planRepository_FindByType E planType =
     orNil (gorm_First (plans E)
       (\<lambda>p. plan_DeletedAt p = None \<and> plan_Type p = planType \<and> plan_IsActive p))"

section \<open>The resolver\<close>

definition ScanLimit :: "'w env \<Rightarrow> uuid \<Rightarrow> string \<Rightarrow> ('w, go_error, int \<times> bool) prog" where
  "ScanLimit E userID kind =
     bindP (userRepository_FindByID E (uuid_String E userID)) (\<lambda>user.
     case user of
       None \<Rightarrow> returnP (0, True)
     | Some u \<Rightarrow>
         bindP (planRepository_FindByID E (user_PlanID u)) (\<lambda>plan.
         case plan of
           None \<Rightarrow> returnP (0, True)
         | Some p \<Rightarrow>
             if kind = ScanUsageKindWallet then
               returnP (plan_WalletScanLimit p, IsUnlimited p PlanLimitKeyWallet)
             else if kind = ScanUsageKindEndpoint then
               returnP (plan_EndpointScanLimit p, IsUnlimited p PlanLimitKeyEndpoint)
             else throwP (ErrorNew (''unsupported scan usage kind: '' @ kind))))"

section \<open>What it computes\<close>

text \<open>The live plan of a live user, as the tables define it.\<close>

definition live_user :: "sys \<Rightarrow> uuid \<Rightarrow> User \<Rightarrow> bool" where
  "live_user v userID u \<longleftrightarrow> u \<in># v_users v \<and> user_DeletedAt u = None \<and> user_ID u = userID"

definition live_plan :: "sys \<Rightarrow> User \<Rightarrow> Plan \<Rightarrow> bool" where
  "live_plan v u p \<longleftrightarrow> p \<in># v_plans v \<and> plan_DeletedAt p = None \<and> plan_ID p = user_PlanID u"

definition plan_limit_of :: "string \<Rightarrow> Plan \<Rightarrow> int" where
  "plan_limit_of kind p =
     (if kind = ScanUsageKindWallet then plan_WalletScanLimit p else plan_EndpointScanLimit p)"

lemma kinds_distinct [simp]:
  "ScanUsageKindWallet \<noteq> ScanUsageKindEndpoint" "ScanUsageKindEndpoint \<noteq> ScanUsageKindWallet"
  by (simp_all add: ScanUsageKindWallet_def ScanUsageKindEndpoint_def)

lemma IsUnlimited_keys [simp]:
  "IsUnlimited p PlanLimitKeyWallet \<longleftrightarrow> plan_WalletScanLimit p = 0"
  "IsUnlimited p PlanLimitKeyEndpoint \<longleftrightarrow> plan_EndpointScanLimit p = 0"
  by (simp_all add: IsUnlimited_def PlanLimitKeyWallet_def PlanLimitKeyEndpoint_def)

context world
begin

lemma wp_FindUser:
  assumes "\<nexists>u. live_user v userID u \<Longrightarrow> Q (Inr None) v"
    and "\<And>u. live_user v userID u \<Longrightarrow> Q (Inr (Some u)) v"
    and "\<And>d. Q (Inl (SqlError d)) v"
  shows "wp view (userRepository_FindByID E (uuid_String E userID)) Q v"
  unfolding userRepository_FindByID_def orNil_def
  using assms
  by (auto simp: uuid_Parse_String live_user_def intro!: wp_intro user.wp_First)

lemma wp_FindPlan:
  assumes "\<nexists>p. live_plan v u p \<Longrightarrow> Q (Inr None) v"
    and "\<And>p. live_plan v u p \<Longrightarrow> Q (Inr (Some p)) v"
    and "\<And>d. Q (Inl (SqlError d)) v"
  shows "wp view (planRepository_FindByID E (user_PlanID u)) Q v"
  unfolding planRepository_FindByID_def orNil_def
  using assms by (auto simp: live_plan_def intro!: wp_intro plan.wp_First)

lemma wp_ScanLimit:
  assumes "\<And>err. Q (Inl err) v" and "\<And>limit. Q (Inr (limit, limit = 0)) v"
  shows "wp view (ScanLimit E userID kind) Q v"
  unfolding ScanLimit_def
  using assms assms(2) [of 0] by (auto intro!: wp_intro wp_FindUser wp_FindPlan)

lemma scan_limit_lookup:
  assumes "kind = ScanUsageKindWallet \<or> kind = ScanUsageKindEndpoint"
  shows "wp view (ScanLimit E userID kind)
     (\<lambda>r v'. v' = v \<and> (case r of
        Inl err \<Rightarrow> \<exists>d. err = SqlError d
      | Inr (limit, unlimited) \<Rightarrow>
          unlimited = (limit = 0)
          \<and> (\<forall>u p. live_user v userID u \<and> live_plan v u p \<longrightarrow> limit = plan_limit_of kind p)
          \<and> ((\<nexists>u p. live_user v userID u \<and> live_plan v u p) \<longrightarrow> unlimited))) v"
proof (rule user.wp_unique_rows, rule plan.wp_unique_rows)
  assume uniq_u: "\<And>r. r \<in># v_users v \<Longrightarrow> filter_mset (user_conflict r) (v_users v) = {#r#}"
    and uniq_p: "\<And>r. r \<in># v_plans v \<Longrightarrow> filter_mset (plan_conflict r) (v_plans v) = {#r#}"
  have one_user: "u = u'" if "live_user v userID u" "live_user v userID u'" for u u'
  proof -
    have "u' \<in># filter_mset (user_conflict u) (v_users v)"
      using that by (simp add: live_user_def user_conflict_def)
    with uniq_u [of u] that show ?thesis by (simp add: live_user_def)
  qed
  have one_plan: "q = q'" if "live_plan v u q" "live_plan v u q'" for u q q'
  proof -
    have "q' \<in># filter_mset (plan_conflict q) (v_plans v)"
      using that by (simp add: live_plan_def plan_conflict_def)
    with uniq_p [of q] that show ?thesis by (simp add: live_plan_def)
  qed
  show ?thesis
    unfolding ScanLimit_def
    using assms
    by (auto simp: plan_limit_of_def intro!: wp_intro wp_FindUser wp_FindPlan)
      (metis one_user one_plan)+
qed

end

section \<open>Properties of the resolver\<close>

text \<open>
  For the two quota kinds the resolver reports the limit of the live plan of the live user,
  \<open>unlimited\<close> exactly when that limit is zero, and unlimited when the user or the plan does not
  exist; it changes nothing, and it fails only when a database statement fails.
\<close>

theorem scan_limit_is_plan_limit:
  assumes world: "world E view"
    and kind: "kind = ScanUsageKindWallet \<or> kind = ScanUsageKindEndpoint"
    and run: "ScanLimit E userID kind w = (r, w')"
  shows "view w' = view w \<and> (case r of
        Inl err \<Rightarrow> \<exists>d. err = SqlError d
      | Inr (limit, unlimited) \<Rightarrow>
          unlimited = (limit = 0)
          \<and> (\<forall>u p. live_user (view w) userID u \<and> live_plan (view w) u p
               \<longrightarrow> limit = plan_limit_of kind p)
          \<and> ((\<nexists>u p. live_user (view w) userID u \<and> live_plan (view w) u p) \<longrightarrow> unlimited))"
  using wpD [OF world.scan_limit_lookup [OF world kind] run] .

definition plan_demo :: Plan where
  "plan_demo = \<lparr>plan_ID = 4, plan_Name = ''free'', plan_Type = ''FREE'', plan_WalletScanLimit = 5,
     plan_EndpointScanLimit = 2, plan_Price = 0, plan_IsActive = True, plan_CreatedAt = 1,
     plan_UpdatedAt = 1, plan_DeletedAt = None\<rparr>"

definition user_demo :: User where
  "user_demo = \<lparr>user_ID = 1, user_Email = ''a'', user_Password = ''b'', user_PlanID = 4,
     user_CreatedAt = 1, user_UpdatedAt = 1, user_DeletedAt = None\<rparr>"

definition limit_demo :: mem where
  "limit_demo = mem_empty\<lparr>m_users := [user_demo], m_plans := [plan_demo]\<rparr>"

theorem scan_limit_is_plan_limit_witness:
  "fst (ScanLimit mem_env 1 ScanUsageKindEndpoint limit_demo) = Inr (2, False)
   \<and> plan_limit_of ScanUsageKindEndpoint plan_demo = 2"
proof -
  have run: "fst (ScanLimit mem_env 1 ScanUsageKindEndpoint limit_demo) = Inr (2, False)"
    by code_simp
  have view: "v_users (mem_view limit_demo) = {#user_demo#}" "v_plans (mem_view limit_demo) = {#plan_demo#}"
    by (simp_all add: limit_demo_def mem_view_def mem_norm_def mem_wf_def mem_empty_def mem_sys_def)
  have "live_user (mem_view limit_demo) 1 user_demo" "live_plan (mem_view limit_demo) user_demo plan_demo"
    unfolding live_user_def live_plan_def view by (simp_all add: user_demo_def plan_demo_def)
  with scan_limit_is_plan_limit [OF mem_world _ prod.collapse [symmetric],
      where kind = ScanUsageKindEndpoint and userID = 1 and w = limit_demo]
  show ?thesis by (auto simp: run)
qed

end
