(* ===== verification/Scan_Events.thy ===== *)
theory Scan_Events
  imports Ledger Plan_Limit Storage
begin

text \<open>
  \<^verbatim>\<open>internal/persistence/handlers\<close> (the scan lifecycle events and their wire form) and the
  callbacks of \<^verbatim>\<open>internal/persistence/nats/subscriber.go\<close>. Wallet events are ignored here: the
  wallet transition command owns the wallet rows. A dependency that may be nil is a boolean or
  an option of the handler record. Log lines are not modelled; the time-outs of the contexts can
  only make a Redis call fail, which every call may do anyway.
\<close>

section \<open>Messages\<close>

text \<open>The messages of the shared contracts, with the fields the sources read.\<close>

record Started =
  started_ScanID :: string
  started_Kind :: string
  started_UserID :: string
  started_Endpoint :: string
  started_Address :: string

record Completed =
  completed_ScanID :: string
  completed_Kind :: string
  completed_UserID :: string
  completed_Endpoint :: string
  completed_Address :: string
  completed_Result :: string

record Failed =
  failed_ScanID :: string
  failed_Kind :: string
  failed_UserID :: string
  failed_Error :: string
  failed_Endpoint :: string
  failed_Address :: string

text \<open>The storage view of a message. The result is a JSON text, or nil.\<close>

record scanStarted =
  st_ScanID :: uuid
  st_Kind :: string
  st_UserID :: uuid
  st_Endpoint :: string
  st_Address :: string

record scanCompleted =
  co_ScanID :: uuid
  co_Kind :: string
  co_UserID :: uuid
  co_Endpoint :: string
  co_Address :: string
  co_Result :: "string option"

record scanFailed =
  fa_ScanID :: uuid
  fa_Kind :: string
  fa_UserID :: uuid
  fa_Error :: string
  fa_Endpoint :: string
  fa_Address :: string

definition errInvalidUUID :: go_error where
  "errInvalidUUID = ErrorNew ''invalid UUID''"

definition wireIDs :: "'w env \<Rightarrow> string \<Rightarrow> string \<Rightarrow> go_error + uuid \<times> uuid" where
  "wireIDs E scanID userID =
     (case uuid_Parse E scanID of
        None \<Rightarrow> Inl errInvalidUUID
      | Some sid \<Rightarrow>
          (case uuid_Parse E userID of
             None \<Rightarrow> Inl errInvalidUUID
           | Some uid \<Rightarrow> Inr (sid, uid)))"

definition rawValue :: "string \<Rightarrow> string option" where
  "rawValue raw = (if length raw = 0 then None else Some raw)"

definition newScanStarted :: "'w env \<Rightarrow> Started \<Rightarrow> go_error + scanStarted" where
  "newScanStarted E msg =
     (case wireIDs E (started_ScanID msg) (started_UserID msg) of
        Inl err \<Rightarrow> Inl err
      | Inr (scanID, userID) \<Rightarrow> Inr \<lparr>st_ScanID = scanID, st_Kind = started_Kind msg,
          st_UserID = userID, st_Endpoint = started_Endpoint msg, st_Address = started_Address msg\<rparr>)"

definition newScanCompleted :: "'w env \<Rightarrow> Completed \<Rightarrow> go_error + scanCompleted" where
  "newScanCompleted E msg =
     (case wireIDs E (completed_ScanID msg) (completed_UserID msg) of
        Inl err \<Rightarrow> Inl err
      | Inr (scanID, userID) \<Rightarrow> Inr \<lparr>co_ScanID = scanID, co_Kind = completed_Kind msg,
          co_UserID = userID, co_Endpoint = completed_Endpoint msg,
          co_Address = completed_Address msg, co_Result = rawValue (completed_Result msg)\<rparr>)"

definition newScanFailed :: "'w env \<Rightarrow> Failed \<Rightarrow> go_error + scanFailed" where
  "newScanFailed E msg =
     (case wireIDs E (failed_ScanID msg) (failed_UserID msg) of
        Inl err \<Rightarrow> Inl err
      | Inr (scanID, userID) \<Rightarrow> Inr \<lparr>fa_ScanID = scanID, fa_Kind = failed_Kind msg,
          fa_UserID = userID, fa_Error = failed_Error msg,
          fa_Endpoint = failed_Endpoint msg, fa_Address = failed_Address msg\<rparr>)"

section \<open>The handler\<close>

record 'w ScanEventHandler =
  h_natsConn :: bool
  h_db :: bool
  h_ledger :: "'w ScanUsageLedgerRepository option"
  h_planLimits :: bool

text \<open>A nil user id marks a catalog scan; the rows store it as NULL.\<close>

definition userOrNil :: "uuid \<Rightarrow> uuid option" where
  "userOrNil userID = (if userID = uuid_Nil then None else Some userID)"

definition publishScanReady ::
  "'w env \<Rightarrow> 'w ScanEventHandler \<Rightarrow> uuid \<Rightarrow> string \<Rightarrow> string \<Rightarrow> string \<Rightarrow> string
   \<Rightarrow> ('w, go_error, unit) prog" where
  "publishScanReady E h userID kind endpoint address status =
     (if \<not> h_natsConn h then returnP ()
      else catchP
        (nats_Publish E (ScanReady \<lparr>ready_UserID = uuid_String E userID, ready_Kind = kind,
           ready_Endpoint = endpoint, ready_Address = address, ready_Status = status\<rparr>))
        (\<lambda>_. returnP ()))"

definition decodeResult :: "'w env \<Rightarrow> string option \<Rightarrow> ('w, go_error, TLSScanResult) prog" where
  "decodeResult E inp =
     (case inp of
        None \<Rightarrow> returnP zero_TLSScanResult
      | Some raw \<Rightarrow>
          (case json_Marshal_raw E raw of
             None \<Rightarrow> throwP (ErrorNew ''json: error calling MarshalJSON'')
           | Some b \<Rightarrow>
               (case json_Unmarshal_TLSScanResult E b of
                  None \<Rightarrow> throwP (ErrorNew ''json: cannot unmarshal'')
                | Some result \<Rightarrow> returnP result)))"

definition applyStarted ::
  "'w env \<Rightarrow> 'w ScanEventHandler \<Rightarrow> scanStarted \<Rightarrow> ('w, go_error, unit) prog" where
  "applyStarted E h msg =
     (if st_Kind msg = ''tls'' then
        TLSWriter_OnStarted E (st_ScanID msg) (userOrNil (st_UserID msg)) (st_Endpoint msg)
      else if st_Kind msg = ''wallet'' then returnP ()
      else returnP ())"

definition confirmExistingUsageOrAcquire ::
  "'w ScanUsageLedgerRepository \<Rightarrow> uuid \<Rightarrow> uuid \<Rightarrow> string \<Rightarrow> int \<Rightarrow> bool \<Rightarrow> ('w, go_error, bool) prog" where
  "confirmExistingUsageOrAcquire ledger userID scanID kind limit unlimited =
     bindP (ledger_HasSuccessUsageForScanInTx ledger scanID) (\<lambda>reserved.
     if reserved then returnP True
     else if unlimited then
       bindP (ledger_RecordSuccessUsageInTx ledger userID scanID kind) (\<lambda>_. returnP True)
     else
       bindP (ledger_RecordSuccessUsageIfUnderLimitInTx ledger userID scanID kind limit) (\<lambda>acquired.
       if acquired then returnP True
       else ledger_HasSuccessUsageForScanInTx ledger scanID))"

definition commitTLSCompletion ::
  "'w env \<Rightarrow> 'w ScanEventHandler \<Rightarrow> scanCompleted \<Rightarrow> TLSScanResultEntity \<Rightarrow> TLSScanResult
   \<Rightarrow> ('w, go_error, bool) prog" where
  "commitTLSCompletion E h msg entity result =
     (case h_ledger h of
        Some ledger \<Rightarrow>
          if co_UserID msg = uuid_Nil \<or> \<not> h_db h \<or> \<not> h_planLimits h then
            bindP (TLSWriter_OnCompleted E (co_ScanID msg) entity) (\<lambda>_. returnP True)
          else
            bindP (ScanLimit E (co_UserID msg) ScanUsageKindEndpoint) (\<lambda>(limit, unlimited).
            let url = co_Endpoint msg;
                url = (if url = '''' then tr_URL result else url);
                url = (if url = '''' then tls_URL entity else url)
            in gorm_Transaction E id (\<lambda>_ e. e)
                 (bindP (confirmExistingUsageOrAcquire ledger (co_UserID msg) (co_ScanID msg)
                           ScanUsageKindEndpoint limit unlimited) (\<lambda>acquired.
                  if acquired then
                    bindP (TLSWriter_OnCompletedInTx E (co_ScanID msg) entity) (\<lambda>_. returnP acquired)
                  else
                    bindP (TLSWriter_OnPlanLimitExceededInTx E (co_ScanID msg)
                             (userOrNil (co_UserID msg)) url) (\<lambda>_. returnP acquired))))
      | None \<Rightarrow>
          bindP (TLSWriter_OnCompleted E (co_ScanID msg) entity) (\<lambda>_. returnP True))"

text \<open>
  The read of the current status drops its error and then holds the empty string, which counts
  as PENDING.
\<close>

definition handleTLSCompleted ::
  "'w env \<Rightarrow> 'w ScanEventHandler \<Rightarrow> scanCompleted \<Rightarrow> ('w, go_error, unit) prog" where
  "handleTLSCompleted E h msg =
     bindP (catchP (TLSWriter_GetStatus E (co_ScanID msg)) (\<lambda>_. returnP '''')) (\<lambda>current.
     if \<not> ValidTransition current StateSUCCESS then returnP ()
     else
       bindP (decodeResult E (co_Result msg)) (\<lambda>result.
       let entity = (FromTLSScanResult (userOrNil (co_UserID msg)) result (tr_Default result))
                      \<lparr>tls_ID := co_ScanID msg\<rparr>
       in bindP (commitTLSCompletion E h msg entity result) (\<lambda>acquired.
          if \<not> acquired then
            publishScanReady E h (co_UserID msg) ''tls'' (co_Endpoint msg) '''' ''failed''
          else
            bindP (SaveTLSScan E (co_UserID msg) (co_Endpoint msg) result) (\<lambda>_.
            publishScanReady E h (co_UserID msg) ''tls'' (co_Endpoint msg) '''' ''success''))))"

definition applyCompleted ::
  "'w env \<Rightarrow> 'w ScanEventHandler \<Rightarrow> scanCompleted \<Rightarrow> ('w, go_error, unit) prog" where
  "applyCompleted E h msg =
     (if co_Kind msg = ''tls'' then handleTLSCompleted E h msg
      else if co_Kind msg = ''wallet'' then returnP ()
      else returnP ())"

definition persistTLSFailure ::
  "'w env \<Rightarrow> 'w ScanEventHandler \<Rightarrow> uuid \<Rightarrow> uuid option \<Rightarrow> string \<Rightarrow> string \<Rightarrow> ('w, go_error, unit) prog" where
  "persistTLSFailure E h scanID userID url errMsg =
     (case h_ledger h of
        Some ledger \<Rightarrow>
          if \<not> h_db h then TLSWriter_OnFailed E scanID userID url errMsg
          else gorm_Transaction E id (\<lambda>_ e. e)
                 (bindP (TLSWriter_OnFailedInTx E scanID userID url errMsg) (\<lambda>_.
                  ledger_ReleaseSuccessUsageByScanIDInTx ledger scanID))
      | None \<Rightarrow> TLSWriter_OnFailed E scanID userID url errMsg)"

definition handleTLSFailed ::
  "'w env \<Rightarrow> 'w ScanEventHandler \<Rightarrow> scanFailed \<Rightarrow> ('w, go_error, unit) prog" where
  "handleTLSFailed E h msg =
     bindP (TLSWriter_GetStatus E (fa_ScanID msg)) (\<lambda>current.
     if current \<noteq> '''' \<and> \<not> ValidTransition current StateFAILED then returnP ()
     else
       bindP (persistTLSFailure E h (fa_ScanID msg) (userOrNil (fa_UserID msg)) (fa_Endpoint msg)
                (fa_Error msg)) (\<lambda>_.
       bindP (SaveTLSFailure E (fa_UserID msg) (fa_Endpoint msg) (fa_Error msg)) (\<lambda>_.
       publishScanReady E h (fa_UserID msg) ''tls'' (fa_Endpoint msg) '''' ''failed'')))"

definition applyFailed ::
  "'w env \<Rightarrow> 'w ScanEventHandler \<Rightarrow> scanFailed \<Rightarrow> ('w, go_error, unit) prog" where
  "applyFailed E h msg =
     (if fa_Kind msg = ''tls'' then handleTLSFailed E h msg
      else if fa_Kind msg = ''wallet'' then returnP ()
      else returnP ())"

definition HandleStarted ::
  "'w env \<Rightarrow> 'w ScanEventHandler \<Rightarrow> Started \<Rightarrow> ('w, go_error, unit) prog" where
  "HandleStarted E h msg =
     (case newScanStarted E msg of Inl err \<Rightarrow> throwP err | Inr m \<Rightarrow> applyStarted E h m)"

definition HandleCompleted ::
  "'w env \<Rightarrow> 'w ScanEventHandler \<Rightarrow> Completed \<Rightarrow> ('w, go_error, unit) prog" where
  "HandleCompleted E h msg =
     (case newScanCompleted E msg of Inl err \<Rightarrow> throwP err | Inr m \<Rightarrow> applyCompleted E h m)"

definition HandleFailed ::
  "'w env \<Rightarrow> 'w ScanEventHandler \<Rightarrow> Failed \<Rightarrow> ('w, go_error, unit) prog" where
  "HandleFailed E h msg =
     (case newScanFailed E msg of Inl err \<Rightarrow> throwP err | Inr m \<Rightarrow> applyFailed E h m)"

section \<open>The subscriber\<close>

text \<open>
  The callbacks of the three subscriptions. The decoders are those of the shared contracts; a
  payload they refuse is dropped, and so is an error of the handler.
\<close>

record decoders =
  DecodeStarted :: "string \<Rightarrow> Started option"
  DecodeCompleted :: "string \<Rightarrow> Completed option"
  DecodeFailed :: "string \<Rightarrow> Failed option"

datatype nats_delivery =
    DeliverStarted string
  | DeliverCompleted string
  | DeliverFailed string

definition dropErr :: "('w, go_error, unit) prog \<Rightarrow> 'w \<Rightarrow> 'w" where
  "dropErr m w = snd (m w)"

definition on_delivery ::
  "'w env \<Rightarrow> decoders \<Rightarrow> 'w ScanEventHandler \<Rightarrow> nats_delivery \<Rightarrow> 'w \<Rightarrow> 'w" where
  "on_delivery E D h d w =
     (case d of
        DeliverStarted data \<Rightarrow>
          (case DecodeStarted D data of None \<Rightarrow> w | Some m \<Rightarrow> dropErr (HandleStarted E h m) w)
      | DeliverCompleted data \<Rightarrow>
          (case DecodeCompleted D data of None \<Rightarrow> w | Some m \<Rightarrow> dropErr (HandleCompleted E h m) w)
      | DeliverFailed data \<Rightarrow>
          (case DecodeFailed D data of None \<Rightarrow> w | Some m \<Rightarrow> dropErr (HandleFailed E h m) w))"

section \<open>The handlers over a ledger that keeps its contract\<close>

lemma tls_rows_frame [simp]:
  "tls_row (v\<lparr>v_scan_usage_events := M\<rparr>) = tls_row v"
  "tls_others i (v\<lparr>v_scan_usage_events := M\<rparr>) = tls_others i v"
  "tls_written (v\<lparr>v_scan_usage_events := M\<rparr>) = tls_written v"
  "tls_store r (v\<lparr>v_scan_usage_events := M\<rparr>) = (tls_store r v)\<lparr>v_scan_usage_events := M\<rparr>"
  "tls_row (v\<lparr>v_cache := c\<rparr>) = tls_row v" "tls_row (v\<lparr>v_outbox := ob\<rparr>) = tls_row v"
  "tls_others i (v\<lparr>v_cache := c\<rparr>) = tls_others i v"
  "tls_others i (v\<lparr>v_outbox := ob\<rparr>) = tls_others i v"
  by (simp_all add: fun_eq_iff tls_row_def tls_others_def tls_written_def tls_store_def)

lemma tls_others_store [simp]: "tls_ID r = i \<Longrightarrow> tls_others i (tls_store r v) = tls_others i v"
  by (simp add: tls_others_def tls_store_def filter_filter_mset)

lemma usage_entries_frame [simp]:
  "usage_entries (v\<lparr>v_cache := c\<rparr>) = usage_entries v"
  "usage_entries (v\<lparr>v_outbox := ob\<rparr>) = usage_entries v"
  unfolding usage_entries_def by simp_all

lemma tls_store_frame [simp]:
  "v_scan_results (tls_store r v) = v_scan_results v" "v_users (tls_store r v) = v_users v"
  "v_plans (tls_store r v) = v_plans v" "v_cache (tls_store r v) = v_cache v"
  "v_outbox (tls_store r v) = v_outbox v"
  "v_keepLedgerMissing (tls_store r v) = v_keepLedgerMissing v"
  "v_scan_usage_events (tls_store r v) = v_scan_usage_events v"
  "usage_entries (tls_store r v) = usage_entries v"
  "v_tls_scan_results (tls_store r v) = add_mset r (tls_others (tls_ID r) v)"
  by (simp_all add: tls_store_def)

lemma restore_after [simp]:
  "restore_tables v (v\<lparr>v_scan_usage_events := M\<rparr>) = v"
  "restore_tables v ((tls_store r v)\<lparr>v_scan_usage_events := M\<rparr>) = v"
  "restore_tables v (tls_store r v) = v"
  by (simp_all add: restore_tables_def tls_store_def)

context usage_ledger
begin

text \<open>What the confirmation of a credit can end in.\<close>

lemma wp_confirm:
  assumes err: "\<And>err M. Q (Inl err) (v\<lparr>v_scan_usage_events := M\<rparr>)"
    and held: "scanID \<in> fst ` usage_entries v \<Longrightarrow> Q (Inr True) v"
    and granted: "\<And>M. scanID \<notin> fst ` usage_entries v
        \<Longrightarrow> unlimited \<or> limit \<le> 0 \<or> int (used (usage_entries v) userID kind) < limit
        \<Longrightarrow> usage_entry ` set_mset M = insert (scanID, userID, kind) (usage_entries v)
        \<Longrightarrow> Q (Inr True) (v\<lparr>v_scan_usage_events := M\<rparr>)"
    and refused: "\<And>M. scanID \<notin> fst ` usage_entries v \<Longrightarrow> \<not> unlimited \<Longrightarrow> 0 < limit
        \<Longrightarrow> limit \<le> int (used (usage_entries v) userID kind)
        \<Longrightarrow> usage_entry ` set_mset M = usage_entries v
        \<Longrightarrow> Q (Inr False) (v\<lparr>v_scan_usage_events := M\<rparr>)"
  shows "wp view (confirmExistingUsageOrAcquire L userID scanID kind limit unlimited) Q v"
proof -
  have err0: "Q (Inl err) v" for err
    using err [of err "v_scan_usage_events v"] by simp
  show ?thesis
  proof (cases "scanID \<in> fst ` usage_entries v")
    case True
    then show ?thesis
      unfolding confirmExistingUsageOrAcquire_def
      by (intro wp_intro wp_has) (simp_all add: err0 held)
  next
    case False
    have below: "wp view (bindP (ledger_RecordSuccessUsageIfUnderLimitInTx L userID scanID kind limit)
        (\<lambda>acquired. if acquired then returnP True else ledger_HasSuccessUsageForScanInTx L scanID)) Q v"
      if "\<not> unlimited"
      by (intro wp_intro wp_record_below wp_has)
        (use that False err err0 granted refused in
          \<open>auto simp: spec_record_below_def spec_record_def split: if_splits\<close>)
    show ?thesis
      unfolding confirmExistingUsageOrAcquire_def
      by (intro wp_bind [of view "ledger_HasSuccessUsageForScanInTx L scanID"] wp_has case_sum_InlI
            case_sum_InrI wp_if below err0 wp_bind wp_return wp_record)
        (use False granted in \<open>auto simp: spec_record_def\<close>)
  qed
qed

end

text \<open>
  The ledger after a successful completion: the scan's reservation was there, or has been added
  while the user had credits left. Without a user, a database handle or a plan resolver nothing
  is charged.
\<close>

definition metered :: "'w ScanEventHandler \<Rightarrow> uuid \<Rightarrow> bool" where
  "metered h userID \<longleftrightarrow> userID \<noteq> uuid_Nil \<and> h_db h \<and> h_planLimits h \<and> h_ledger h \<noteq> None"

definition credits_left :: "sys \<Rightarrow> uuid \<Rightarrow> bool" where
  "credits_left v userID \<longleftrightarrow>
     (\<forall>u p. live_user v userID u \<and> live_plan v u p \<and> 0 < plan_EndpointScanLimit p
        \<longrightarrow> int (used (usage_entries v) userID ScanUsageKindEndpoint) < plan_EndpointScanLimit p)"

definition charged ::
  "'w ScanEventHandler \<Rightarrow> uuid \<Rightarrow> uuid \<Rightarrow> sys \<Rightarrow> ScanUsageEventEntity multiset \<Rightarrow> bool" where
  "charged h userID scanID v M \<longleftrightarrow>
     (if metered h userID then
        scanID \<in> fst ` usage_entries v \<and> M = v_scan_usage_events v
        \<or> scanID \<notin> fst ` usage_entries v \<and> credits_left v userID
          \<and> usage_entry ` set_mset M
             = insert (scanID, userID, ScanUsageKindEndpoint) (usage_entries v)
      else M = v_scan_usage_events v)"

text \<open>A refusal: the plan has a positive limit and it is used up.\<close>

definition used_up :: "sys \<Rightarrow> uuid \<Rightarrow> bool" where
  "used_up v userID \<longleftrightarrow>
     (\<exists>limit. 0 < limit \<and> limit \<le> int (used (usage_entries v) userID ScanUsageKindEndpoint)
        \<and> (\<forall>u p. live_user v userID u \<and> live_plan v u p \<longrightarrow> limit = plan_EndpointScanLimit p))"

text \<open>The second half of the completion handler, after the status check.\<close>

definition completedRest ::
  "'w env \<Rightarrow> 'w ScanEventHandler \<Rightarrow> scanCompleted \<Rightarrow> ('w, go_error, unit) prog" where
  "completedRest E h msg =
     bindP (decodeResult E (co_Result msg)) (\<lambda>result.
     let entity = (FromTLSScanResult (userOrNil (co_UserID msg)) result (tr_Default result))
                    \<lparr>tls_ID := co_ScanID msg\<rparr>
     in bindP (commitTLSCompletion E h msg entity result) (\<lambda>acquired.
        if \<not> acquired then
          publishScanReady E h (co_UserID msg) ''tls'' (co_Endpoint msg) '''' ''failed''
        else
          bindP (SaveTLSScan E (co_UserID msg) (co_Endpoint msg) result) (\<lambda>_.
          publishScanReady E h (co_UserID msg) ''tls'' (co_Endpoint msg) '''' ''success'')))"

lemma handleTLSCompleted_eq:
  "handleTLSCompleted E h msg =
     bindP (catchP (TLSWriter_GetStatus E (co_ScanID msg)) (\<lambda>_. returnP '''')) (\<lambda>current.
     if \<not> ValidTransition current StateSUCCESS then returnP () else completedRest E h msg)"
  by (simp only: handleTLSCompleted_def completedRest_def)

text \<open>What the handlers leave: the decoded result, the row, the message on the bus.\<close>

definition decodes :: "'w env \<Rightarrow> string option \<Rightarrow> TLSScanResult \<Rightarrow> bool" where
  "decodes E inp result \<longleftrightarrow>
     (case inp of
        None \<Rightarrow> result = zero_TLSScanResult
      | Some raw \<Rightarrow> (case json_Marshal_raw E raw of
          None \<Rightarrow> False | Some b \<Rightarrow> json_Unmarshal_TLSScanResult E b = Some result))"

definition completion_row ::
  "'w env \<Rightarrow> scanCompleted \<Rightarrow> sys \<Rightarrow> TLSScanResult \<Rightarrow> TLSScanResultEntity \<Rightarrow> bool" where
  "completion_row E msg v result row \<longleftrightarrow> decodes E (co_Result msg) result
     \<and> (let entity = tls_success ((FromTLSScanResult (userOrNil (co_UserID msg)) result
                (tr_Default result))\<lparr>tls_ID := co_ScanID msg\<rparr>)
        in tls_written v (co_ScanID msg) (\<lambda>_. entity) entity row)"

definition over_limit_row ::
  "'w ScanEventHandler \<Rightarrow> scanCompleted \<Rightarrow> sys \<Rightarrow> TLSScanResultEntity \<Rightarrow> bool" where
  "over_limit_row h msg v row \<longleftrightarrow> metered h (co_UserID msg)
     \<and> co_ScanID msg \<notin> fst ` usage_entries v \<and> used_up v (co_UserID msg)
     \<and> (\<exists>url. tls_written v (co_ScanID msg) tls_stripped
           (tls_over_limit (userOrNil (co_UserID msg)) url) row)"

definition failure_row ::
  "uuid \<Rightarrow> uuid option \<Rightarrow> string \<Rightarrow> string \<Rightarrow> sys \<Rightarrow> TLSScanResultEntity \<Rightarrow> bool" where
  "failure_row scanID userID url errMsg v row \<longleftrightarrow>
     tls_written v scanID (\<lambda>old. old\<lparr>tls_Status := StateFAILED, tls_Error := errMsg\<rparr>)
       (tls_failure userID url errMsg) row"

definition failure_of :: "scanFailed \<Rightarrow> sys \<Rightarrow> TLSScanResultEntity \<Rightarrow> bool" where
  "failure_of msg v row \<longleftrightarrow> failure_row (fa_ScanID msg) (userOrNil (fa_UserID msg)) (fa_Endpoint msg)
     (fa_Error msg) v row"

definition released ::
  "'w ScanEventHandler \<Rightarrow> uuid \<Rightarrow> sys \<Rightarrow> ScanUsageEventEntity multiset \<Rightarrow> bool" where
  "released h scanID v M \<longleftrightarrow>
     (if h_db h \<and> h_ledger h \<noteq> None
      then usage_entry ` set_mset M = spec_release scanID (usage_entries v)
      else M = v_scan_usage_events v)"

definition may_fail :: "sys \<Rightarrow> uuid \<Rightarrow> bool" where
  "may_fail v scanID \<longleftrightarrow> (\<nexists>row. tls_row v scanID row)
     \<or> (\<exists>row. tls_row v scanID row
          \<and> (tls_Status row = '''' \<or> ValidTransition (tls_Status row) StateFAILED))"

definition tls_ready :: "'w env \<Rightarrow> uuid \<Rightarrow> string \<Rightarrow> string \<Rightarrow> nats_message" where
  "tls_ready E userID endpoint status = ScanReady \<lparr>ready_UserID = uuid_String E userID,
     ready_Kind = ''tls'', ready_Endpoint = endpoint, ready_Address = '''', ready_Status = status\<rparr>"

text \<open>
  The message of a handled event: without a connection there is none; otherwise the outbox grew by
  exactly this message, or the handler's last call was the publishing of this message and it failed.
\<close>

definition ready_sent ::
  "'w env \<Rightarrow> ('w \<Rightarrow> sys) \<Rightarrow> 'w ScanEventHandler \<Rightarrow> nats_message \<Rightarrow> 'w \<Rightarrow> 'w \<Rightarrow> bool" where
  "ready_sent E view h m w w' \<longleftrightarrow>
     (if h_natsConn h
      then v_outbox (view w') = v_outbox (view w) @ [m]
         \<or> v_outbox (view w') = v_outbox (view w) \<and> (\<exists>w1 e. nats_Publish E m w1 = (Inl e, w'))
      else v_outbox (view w') = v_outbox (view w))"

text \<open>What a handler writes before it publishes, and the status it then announces.\<close>

definition announce ::
  "'w env \<Rightarrow> 'w ScanEventHandler \<Rightarrow> uuid \<Rightarrow> string \<Rightarrow> string option \<Rightarrow> ('w, go_error, unit) prog" where
  "announce E h userID endpoint r =
     (case r of None \<Rightarrow> returnP ()
      | Some status \<Rightarrow> publishScanReady E h userID ''tls'' endpoint '''' status)"

definition completedWrites ::
  "'w env \<Rightarrow> 'w ScanEventHandler \<Rightarrow> scanCompleted \<Rightarrow> ('w, go_error, string option) prog" where
  "completedWrites E h msg =
     bindP (decodeResult E (co_Result msg)) (\<lambda>result.
     let entity = (FromTLSScanResult (userOrNil (co_UserID msg)) result (tr_Default result))
                    \<lparr>tls_ID := co_ScanID msg\<rparr>
     in bindP (commitTLSCompletion E h msg entity result) (\<lambda>acquired.
        if \<not> acquired then returnP (Some ''failed'')
        else
          bindP (SaveTLSScan E (co_UserID msg) (co_Endpoint msg) result) (\<lambda>_.
          returnP (Some ''success''))))"

definition failedWrites ::
  "'w env \<Rightarrow> 'w ScanEventHandler \<Rightarrow> scanFailed \<Rightarrow> ('w, go_error, string option) prog" where
  "failedWrites E h msg =
     bindP (TLSWriter_GetStatus E (fa_ScanID msg)) (\<lambda>current.
     if current \<noteq> '''' \<and> \<not> ValidTransition current StateFAILED then returnP None
     else
       bindP (persistTLSFailure E h (fa_ScanID msg) (userOrNil (fa_UserID msg)) (fa_Endpoint msg)
                (fa_Error msg)) (\<lambda>_.
       bindP (SaveTLSFailure E (fa_UserID msg) (fa_Endpoint msg) (fa_Error msg)) (\<lambda>_.
       returnP (Some ''failed''))))"

lemma bindP_assoc: "bindP (bindP m f) g = bindP m (\<lambda>x. bindP (f x) g)"
  by (rule ext) (simp add: bindP_def split: prod.splits sum.splits)

lemma bindP_return: "bindP (returnP x) f = f x"
  by (rule ext) (simp add: bindP_def returnP_def)

lemma completedRest_writes:
  "completedRest E h msg =
     bindP (completedWrites E h msg) (announce E h (co_UserID msg) (co_Endpoint msg))"
  unfolding completedRest_def completedWrites_def Let_def bindP_assoc
  by (intro arg_cong2 [of _ _ _ _ bindP] refl ext) (simp add: bindP_assoc bindP_return announce_def)

lemma handleTLSFailed_writes:
  "handleTLSFailed E h msg =
     bindP (failedWrites E h msg) (announce E h (fa_UserID msg) (fa_Endpoint msg))"
  unfolding handleTLSFailed_def failedWrites_def bindP_assoc
  by (intro arg_cong2 [of _ _ _ _ bindP] refl ext) (simp add: bindP_assoc bindP_return announce_def)

lemma limit_of_endpoint [simp]: "plan_limit_of ScanUsageKindEndpoint p = plan_EndpointScanLimit p"
  by (simp add: plan_limit_of_def)

context quota_world
begin

lemma wp_commit:
  assumes h: "h_ledger h = None \<or> h_ledger h = Some L"
    and err: "\<And>err. Q (Inl err) v"
    and ok: "\<And>row M. tls_written v (co_ScanID msg) (\<lambda>_. tls_success entity) (tls_success entity) row
        \<Longrightarrow> charged h (co_UserID msg) (co_ScanID msg) v M
        \<Longrightarrow> Q (Inr True) ((tls_store row v)\<lparr>v_scan_usage_events := M\<rparr>)"
    and refused: "\<And>row M url. tls_written v (co_ScanID msg) tls_stripped
          (tls_over_limit (userOrNil (co_UserID msg)) url) row
        \<Longrightarrow> metered h (co_UserID msg) \<Longrightarrow> co_ScanID msg \<notin> fst ` usage_entries v
        \<Longrightarrow> used_up v (co_UserID msg) \<Longrightarrow> usage_entry ` set_mset M = usage_entries v
        \<Longrightarrow> Q (Inr False) ((tls_store row v)\<lparr>v_scan_usage_events := M\<rparr>)"
  shows "wp view (commitTLSCompletion E h msg entity result) Q v"
proof (cases "metered h (co_UserID msg)")
  case False
  have "Q (Inr True) (tls_store row v)"
    if "tls_written v (co_ScanID msg) (\<lambda>_. tls_success entity) (tls_success entity) row" for row
    using ok [OF that, of "v_scan_usage_events v"] False by (simp add: charged_def tls_store_def)
  then have plain: "wp view (bindP (TLSWriter_OnCompleted E (co_ScanID msg) entity) (\<lambda>_. returnP True)) Q v"
    unfolding TLSWriter_OnCompleted_def
    by (intro wp_bind wp_tls_OnCompleted case_sum_InrI case_sum_InlI wp_return err) auto
  show ?thesis
    using False h plain unfolding commitTLSCompletion_def metered_def
    by (auto split: option.splits)
next
  case True
  with h have L: "h_ledger h = Some L" by (auto simp: metered_def)
  have held_ok: "Q (Inr True) (tls_store row v)"
    if "tls_written v (co_ScanID msg) (\<lambda>_. tls_success entity) (tls_success entity) row"
      and "co_ScanID msg \<in> fst ` usage_entries v" for row
    using ok [OF that(1), of "v_scan_usage_events v"] True that(2)
    by (simp add: charged_def tls_store_def)
  have granted_ok: "Q (Inr True) ((tls_store row v)\<lparr>v_scan_usage_events := M\<rparr>)"
    if "tls_written v (co_ScanID msg) (\<lambda>_. tls_success entity) (tls_success entity) row"
      and "co_ScanID msg \<notin> fst ` usage_entries v" and "credits_left v (co_UserID msg)"
      and "usage_entry ` set_mset M
         = insert (co_ScanID msg, co_UserID msg, ScanUsageKindEndpoint) (usage_entries v)" for row M
    using ok [OF that(1), of M] True that(2-4) by (simp add: charged_def)
  have body: "wp view (gorm_Transaction E id (\<lambda>_ e. e)
      (bindP (confirmExistingUsageOrAcquire L (co_UserID msg) (co_ScanID msg)
                ScanUsageKindEndpoint limit unlimited) (\<lambda>acquired.
       if acquired then
         bindP (TLSWriter_OnCompletedInTx E (co_ScanID msg) entity) (\<lambda>_. returnP acquired)
       else
         bindP (TLSWriter_OnPlanLimitExceededInTx E (co_ScanID msg)
                  (userOrNil (co_UserID msg)) url) (\<lambda>_. returnP acquired)))) Q v"
    if unl: "unlimited = (limit = 0)"
      and lim: "\<And>u p. live_user v (co_UserID msg) u \<Longrightarrow> live_plan v u p
          \<Longrightarrow> limit = plan_EndpointScanLimit p" for limit unlimited url
  proof -
    have left: "credits_left v (co_UserID msg)"
      if "unlimited \<or> limit \<le> 0
        \<or> int (used (usage_entries v) (co_UserID msg) ScanUsageKindEndpoint) < limit"
      using that unl lim by (force simp: credits_left_def)
    have up: "used_up v (co_UserID msg)"
      if "0 < limit" and "limit \<le> int (used (usage_entries v) (co_UserID msg) ScanUsageKindEndpoint)"
      using that lim by (auto simp: used_up_def)
    show ?thesis
      by (intro wp_Transaction wp_bind ledger.wp_confirm case_sum_InrI case_sum_InlI wp_if
          wp_tls_OnCompleted wp_tls_OnPlanLimitExceeded wp_return)
        (simp_all add: err held_ok granted_ok left refused [OF _ True _ up])
  qed
  show ?thesis
    using True
    by (auto simp: commitTLSCompletion_def L metered_def Let_def
        intro!: wp_bind wp_mono [OF scan_limit_lookup] body err split: sum.splits)
qed

lemma wp_announce:
  assumes "\<And>ob. Q (Inr ()) (v\<lparr>v_outbox := ob\<rparr>)"
  shows "wp view (announce E h userID endpoint r) Q v"
  unfolding announce_def publishScanReady_def
  using assms [of "v_outbox v"] by (auto split: option.splits intro!: wp_intro assms)

lemma announced:
  assumes run: "announce E h userID endpoint (Some status) w1 = (Inr (), w')"
    and before: "v_outbox (view w1) = v_outbox (view w)"
  shows "ready_sent E view h (tls_ready E userID endpoint status) w w'
       \<and> view w' = (view w1)\<lparr>v_outbox := v_outbox (view w')\<rparr>"
proof (cases "h_natsConn h")
  case False
  with run have "w' = w1" by (auto simp: announce_def publishScanReady_def returnP_def)
  with False before show ?thesis by (simp add: ready_sent_def)
next
  case True
  obtain r w2 where pub: "nats_Publish E (tls_ready E userID endpoint status) w1 = (r, w2)"
    by fastforce
  with run True have w2: "w2 = w'"
    by (auto simp: announce_def publishScanReady_def tls_ready_def catchP_def returnP_def
        split: sum.splits)
  show ?thesis
  proof (cases r)
    case (Inl e)
    with pub w2 have "nats_Publish E (tls_ready E userID endpoint status) w1 = (Inl e, w')" by simp
    moreover from publish_err [OF this] have "view w' = view w1" .
    ultimately show ?thesis using True before by (auto simp: ready_sent_def)
  next
    case (Inr u)
    with pub w2 have "nats_Publish E (tls_ready E userID endpoint status) w1 = (Inr u, w')" by simp
    from publish_ok [OF this] show ?thesis using True before by (simp add: ready_sent_def)
  qed
qed

lemma wp_decodeResult:
  assumes "\<And>result. decodes E inp result \<Longrightarrow> Q (Inr result) v" and "\<And>e. Q (Inl e) v"
  shows "wp view (decodeResult E inp) Q v"
  unfolding decodeResult_def
  using assms by (auto simp: decodes_def split: option.splits intro!: wp_intro)

lemma wp_completedWrites:
  assumes h: "h_ledger h = None \<or> h_ledger h = Some L"
    and err: "\<And>err. Q (Inl err) v"
    and success: "\<And>result row M data. completion_row E msg v result row
        \<Longrightarrow> charged h (co_UserID msg) (co_ScanID msg) v M
        \<Longrightarrow> json_Marshal_TLSScanResult E result = Some data
        \<Longrightarrow> Q (Inr (Some ''success'')) ((tls_store row v)\<lparr>v_scan_usage_events := M,
              v_cache := (v_cache v)(tls_key E (co_UserID msg) (co_Endpoint msg) \<mapsto> (data, scanResultTTL))\<rparr>)"
    and uncached: "\<And>err result row M. completion_row E msg v result row
        \<Longrightarrow> charged h (co_UserID msg) (co_ScanID msg) v M
        \<Longrightarrow> Q (Inl err) ((tls_store row v)\<lparr>v_scan_usage_events := M\<rparr>)"
    and refused: "\<And>row M. over_limit_row h msg v row
        \<Longrightarrow> usage_entry ` set_mset M = usage_entries v
        \<Longrightarrow> Q (Inr (Some ''failed'')) ((tls_store row v)\<lparr>v_scan_usage_events := M\<rparr>)"
  shows "wp view (completedWrites E h msg) Q v"
  unfolding completedWrites_def Let_def
proof (intro wp_bind [of view "decodeResult E (co_Result msg)"] wp_decodeResult case_sum_InrI
    case_sum_InlI err)
  fix result
  let ?entity = "(FromTLSScanResult (userOrNil (co_UserID msg)) result (tr_Default result))
      \<lparr>tls_ID := co_ScanID msg\<rparr>"
  assume dec: "decodes E (co_Result msg) result"
  show "wp view (bindP (commitTLSCompletion E h msg ?entity result) (\<lambda>acquired.
      if \<not> acquired then returnP (Some ''failed'')
      else bindP (SaveTLSScan E (co_UserID msg) (co_Endpoint msg) result)
        (\<lambda>_. returnP (Some ''success'')))) Q v"
  proof (intro wp_bind [of view "commitTLSCompletion E h msg ?entity result"] wp_commit [OF h]
      case_sum_InrI case_sum_InlI err, unfold not_True_eq_False not_False_eq_True if_True if_False)
    fix row M
    assume row: "tls_written v (co_ScanID msg) (\<lambda>_. tls_success ?entity) (tls_success ?entity) row"
      and M: "charged h (co_UserID msg) (co_ScanID msg) v M"
    have row': "completion_row E msg v result row"
      using dec row by (simp add: completion_row_def)
    show "wp view (bindP (SaveTLSScan E (co_UserID msg) (co_Endpoint msg) result)
        (\<lambda>_. returnP (Some ''success''))) Q ((tls_store row v)\<lparr>v_scan_usage_events := M\<rparr>)"
      unfolding SaveTLSScan_def
      by (intro wp_bind wp_case_option wp_throw wp_mapErr wp_redis_Set wp_return case_sum_InrI
          case_sum_InlI) (use success [OF row' M] uncached [OF row' M] in simp_all)
  next
    fix row M url
    assume "tls_written v (co_ScanID msg) tls_stripped
          (tls_over_limit (userOrNil (co_UserID msg)) url) row"
      "metered h (co_UserID msg)" "co_ScanID msg \<notin> fst ` usage_entries v"
      "used_up v (co_UserID msg)" and M: "usage_entry ` set_mset M = usage_entries v"
    then have "over_limit_row h msg v row" by (auto simp: over_limit_row_def)
    from refused [OF this M]
    show "wp view (returnP (Some ''failed'')) Q ((tls_store row v)\<lparr>v_scan_usage_events := M\<rparr>)"
      by (rule wp_return)
  qed
qed

text \<open>The same rule with the message: the outbox is any list the publishing can leave.\<close>

lemma wp_completedRest:
  assumes h: "h_ledger h = None \<or> h_ledger h = Some L"
    and err: "\<And>err. Q (Inl err) v"
    and success: "\<And>result row M data ob. completion_row E msg v result row
        \<Longrightarrow> charged h (co_UserID msg) (co_ScanID msg) v M
        \<Longrightarrow> Q (Inr ()) ((tls_store row v)\<lparr>v_scan_usage_events := M,
              v_cache := (v_cache v)(tls_key E (co_UserID msg) (co_Endpoint msg) \<mapsto> (data, scanResultTTL)),
              v_outbox := ob\<rparr>)"
    and uncached: "\<And>err result row M. completion_row E msg v result row
        \<Longrightarrow> charged h (co_UserID msg) (co_ScanID msg) v M
        \<Longrightarrow> Q (Inl err) ((tls_store row v)\<lparr>v_scan_usage_events := M\<rparr>)"
    and refused: "\<And>row M ob. over_limit_row h msg v row
        \<Longrightarrow> usage_entry ` set_mset M = usage_entries v
        \<Longrightarrow> Q (Inr ()) ((tls_store row v)\<lparr>v_scan_usage_events := M, v_outbox := ob\<rparr>)"
  shows "wp view (completedRest E h msg) Q v"
  unfolding completedRest_writes
  by (intro wp_bind wp_completedWrites [OF h] case_sum_InrI case_sum_InlI err uncached wp_announce)
    (simp_all add: success refused)

lemma wp_persistTLSFailure:
  assumes h: "h_ledger h = None \<or> h_ledger h = Some L"
    and err: "\<And>err. Q (Inl err) v"
    and ok: "\<And>row M. failure_row scanID userID url errMsg v row \<Longrightarrow> released h scanID v M
        \<Longrightarrow> Q (Inr ()) ((tls_store row v)\<lparr>v_scan_usage_events := M\<rparr>)"
  shows "wp view (persistTLSFailure E h scanID userID url errMsg) Q v"
proof (cases "h_db h \<and> h_ledger h \<noteq> None")
  case True
  with h have L: "h_ledger h = Some L" by auto
  have ok': "Q (Inr ()) ((tls_store row v)\<lparr>v_scan_usage_events := M\<rparr>)"
    if "tls_written v scanID (\<lambda>old. old\<lparr>tls_Status := StateFAILED, tls_Error := errMsg\<rparr>)
          (tls_failure userID url errMsg) row"
      and "usage_entry ` set_mset M = spec_release scanID (usage_entries v)" for row M
    using that True by (intro ok) (simp_all add: failure_row_def released_def)
  show ?thesis
    using True unfolding persistTLSFailure_def L
    by (auto simp: err ok' intro!: wp_Transaction wp_bind wp_tls_OnFailed ledger.wp_release)
next
  case False
  have "Q (Inr ()) (tls_store row v)" if "failure_row scanID userID url errMsg v row" for row
    using ok [OF that, of "v_scan_usage_events v"] False by (auto simp: released_def tls_store_def)
  then have "wp view (TLSWriter_OnFailed E scanID userID url errMsg) Q v"
    unfolding TLSWriter_OnFailed_def by (intro wp_tls_OnFailed err) (simp add: failure_row_def)
  with False show ?thesis
    unfolding persistTLSFailure_def by (auto split: option.splits)
qed

lemma wp_failedWrites:
  assumes h: "h_ledger h = None \<or> h_ledger h = Some L"
    and err: "\<And>err. Q (Inl err) v"
    and ignored: "\<And>row. tls_row v (fa_ScanID msg) row \<Longrightarrow> tls_Status row \<noteq> ''''
        \<Longrightarrow> \<not> ValidTransition (tls_Status row) StateFAILED \<Longrightarrow> Q (Inr None) v"
    and failed: "\<And>row M. may_fail v (fa_ScanID msg) \<Longrightarrow> failure_of msg v row
        \<Longrightarrow> released h (fa_ScanID msg) v M
        \<Longrightarrow> Q (Inr (Some ''failed'')) ((tls_store row v)\<lparr>v_scan_usage_events := M,
              v_cache := (v_cache v)(tls_key E (fa_UserID msg) (fa_Endpoint msg)
                \<mapsto> (failure_payload (fa_Error msg), scanResultTTL))\<rparr>)"
    and uncached: "\<And>err row M. may_fail v (fa_ScanID msg) \<Longrightarrow> failure_of msg v row
        \<Longrightarrow> released h (fa_ScanID msg) v M
        \<Longrightarrow> Q (Inl err) ((tls_store row v)\<lparr>v_scan_usage_events := M\<rparr>)"
  shows "wp view (failedWrites E h msg) Q v"
proof -
  have rest: "wp view (bindP (persistTLSFailure E h (fa_ScanID msg) (userOrNil (fa_UserID msg))
        (fa_Endpoint msg) (fa_Error msg)) (\<lambda>_.
      bindP (SaveTLSFailure E (fa_UserID msg) (fa_Endpoint msg) (fa_Error msg)) (\<lambda>_.
      returnP (Some ''failed'')))) Q v"
    if "may_fail v (fa_ScanID msg)"
    unfolding SaveTLSFailure_def
    by (intro wp_bind wp_persistTLSFailure [OF h] case_sum_InrI case_sum_InlI wp_intro err)
      (use that failed uncached in \<open>auto simp: failure_of_def fun_upd_def\<close>)
  have one: "may_fail v (fa_ScanID msg)"
    if "tls_row v (fa_ScanID msg) row" "tls_Status row = '''' \<or> ValidTransition (tls_Status row) StateFAILED" for row
    using that by (auto simp: may_fail_def)
  show ?thesis
    unfolding failedWrites_def
    by (intro wp_bind wp_tls_GetStatus case_sum_InrI case_sum_InlI wp_if wp_return err rest)
      (use ignored one in \<open>auto simp: may_fail_def\<close>)
qed

lemma wp_handleTLSFailed:
  assumes h: "h_ledger h = None \<or> h_ledger h = Some L"
    and err: "\<And>err. Q (Inl err) v"
    and ignored: "\<And>row. tls_row v (fa_ScanID msg) row \<Longrightarrow> tls_Status row \<noteq> ''''
        \<Longrightarrow> \<not> ValidTransition (tls_Status row) StateFAILED \<Longrightarrow> Q (Inr ()) v"
    and failed: "\<And>row M ob. may_fail v (fa_ScanID msg) \<Longrightarrow> failure_of msg v row
        \<Longrightarrow> released h (fa_ScanID msg) v M
        \<Longrightarrow> Q (Inr ()) ((tls_store row v)\<lparr>v_scan_usage_events := M,
              v_cache := (v_cache v)(tls_key E (fa_UserID msg) (fa_Endpoint msg)
                \<mapsto> (failure_payload (fa_Error msg), scanResultTTL)),
              v_outbox := ob\<rparr>)"
    and uncached: "\<And>err row M. may_fail v (fa_ScanID msg) \<Longrightarrow> failure_of msg v row
        \<Longrightarrow> released h (fa_ScanID msg) v M
        \<Longrightarrow> Q (Inl err) ((tls_store row v)\<lparr>v_scan_usage_events := M\<rparr>)"
  shows "wp view (handleTLSFailed E h msg) Q v"
  unfolding handleTLSFailed_writes
proof (intro wp_bind wp_failedWrites [OF h] case_sum_InrI case_sum_InlI err uncached)
  fix row
  assume "tls_row v (fa_ScanID msg) row" "tls_Status row \<noteq> ''''"
    "\<not> ValidTransition (tls_Status row) StateFAILED"
  then have "Q (Inr ()) v" by (rule ignored)
  then show "wp view (announce E h (fa_UserID msg) (fa_Endpoint msg) None) Q v"
    unfolding announce_def option.case by (rule wp_return)
qed (simp_all add: wp_announce failed)

end

section \<open>Properties of the event handlers\<close>

lemma tls_content_fields:
  assumes "tls_content r = tls_content s"
  shows "tls_Status r = tls_Status s" "tls_Error r = tls_Error s" "tls_DeletedAt r = tls_DeletedAt s"
    "tls_UserID r = tls_UserID s" "tls_URL r = tls_URL s"
proof -
  show "tls_Status r = tls_Status s" using arg_cong [OF assms, of tls_Status] by (simp add: tls_content_def)
  show "tls_Error r = tls_Error s" using arg_cong [OF assms, of tls_Error] by (simp add: tls_content_def)
  show "tls_DeletedAt r = tls_DeletedAt s"
    using arg_cong [OF assms, of tls_DeletedAt] by (simp add: tls_content_def)
  show "tls_UserID r = tls_UserID s" using arg_cong [OF assms, of tls_UserID] by (simp add: tls_content_def)
  show "tls_URL r = tls_URL s" using arg_cong [OF assms, of tls_URL] by (simp add: tls_content_def)
qed

text \<open>The stored row of a write is live and has the status and error of the template.\<close>

lemma tls_written_row:
  assumes written: "tls_written v scanID upd new row" and id: "scanID \<noteq> uuid_Nil"
    and upd: "\<And>old. tls_row v scanID old \<Longrightarrow> tls_DeletedAt (upd old) = None
        \<and> tls_Status (upd old) = status \<and> tls_Error (upd old) = err"
    and new: "tls_DeletedAt new = None" "tls_Status new = status" "tls_Error new = err"
  shows "tls_row ((tls_store row v)\<lparr>v_scan_usage_events := M\<rparr>) scanID row
       \<and> tls_ID row = scanID \<and> tls_Status row = status \<and> tls_Error row = err"
proof -
  obtain t where t: "tls_content row = tls_content t" "tls_ID row = scanID"
    and fields: "tls_DeletedAt t = None" "tls_Status t = status" "tls_Error t = err"
    using written id upd new unfolding tls_written_def by metis
  show ?thesis
    using t(2) fields tls_content_fields [OF t(1)]
    by (simp add: tls_row_def tls_live_id_def)
qed

lemma FromTLSScanResult_live [simp]: "tls_DeletedAt (FromTLSScanResult u r d) = None"
  by (simp add: FromTLSScanResult_def Let_def zero_TLSScanResultEntity_def)

lemma completion_row_fields:
  assumes "completion_row E msg v result row" and "co_ScanID msg \<noteq> uuid_Nil"
  shows "tls_row ((tls_store row v)\<lparr>v_scan_usage_events := M\<rparr>) (co_ScanID msg) row
       \<and> tls_ID row = co_ScanID msg \<and> tls_Status row = StateSUCCESS \<and> tls_Error row = ''''"
  by (rule tls_written_row [OF conjunct2 [OF assms(1) [unfolded completion_row_def Let_def]] assms(2)])
    (simp_all add: tls_success_def)

lemma over_limit_row_fields:
  assumes "over_limit_row h msg v row" and "co_ScanID msg \<noteq> uuid_Nil"
  shows "tls_row ((tls_store row v)\<lparr>v_scan_usage_events := M\<rparr>) (co_ScanID msg) row
       \<and> tls_ID row = co_ScanID msg \<and> tls_Status row = StateFAILED \<and> tls_Error row = ErrPlanLimitExceeded"
proof -
  from assms(1) obtain url where "tls_written v (co_ScanID msg) tls_stripped
      (tls_over_limit (userOrNil (co_UserID msg)) url) row" by (auto simp: over_limit_row_def)
  then show ?thesis
    by (rule tls_written_row [OF _ assms(2)])
      (auto simp: tls_stripped_def tls_over_limit_def zero_TLSScanResultEntity_def tls_row_def tls_live_id_def)
qed

lemma failure_of_fields:
  assumes "failure_of msg v row" and "fa_ScanID msg \<noteq> uuid_Nil"
  shows "tls_row ((tls_store row v)\<lparr>v_scan_usage_events := M\<rparr>) (fa_ScanID msg) row
       \<and> tls_ID row = fa_ScanID msg \<and> tls_Status row = StateFAILED \<and> tls_Error row = fa_Error msg"
  by (rule tls_written_row [OF assms(1) [unfolded failure_of_def failure_row_def] assms(2)])
    (auto simp: tls_failure_def zero_TLSScanResultEntity_def tls_row_def tls_live_id_def)

text \<open>A run that returned, cut before its message.\<close>

lemma handleTLSCompleted_runE:
  assumes world: "world E view" and run: "handleTLSCompleted E h msg w = (Inr (), w')"
  obtains (ignored) row where "tls_row (view w) (co_ScanID msg) row"
      "\<not> ValidTransition (tls_Status row) StateSUCCESS" "view w' = view w"
    | (handled) r w0 w1 where "view w0 = view w" "completedWrites E h msg w0 = (Inr r, w1)"
      "announce E h (co_UserID msg) (co_Endpoint msg) r w1 = (Inr (), w')"
proof -
  let ?get = "catchP (TLSWriter_GetStatus E (co_ScanID msg)) (\<lambda>_. returnP '''') :: (_, go_error, string) prog"
  obtain r w0 where r: "TLSWriter_GetStatus E (co_ScanID msg) w = (r, w0)" by fastforce
  obtain c where get: "?get w = (Inr c, w0)"
    using r by (cases r) (auto simp: catchP_def returnP_def)
  have "wp view ?get
      (\<lambda>r v'. v' = view w \<and> (\<forall>c. r = Inr c \<longrightarrow> c = ''''
        \<or> (\<exists>row. tls_row (view w) (co_ScanID msg) row \<and> c = tls_Status row))) (view w)"
    by (intro wp_catch world.wp_tls_GetStatus [OF world] wp_return case_sum_InrI case_sum_InlI) auto
  from wpD [OF this get] have w0: "view w0 = view w"
    and c: "c = '''' \<or> (\<exists>row. tls_row (view w) (co_ScanID msg) row \<and> c = tls_Status row)" by auto
  show thesis
  proof (cases "ValidTransition c StateSUCCESS")
    case False
    with run get w0 have "view w' = view w" by (simp add: handleTLSCompleted_eq bindP_def returnP_def)
    moreover have "c \<noteq> ''''" using False by auto
    ultimately show thesis using c False ignored by blast
  next
    case True
    with run get have "completedRest E h msg w0 = (Inr (), w')"
      by (auto simp: handleTLSCompleted_eq bindP_def)
    with w0 show thesis
      by (auto simp: completedRest_writes bindP_def split: prod.splits sum.splits intro: handled)
  qed
qed

text \<open>
  C5. A TLS completion for a user, with the ledger and the plans connected and neither the user id
  nor the scan id nil, that returned without an error has done one of three things. It ignored the
  event, because the live row of the scan admits no completion, and changed nothing. Or it stored
  the row as SUCCESS, and then exactly one reservation stands for the scan: the one that was there,
  or a new one of this user, taken while credits were left; the result is in the cache under the
  user and endpoint. Or the plan's credits are used up: the row is FAILED with the plan limit error,
  no reservation is added, the cache is untouched. In the last two cases the rows of other scans
  stay, and with a connection one scan.ready message with the status of the stored row has been
  sent, except when the handler's last call, publishing exactly this message, failed.
\<close>

theorem tls_completion_accounting:
  assumes world: "world E view" and h: "h_ledger h = Some (NewScanUsageLedgerRepository E)"
      "h_db h" "h_planLimits h"
    and ids: "co_UserID msg \<noteq> uuid_Nil" "co_ScanID msg \<noteq> uuid_Nil"
    and run: "handleTLSCompleted E h msg w = (Inr (), w')"
  shows "(\<exists>row. tls_row (view w) (co_ScanID msg) row
            \<and> \<not> ValidTransition (tls_Status row) StateSUCCESS \<and> view w' = view w)
       \<or> tls_others (co_ScanID msg) (view w') = tls_others (co_ScanID msg) (view w)
         \<and> (\<exists>row. tls_row (view w') (co_ScanID msg) row \<and> tls_Status row = StateSUCCESS
             \<and> (if co_ScanID msg \<in> fst ` usage_entries (view w)
                then usage_entries (view w') = usage_entries (view w)
                else credits_left (view w) (co_UserID msg)
                  \<and> usage_entries (view w') = insert (co_ScanID msg, co_UserID msg, ScanUsageKindEndpoint)
                      (usage_entries (view w)))
             \<and> (\<exists>result data. decodes E (co_Result msg) result
                  \<and> json_Marshal_TLSScanResult E result = Some data
                  \<and> v_cache (view w') = (v_cache (view w))
                      (tls_key E (co_UserID msg) (co_Endpoint msg) \<mapsto> (data, scanResultTTL))))
         \<and> ready_sent E view h (tls_ready E (co_UserID msg) (co_Endpoint msg) ''success'') w w'
       \<or> tls_others (co_ScanID msg) (view w') = tls_others (co_ScanID msg) (view w)
         \<and> (\<exists>row. tls_row (view w') (co_ScanID msg) row \<and> tls_Status row = StateFAILED
             \<and> tls_Error row = ErrPlanLimitExceeded
             \<and> co_ScanID msg \<notin> fst ` usage_entries (view w) \<and> used_up (view w) (co_UserID msg)
             \<and> usage_entries (view w') = usage_entries (view w)
             \<and> v_cache (view w') = v_cache (view w))
         \<and> ready_sent E view h (tls_ready E (co_UserID msg) (co_Endpoint msg) ''failed'') w w'"
  (is "?ignored \<or> ?others (view w') \<and> ?stored (view w') \<and> ?success \<or> ?others (view w') \<and> ?refused (view w') \<and> ?failed")
  using world run
proof (cases rule: handleTLSCompleted_runE)
  case (ignored row)
  then show ?thesis by blast
next
  case (handled r w0 w1)
  let ?v = "view w"
  let ?id = "co_ScanID msg"
  have metered: "metered h (co_UserID msg)" using h ids by (simp add: metered_def)
  let ?ok = "\<lambda>v'. ?others v' \<and> ?stored v'"
  let ?no = "\<lambda>v'. ?others v' \<and> ?refused v'"
  have stored: "?ok (((tls_store row ?v)\<lparr>v_scan_usage_events := M,
      v_cache := (v_cache ?v)(tls_key E (co_UserID msg) (co_Endpoint msg) \<mapsto> (data, scanResultTTL))\<rparr>)
      \<lparr>v_outbox := ob\<rparr>)"
    if row: "completion_row E msg ?v result row" and M: "charged h (co_UserID msg) ?id ?v M"
      and data: "json_Marshal_TLSScanResult E result = Some data" for result row M data ob
  proof -
    let ?S = "((tls_store row ?v)\<lparr>v_scan_usage_events := M,
      v_cache := (v_cache ?v)(tls_key E (co_UserID msg) (co_Endpoint msg) \<mapsto> (data, scanResultTTL))\<rparr>)
      \<lparr>v_outbox := ob\<rparr>"
    note fields = completion_row_fields [OF row ids(2), of M]
    have dec: "decodes E (co_Result msg) result" using row by (simp add: completion_row_def)
    have row_S: "tls_others ?id ?S = tls_others ?id ?v" "tls_row ?S ?id row" "tls_Status row = StateSUCCESS"
      using fields by simp_all
    have usage_S: "if ?id \<in> fst ` usage_entries ?v then usage_entries ?S = usage_entries ?v
        else credits_left ?v (co_UserID msg)
          \<and> usage_entries ?S = insert (?id, co_UserID msg, ScanUsageKindEndpoint) (usage_entries ?v)"
      using M metered by (cases "?id \<in> fst ` usage_entries ?v") (simp_all add: charged_def)
    have cache_S: "v_cache ?S = (v_cache ?v)(tls_key E (co_UserID msg) (co_Endpoint msg)
        \<mapsto> (data, scanResultTTL))"
      by simp
    show ?thesis
      by (intro conjI exI [of _ row] exI [of _ result] exI [of _ data])
        (fact row_S dec data usage_S cache_S)+
  qed
  have refused: "?no (((tls_store row ?v)\<lparr>v_scan_usage_events := M\<rparr>)\<lparr>v_outbox := ob\<rparr>)"
    if row: "over_limit_row h msg ?v row" and M: "usage_entry ` set_mset M = usage_entries ?v"
    for row M ob
    using over_limit_row_fields [OF row ids(2), of M] row M by (auto simp: over_limit_row_def)
  let ?Q = "\<lambda>r v'. \<forall>s. r = Inr s \<longrightarrow> v_outbox v' = v_outbox ?v
      \<and> (s = Some ''success'' \<and> (\<forall>ob. ?ok (v'\<lparr>v_outbox := ob\<rparr>))
         \<or> s = Some ''failed'' \<and> (\<forall>ob. ?no (v'\<lparr>v_outbox := ob\<rparr>)))"
  have "wp view (completedWrites E h msg) ?Q ?v"
  proof (rule quota_world.wp_completedWrites [OF world.quota_std [OF world]], goal_cases)
    case 1
    then show ?case using h(1) by simp
  next
    case (3 result row M data)
    note S = stored [OF this]
    show ?case by (intro allI impI conjI disjI1) (simp, simp, rule S [THEN conjunct1], rule S [THEN conjunct2])
  next
    case (5 row M)
    note R = refused [OF this]
    show ?case by (intro allI impI conjI disjI2) (simp, simp, rule R [THEN conjunct1], rule R [THEN conjunct2])
  qed simp_all
  then have "wp view (completedWrites E h msg) ?Q (view w0)" using handled(1) by simp
  from wpD [OF this handled(2)] have ob: "v_outbox (view w1) = v_outbox ?v"
    and cases: "r = Some ''success'' \<and> (\<forall>ob. ?ok ((view w1)\<lparr>v_outbox := ob\<rparr>))
      \<or> r = Some ''failed'' \<and> (\<forall>ob. ?no ((view w1)\<lparr>v_outbox := ob\<rparr>))" by blast+
  note tell = quota_world.announced [OF world.quota_std [OF world] _ ob]
  from cases show ?thesis
  proof (elim disjE conjE)
    assume r: "r = Some ''success''" and all: "\<forall>ob. ?ok ((view w1)\<lparr>v_outbox := ob\<rparr>)"
    from tell [OF handled(3) [unfolded r]]
    have ?success and w': "view w' = (view w1)\<lparr>v_outbox := v_outbox (view w')\<rparr>" by simp_all
    moreover have "?ok (view w')" by (rule ssubst [where P = ?ok, OF w']) (rule all [rule_format])
    ultimately show ?thesis by blast
  next
    assume r: "r = Some ''failed''" and all: "\<forall>ob. ?no ((view w1)\<lparr>v_outbox := ob\<rparr>)"
    from tell [OF handled(3) [unfolded r]]
    have ?failed and w': "view w' = (view w1)\<lparr>v_outbox := v_outbox (view w')\<rparr>" by simp_all
    moreover have "?no (view w')" by (rule ssubst [where P = ?no, OF w']) (rule all [rule_format])
    ultimately show ?thesis by blast
  qed
qed

definition handler_demo :: "mem ScanEventHandler" where
  "handler_demo = \<lparr>h_natsConn = True, h_db = True,
     h_ledger = Some (NewScanUsageLedgerRepository mem_env), h_planLimits = True\<rparr>"

definition completed_demo :: scanCompleted where
  "completed_demo = \<lparr>co_ScanID = 8, co_Kind = ''tls'', co_UserID = 1, co_Endpoint = ''https://a'',
     co_Address = '''', co_Result = Some ''https://a''\<rparr>"

lemma limit_demo_view:
  "v_tls_scan_results (mem_view limit_demo) = {#}" "usage_entries (mem_view limit_demo) = {}"
  by (simp_all add: limit_demo_def mem_view_def mem_norm_def mem_wf_def mem_empty_def mem_sys_def
      usage_entries_def del: usage_entries_fold)

theorem tls_completion_accounting_witness:
  "\<exists>row. tls_row (mem_view (snd (handleTLSCompleted mem_env handler_demo completed_demo limit_demo))) 8 row
     \<and> tls_Status row = StateSUCCESS
     \<and> usage_entries (mem_view (snd (handleTLSCompleted mem_env handler_demo completed_demo limit_demo)))
       = {(8, 1, ScanUsageKindEndpoint)}"
proof -
  let ?w = "snd (handleTLSCompleted mem_env handler_demo completed_demo limit_demo)"
  have run: "handleTLSCompleted mem_env handler_demo completed_demo limit_demo = (Inr (), ?w)"
    by (rule prod_eqI) (code_simp, simp)
  have "\<not> used_up (mem_view limit_demo) 1"
    by (auto simp: used_up_def limit_demo_view used_def)
  then show ?thesis
    using tls_completion_accounting [OF mem_world _ _ _ _ _ run]
    by (auto simp: handler_demo_def completed_demo_def tls_row_def limit_demo_view)
qed

text \<open>
  C6. A TLS completion that returned an error either changed nothing at all, or failed after its
  commit: then the row is stored as SUCCESS and charged, and only the cache entry and the message
  are missing. A partial commit (a charge without a result, a result without a charge) is
  impossible.
\<close>

theorem tls_completion_error_is_atomic:
  assumes world: "world E view" and h: "h_ledger h = Some (NewScanUsageLedgerRepository E)"
    and ids: "co_ScanID msg \<noteq> uuid_Nil"
    and run: "handleTLSCompleted E h msg w = (Inl err, w')"
  shows "view w' = view w
       \<or> (\<exists>row. tls_row (view w') (co_ScanID msg) row \<and> tls_Status row = StateSUCCESS
           \<and> tls_others (co_ScanID msg) (view w') = tls_others (co_ScanID msg) (view w)
           \<and> charged h (co_UserID msg) (co_ScanID msg) (view w) (v_scan_usage_events (view w'))
           \<and> v_cache (view w') = v_cache (view w) \<and> v_outbox (view w') = v_outbox (view w))"
  (is "view w' = view w \<or> ?stored (view w')")
proof -
  let ?v = "view w"
  let ?Q = "\<lambda>r v'. isl r \<longrightarrow> v' = ?v \<or> ?stored v'"
  note quota = world.quota_std [OF world]
  have stored: "?stored ((tls_store row ?v)\<lparr>v_scan_usage_events := M\<rparr>)"
    if "completion_row E msg ?v result row" and "charged h (co_UserID msg) (co_ScanID msg) ?v M" for result row M
    using completion_row_fields [OF that(1) ids, of M] that(2) by auto
  have rest: "wp view (completedRest E h msg) ?Q ?v"
  proof (rule quota_world.wp_completedRest [OF quota], goal_cases)
    case 1
    then show ?case using h by simp
  next
    case (4 err result row M)
    from stored [OF this] show ?case by blast
  qed simp_all
  have "wp view (handleTLSCompleted E h msg) ?Q ?v"
    unfolding handleTLSCompleted_eq
    by (intro wp_bind wp_catch world.wp_tls_GetStatus [OF world] wp_return case_sum_InrI case_sum_InlI
        wp_if rest) simp_all
  from wpD [OF this run] show ?thesis by simp
qed

text \<open>An example run in which every call up to the commit succeeds and the cache write fails.\<close>

definition uncached_demo :: mem where
  "uncached_demo = limit_demo\<lparr>m_faults := replicate 9 False @ [True]\<rparr>"

theorem tls_completion_error_is_atomic_witness:
  "isl (fst (handleTLSCompleted mem_env handler_demo completed_demo uncached_demo))
   \<and> (\<exists>row. tls_row (mem_view (snd (handleTLSCompleted mem_env handler_demo completed_demo uncached_demo))) 8 row
        \<and> tls_Status row = StateSUCCESS)"
proof -
  let ?run = "handleTLSCompleted mem_env handler_demo completed_demo uncached_demo"
  have "(case ?run of (r, m) \<Rightarrow> (isl r, length (m_tls_scan_results m), mem_wf m)) = (True, 1, True)"
    by code_simp
  then have failed: "isl (fst ?run)" and one: "length (m_tls_scan_results (snd ?run)) = 1" and wf: "mem_wf (snd ?run)"
    by (simp_all add: case_prod_beta)
  then obtain err where run: "?run = (Inl err, snd ?run)"
    by (metis isl_def prod.collapse)
  have "v_tls_scan_results (mem_view (snd ?run)) \<noteq> {#}"
    using one wf by (auto simp: mem_view_def mem_sys_def)
  moreover have "v_tls_scan_results (mem_view uncached_demo) = {#}"
    by (simp add: uncached_demo_def limit_demo_def mem_view_def mem_norm_def mem_wf_def mem_empty_def
        mem_sys_def)
  ultimately have "mem_view (snd ?run) \<noteq> mem_view uncached_demo" by metis
  with failed show ?thesis
    using tls_completion_error_is_atomic [OF mem_world _ _ run]
    by (auto simp: handler_demo_def completed_demo_def)
qed

text \<open>
  C7. A TLS failure, with the ledger connected, that returned without an error either ignored
  the event and changed nothing, which it does exactly for a live row whose status admits no
  failure, or stored the row as FAILED with the reported error and released the scan's
  reservation, together; reservations and rows of other scans stay, the failure is in the cache,
  and with a connection one message that says failed has been sent, except when the handler's last
  call, publishing exactly this message, failed.
\<close>

theorem tls_failure_releases_credit:
  assumes world: "world E view" and h: "h_ledger h = Some (NewScanUsageLedgerRepository E)" "h_db h"
    and ids: "fa_ScanID msg \<noteq> uuid_Nil"
    and run: "handleTLSFailed E h msg w = (Inr (), w')"
  shows "(\<exists>row. tls_row (view w) (fa_ScanID msg) row \<and> tls_Status row \<noteq> ''''
            \<and> \<not> ValidTransition (tls_Status row) StateFAILED \<and> view w' = view w)
       \<or> may_fail (view w) (fa_ScanID msg)
         \<and> (\<exists>row. tls_row (view w') (fa_ScanID msg) row \<and> tls_Status row = StateFAILED
             \<and> tls_Error row = fa_Error msg
             \<and> tls_others (fa_ScanID msg) (view w') = tls_others (fa_ScanID msg) (view w)
             \<and> usage_entries (view w') = spec_release (fa_ScanID msg) (usage_entries (view w))
             \<and> v_cache (view w') = (v_cache (view w))(tls_key E (fa_UserID msg) (fa_Endpoint msg)
                 \<mapsto> (failure_payload (fa_Error msg), scanResultTTL)))
         \<and> ready_sent E view h (tls_ready E (fa_UserID msg) (fa_Endpoint msg) ''failed'') w w'"
  (is "?ignored (view w') \<or> ?may \<and> ?failed (view w') \<and> ?sent")
proof -
  let ?v = "view w"
  from run obtain r w1 where w1: "failedWrites E h msg w = (Inr r, w1)"
    and tell: "announce E h (fa_UserID msg) (fa_Endpoint msg) r w1 = (Inr (), w')"
    by (auto simp: handleTLSFailed_writes bindP_def split: prod.splits sum.splits)
  have failed: "?failed (((tls_store row0 ?v)\<lparr>v_scan_usage_events := M,
      v_cache := (v_cache ?v)(tls_key E (fa_UserID msg) (fa_Endpoint msg)
        \<mapsto> (failure_payload (fa_Error msg), scanResultTTL))\<rparr>)\<lparr>v_outbox := ob\<rparr>)"
    if "failure_of msg ?v row0" and "released h (fa_ScanID msg) ?v M" for row0 M ob
    using failure_of_fields [OF that(1) ids, of M] that(2) h by (auto simp: released_def)
  let ?Q = "\<lambda>r v'. \<forall>s. r = Inr s \<longrightarrow> v_outbox v' = v_outbox ?v
      \<and> (s = None \<and> ?ignored v'
         \<or> s = Some ''failed'' \<and> ?may \<and> (\<forall>ob. ?failed (v'\<lparr>v_outbox := ob\<rparr>)))"
  have "wp view (failedWrites E h msg) ?Q ?v"
  proof (rule quota_world.wp_failedWrites [OF world.quota_std [OF world]], goal_cases)
    case 1
    then show ?case using h by simp
  next
    case (3 row)
    then show ?case by blast
  next
    case (4 row M)
    note F = failed [OF this(2,3)]
    show ?case by (intro allI impI conjI disjI2) (simp, simp, rule 4(1), rule F)
  qed simp_all
  from wpD [OF this w1] have ob: "v_outbox (view w1) = v_outbox ?v"
    and cases: "r = None \<and> ?ignored (view w1)
      \<or> r = Some ''failed'' \<and> ?may \<and> (\<forall>ob. ?failed ((view w1)\<lparr>v_outbox := ob\<rparr>))" by blast+
  from cases show ?thesis
  proof (elim disjE conjE)
    assume "r = None" "?ignored (view w1)"
    with tell show ?thesis by (auto simp: announce_def returnP_def)
  next
    assume r: "r = Some ''failed''" and may: ?may
      and all: "\<forall>ob. ?failed ((view w1)\<lparr>v_outbox := ob\<rparr>)"
    from quota_world.announced [OF world.quota_std [OF world] tell [unfolded r] ob]
    have "?sent" and w': "view w' = (view w1)\<lparr>v_outbox := v_outbox (view w')\<rparr>" by simp_all
    moreover have "?failed (view w')"
      by (rule ssubst [where P = ?failed, OF w']) (rule all [rule_format])
    ultimately show ?thesis using may by blast
  qed
qed

definition failed_demo :: scanFailed where
  "failed_demo = \<lparr>fa_ScanID = 5, fa_Kind = ''tls'', fa_UserID = 1, fa_Error = ''timeout'',
     fa_Endpoint = ''https://a'', fa_Address = ''''\<rparr>"

theorem tls_failure_releases_credit_witness:
  "\<exists>row. tls_row (mem_view (snd (handleTLSFailed mem_env handler_demo failed_demo ledger_demo))) 5 row
     \<and> tls_Status row = StateFAILED \<and> tls_Error row = ''timeout''
     \<and> 5 \<notin> fst ` usage_entries (mem_view (snd (handleTLSFailed mem_env handler_demo failed_demo ledger_demo)))"
proof -
  let ?w = "snd (handleTLSFailed mem_env handler_demo failed_demo ledger_demo)"
  have run: "handleTLSFailed mem_env handler_demo failed_demo ledger_demo = (Inr (), ?w)"
    by (rule prod_eqI) (code_simp, simp)
  have "v_tls_scan_results (mem_view ledger_demo) = {#}"
    by (simp add: ledger_demo_def mem_view_def mem_norm_def mem_wf_def mem_empty_def mem_sys_def)
  then show ?thesis
    using tls_failure_releases_credit [OF mem_world _ _ _ run]
    by (auto simp: handler_demo_def failed_demo_def tls_row_def spec_release_def)
qed

section \<open>Streams of events\<close>

definition deliver_all ::
  "'w env \<Rightarrow> decoders \<Rightarrow> 'w ScanEventHandler \<Rightarrow> nats_delivery list \<Rightarrow> 'w \<Rightarrow> 'w" where
  "deliver_all E D h ds w = fold (on_delivery E D h) ds w"

text \<open>Every user with a positive endpoint limit is within it.\<close>

definition within_plans :: "sys \<Rightarrow> bool" where
  "within_plans v \<longleftrightarrow> (\<forall>userID u p. live_user v userID u \<and> live_plan v u p
     \<and> 0 < plan_EndpointScanLimit p
     \<longrightarrow> int (used (usage_entries v) userID ScanUsageKindEndpoint) \<le> plan_EndpointScanLimit p)"

text \<open>How one event can change the ledger: reservations go, or one is added while credits are left.\<close>

definition quota_step :: "sys \<Rightarrow> sys \<Rightarrow> bool" where
  "quota_step v v' \<longleftrightarrow> v_users v' = v_users v \<and> v_plans v' = v_plans v
     \<and> (usage_entries v' \<subseteq> usage_entries v
        \<or> (\<exists>scanID userID. scanID \<notin> fst ` usage_entries v \<and> credits_left v userID
            \<and> usage_entries v' = insert (scanID, userID, ScanUsageKindEndpoint) (usage_entries v)))"

lemma quota_step_within:
  assumes step: "quota_step v v'" and ok: "within_plans v"
  shows "within_plans v'"
  unfolding within_plans_def
proof (intro allI impI, elim conjE)
  fix userID u p
  assume "live_user v' userID u" "live_plan v' u p" and pos: "0 < plan_EndpointScanLimit p"
  with step have live: "live_user v userID u" "live_plan v u p"
    by (simp_all add: quota_step_def live_user_def live_plan_def)
  with ok pos have bound: "int (used (usage_entries v) userID ScanUsageKindEndpoint)
      \<le> plan_EndpointScanLimit p"
    by (auto simp: within_plans_def)
  from step consider (less) "usage_entries v' \<subseteq> usage_entries v"
    | (more) scanID user where "scanID \<notin> fst ` usage_entries v" "credits_left v user"
        "usage_entries v' = insert (scanID, user, ScanUsageKindEndpoint) (usage_entries v)"
    by (auto simp: quota_step_def)
  then show "int (used (usage_entries v') userID ScanUsageKindEndpoint) \<le> plan_EndpointScanLimit p"
  proof cases
    case less
    with bound used_mono [OF finite_usage_entries less, of userID ScanUsageKindEndpoint]
    show ?thesis by linarith
  next
    case more
    have "int (used (usage_entries v) userID ScanUsageKindEndpoint) < plan_EndpointScanLimit p"
      if "user = userID"
      using more(2) live pos that by (auto simp: credits_left_def)
    with more bound show ?thesis by (cases "user = userID") (auto simp: used_insert)
  qed
qed

lemma quota_step_same: "quota_step v v"
  by (simp add: quota_step_def)

lemma charged_entries:
  assumes "charged h userID scanID v M"
  shows "usage_entry ` set_mset M = usage_entries v
       \<or> scanID \<notin> fst ` usage_entries v \<and> credits_left v userID
         \<and> usage_entry ` set_mset M = insert (scanID, userID, ScanUsageKindEndpoint) (usage_entries v)"
  using assms unfolding charged_def by (metis usage_entries_fold)

lemma quota_step_charged:
  "charged h userID scanID v M
   \<Longrightarrow> quota_step v ((tls_store row v)\<lparr>v_scan_usage_events := M, v_cache := c, v_outbox := ob\<rparr>)"
  using charged_entries [of h userID scanID v M] by (auto simp: quota_step_def)

lemma quota_step_charged':
  "charged h userID scanID v M \<Longrightarrow> quota_step v ((tls_store row v)\<lparr>v_scan_usage_events := M\<rparr>)"
  using charged_entries [of h userID scanID v M] by (auto simp: quota_step_def)

lemma quota_step_released:
  "released h scanID v M
   \<Longrightarrow> quota_step v ((tls_store row v)\<lparr>v_scan_usage_events := M, v_cache := c, v_outbox := ob\<rparr>)"
  "released h scanID v M \<Longrightarrow> quota_step v ((tls_store row v)\<lparr>v_scan_usage_events := M\<rparr>)"
  using spec_release_subset [of scanID "usage_entries v"]
  by (auto simp: quota_step_def released_def split: if_splits)

lemma tls_retire_frame [simp]:
  "v_scan_results (tls_retire now i url v) = v_scan_results v"
  "v_users (tls_retire now i url v) = v_users v" "v_plans (tls_retire now i url v) = v_plans v"
  "v_scan_usage_events (tls_retire now i url v) = v_scan_usage_events v"
  "usage_entries (tls_retire now i url v) = usage_entries v"
  by (simp_all add: tls_retire_def)

text \<open>A handler whose ledger, if it has one, is the Postgres ledger.\<close>

definition std_handler :: "'w env \<Rightarrow> 'w ScanEventHandler \<Rightarrow> bool" where
  "std_handler E h \<longleftrightarrow> h_ledger h = None \<or> h_ledger h = Some (NewScanUsageLedgerRepository E)"

context world
begin

lemma quota_step_started: "wp view (applyStarted E h msg) (\<lambda>_ v'. quota_step v v') v"
  unfolding applyStarted_def
  by (intro wp_if wp_return wp_tls_OnStarted) (simp_all add: quota_step_def)

lemma quota_step_failed:
  "std_handler E h \<Longrightarrow> wp view (applyFailed E h msg) (\<lambda>_ v'. quota_step v v') v"
  unfolding applyFailed_def
  by (intro wp_if wp_return std.wp_handleTLSFailed)
    (simp_all add: std_handler_def quota_step_same quota_step_released)

lemma quota_step_completed:
  "std_handler E h \<Longrightarrow> wp view (applyCompleted E h msg) (\<lambda>_ v'. quota_step v v') v"
  unfolding applyCompleted_def handleTLSCompleted_eq
  by (intro wp_if wp_return wp_bind wp_catch wp_tls_GetStatus case_sum_InrI case_sum_InlI
      std.wp_completedRest)
    (auto simp: std_handler_def quota_step_same quota_step_charged' intro: quota_step_charged,
      auto simp: quota_step_def)

lemma quota_step_delivery:
  assumes "std_handler E h"
  shows "quota_step (view w) (view (on_delivery E D h d w))"
proof -
  have run: "quota_step (view w) (view (dropErr m w))" if "wp view m (\<lambda>_ v'. quota_step (view w) v') (view w)" for m
    using wpD [OF that prod.collapse [symmetric]] by (simp add: dropErr_def)
  show ?thesis
    unfolding on_delivery_def HandleStarted_def HandleCompleted_def HandleFailed_def
    using assms
    by (auto split: nats_delivery.split option.split sum.split
        intro!: quota_step_same run quota_step_started quota_step_failed quota_step_completed wp_throw)
qed

end

text \<open>
  The plan limits are an invariant of the event stream: whatever events arrive, in whatever
  order and with whatever payload, duplicates included, and whichever calls fail on the way, if
  every user with a positive endpoint limit is within it at the start, every one still is at the
  end.
\<close>

theorem event_stream_keeps_plan_limits:
  assumes world: "world E view" and h: "std_handler E h" and start: "within_plans (view w)"
  shows "within_plans (view (deliver_all E D h ds w))"
  using start
proof (induction ds arbitrary: w)
  case (Cons d ds)
  have "within_plans (view (on_delivery E D h d w))"
    by (rule quota_step_within [OF world.quota_step_delivery [OF world h] Cons.prems])
  from Cons.IH [OF this] show ?case by (simp add: deliver_all_def)
qed (simp add: deliver_all_def)

definition decoders_demo :: decoders where
  "decoders_demo = \<lparr>
     DecodeStarted = (\<lambda>data. if data = '''' then None else Some \<lparr>started_ScanID = ''xxxxxxxx'',
       started_Kind = ''tls'', started_UserID = ''x'', started_Endpoint = data, started_Address = ''''\<rparr>),
     DecodeCompleted = (\<lambda>data. if data = '''' then None else Some \<lparr>completed_ScanID = ''xxxxxxxx'',
       completed_Kind = ''tls'', completed_UserID = ''x'', completed_Endpoint = data,
       completed_Address = '''', completed_Result = data\<rparr>),
     DecodeFailed = (\<lambda>data. if data = '''' then None else Some \<lparr>failed_ScanID = ''xxxxxxxx'',
       failed_Kind = ''tls'', failed_UserID = ''x'', failed_Error = ''timeout'',
       failed_Endpoint = data, failed_Address = ''''\<rparr>)\<rparr>"

theorem event_stream_keeps_plan_limits_witness:
  "within_plans (mem_view (deliver_all mem_env decoders_demo handler_demo
     [DeliverStarted ''https://a'', DeliverCompleted ''https://a'', DeliverCompleted ''https://a'',
      DeliverFailed ''https://b''] limit_demo))"
proof (rule event_stream_keeps_plan_limits [OF mem_world])
  show "std_handler mem_env handler_demo"
    by (simp add: std_handler_def handler_demo_def)
  show "within_plans (mem_view limit_demo)"
    by (simp add: within_plans_def limit_demo_view used_def)
qed

text \<open>
  The status read of a completion event. Its error is dropped by the handler, so that a property
  about the recorded status needs to know that it was read.
\<close>

definition status_read :: "'w env \<Rightarrow> decoders \<Rightarrow> nats_delivery \<Rightarrow> 'w \<Rightarrow> bool" where
  "status_read E D d w =
     (case d of
        DeliverCompleted data \<Rightarrow>
          (case DecodeCompleted D data of
             None \<Rightarrow> True
           | Some m \<Rightarrow>
               (case newScanCompleted E m of
                  Inl _ \<Rightarrow> True
                | Inr msg \<Rightarrow> \<not> isl (fst (TLSWriter_GetStatus E (co_ScanID msg) w))))
      | _ \<Rightarrow> True)"

fun all_status_read ::
  "'w env \<Rightarrow> decoders \<Rightarrow> 'w ScanEventHandler \<Rightarrow> nats_delivery list \<Rightarrow> 'w \<Rightarrow> bool" where
  "all_status_read E D h [] w = True"
| "all_status_read E D h (d # ds) w =
     (status_read E D d w \<and> all_status_read E D h ds (on_delivery E D h d w))"

text \<open>A live row of a user's scan that has ended.\<close>

definition final_row :: "TLSScanResultEntity \<Rightarrow> bool" where
  "final_row r \<longleftrightarrow> tls_DeletedAt r = None \<and> IsTerminal (tls_Status r) \<and> tls_UserID r \<noteq> None"

lemma final_row_transition:
  "final_row r \<Longrightarrow> tls_Status r \<noteq> '''' \<and> \<not> ValidTransition (tls_Status r) t"
  by (auto simp: final_row_def dest: ValidTransition_from_terminal)

lemma written_keeps_other:
  assumes "tls_written v scanID upd new row" and "r \<in># v_tls_scan_results v" and "tls_ID r \<noteq> scanID"
  shows "r \<in># tls_others (tls_ID row) v"
proof -
  have "tls_ID row = scanID \<or> v_tls_scan_results v = tls_others (tls_ID row) v"
    using assms(1) by (auto simp: tls_written_def)
  then show ?thesis
  proof
    assume "v_tls_scan_results v = tls_others (tls_ID row) v"
    from assms(2) [unfolded this] show ?thesis .
  qed (use assms(2,3) in \<open>simp add: tls_others_def\<close>)
qed

lemma retire_keeps_user_row:
  "r \<in># v_tls_scan_results v \<Longrightarrow> tls_UserID r \<noteq> None
   \<Longrightarrow> r \<in># v_tls_scan_results (tls_retire now i url v)"
  by (force simp: tls_retire_def tls_previous_default_def)

context world
begin

lemma final_row_started:
  assumes "r \<in># v_tls_scan_results v" and "final_row r"
  shows "wp view (applyStarted E h msg) (\<lambda>_ v'. r \<in># v_tls_scan_results v') v"
proof -
  have keep: "r \<in># v_tls_scan_results (tls_store row v)"
    if "v_tls_scan_results v = tls_others (tls_ID row) v" for row
    using that assms by simp
  show ?thesis
    unfolding applyStarted_def
    by (intro wp_if wp_return wp_tls_OnStarted retire_keeps_user_row keep)
      (use assms in \<open>simp_all add: final_row_def\<close>)
qed

lemma final_row_failed:
  assumes h: "std_handler E h" and r: "r \<in># v_tls_scan_results v" "final_row r"
    and uniq: "\<And>i s. tls_row v i s \<Longrightarrow> tls_row v i r \<Longrightarrow> s = r"
  shows "wp view (applyFailed E h msg) (\<lambda>_ v'. r \<in># v_tls_scan_results v') v"
proof -
  have other: "tls_ID r \<noteq> fa_ScanID msg" if "may_fail v (fa_ScanID msg)"
  proof
    assume "tls_ID r = fa_ScanID msg"
    with r have "tls_row v (fa_ScanID msg) r"
      by (simp add: tls_row_def tls_live_id_def final_row_def)
    with that uniq final_row_transition [OF r(2), of StateFAILED] show False
      unfolding may_fail_def by blast
  qed
  have keep: "r \<in># tls_others (tls_ID row) v"
    if "may_fail v (fa_ScanID msg)" "failure_of msg v row" for row
    by (rule written_keeps_other [OF that(2) [unfolded failure_of_def failure_row_def] r(1)])
      (rule other [OF that(1)])
  show ?thesis
    unfolding applyFailed_def
    by (intro wp_if wp_return std.wp_handleTLSFailed)
      (use h r keep in \<open>simp_all add: std_handler_def\<close>)
qed

lemma final_row_completedRest:
  assumes h: "std_handler E h" and r: "r \<in># v_tls_scan_results v" and other: "tls_ID r \<noteq> co_ScanID msg"
  shows "wp view (completedRest E h msg) (\<lambda>_ v'. r \<in># v_tls_scan_results v') v"
proof -
  have keep: "r \<in># tls_others (tls_ID row) v" if "completion_row E msg v result row" for result row
    using that written_keeps_other [OF _ r other] by (auto simp: completion_row_def Let_def)
  have keep': "r \<in># tls_others (tls_ID row) v" if "over_limit_row h msg v row" for row
    using that written_keeps_other [OF _ r other] by (auto simp: over_limit_row_def)
  show ?thesis
    by (rule std.wp_completedRest) (use h r in \<open>simp_all add: std_handler_def keep keep'\<close>)
qed

lemma final_row_completed:
  assumes h: "std_handler E h" and r: "r \<in># v_tls_scan_results (view w)" "final_row r"
    and read: "\<not> isl (fst (TLSWriter_GetStatus E (co_ScanID msg) w))"
  shows "r \<in># v_tls_scan_results (view (snd (handleTLSCompleted E h msg w)))"
proof -
  obtain s w1 where get: "TLSWriter_GetStatus E (co_ScanID msg) w = (Inr s, w1)"
    using read by (metis isl_def prod.collapse sum.exhaust)
  have "wp view (TLSWriter_GetStatus E (co_ScanID msg))
      (\<lambda>q v'. v' = view w \<and> (\<forall>s row. q = Inr s \<longrightarrow> tls_row (view w) (co_ScanID msg) row
         \<longrightarrow> tls_Status row = s)) (view w)"
    by (rule wp_tls_GetStatus) (auto dest: unique_tls_row)
  from wpD [OF this get] have v1: "view w1 = view w"
    and status: "\<And>row. tls_row (view w) (co_ScanID msg) row \<Longrightarrow> tls_Status row = s"
    by auto
  have step: "handleTLSCompleted E h msg w
      = (if \<not> ValidTransition s StateSUCCESS then (Inr (), w1) else completedRest E h msg w1)"
    by (simp add: handleTLSCompleted_eq bindP_def catchP_def get returnP_def del: ValidTransition_SUCCESS_iff)
  show ?thesis
  proof (cases "ValidTransition s StateSUCCESS")
    case False
    with step r v1 show ?thesis by simp
  next
    case True
    have "tls_ID r \<noteq> co_ScanID msg"
    proof
      assume "tls_ID r = co_ScanID msg"
      with r have "tls_row (view w) (co_ScanID msg) r"
        by (simp add: tls_row_def tls_live_id_def final_row_def)
      with status True final_row_transition [OF r(2), of StateSUCCESS] show False by blast
    qed
    from wpD [OF final_row_completedRest [OF h r(1) [folded v1] this] prod.collapse [symmetric]]
    show ?thesis unfolding step using True by (simp only: not_True_eq_False if_False)
  qed
qed

lemma final_row_delivery:
  assumes h: "std_handler E h" and r: "r \<in># v_tls_scan_results (view w)" "final_row r"
    and read: "status_read E D d w"
  shows "r \<in># v_tls_scan_results (view (on_delivery E D h d w))"
proof -
  have run: "r \<in># v_tls_scan_results (view (dropErr m w))"
    if "wp view m (\<lambda>_ v'. r \<in># v_tls_scan_results v') (view w)" for m
    using wpD [OF that prod.collapse [symmetric]] by (simp add: dropErr_def)
  have err: "wp view (throwP e) (\<lambda>_ v'. r \<in># v_tls_scan_results v') (view w)" for e
    using r by (intro wp_throw)
  have same: "r \<in># v_tls_scan_results (view (dropErr (returnP ()) w))"
    using r by (simp add: dropErr_def returnP_def)
  have started: "r \<in># v_tls_scan_results (view (dropErr (HandleStarted E h m) w))" for m
    unfolding HandleStarted_def using r
    by (auto split: sum.split intro!: run err final_row_started)
  have failed: "r \<in># v_tls_scan_results (view (dropErr (HandleFailed E h m) w))" for m
    unfolding HandleFailed_def using r h
    by (auto split: sum.split intro!: run err final_row_failed dest: unique_tls_row)
  have completed: "r \<in># v_tls_scan_results (view (dropErr (HandleCompleted E h m) w))"
    if "\<And>msg. newScanCompleted E m = Inr msg
        \<Longrightarrow> \<not> isl (fst (TLSWriter_GetStatus E (co_ScanID msg) w))" for m
    unfolding HandleCompleted_def
    using that r h same
    by (cases "newScanCompleted E m")
      (auto simp: applyCompleted_def dropErr_def throwP_def intro!: final_row_completed)
  show ?thesis
    using read r by (auto simp: on_delivery_def status_read_def started failed intro!: completed
        split: nats_delivery.splits option.splits sum.splits)
qed

end

text \<open>
  C4. What has ended stays as it is: the live row of a user's scan with a terminal status is
  still there, unchanged in every field, after any stream of events (duplicates, events of other
  scans, events of the same scan in any order, failing calls), provided each completion event
  could read the current status.
\<close>

theorem event_stream_keeps_final_rows:
  assumes world: "world E view" and h: "std_handler E h"
    and r: "r \<in># v_tls_scan_results (view w)" "final_row r"
    and read: "all_status_read E D h ds w"
  shows "r \<in># v_tls_scan_results (view (deliver_all E D h ds w))"
  using r(1) read
proof (induction ds arbitrary: w)
  case (Cons d ds)
  have "r \<in># v_tls_scan_results (view (on_delivery E D h d w))"
    using Cons.prems r(2) by (intro world.final_row_delivery [OF world h]) simp_all
  from Cons.IH [OF this] Cons.prems(2) show ?case by (simp add: deliver_all_def)
qed (simp add: deliver_all_def)

definition ended_row :: TLSScanResultEntity where
  "ended_row = zero_TLSScanResultEntity\<lparr>tls_ID := 8, tls_UserID := Some 1, tls_URL := ''https://a'',
     tls_Status := StateFAILED, tls_Error := ''timeout'', tls_CreatedAt := 1, tls_UpdatedAt := 1\<rparr>"

definition ended_demo :: mem where
  "ended_demo = limit_demo\<lparr>m_tls_scan_results := [ended_row]\<rparr>"

lemma ended_demo_view:
  "v_tls_scan_results (mem_view ended_demo) = {#ended_row#}"
  "v_tls_scan_results (mem_view (ended_demo\<lparr>m_faults := fs\<rparr>)) = {#ended_row#}"
  by (simp_all add: ended_demo_def limit_demo_def mem_view_def mem_norm_def mem_wf_def mem_empty_def
      mem_sys_def)

lemma ended_row_final: "final_row ended_row"
  by (simp add: final_row_def ended_row_def zero_TLSScanResultEntity_def)

theorem event_stream_keeps_final_rows_witness:
  "ended_row \<in># v_tls_scan_results (mem_view (deliver_all mem_env decoders_demo handler_demo
     [DeliverCompleted ''https://a'', DeliverFailed ''https://a'', DeliverStarted ''https://a''] ended_demo))"
proof (rule event_stream_keeps_final_rows [OF mem_world])
  show "std_handler mem_env handler_demo"
    by (simp add: std_handler_def handler_demo_def)
  show "ended_row \<in># v_tls_scan_results (mem_view ended_demo)"
    by (simp add: ended_demo_view)
  show "all_status_read mem_env decoders_demo handler_demo
     [DeliverCompleted ''https://a'', DeliverFailed ''https://a'', DeliverStarted ''https://a''] ended_demo"
    by code_simp
qed (rule ended_row_final)

text \<open>
  The proviso of the previous property is needed: the completion handler drops the error of
  its status read, and when that one read fails a completion event turns the FAILED row of a
  scan that has ended into a SUCCESS row, in an environment that keeps its whole contract.
\<close>

theorem dropped_read_error_overwrites_final_row:
  "world mem_env mem_view \<and> std_handler mem_env handler_demo
   \<and> ended_row \<in># v_tls_scan_results (mem_view (ended_demo\<lparr>m_faults := [True]\<rparr>)) \<and> final_row ended_row
   \<and> fst (handleTLSCompleted mem_env handler_demo completed_demo (ended_demo\<lparr>m_faults := [True]\<rparr>)) = Inr ()
   \<and> (\<exists>row. tls_row (mem_view (snd (handleTLSCompleted mem_env handler_demo completed_demo
          (ended_demo\<lparr>m_faults := [True]\<rparr>)))) 8 row \<and> tls_Status row = StateSUCCESS)"
proof -
  let ?run = "handleTLSCompleted mem_env handler_demo completed_demo (ended_demo\<lparr>m_faults := [True]\<rparr>)"
  have "(case ?run of (r, m) \<Rightarrow> (r = Inr (),
        map (\<lambda>row. (tls_ID row, tls_DeletedAt row, tls_Status row)) (m_tls_scan_results m), mem_wf m))
      = (True, [(8, None, StateSUCCESS)], True)"
    by code_simp
  then have ok: "fst ?run = Inr ()" and wf: "mem_wf (snd ?run)"
    and rows: "map (\<lambda>row. (tls_ID row, tls_DeletedAt row, tls_Status row)) (m_tls_scan_results (snd ?run))
      = [(8, None, StateSUCCESS)]"
    by (simp_all add: case_prod_beta)
  from rows obtain row where "m_tls_scan_results (snd ?run) = [row]" "tls_ID row = 8"
    "tls_DeletedAt row = None" "tls_Status row = StateSUCCESS"
    by auto
  with wf have "tls_row (mem_view (snd ?run)) 8 row" "tls_Status row = StateSUCCESS"
    by (simp_all add: tls_row_def tls_live_id_def mem_view_def mem_sys_def)
  with ok show ?thesis
    using mem_world by (auto simp: std_handler_def handler_demo_def ended_demo_view ended_row_final)
qed

end
