(* ===== verification/Api_Frame.thy ===== *)
theory Api_Frame
  imports Api_Server Frames Scan_Events
begin

text \<open>
  What the internal API as a whole promises, whatever is sent to it: every request is answered, and
  no endpoint writes anywhere but where it is meant to.
\<close>

section \<open>Endpoints that only read\<close>

context world
begin

lemma reads_guards:
  "moves view (=) (requireUserID E r)" "moves view (=) (requireStore r m b)" "moves view (=) (parseScanIDPath E r)"
  "moves view (=) (requireOwnerScope E r)" "moves view (=) (cp_requireStore cp r)"
  "moves view (=) (parsePolicyIDPath E r)" "moves view (=) (scanIDQuery E r)"
  unfolding requireUserID_def requireStore_def parseScanIDPath_def requireOwnerScope_def cp_requireStore_def
    parsePolicyIDPath_def parseUUIDPath_def scanIDQuery_def Let_def
  by (intro same.moves_intros)+

lemma reads_orUnavailable: "moves view (=) m \<Longrightarrow> moves view (=) (orUnavailable r msg m)"
  unfolding orUnavailable_def by (rule same.moves_mapErr)

lemma reads_repositories:
  "moves view (=) (pending_Get E i)" "moves view (=) (pending_GetWalletByOwnerAddress E u a)"
  "moves view (=) (FindOwnedWalletScanByID E u i)" "moves view (=) (FindOwnedUserTLSScanByID E u i)"
  "moves view (=) (FindDefaultTLSScanByID E i)" "moves view (=) (FindAllDefault E)"
  "moves view (=) (ListOwnerUserTLSScansDiscoveryV1 E u limit offset)"
  "moves view (=) (listWalletEntities E h u latest a chainID limit offset)"
  unfolding pending_Get_def pending_GetWalletByOwnerAddress_def FindOwnedWalletScanByID_def
    FindOwnedUserTLSScanByID_def FindDefaultTLSScanByID_def FindAllDefault_def
    ListOwnerUserTLSScansDiscoveryV1_def listWalletEntities_def ListOwnerWalletScansByAddress_def
    ListOwnerWalletScansDiscoveryV1_def Let_def
  by (intro same.moves_intros reads_tables)+

lemma reads_ledger:
  "moves view (=) (CountSuccessUsage E u k)" "moves view (=) (CountInFlightScans E u k)"
  "moves view (=) (CountVisibleSuccessScans E u k)"
  "moves view (=) (ledger_CountSuccessUsage (NewScanUsageLedgerRepository E) u k)"
  "moves view (=) (ledger_CountInFlightScans (NewScanUsageLedgerRepository E) u k)"
  "moves view (=) (ledger_CountVisibleSuccessScans (NewScanUsageLedgerRepository E) u k)"
  unfolding NewScanUsageLedgerRepository_def ScanUsageLedgerRepository.simps
    CountSuccessUsage_def CountInFlightScans_def CountVisibleSuccessScans_def
  by (intro same.moves_intros reads_tables)+

lemma reads_pol:
  "moves view (=) (pol_read E ent)" "moves view (=) (pol_read_all E ents)"
proof -
  show one: "moves view (=) (pol_read E ent)" for ent
    unfolding pol_read_def by (intro same.moves_intros)
  show "moves view (=) (pol_read_all E ents)"
    by (induction ents) (simp_all, (intro same.moves_intros one | assumption)+)
qed

lemma reads_policies:
  "moves view (=) (GetPolicy E scope i)" "moves view (=) (ListPersistedPoliciesForScan E scope i limit offset)"
  "moves view (=) (CountPoliciesByWallet E scope a)" "moves view (=) (CountPoliciesByScan E scope i)"
  unfolding GetPolicy_def ListPersistedPoliciesForScan_def CountPoliciesByWallet_def CountPoliciesByScan_def
    validateScope_def Let_def
  by (intro same.moves_intros reads_tables reads_pol)+

lemma reads_endpoints:
  "moves view (=) (GetWalletPendingByAddress E h r)" "moves view (=) (GetPendingScan E h r)"
  "moves view (=) (ListWalletScans E h r)" "moves view (=) (GetWalletScan E h r)"
  "moves view (=) (ListTLSScans E h r)" "moves view (=) (ListTLSDefaultScans E h r)"
  "moves view (=) (GetTLSScan E h r)"
  unfolding GetWalletPendingByAddress_def GetPendingScan_def ListWalletScans_def GetWalletScan_def
    ListTLSScans_def ListTLSDefaultScans_def GetTLSScan_def Let_def
  by (intro same.moves_intros reads_guards reads_orUnavailable reads_repositories)+

lemma reads_cp_endpoints:
  "moves view (=) (cp_GetPolicy E cp r)" "moves view (=) (ListPoliciesByScan E cp r)"
  "moves view (=) (cp_CountPoliciesByWallet E cp r)" "moves view (=) (cp_CountPoliciesByScan E cp r)"
  unfolding cp_GetPolicy_def ListPoliciesByScan_def cp_CountPoliciesByWallet_def cp_CountPoliciesByScan_def Let_def
  by (intro same.moves_intros reads_guards reads_policies)+

lemma reads_usage_endpoint:
  "api_ledger h = Some (NewScanUsageLedgerRepository E) \<Longrightarrow> moves view (=) (GetScanLedgerUsage E h r)"
  unfolding GetScanLedgerUsage_def Let_def
  by (simp, intro same.moves_intros reads_guards reads_orUnavailable reads_ledger)

section \<open>Endpoints that write only to the cache\<close>

lemma cache_repositories:
  "moves view cache_only (pending_Put E rec)" "moves view cache_only (pending_PutWallet E rec)"
  "moves view cache_only (pending_DeleteWalletReservation E u a i)" "moves view cache_only (pending_Delete E i)"
  unfolding pending_PutWallet_def pending_DeleteWalletReservation_def pending_Delete_def pending_Put_def Let_def
  by (intro cache.moves_intros cache_services moves_same_cache [OF reads_repositories(1)])+

lemma cache_endpoints:
  "moves view cache_only (ReserveWalletPending E C h r)" "moves view cache_only (PutTLSPending E C h r)"
  "moves view cache_only (ReleaseWalletPendingReservation E h r)" "moves view cache_only (ReleasePendingScan E h r)"
  unfolding ReserveWalletPending_def PutTLSPending_def ReleaseWalletPendingReservation_def
    ReleasePendingScan_def orUnavailable_def Let_def
  by (intro cache.moves_intros cache_repositories moves_same_cache [OF reads_guards(1)]
      moves_same_cache [OF reads_guards(2)] moves_same_cache [OF reads_guards(3)] moves_same_cache [OF reads_services(1)])+

end

section \<open>Where each endpoint may write\<close>

definition owner_frame :: "uuid option \<Rightarrow> sys \<Rightarrow> sys \<Rightarrow> bool" where
  "owner_frame user v v' \<longleftrightarrow> (case user of None \<Rightarrow> v' = v | Some u \<Rightarrow> owner_change u v v')"

definition policy_frame :: "OwnerScope option \<Rightarrow> sys \<Rightarrow> sys \<Rightarrow> bool" where
  "policy_frame scope v v' \<longleftrightarrow>
     (case scope of
        None \<Rightarrow> v' = v
      | Some scope \<Rightarrow>
          let others = filter_mset (\<lambda>p. (pol_UserID p, pol_TenantID p) \<noteq> (scope_UserID scope, scope_TenantID scope))
          in \<exists>M. v' = v\<lparr>v_crypto_policies := M\<rparr> \<and> others M = others (v_crypto_policies v))"

definition transition_frame :: "uuid option \<Rightarrow> sys \<Rightarrow> sys \<Rightarrow> bool" where
  "transition_frame scan v v' \<longleftrightarrow>
     (case scan of
        None \<Rightarrow> v' = v
      | Some i \<Rightarrow>
          v_tls_scan_results v' = v_tls_scan_results v \<and> v_users v' = v_users v \<and> v_plans v' = v_plans v
          \<and> v_crypto_policies v' = v_crypto_policies v \<and> sr_others i v' = sr_others i v \<and> usage_entries v' \<subseteq> usage_entries v
          \<and> spec_release i (usage_entries v') = spec_release i (usage_entries v))"

definition endpoint_frame :: "'w env \<Rightarrow> endpoint \<Rightarrow> request \<Rightarrow> sys \<Rightarrow> sys \<Rightarrow> bool" where
  "endpoint_frame E e r v v' \<longleftrightarrow>
     (if e \<in> {M_DeleteWalletScan, M_DeleteTLSScan} then owner_frame (request_user E r) v v'
      else if e \<in> {M_CreatePolicy, M_DeletePolicy} then policy_frame (request_owner E r) v v'
      else if e = M_ApplyWalletTransition then transition_frame (request_scan E r) v v'
      else if e \<in> {M_ReserveWalletPending, M_ReleaseWalletPendingReservation, M_PutTLSPending, M_ReleasePendingScan}
      then cache_only v v'
      else v' = v)"

lemma policy_frameI: "policy_frame scope v v"
  by (auto simp: policy_frame_def Let_def intro!: exI [of _ "v_crypto_policies v"] split: option.split)

lemma endpoint_frame_refl: "endpoint_frame E e r v v"
proof -
  have "owner_frame user v v" for user by (simp add: owner_frame_def split: option.split)
  moreover have "transition_frame scan v v" for scan by (simp add: transition_frame_def split: option.split)
  moreover have "cache_only v v" by (simp add: cache_only_def)
  ultimately show ?thesis by (simp add: endpoint_frame_def policy_frameI)
qed

definition std_server :: "'w env \<Rightarrow> 'w server \<Rightarrow> bool" where
  "std_server E s \<longleftrightarrow> api_ledger (srv_scan s) = Some (NewScanUsageLedgerRepository E)"

lemma HandlerFunc_run:
  assumes "HandlerFunc h r w = (resp, w')"
  shows "\<exists>x. h r w = (x, w')" and "\<exists>x. serve h r w = (x, w') \<and> resp = Some x"
  using assms by (cases "h r w"; cases "fst (h r w)"; simp add: HandlerFunc_def serve_def)+

lemma HandlerFunc_moves: "moves view R (h r) \<Longrightarrow> HandlerFunc h r w = (resp, w') \<Longrightarrow> R (view w) (view w')"
  by (blast dest: HandlerFunc_run(1) movesD)

lemma spec_release_idem: "spec_release i (spec_release i A) = spec_release i A" "spec_release i A \<subseteq> A"
  by (auto simp: spec_release_def)

context world
begin

lemma transition_frame_stored:
  assumes row: "sr_ID row = i" and usage: "usage_entry ` set_mset M = spec_release i (usage_entries v) \<or> M = v_scan_usage_events v"
  shows "transition_frame (Some i) v ((sr_store row v)\<lparr>v_scan_usage_events := M\<rparr>)"
proof -
  have "sr_others i ((sr_store row v)\<lparr>v_scan_usage_events := M\<rparr>) = sr_others i v"
    using row by (simp add: sr_store_def sr_others_def filter_filter_mset)
  moreover have "usage_entries ((sr_store row v)\<lparr>v_scan_usage_events := M\<rparr>) \<in> {spec_release i (usage_entries v), usage_entries v}"
    using usage by (elim disjE) simp_all
  ultimately show ?thesis
    using spec_release_idem [of i "usage_entries v"] by (auto simp: transition_frame_def sr_store_def)
qed

lemma transition_write_frame:
  assumes "applyTransition E db (Some (NewScanUsageLedgerRepository E)) u i body w = (Inr res, w')"
  shows "transition_frame (Some i) (view w) (view w')"
proof (cases "transitionCommand E u body")
  case None
  with assms show ?thesis
    by (auto simp: applyTransition_def returnP_def transition_frame_def)
next
  case (Some cmd)
  with assms have run: "Apply E db (Some (NewScanUsageLedgerRepository E)) i cmd w = (Inr res, w')"
    by (simp add: applyTransition_def)
  show ?thesis
  proof (cases "out_Outcome res = OutcomeApplied")
    case True
    with wallet_command_outcomes' [OF world_axioms run] obtain row M where
      "view w' = (sr_store row (view w))\<lparr>v_scan_usage_events := M\<rparr>" "command_row i cmd row" "settled True i cmd (view w) M"
      by auto
    then show ?thesis
      using transition_frame_stored [of row i M "view w"]
      by (auto simp: command_row_def sr_live_id_def settled_def split: if_splits)
  next
    case False
    with wallet_command_outcomes' [OF world_axioms run] obtain k where "view w' = (view w)\<lparr>v_keepLedgerMissing := k\<rparr>" by auto
    then show ?thesis by (simp add: transition_frame_def sr_others_def)
  qed
qed

lemma projected_frame:
  "projected E V h res v flags v' \<Longrightarrow> transition_frame (Some i) v0 v \<Longrightarrow> transition_frame (Some i) v0 v'"
  unfolding projected_def
  by (cases flags; cases "fst flags") (auto simp: transition_frame_def sr_others_def)

lemma transition_endpoint_frame:
  assumes "api_ledger h = Some (NewScanUsageLedgerRepository E)"
    and "transition_handler (ApplyWalletTransition E V D h) r w = (resp, w')"
  shows "transition_frame (request_scan E r) (view w) (view w') \<and> resp \<noteq> None"
proof -
  obtain x where run: "ApplyWalletTransition E V D h r w = (x, w')"
      and resp: "resp = (case x of Inl a \<Rightarrow> a | Inr b \<Rightarrow> Some b)"
    using assms(2) by (auto simp: transition_handler_def split: prod.splits sum.splits)
  note answer = ApplyWalletTransition_run [OF world_axioms assms(1) run]
  show ?thesis
  proof (cases x)
    case (Inl a)
    with answer resp show ?thesis by (auto simp: transition_frame_def split: option.split)
  next
    case (Inr b)
    with answer obtain u i body res w1 flags where
      "request_scan E r = Some i" "projected E V h res (view w1) flags (view w')"
      "applyTransition E (api_walletDB h) (api_ledger h) u i body w = (Inr res, w1)" by auto
    with transition_write_frame [of "api_walletDB h" u i body w res w1] assms(1) projected_frame resp Inr
    show ?thesis by auto
  qed
qed

lemma policy_frame_stored:
  "policy_row_of E scope inp row
    \<Longrightarrow> policy_frame (Some scope) v (v\<lparr>v_crypto_policies := add_mset row (v_crypto_policies v)\<rparr>)"
  unfolding policy_frame_def Let_def option.case
  by (rule exI [of _ "add_mset row (v_crypto_policies v)"]) (simp add: policy_row_of_def owned_policy_def)

lemma policy_frame_deleted:
  assumes "row \<in># v_crypto_policies (view w)" "owned_policy scope row"
  shows "policy_frame (Some scope) (view w) ((view w)\<lparr>v_crypto_policies := add_mset (row\<lparr>pol_DeletedAt := t\<rparr>)
    (filter_mset (\<lambda>s. pol_ID s \<noteq> pol_ID row) (v_crypto_policies (view w)))\<rparr>)"
  using assms(2) unfolding policy_frame_def Let_def option.case policy_others(1) [OF assms(1)]
  by (intro exI [of _ "add_mset (row\<lparr>pol_DeletedAt := t\<rparr>) (v_crypto_policies (view w) - {#row#})"])
    (simp add: owned_policy_def filter_diff_mset)

lemma create_policy_frame:
  assumes "HandlerFunc (cp_CreatePolicy E C cp) r w = (resp, w')"
  shows "policy_frame (request_owner E r) (view w) (view w')"
proof -
  obtain x where run: "cp_CreatePolicy E C cp r w = (x, w')" using HandlerFunc_run(1) [OF assms] by blast
  have "wp view (cp_CreatePolicy E C cp r) (\<lambda>_ v'. policy_frame (request_owner E r) (view w) v') (view w)"
    unfolding cp_CreatePolicy_def
    by (intro wp_cp wp_CreatePolicy)
      (auto simp: policy_frameI policy_frame_stored)
  from wpD [OF this run] show ?thesis .
qed

lemma delete_policy_frame:
  assumes "HandlerFunc (cp_DeletePolicy E cp) r w = (resp, w')"
  shows "policy_frame (request_owner E r) (view w) (view w')"
proof -
  obtain x where run: "cp_DeletePolicy E cp r w = (x, w')" using HandlerFunc_run(1) [OF assms] by blast
  have "wp view (cp_DeletePolicy E cp r) (\<lambda>_ v'. policy_frame (request_owner E r) (view w) v') (view w)"
    unfolding cp_DeletePolicy_def
    by (intro wp_cp wp_DeletePolicy)
      (auto simp: policy_frameI policy_frame_deleted)
  from wpD [OF this run] show ?thesis .
qed

lemma delete_frame:
  "HandlerFunc (DeleteWalletScanHandler E h) r w = (resp, w') \<Longrightarrow> owner_frame (request_user E r) (view w) (view w')"
  "HandlerFunc (DeleteTLSScanHandler E h) r w = (resp, w') \<Longrightarrow> owner_frame (request_user E r) (view w) (view w')"
  using wp_serve [of view "DeleteWalletScanHandler E h" r, OF wp_DeleteWalletScanHandler]
    wp_serve [of view "DeleteTLSScanHandler E h" r, OF wp_DeleteTLSScanHandler]
  by (auto simp: delete_post_def owner_frame_def dest!: HandlerFunc_run(2) split: option.split)

end

context world
begin

lemma endpoint_writes:
  assumes "std_server E s" and run: "endpoint_handler E s e r w = (resp, w')"
  shows "endpoint_frame E e r (view w) (view w')"
proof -
  have ledger: "api_ledger (srv_scan s) = Some (NewScanUsageLedgerRepository E)"
    using assms(1) by (simp add: std_server_def)
  have list: "view w' = view w" if "list_handler (ListWalletScans E h) r w = (resp, w')" for h
    using movesD [OF reads_endpoints(3)] that by (fastforce simp: list_handler_def split: prod.splits sum.splits)
  show ?thesis
    using run
    by (cases e; simp add: endpoint_handler_def endpoint_frame_def Let_def)
      (auto dest!: list delete_frame create_policy_frame delete_policy_frame
        transition_endpoint_frame [OF ledger]
        HandlerFunc_moves [OF reads_endpoints(1)] HandlerFunc_moves [OF reads_endpoints(2)]
        HandlerFunc_moves [OF reads_endpoints(4)] HandlerFunc_moves [OF reads_endpoints(5)]
        HandlerFunc_moves [OF reads_endpoints(6)] HandlerFunc_moves [OF reads_endpoints(7)]
        HandlerFunc_moves [OF reads_usage_endpoint [OF ledger]]
        HandlerFunc_moves [OF cache_endpoints(1)] HandlerFunc_moves [OF cache_endpoints(2)]
        HandlerFunc_moves [OF cache_endpoints(3)] HandlerFunc_moves [OF cache_endpoints(4)]
        HandlerFunc_moves [OF reads_cp_endpoints(1)] HandlerFunc_moves [OF reads_cp_endpoints(2)]
        HandlerFunc_moves [OF reads_cp_endpoints(3)] HandlerFunc_moves [OF reads_cp_endpoints(4)])
qed

end

section \<open>Answers\<close>

text \<open>\<open>ends P Q m\<close>: errors of \<open>m\<close> satisfy \<open>P\<close> and results \<open>Q\<close>.\<close>

definition ends :: "('e \<Rightarrow> bool) \<Rightarrow> ('a \<Rightarrow> bool) \<Rightarrow> ('w, 'e, 'a) prog \<Rightarrow> bool" where
  "ends P Q m \<longleftrightarrow> (\<forall>w. case fst (m w) of Inl e \<Rightarrow> P e | Inr x \<Rightarrow> Q x)"

lemma endsD: "ends P Q m \<Longrightarrow> m w = (Inl e, w') \<Longrightarrow> P e" "ends P Q m \<Longrightarrow> m w = (Inr x, w') \<Longrightarrow> Q x"
  unfolding ends_def by (drule spec [of _ w], simp)+

lemma endsI: "(\<And>w e w'. m w = (Inl e, w') \<Longrightarrow> P e) \<Longrightarrow> (\<And>w x w'. m w = (Inr x, w') \<Longrightarrow> Q x) \<Longrightarrow> ends P Q m"
  unfolding ends_def by (metis prod.collapse sum.case_eq_if sum.collapse)

lemma ends_return: "Q x \<Longrightarrow> ends P Q (returnP x)"
  by (simp add: ends_def returnP_def)

lemma ends_throw: "P e \<Longrightarrow> ends P Q (throwP e)"
  by (simp add: ends_def throwP_def)

lemma ends_bind: "ends P (\<lambda>_. True) m \<Longrightarrow> (\<And>x. ends P Q (f x)) \<Longrightarrow> ends P Q (bindP m f)"
  by (rule endsI) (auto simp: bindP_def split: prod.splits sum.splits dest: endsD)

lemma ends_catch: "(\<And>e. ends P (\<lambda>_. True) (h e)) \<Longrightarrow> ends P (\<lambda>_. True) (catchP m h)"
  by (rule endsI) (auto simp: catchP_def split: prod.splits sum.splits dest: endsD)

lemma ends_mapErr: "(\<And>e. P (g e)) \<Longrightarrow> ends P (\<lambda>_. True) (mapErrP g m)"
  unfolding mapErrP_def by (intro ends_catch ends_throw)

lemma ends_cases:
  "(b \<Longrightarrow> ends P Q m) \<Longrightarrow> (\<not> b \<Longrightarrow> ends P Q n) \<Longrightarrow> ends P Q (if b then m else n)"
  "(o' = None \<Longrightarrow> ends P Q m) \<Longrightarrow> (\<And>y. o' = Some y \<Longrightarrow> ends P Q (f y))
    \<Longrightarrow> ends P Q (case o' of None \<Rightarrow> m | Some y \<Rightarrow> f y)"
  "(\<And>c d. p = (c, d) \<Longrightarrow> ends P Q (l c d)) \<Longrightarrow> ends P Q (case p of (c, d) \<Rightarrow> l c d)"
  by (auto split: option.split prod.split)

lemma ends_case_sum:
  "(\<And>e. x = Inl e \<Longrightarrow> ends P Q (f e)) \<Longrightarrow> (\<And>y. x = Inr y \<Longrightarrow> ends P Q (g y))
   \<Longrightarrow> ends P Q (case x of Inl e \<Rightarrow> f e | Inr y \<Rightarrow> g y)"
  by (auto split: sum.split)

lemma ends_mono: "ends P Q m \<Longrightarrow> (\<And>e. P e \<Longrightarrow> P' e) \<Longrightarrow> ends P' Q m"
  by (rule endsI) (auto dest: endsD)

lemmas ends_steps = ends_return ends_throw ends_bind ends_cases
lemmas ends_intros = ends_steps ends_mapErr ends_catch

lemma ends_mapErr_of: "ends (\<lambda>e. P (g e)) (\<lambda>_. True) m \<Longrightarrow> ends P (\<lambda>_. True) (mapErrP g m)"
  by (rule endsI) (auto simp: mapErrP_def catchP_def throwP_def split: prod.splits sum.splits dest: endsD)

text \<open>
  The statuses that the interface descriptions list for each endpoint
  (\<^verbatim>\<open>openapi/internal/scan/v1.yaml\<close>, \<^verbatim>\<open>openapi/internal/cp/v1.yaml\<close>).
\<close>

fun openapi_statuses :: "endpoint \<Rightarrow> int list" where
  "openapi_statuses M_ReserveWalletPending = [201, 409, 400, 401, 503]"
| "openapi_statuses M_GetWalletPendingByAddress = [200, 404, 400, 401, 503]"
| "openapi_statuses M_ReleaseWalletPendingReservation = [204, 400, 401, 503]"
| "openapi_statuses M_PutTLSPending = [201, 400, 401, 503]"
| "openapi_statuses M_GetPendingScan = [200, 404, 400, 401, 503]"
| "openapi_statuses M_ReleasePendingScan = [204, 400, 401, 503]"
| "openapi_statuses M_ListWalletScans = [200, 400, 401, 503]"
| "openapi_statuses M_ApplyWalletTransition = [200, 400, 401, 503]"
| "openapi_statuses M_GetWalletScan = [200, 404, 400, 401, 503]"
| "openapi_statuses M_DeleteWalletScan = [204, 404, 400, 401, 503]"
| "openapi_statuses M_ListTLSScans = [200, 401, 503]"
| "openapi_statuses M_ListTLSDefaultScans = [200, 401, 503]"
| "openapi_statuses M_GetTLSScan = [200, 404, 400, 401, 503]"
| "openapi_statuses M_DeleteTLSScan = [204, 404, 400, 401, 503]"
| "openapi_statuses M_GetScanLedgerUsage = [200, 400, 401, 503]"
| "openapi_statuses M_CreatePolicy = [201, 400, 401, 403, 409, 503]"
| "openapi_statuses M_ListPoliciesByScan = [200, 400, 401, 503]"
| "openapi_statuses M_GetPolicy = [200, 404, 400, 401, 403, 503]"
| "openapi_statuses M_DeletePolicy = [204, 404, 400, 401, 403, 503]"
| "openapi_statuses M_CountPoliciesByWallet = [200, 400, 401, 503]"
| "openapi_statuses M_CountPoliciesByScan = [200, 400, 401, 503]"

text \<open>
  Two endpoints answer 400 to a request without a valid user header, which their descriptions do not
  list.
\<close>

definition expected :: "endpoint \<Rightarrow> response \<Rightarrow> bool" where
  "expected e resp \<longleftrightarrow> resp_Status resp \<in> set (openapi_statuses e)
     \<or> e \<in> {M_ListTLSScans, M_ListTLSDefaultScans} \<and> resp_Status resp = 400"

lemma answer_statuses:
  "resp_Status (writeServiceUnavailable r m) = 503" "resp_Status (writeBadRequest r m) = 400"
  "resp_Status (writeNotFound r m) = 404" "resp_Status (cp_writeServiceUnavailable r) = 503"
  "resp_Status (cp_writeBadRequest r m) = 400" "resp_Status (writeJSON StatusOK b) = 200"
  "resp_Status (writeJSON StatusCreated b) = 201" "resp_Status (writeJSON StatusConflict b) = 409"
  "resp_Status (WriteHeader StatusNoContent) = 204" "resp_Status (pageJSON items n l off) = 200"
  "resp_Status (writeTransition res ready published) = 200"
  by (simp_all add: status_defs pageJSON_def writeTransition_def)

text \<open>The guards of the handlers, for any set of statuses that has theirs.\<close>

lemma ends_guards:
  "(\<And>m. P (writeBadRequest r m)) \<Longrightarrow> ends P (\<lambda>_. True) (requireUserID E r)"
  "P (writeServiceUnavailable r m) \<Longrightarrow> ends P (\<lambda>_. True) (requireStore r m b)"
  "(\<And>m. P (writeBadRequest r m)) \<Longrightarrow> ends P (\<lambda>_. True) (parseScanIDPath E r)"
  "P (writeServiceUnavailable r m) \<Longrightarrow> ends P (\<lambda>_. True) (orUnavailable r m p)"
  "(\<And>m. P (cp_writeBadRequest r m)) \<Longrightarrow> ends P (\<lambda>_. True) (requireOwnerScope E r)"
  "P (cp_writeServiceUnavailable r) \<Longrightarrow> ends P (\<lambda>_. True) (cp_requireStore cp r)"
  "(\<And>m. P (cp_writeBadRequest r m)) \<Longrightarrow> ends P (\<lambda>_. True) (parsePolicyIDPath E r)"
  "(\<And>m. P (cp_writeBadRequest r m)) \<Longrightarrow> ends P (\<lambda>_. True) (scanIDQuery E r)"
  unfolding requireUserID_def requireStore_def parseScanIDPath_def requireOwnerScope_def cp_requireStore_def
    parsePolicyIDPath_def parseUUIDPath_def scanIDQuery_def orUnavailable_def Let_def
  by (intro ends_intros; simp)+

lemma ends_services: "ends P (\<lambda>_. True) (nowP E)" "ends P (\<lambda>_. True) (newUUIDP E)"
  by (simp_all add: ends_def nowP_def newUUIDP_def split: prod.split)

lemma scan_endpoints_expected:
  "ends (expected M_ReserveWalletPending) (expected M_ReserveWalletPending) (ReserveWalletPending E C h r)"
  "ends (expected M_GetWalletPendingByAddress) (expected M_GetWalletPendingByAddress) (GetWalletPendingByAddress E h r)"
  "ends (expected M_ReleaseWalletPendingReservation) (expected M_ReleaseWalletPendingReservation)
     (ReleaseWalletPendingReservation E h r)"
  "ends (expected M_PutTLSPending) (expected M_PutTLSPending) (PutTLSPending E C h r)"
  "ends (expected M_GetPendingScan) (expected M_GetPendingScan) (GetPendingScan E h r)"
  "ends (expected M_ReleasePendingScan) (expected M_ReleasePendingScan) (ReleasePendingScan E h r)"
  "ends (expected M_GetWalletScan) (expected M_GetWalletScan) (GetWalletScan E h r)"
  "ends (expected M_DeleteWalletScan) (expected M_DeleteWalletScan) (DeleteWalletScanHandler E h r)"
  "ends (expected M_ListTLSScans) (expected M_ListTLSScans) (ListTLSScans E h r)"
  "ends (expected M_ListTLSDefaultScans) (expected M_ListTLSDefaultScans) (ListTLSDefaultScans E h r)"
  "ends (expected M_GetTLSScan) (expected M_GetTLSScan) (GetTLSScan E h r)"
  "ends (expected M_DeleteTLSScan) (expected M_DeleteTLSScan) (DeleteTLSScanHandler E h r)"
  "ends (expected M_GetScanLedgerUsage) (expected M_GetScanLedgerUsage) (GetScanLedgerUsage E h r)"
  unfolding ReserveWalletPending_def GetWalletPendingByAddress_def ReleaseWalletPendingReservation_def
    PutTLSPending_def GetPendingScan_def ReleasePendingScan_def GetWalletScan_def DeleteWalletScanHandler_def
    ListTLSScans_def ListTLSDefaultScans_def GetTLSScan_def DeleteTLSScanHandler_def GetScanLedgerUsage_def Let_def
  by (intro ends_intros ends_guards ends_services; simp add: expected_def answer_statuses status_defs)+

text \<open>The errors of the policy store, by the status the handlers give them.\<close>

lemma store_answers:
  "ends (\<lambda>e. resp_Status (writeStoreError r e) \<in> {400, 409, 503}) (\<lambda>_. True) (CreatePolicy E scope inp)"
  "ends (\<lambda>e. resp_Status (writeStoreError r e) \<in> {400, 404, 503}) (\<lambda>_. True) (GetPolicy E scope i)"
  "ends (\<lambda>e. resp_Status (writeStoreError r e) \<in> {400, 403, 404, 503}) (\<lambda>_. True) (DeletePolicy E scope i)"
  "ends (\<lambda>e. resp_Status (writeStoreError r e) \<in> {400, 503}) (\<lambda>_. True) (ListPersistedPoliciesForScan E scope i limit offset)"
  "ends (\<lambda>e. resp_Status (writeStoreError r e) \<in> {400, 503}) (\<lambda>_. True) (CountPoliciesByWallet E scope a)"
  "ends (\<lambda>e. resp_Status (writeStoreError r e) \<in> {400, 503}) (\<lambda>_. True) (CountPoliciesByScan E scope i)"
  unfolding CreatePolicy_def GetPolicy_def DeletePolicy_def ListPersistedPoliciesForScan_def
    CountPoliciesByWallet_def CountPoliciesByScan_def validateScope_def Let_def
  by (intro ends_intros ends_services ends_case_sum; simp add: status_defs)+

lemma cp_endpoints_expected:
  "ends (expected M_CreatePolicy) (expected M_CreatePolicy) (cp_CreatePolicy E C' cp r)"
  "ends (expected M_GetPolicy) (expected M_GetPolicy) (cp_GetPolicy E cp r)"
  "ends (expected M_DeletePolicy) (expected M_DeletePolicy) (cp_DeletePolicy E cp r)"
  "ends (expected M_ListPoliciesByScan) (expected M_ListPoliciesByScan) (ListPoliciesByScan E cp r)"
  "ends (expected M_CountPoliciesByWallet) (expected M_CountPoliciesByWallet) (cp_CountPoliciesByWallet E cp r)"
  "ends (expected M_CountPoliciesByScan) (expected M_CountPoliciesByScan) (cp_CountPoliciesByScan E cp r)"
proof -
  note store = store_answers [THEN ends_mono]
  show "ends (expected M_CreatePolicy) (expected M_CreatePolicy) (cp_CreatePolicy E C' cp r)"
    unfolding cp_CreatePolicy_def Let_def
    by (intro ends_steps ends_guards ends_mapErr_of store(1); auto simp: expected_def answer_statuses status_defs)
  show "ends (expected M_GetPolicy) (expected M_GetPolicy) (cp_GetPolicy E cp r)"
    unfolding cp_GetPolicy_def Let_def
    by (intro ends_steps ends_guards ends_mapErr_of store(2); auto simp: expected_def answer_statuses status_defs)
  show "ends (expected M_DeletePolicy) (expected M_DeletePolicy) (cp_DeletePolicy E cp r)"
    unfolding cp_DeletePolicy_def Let_def
    by (intro ends_steps ends_guards ends_mapErr_of store(3); auto simp: expected_def answer_statuses status_defs)
  show "ends (expected M_ListPoliciesByScan) (expected M_ListPoliciesByScan) (ListPoliciesByScan E cp r)"
    unfolding ListPoliciesByScan_def Let_def
    by (intro ends_steps ends_guards ends_mapErr_of store(4); auto simp: expected_def answer_statuses status_defs)
  show "ends (expected M_CountPoliciesByWallet) (expected M_CountPoliciesByWallet) (cp_CountPoliciesByWallet E cp r)"
    unfolding cp_CountPoliciesByWallet_def Let_def
    by (intro ends_steps ends_guards ends_mapErr_of store(5); auto simp: expected_def answer_statuses status_defs)
  show "ends (expected M_CountPoliciesByScan) (expected M_CountPoliciesByScan) (cp_CountPoliciesByScan E cp r)"
    unfolding cp_CountPoliciesByScan_def Let_def
    by (intro ends_steps ends_guards ends_mapErr_of store(6); auto simp: expected_def answer_statuses status_defs)
qed

lemma list_endpoint_expected:
  "ends (expected M_ListWalletScans) (\<lambda>res. \<forall>resp. res = Some resp \<longrightarrow> expected M_ListWalletScans resp) (ListWalletScans E h r)"
  unfolding ListWalletScans_def Let_def
  by (intro ends_intros ends_guards; auto simp: expected_def answer_statuses status_defs)

lemma HandlerFunc_expected:
  "ends (expected e) (expected e) (h r) \<Longrightarrow> HandlerFunc h r w = (resp, w') \<Longrightarrow> \<exists>a. resp = Some a \<and> expected e a"
  by (auto simp: HandlerFunc_def serve_def split: prod.splits sum.splits dest: endsD)

context world
begin

lemma endpoint_answers:
  assumes "std_server E s" and run: "endpoint_handler E s e r w = (resp, w')"
  shows "\<exists>a. resp = Some a \<and> expected e a"
proof -
  have ledger: "api_ledger (srv_scan s) = Some (NewScanUsageLedgerRepository E)"
    using assms(1) by (simp add: std_server_def)
  have list: "\<exists>a. resp = Some a \<and> expected M_ListWalletScans a" if "list_handler (ListWalletScans E h) r w = (resp, w')" for h
  proof -
    obtain x v where x: "ListWalletScans E h r w = (x, v)" by fastforce
    with that ListWalletScans_responds [of E h r w] show ?thesis
      using endsD [OF list_endpoint_expected, of E h r w _ v] by (cases x) (auto simp: list_handler_def)
  qed
  have transition: "\<exists>a. resp = Some a \<and> expected M_ApplyWalletTransition a"
    if tr: "transition_handler (ApplyWalletTransition E V D (srv_scan s)) r w = (resp, w')" for V D
  proof -
    obtain x where x: "ApplyWalletTransition E V D (srv_scan s) r w = (x, w')"
        and resp: "resp = (case x of Inl a \<Rightarrow> a | Inr b \<Rightarrow> Some b)"
      using tr by (auto simp: transition_handler_def split: prod.splits sum.splits)
    from ApplyWalletTransition_run [OF world_axioms ledger x] resp show ?thesis
      by (auto simp: expected_def answer_statuses status_defs split: sum.splits)
  qed
  show ?thesis
    using run
    by (cases e; simp add: endpoint_handler_def Let_def)
      (rule HandlerFunc_expected list transition, (assumption | rule scan_endpoints_expected cp_endpoints_expected)+)+
qed

end

section \<open>The whole server\<close>

definition served_route :: "string \<Rightarrow> string list \<Rightarrow> ((string \<times> string) list \<times> endpoint) option" where
  "served_route method path =
     (case documented_route method path of
        Some x \<Rightarrow> Some x
      | None \<Rightarrow> if method = ''HEAD'' then documented_route ''GET'' path else None)"

lemma ServeHTTP_route:
  "ServeHTTP run route_list method path r w =
     (if method \<noteq> ''CONNECT'' \<and> \<not> clean_path path then (Some (WriteHeader StatusTemporaryRedirect), w)
      else case served_route method path of
        Some (m, h) \<Rightarrow> run h (r\<lparr>req_PathValue := path_values m\<rparr>) w
      | None \<Rightarrow> (Some (WriteHeader (if findHandler route_list method path = NoRoute
            then StatusNotFound else StatusMethodNotAllowed)), w))"
  by (auto simp: ServeHTTP_def findHandler_def served_route_def route_list_dispatch Let_def split: option.split)

lemma internalServer_run:
  "internalServer E s method path = Some srv \<Longrightarrow>
     srv r w =
       (if service_authorized (srv_token s) r
        then ServeHTTP (endpoint_handler E s) route_list method path r w
        else (Some (writeServiceAuthError r), w))"
  by (auto simp: internalServer_def internalMux_routes NewServerFromMux_def ServiceAuthMiddleware_cases)

lemma matchMethod_registered: "matchMethod mux method path \<noteq> None \<Longrightarrow> method \<in> (fst \<circ> fst) ` set mux"
proof (rule ccontr)
  have "method \<notin> (fst \<circ> fst) ` set mux
      \<Longrightarrow> List.map_filter (\<lambda>((m, p), h). if m = method then Some (p, [] :: (string \<times> string) list, h) else None) mux = []"
    by (induction mux) (auto simp: map_filter_simps)
  moreover assume "matchMethod mux method path \<noteq> None" and "method \<notin> (fst \<circ> fst) ` set mux"
  ultimately show False by (simp add: matchMethod_def)
qed

lemma NoRoute_iff:
  assumes "served_route method path = None"
  shows "findHandler route_list method path = NoRoute \<longleftrightarrow> (\<forall>m. documented_route m path = None)"
proof -
  have "documented_route method path = None" "method = ''HEAD'' \<longrightarrow> documented_route ''GET'' path = None"
    using assms by (auto simp: served_route_def split: option.splits if_splits)
  then have "findHandler route_list method path = NoRoute
      \<longleftrightarrow> filter (\<lambda>m. matchMethod route_list m path \<noteq> None) (remdups (map (fst \<circ> fst) route_list)) = []"
    by (simp add: findHandler_def route_list_dispatch Let_def)
  also have "\<dots> \<longleftrightarrow> (\<forall>m. matchMethod route_list m path = None)"
    unfolding filter_empty_conv set_remdups set_map using matchMethod_registered [of route_list _ path] by metis
  finally show ?thesis by (simp add: route_list_dispatch)
qed

text \<open>
  C3. Every request is answered, as the interface descriptions say. Whatever method, path, headers and
  body are sent, and whatever the database, Redis or NATS do, the internal server has a response. A
  request without the service token gets 401 and nothing has happened. One whose path is not clean is
  redirected. One that no route serves gets 405 when the path has a route for another method and 404
  otherwise. One that a route serves gets a status which the OpenAPI description lists for that
  endpoint, with one exception: the two listings of TLS scans also answer 400, which their
  descriptions do not list. The two panics of the model, a slice out of bounds in the paging of wallet
  scans and the missing result of a transition, do not happen.
\<close>

theorem every_request_is_answered:
  assumes world: "world E view" and server: "std_server E s"
  shows "\<exists>srv resp w'. internalServer E s method path = Some srv \<and> srv r w = (Some resp, w')
    \<and> (if \<not> service_authorized (srv_token s) r then resp_Status resp = StatusUnauthorized \<and> w' = w
       else if method \<noteq> ''CONNECT'' \<and> \<not> clean_path path then resp_Status resp = StatusTemporaryRedirect \<and> w' = w
       else case served_route method path of
           None \<Rightarrow> resp_Status resp = (if \<exists>m. documented_route m path \<noteq> None
             then StatusMethodNotAllowed else StatusNotFound) \<and> w' = w
         | Some (m, e) \<Rightarrow> resp_Status resp \<in> set (openapi_statuses e)
             \<or> e \<in> {M_ListTLSScans, M_ListTLSDefaultScans} \<and> resp_Status resp = StatusBadRequest)"
proof -
  obtain srv where srv: "internalServer E s method path = Some srv"
    by (simp add: internalServer_def internalMux_routes)
  note run = internalServer_run [OF srv, of r w]
  have refused: "resp_Status (writeServiceAuthError r) = StatusUnauthorized" by (simp add: writeServiceAuthError_def)
  have header: "resp_Status (WriteHeader n) = n" for n by (simp add: WriteHeader_def)
  show ?thesis
  proof (cases "\<not> service_authorized (srv_token s) r \<or> method \<noteq> ''CONNECT'' \<and> \<not> clean_path path")
    case True
    then show ?thesis using srv run refused by (auto simp: ServeHTTP_route header)
  next
    case plain: False
    show ?thesis
    proof (cases "served_route method path")
      case None
      with plain srv run NoRoute_iff [OF None] show ?thesis by (auto simp: ServeHTTP_route header)
    next
      case (Some route)
      then obtain m e where route: "served_route method path = Some (m, e)" by (cases route) simp
      obtain resp w' where "endpoint_handler E s e (r\<lparr>req_PathValue := path_values m\<rparr>) w = (resp, w')" by fastforce
      with world.endpoint_answers [OF world server this] plain srv run route show ?thesis
        by (auto simp: ServeHTTP_route expected_def status_defs)
    qed
  qed
qed

text \<open>
  C2. Requests write only where they may. A request without the service token, or for a path and method
  that no route serves, changes nothing at all. Otherwise the route decides: reads leave the whole
  observable system as it is; the pending-scan endpoints change only the cache; the delete endpoints
  only rows of the caller; the policy endpoints only policies of the caller in the caller's tenant; a
  transition only the row of its scan id and, downwards, the reservations of that scan.
\<close>

theorem requests_write_only_their_own:
  assumes world: "world E view" and server: "std_server E s"
    and srv: "internalServer E s method path = Some srv" and run: "srv r w = (resp, w')"
  shows "case (if service_authorized (srv_token s) r then served_route method path else None) of
      None \<Rightarrow> w' = w
    | Some (m, e) \<Rightarrow> endpoint_frame E e (r\<lparr>req_PathValue := path_values m\<rparr>) (view w) (view w')"
  using run world.endpoint_writes [OF world server]
  by (auto simp: internalServer_run [OF srv] ServeHTTP_route endpoint_frame_refl split: if_splits option.splits prod.splits)

definition server_demo :: "mem server" where
  "server_demo = \<lparr>srv_scan = api_demo, srv_cp = \<lparr>cph_store = True\<rparr>,
     srv_codec = \<lparr>decode_reserve = (\<lambda>_. None), decode_tls = (\<lambda>_. None)\<rparr>,
     srv_transition = (\<lambda>_. None), srv_policy = (\<lambda>_. None), srv_v01 = v01_demo, srv_token = '' secret''\<rparr>"

lemma server_demo_std: "std_server mem_env server_demo"
  by (simp add: std_server_def server_demo_def api_demo_def)

definition scan_path_demo :: "string list" where
  "scan_path_demo = [''internal'', ''scan'', ''v1'', ''wallets'', ''scans'', ''xxxxx'']"

definition signed_request :: "string \<Rightarrow> string \<Rightarrow> request" where
  "signed_request token user = \<lparr>req_Header = (\<lambda>k. if k = headerUserID then user
     else if k = headerAuthorization then ''Bearer '' @ token else ''''), req_Query = (\<lambda>_. ''''),
     req_PathValue = (\<lambda>_. ''''), req_Body = ''''\<rparr>"

definition run_demo :: "string \<Rightarrow> string \<Rightarrow> string \<Rightarrow> (response option \<times> mem) option" where
  "run_demo method token user = map_option (\<lambda>srv. srv (signed_request token user) wallet_rows_demo)
     (internalServer mem_env server_demo method scan_path_demo)"

theorem every_request_is_answered_witness:
  "(\<exists>srv resp w'. internalServer mem_env server_demo ''GET'' scan_path_demo = Some srv
      \<and> srv (signed_request ''guess'' ''x'') wallet_rows_demo = (Some resp, w')
      \<and> resp_Status resp = StatusUnauthorized \<and> w' = wallet_rows_demo)
   \<and> (\<exists>srv resp w'. internalServer mem_env server_demo ''GET'' scan_path_demo = Some srv
      \<and> srv (signed_request ''secret'' ''x'') wallet_rows_demo = (Some resp, w')
      \<and> resp_Status resp \<in> {200, 404, 400, 401, 503})"
proof -
  note answer = every_request_is_answered [OF mem_world server_demo_std, of "''GET''" scan_path_demo _ wallet_rows_demo]
  have no: "\<not> service_authorized (srv_token server_demo) (signed_request ''guess'' ''x'')"
    and yes: "service_authorized (srv_token server_demo) (signed_request ''secret'' ''x'')"
    and clean: "clean_path scan_path_demo"
    and route: "served_route ''GET'' scan_path_demo = Some ([(''scan_id'', ''xxxxx'')], M_GetWalletScan)"
    by code_simp+
  have "\<exists>srv resp w'. internalServer mem_env server_demo ''GET'' scan_path_demo = Some srv
      \<and> srv (signed_request ''guess'' ''x'') wallet_rows_demo = (Some resp, w')
      \<and> resp_Status resp = StatusUnauthorized \<and> w' = wallet_rows_demo"
    using answer [of "signed_request ''guess'' ''x''"] no by simp
  moreover have "\<exists>srv resp w'. internalServer mem_env server_demo ''GET'' scan_path_demo = Some srv
      \<and> srv (signed_request ''secret'' ''x'') wallet_rows_demo = (Some resp, w')
      \<and> resp_Status resp \<in> {200, 404, 400, 401, 503}"
    using answer [of "signed_request ''secret'' ''x''"] yes clean route by simp
  ultimately show ?thesis by blast
qed

theorem requests_write_only_their_own_witness:
  "\<exists>resp w'. run_demo ''DELETE'' ''secret'' ''x'' = Some (Some resp, w') \<and> resp_Status resp = StatusNoContent
    \<and> owner_change 1 (mem_view wallet_rows_demo) (mem_view w')"
proof -
  let ?r = "signed_request ''secret'' ''x''"
  let ?r' = "?r\<lparr>req_PathValue := path_values [(''scan_id'', ''xxxxx'')]\<rparr>"
  obtain srv where srv: "internalServer mem_env server_demo ''DELETE'' scan_path_demo = Some srv"
    by (simp add: internalServer_def internalMux_routes)
  obtain resp w' where run: "srv ?r wallet_rows_demo = (resp, w')" by fastforce
  have demo: "run_demo ''DELETE'' ''secret'' ''x'' = Some (resp, w')" by (simp add: run_demo_def srv run)
  have status: "map_option (map_option resp_Status \<circ> fst) (run_demo ''DELETE'' ''secret'' ''x'') = Some (Some StatusNoContent)"
    by code_simp
  have "service_authorized (srv_token server_demo) ?r" by code_simp
  moreover have "served_route ''DELETE'' scan_path_demo = Some ([(''scan_id'', ''xxxxx'')], M_DeleteWalletScan)" by code_simp
  moreover have "request_user mem_env ?r' = Some 1" by code_simp
  ultimately have "owner_change 1 (mem_view wallet_rows_demo) (mem_view w')"
    using requests_write_only_their_own [OF mem_world server_demo_std srv run]
    by (simp add: endpoint_frame_def owner_frame_def)
  with demo status show ?thesis by (cases resp) auto
qed

end
