(* ===== verification/System.thy ===== *)
theory System
  imports Api_Frame
begin

text \<open>
  The running service: events from NATS and requests to the internal API, handled one after the other
  in any order.
\<close>

datatype input =
    Delivered nats_delivery
  | Requested string "string list" request

definition system_step ::
  "'w env \<Rightarrow> decoders \<Rightarrow> 'w ScanEventHandler \<Rightarrow> 'w server \<Rightarrow> input \<Rightarrow> 'w \<Rightarrow> 'w" where
  "system_step E D h s i w =
     (case i of
        Delivered d \<Rightarrow> on_delivery E D h d w
      | Requested method path r \<Rightarrow>
          (case internalServer E s method path of None \<Rightarrow> w | Some srv \<Rightarrow> snd (srv r w)))"

definition run_system ::
  "'w env \<Rightarrow> decoders \<Rightarrow> 'w ScanEventHandler \<Rightarrow> 'w server \<Rightarrow> input list \<Rightarrow> 'w \<Rightarrow> 'w" where
  "run_system E D h s is w = fold (system_step E D h s) is w"

lemma owner_change_fields:
  assumes "owner_change u v v'"
  shows "v_users v' = v_users v" "v_plans v' = v_plans v" "usage_entries v' = usage_entries v"
proof -
  from assms have eq: "v' = v\<lparr>v_scan_results := v_scan_results v', v_tls_scan_results := v_tls_scan_results v',
      v_cache := v_cache v'\<rparr>" by (simp add: owner_change_def)
  show "v_users v' = v_users v" "v_plans v' = v_plans v" "usage_entries v' = usage_entries v"
    by (subst eq, simp)+
qed

lemma cache_only_fields:
  assumes "cache_only v v'"
  shows "v_users v' = v_users v" "v_plans v' = v_plans v" "usage_entries v' = usage_entries v"
proof -
  from assms have eq: "v' = v\<lparr>v_cache := v_cache v'\<rparr>" by (simp add: cache_only_def)
  show "v_users v' = v_users v" "v_plans v' = v_plans v" "usage_entries v' = usage_entries v"
    by (subst eq, simp)+
qed

lemma usage_entries_policies [simp]: "usage_entries (v\<lparr>v_crypto_policies := M\<rparr>) = usage_entries v"
  unfolding usage_entries_def by simp

lemma endpoint_frame_quota: "endpoint_frame E e r v v' \<Longrightarrow> quota_step v v'"
  unfolding endpoint_frame_def
  by (auto simp: quota_step_same quota_step_def owner_frame_def policy_frame_def transition_frame_def Let_def
      owner_change_fields cache_only_fields split: if_splits option.splits)

lemma quota_step_request:
  assumes "world E view" "std_server E s" "internalServer E s method path = Some srv"
  shows "quota_step (view w) (view (snd (srv r w)))"
proof -
  obtain resp w' where run: "srv r w = (resp, w')" by fastforce
  show ?thesis
    using run internalServer_run [OF assms(3), of r w]
    by (auto simp: ServeHTTP_route quota_step_same split: if_splits option.splits prod.splits
        dest!: world.endpoint_writes [OF assms(1,2)] intro: endpoint_frame_quota)
qed

text \<open>Every input, whatever it is, keeps every user within the plan's limit.\<close>

lemma run_system_within_plans:
  assumes world: "world E view" and h: "std_handler E h" and s: "std_server E s"
    and start: "within_plans (view w)"
  shows "within_plans (view (run_system E D h s inputs w))"
  using start
proof (induction inputs arbitrary: w)
  case (Cons i inputs)
  have "quota_step (view w) (view (system_step E D h s i w))"
    using world.quota_step_delivery [OF world h] quota_step_request [OF world s]
    by (auto simp: system_step_def quota_step_same split: input.split option.split)
  from quota_step_within [OF this Cons.prems] Cons.IH show ?case by (simp add: run_system_def)
qed (simp add: run_system_def)

section \<open>A transition of somebody else's scan\<close>

definition foreign_row :: ScanResultEntity where
  "foreign_row = zero_ScanResultEntity\<lparr>sr_ID := 5, sr_UserID := 1, sr_Address := ''0xab'',
     sr_Status := StateRUNNING, sr_TransitionID := Some ''t1''\<rparr>"

definition foreign_demo :: mem where
  "foreign_demo = mem_empty\<lparr>m_scan_results := [foreign_row]\<rparr>"

definition foreign_body :: transitionBody where
  "foreign_body = finish_body\<lparr>tb_UserID := ''xx'', tb_SourceStates := [StateRUNNING]\<rparr>"

definition foreign_run :: "(panic + Result) \<times> mem" where
  "foreign_run = applyTransition mem_env True (Some (NewScanUsageLedgerRepository mem_env)) 2 5 foreign_body foreign_demo"

text \<open>
  The owner of a stored scan is not compared with the caller of a transition: a transition request
  of user 2 for the running scan of user 1 is applied, the row then belongs to user 2, user 1 gets 404
  for the own scan and user 2 reads it; a deletion of the same scan by user 2 would have been refused.
\<close>

theorem transition_takes_over_scan:
  "resp_Status (fst (serve (GetWalletScan mem_env api_demo) (request_demo ''x'' ''xxxxx'') foreign_demo)) = StatusOK
   \<and> resp_Status (fst (serve (DeleteWalletScanHandler mem_env api_demo) (request_demo ''xx'' ''xxxxx'') foreign_demo))
     = StatusNotFound
   \<and> outcome_of (fst foreign_run) = Some OutcomeApplied
   \<and> map sr_UserID (m_scan_results (snd foreign_run)) = [2]
   \<and> resp_Status (fst (serve (GetWalletScan mem_env api_demo) (request_demo ''x'' ''xxxxx'') (snd foreign_run)))
     = StatusNotFound
   \<and> resp_Status (fst (serve (GetWalletScan mem_env api_demo) (request_demo ''xx'' ''xxxxx'') (snd foreign_run)))
     = StatusOK"
  by code_simp

end
