(* ===== verification/Schema.thy ===== *)
theory Schema
  imports Frames
begin

text \<open>
  The schema of the database and its migrations (\<^verbatim>\<open>internal/cpddl\<close>, \<^verbatim>\<open>internal/scanddl\<close>). A schema is
  its tables with their columns and rows (each a map from columns to values, a missing value being
  NULL), its indexes, the columns with a default and the check constraints; column types are left out.
  A statement is a value; what it does is \<open>apply_ddl\<close>. The database and gorm's migrator are behind the
  locale \<open>ddl_engine\<close>: every statement may fail, and then changes nothing; gorm's \<^verbatim>\<open>AutoMigrate\<close> only
  adds tables, columns, indexes and defaults, fills a new column that has a default in the rows that
  are there, and may stop half-way.
\<close>

section \<open>Schemas and statements\<close>

type_synonym db_row = "string \<rightharpoonup> string"

record db_table =
  tbl_Columns :: "string set"
  tbl_Rows :: "db_row list"

record db_index =
  idx_Table :: string
  idx_Unique :: bool
  idx_Columns :: "string list"
  idx_Desc :: "string list"
  idx_NullsNotDistinct :: bool
  idx_Where :: string

record schema =
  sch_Tables :: "string \<rightharpoonup> db_table"
  sch_Indexes :: "string \<rightharpoonup> db_index"
  sch_Defaults :: "(string \<times> string) set"
  sch_Checks :: "string \<times> string \<rightharpoonup> string \<times> string list"

datatype ddl =
    DropTable string
  | DropIndex string
  | CreateIndex string db_index
  | DropColumn bool string string
  | DropDefault string string
  | DropConstraint string string
  | AddConstraint string string string "string list"

text \<open>
  \<open>DropTable\<close>, \<open>DropIndex\<close>, \<open>DropConstraint\<close> are with \<^verbatim>\<open>IF EXISTS\<close>, \<open>CreateIndex\<close> with
  \<^verbatim>\<open>IF NOT EXISTS\<close>, \<open>DropColumn\<close> when its flag is set. Dropping a table or a column drops the indexes
  on it; dropping a column erases its value in every row. \<open>idx_Desc\<close> holds the columns of an index
  that are sorted in descending order.
\<close>

definition remove_indexes :: "(db_index \<Rightarrow> bool) \<Rightarrow> (string \<rightharpoonup> db_index) \<Rightarrow> (string \<rightharpoonup> db_index)" where
  "remove_indexes P I n = (case I n of None \<Rightarrow> None | Some ix \<Rightarrow> if P ix then None else Some ix)"

fun apply_ddl :: "ddl \<Rightarrow> schema \<Rightarrow> schema" where
  "apply_ddl (DropTable t) s = s\<lparr>sch_Tables := (sch_Tables s)(t := None),
     sch_Indexes := remove_indexes (\<lambda>ix. idx_Table ix = t) (sch_Indexes s),
     sch_Defaults := {d \<in> sch_Defaults s. fst d \<noteq> t}, sch_Checks := (\<lambda>(t', n). if t' = t then None else sch_Checks s (t', n))\<rparr>"
| "apply_ddl (DropIndex n) s = s\<lparr>sch_Indexes := (sch_Indexes s)(n := None)\<rparr>"
| "apply_ddl (CreateIndex n ix) s =
     (if sch_Indexes s n = None then s\<lparr>sch_Indexes := (sch_Indexes s)(n \<mapsto> ix)\<rparr> else s)"
| "apply_ddl (DropColumn _ t c) s =
     (case sch_Tables s t of
        None \<Rightarrow> s
      | Some tb \<Rightarrow>
          if c \<notin> tbl_Columns tb then s
          else s\<lparr>sch_Tables := (sch_Tables s)(t \<mapsto> tb\<lparr>tbl_Columns := tbl_Columns tb - {c},
              tbl_Rows := map (\<lambda>r. r(c := None)) (tbl_Rows tb)\<rparr>),
            sch_Indexes := remove_indexes (\<lambda>ix. idx_Table ix = t \<and> c \<in> set (idx_Columns ix)) (sch_Indexes s),
            sch_Defaults := sch_Defaults s - {(t, c)}\<rparr>)"
| "apply_ddl (DropDefault t c) s = s\<lparr>sch_Defaults := sch_Defaults s - {(t, c)}\<rparr>"
| "apply_ddl (DropConstraint t n) s = s\<lparr>sch_Checks := (sch_Checks s)((t, n) := None)\<rparr>"
| "apply_ddl (AddConstraint t n c vals) s = s\<lparr>sch_Checks := (sch_Checks s)((t, n) \<mapsto> (c, vals))\<rparr>"

text \<open>
  gorm's migrator: \<open>cols\<close> gives the columns of the struct behind a table; an entity is a table with
  its tags \<^verbatim>\<open>index\<close> and \<^verbatim>\<open>uniqueIndex\<close>, whose indexes gorm calls \<^verbatim>\<open>idx_<table>_<column>\<close>, and its tags
  \<^verbatim>\<open>default\<close>. A new table has a primary key over its column \<^verbatim>\<open>id\<close>, whose index PostgreSQL calls
  \<^verbatim>\<open><table>_pkey\<close>.
\<close>

type_synonym db_entity = "string \<times> (string \<times> bool) list \<times> (string \<times> string) list"

definition plain_index :: "string \<Rightarrow> string list \<Rightarrow> db_index" where
  "plain_index t cs = \<lparr>idx_Table = t, idx_Unique = False, idx_Columns = cs, idx_Desc = [],
     idx_NullsNotDistinct = False, idx_Where = ''''\<rparr>"

definition tag_index :: "string \<Rightarrow> string \<Rightarrow> string" where
  "tag_index table column = ''idx_'' @ table @ ''_'' @ column"

fun add_tag :: "string \<Rightarrow> string \<times> bool \<Rightarrow> (string \<rightharpoonup> db_index) \<Rightarrow> (string \<rightharpoonup> db_index)" where
  "add_tag t (c, u) I =
     (if I (tag_index t c) = None
      then I(tag_index t c \<mapsto> (plain_index t [c])\<lparr>idx_Unique := u\<rparr>)
      else I)"

definition pkey_index :: "string \<Rightarrow> string" where
  "pkey_index table = table @ ''_pkey''"

definition add_pkey :: "string \<Rightarrow> (string \<rightharpoonup> db_index) \<Rightarrow> (string \<rightharpoonup> db_index)" where
  "add_pkey t I =
     (if I (pkey_index t) = None
      then I(pkey_index t \<mapsto> (plain_index t [''id''])\<lparr>idx_Unique := True\<rparr>)
      else I)"

text \<open>The defaults of the columns that are new.\<close>

definition fill :: "string set \<Rightarrow> (string \<times> string) list \<Rightarrow> db_row \<Rightarrow> db_row" where
  "fill new dflts r c =
     (case map_of dflts c of None \<Rightarrow> r c | Some d \<Rightarrow> if c \<in> new then Some d else r c)"

fun migrate_entity :: "(string \<Rightarrow> string set) \<Rightarrow> db_entity \<Rightarrow> schema \<Rightarrow> schema" where
  "migrate_entity cols (t, tags, dflts) s = s\<lparr>
     sch_Tables := (sch_Tables s)(t \<mapsto>
       (case sch_Tables s t of
          None \<Rightarrow> \<lparr>tbl_Columns = cols t, tbl_Rows = []\<rparr>
        | Some tb \<Rightarrow> tb\<lparr>tbl_Columns := tbl_Columns tb \<union> cols t,
            tbl_Rows := map (fill (cols t - tbl_Columns tb) dflts) (tbl_Rows tb)\<rparr>)),
     sch_Indexes := fold (add_tag t) tags
       (if sch_Tables s t = None then add_pkey t (sch_Indexes s) else sch_Indexes s),
     sch_Defaults := sch_Defaults s \<union> (\<lambda>(c, _). (t, c)) ` set dflts\<rparr>"

definition auto_migrate :: "(string \<Rightarrow> string set) \<Rightarrow> db_entity list \<Rightarrow> schema \<Rightarrow> schema" where
  "auto_migrate cols ents s = fold (migrate_entity cols) ents s"

section \<open>The database\<close>

record 'w ddl_db =
  db_Name :: string
  db_Exec :: "ddl \<Rightarrow> ('w, string, unit) prog"
  db_AutoMigrate :: "db_entity list \<Rightarrow> ('w, string, unit) prog"
  db_TableQuery :: "string \<Rightarrow> ('w, string, bool) prog"
  db_ColumnQuery :: "string \<Rightarrow> string \<Rightarrow> ('w, string, bool) prog"
  db_HasTable :: "string \<Rightarrow> 'w \<Rightarrow> bool \<times> 'w"
  db_HasColumn :: "string \<Rightarrow> string \<Rightarrow> 'w \<Rightarrow> bool \<times> 'w"

definition has_table :: "string \<Rightarrow> schema \<Rightarrow> bool" where
  "has_table t s \<longleftrightarrow> sch_Tables s t \<noteq> None"

definition has_column :: "string \<Rightarrow> string \<Rightarrow> schema \<Rightarrow> bool" where
  "has_column t c s \<longleftrightarrow> (case sch_Tables s t of None \<Rightarrow> False | Some tb \<Rightarrow> c \<in> tbl_Columns tb)"

definition rows_of :: "string \<Rightarrow> schema \<Rightarrow> db_row list" where
  "rows_of t s = (case sch_Tables s t of None \<Rightarrow> [] | Some tb \<Rightarrow> tbl_Rows tb)"

text \<open>
  The rows of every table are kept, in number, in order and in the value of every column that is not
  among \<open>X\<close>.
\<close>

definition row_kept :: "(string \<Rightarrow> bool) \<Rightarrow> db_row \<Rightarrow> db_row \<Rightarrow> bool" where
  "row_kept X r r' \<longleftrightarrow> (\<forall>c. X c \<or> r' c = r c)"

definition rows_kept :: "(string \<Rightarrow> string \<Rightarrow> bool) \<Rightarrow> schema \<Rightarrow> schema \<Rightarrow> bool" where
  "rows_kept X s s' \<longleftrightarrow> (\<forall>t. list_all2 (row_kept (X t)) (rows_of t s) (rows_of t s'))"

text \<open>A column that the migration adds with a default.\<close>

definition new_default :: "db_entity list \<Rightarrow> schema \<Rightarrow> string \<Rightarrow> string \<Rightarrow> bool" where
  "new_default ents s t c \<longleftrightarrow> \<not> has_column t c s
     \<and> list_ex (\<lambda>(t', _, dflts). t' = t \<and> map_of dflts c \<noteq> None) ents"

text \<open>Columns and indexes are only added; the rows stay but for new columns with a default.\<close>

definition grown :: "db_entity list \<Rightarrow> schema \<Rightarrow> schema \<Rightarrow> bool" where
  "grown ents s s' \<longleftrightarrow> sch_Indexes s \<subseteq>\<^sub>m sch_Indexes s'
     \<and> rows_kept (new_default ents s) s s' \<and> (\<forall>t c. has_column t c s \<longrightarrow> has_column t c s')"

locale ddl_engine =
  fixes D :: "'w ddl_db" and cols :: "string \<Rightarrow> string set" and view :: "'w \<Rightarrow> schema"
  assumes exec_ok: "db_Exec D q w = (Inr u, w') \<Longrightarrow> view w' = apply_ddl q (view w)"
    and exec_err: "db_Exec D q w = (Inl e, w') \<Longrightarrow> view w' = view w"
    and migrate_ok: "db_AutoMigrate D ents w = (Inr u, w') \<Longrightarrow> view w' = auto_migrate cols ents (view w)"
    and migrate_err: "db_AutoMigrate D ents w = (Inl e, w') \<Longrightarrow> grown ents (view w) (view w')"
    and table_ok: "db_TableQuery D t w = (Inr b, w') \<Longrightarrow> b = has_table t (view w) \<and> view w' = view w"
    and table_err: "db_TableQuery D t w = (Inl e, w') \<Longrightarrow> view w' = view w"
    and column_ok: "db_ColumnQuery D t c w = (Inr b, w') \<Longrightarrow> b = has_column t c (view w) \<and> view w' = view w"
    and column_err: "db_ColumnQuery D t c w = (Inl e, w') \<Longrightarrow> view w' = view w"
    and HasTable_view: "db_HasTable D t w = (b, w') \<Longrightarrow> b = has_table t (view w) \<and> view w' = view w"
    and HasColumn_view: "db_HasColumn D t c w = (b, w') \<Longrightarrow> b = has_column t c (view w) \<and> view w' = view w"
begin

lemma wp_outcomes:
  assumes "\<And>w x w'. view w = v \<Longrightarrow> m w = (Inr x, w') \<Longrightarrow> Q (Inr x) (view w')"
    and "\<And>w e w'. view w = v \<Longrightarrow> m w = (Inl e, w') \<Longrightarrow> Q (Inl e) (view w')"
  shows "wp view m Q v"
  by (rule wpI) (metis assms sumE)

lemma wp_Exec:
  "Q (Inr ()) (apply_ddl q v) \<Longrightarrow> (\<And>e. Q (Inl e) v) \<Longrightarrow> wp view (db_Exec D q) Q v"
  by (rule wp_outcomes) (auto dest!: exec_ok exec_err)

lemma wp_AutoMigrate:
  "Q (Inr ()) (auto_migrate cols ents v) \<Longrightarrow> (\<And>e v'. grown ents v v' \<Longrightarrow> Q (Inl e) v')
   \<Longrightarrow> wp view (db_AutoMigrate D ents) Q v"
  by (rule wp_outcomes) (auto dest!: migrate_ok migrate_err)

lemma wp_TableQuery: "Q (Inr (has_table t v)) v \<Longrightarrow> (\<And>e. Q (Inl e) v) \<Longrightarrow> wp view (db_TableQuery D t) Q v"
  by (rule wp_outcomes) (auto dest!: table_ok table_err)

lemma wp_ColumnQuery:
  "Q (Inr (has_column t c v)) v \<Longrightarrow> (\<And>e. Q (Inl e) v) \<Longrightarrow> wp view (db_ColumnQuery D t c) Q v"
  by (rule wp_outcomes) (auto dest!: column_ok column_err)

end

section \<open>Running statements\<close>

text \<open>\<^verbatim>\<open>for _, q := range ddl { if err := db.Exec(q).Error; err != nil { return ... } }\<close>\<close>

fun exec_all :: "'w ddl_db \<Rightarrow> string \<Rightarrow> ddl list \<Rightarrow> ('w, go_error, unit) prog" where
  "exec_all D what [] = returnP ()"
| "exec_all D what (q # qs) =
     bindP (mapErrP (\<lambda>e. Wrapped what (ServiceError e)) (db_Exec D q)) (\<lambda>_. exec_all D what qs)"

section \<open>The scan tables (scanddl/migrate.go)\<close>

definition scanIndexDDL :: "ddl list" where
  "scanIndexDDL =
     [DropIndex ''idx_scan_results_user_address'',
      DropIndex ''idx_tls_scan_results_user_url'',
      CreateIndex ''idx_scan_results_user_address_created_at''
        ((plain_index ''scan_results'' [''user_id'', ''address'', ''created_at''])\<lparr>idx_Desc := [''created_at'']\<rparr>),
      CreateIndex ''idx_tls_scan_results_user_url_created_at''
        ((plain_index ''tls_scan_results'' [''user_id'', ''url'', ''created_at''])
           \<lparr>idx_Desc := [''created_at''], idx_NullsNotDistinct := True\<rparr>),
      CreateIndex ''idx_scan_usage_events_user_kind''
        (plain_index ''scan_usage_events'' [''user_id'', ''scan_kind'']),
      DropDefault ''scan_results'' ''status'',
      DropDefault ''tls_scan_results'' ''status'']"

definition walletResultDDL :: "ddl list" where
  "walletResultDDL =
     [DropColumn True ''scan_results'' ''first_seen'',
      DropColumn True ''scan_results'' ''last_seen'',
      DropConstraint ''scan_results'' ''chk_scan_results_public_key_recovery'',
      AddConstraint ''scan_results'' ''chk_scan_results_public_key_recovery''
        ''public_key_recovery'' ['''', ''not_required'', ''recovered'', ''unresolved'']]"

definition scan_RequiredIndexNames :: "string list" where
  "scan_RequiredIndexNames =
     [''idx_scan_results_user_address_created_at'', ''idx_tls_scan_results_user_url_created_at'',
      ''idx_scan_usage_events_user_kind'']"

definition LegacyIndexNames :: "string list" where
  "LegacyIndexNames = [''idx_scan_results_user_address'', ''idx_tls_scan_results_user_url'']"

definition ScanTableNames :: "string list" where
  "ScanTableNames = [''scan_results'', ''tls_scan_results'', ''scan_usage_events'']"

text \<open>The tables with their tags (\<^verbatim>\<open>internal/domain\<close>).\<close>

definition tls_scan_entity :: db_entity where
  "tls_scan_entity = (''tls_scan_results'',
     [(''user_id'', False), (''url'', False), (''status'', False), (''deleted_at'', False)],
     [(''kex_pqc_ready'', ''false''), (''pfs'', ''false''), (''ocsp_stapled'', ''false''), (''default'', ''false'')])"

definition scan_entity :: db_entity where
  "scan_entity = (''scan_results'',
     [(''user_id'', False), (''address'', False), (''status'', False), (''deleted_at'', False)],
     [(''public_key_recovery'', '''')])"

definition usage_entity :: db_entity where
  "usage_entity = (''scan_usage_events'', [(''scan_id'', True)], [])"

definition scan_entities :: "db_entity list" where
  "scan_entities = [tls_scan_entity, scan_entity, usage_entity]"

definition MigrateScanSchema :: "'w ddl_db \<Rightarrow> ('w, go_error, unit) prog" where
  "MigrateScanSchema D =
     bindP (mapErrP (\<lambda>e. Wrapped ''scan tables AutoMigrate'' (ServiceError e))
              (db_AutoMigrate D scan_entities)) (\<lambda>_.
     bindP (exec_all D ''scan DDL'' scanIndexDDL) (\<lambda>_.
     exec_all D ''scan DDL'' walletResultDDL))"

section \<open>The policy table (cpddl/migrate.go)\<close>

definition cpDropLegacyDDL :: "ddl list" where
  "cpDropLegacyDDL = [DropTable ''draft_persist_state'', DropTable ''crypto_policy_drafts'']"

definition active_condition :: string where
  "active_condition = ''status = '' @ [CHR 0x27] @ ''persisted'' @ [CHR 0x27] @ '' AND deleted_at IS NULL''"

definition cpIndexDDL :: "ddl list" where
  "cpIndexDDL =
     [DropIndex ''idx_crypto_policies_user_wallet_persisted'',
      CreateIndex ''idx_crypto_policies_user_scan_persisted''
        ((plain_index ''crypto_policies'' [''user_id'', ''scan_id''])\<lparr>idx_Where := active_condition\<rparr>),
      CreateIndex ''uidx_crypto_policies_user_wallet_active''
        ((plain_index ''crypto_policies'' [''user_id'', ''wallet_address''])
           \<lparr>idx_Unique := True, idx_Where := active_condition\<rparr>),
      CreateIndex ''idx_crypto_policies_user_id'' (plain_index ''crypto_policies'' [''user_id'', ''id''])]"

definition cp_RequiredIndexNames :: "string list" where
  "cp_RequiredIndexNames =
     [''idx_crypto_policies_user_scan_persisted'', ''uidx_crypto_policies_user_wallet_active'',
      ''idx_crypto_policies_user_id'']"

definition CPTableNames :: "string list" where
  "CPTableNames = [''crypto_policies'']"

definition policy_entity :: db_entity where
  "policy_entity = (''crypto_policies'', [(''user_id'', False), (''status'', False), (''deleted_at'', False)], [])"

definition tableExists :: "'w ddl_db \<Rightarrow> string \<Rightarrow> ('w, string, bool) prog" where
  "tableExists D table =
     (if ToLower (db_Name D) = ''postgres'' then db_TableQuery D table
      else (\<lambda>w. case db_HasTable D table w of (b, w') \<Rightarrow> (Inr b, w')))"

definition columnExists :: "'w ddl_db \<Rightarrow> string \<Rightarrow> string \<Rightarrow> ('w, string, bool) prog" where
  "columnExists D table column =
     (if ToLower (db_Name D) = ''postgres'' then db_ColumnQuery D table column
      else (\<lambda>w. case db_HasColumn D table column w of (b, w') \<Rightarrow> (Inr b, w')))"

definition resetCryptoPoliciesIfLegacy :: "'w ddl_db \<Rightarrow> ('w, go_error, unit) prog" where
  "resetCryptoPoliciesIfLegacy D =
     bindP (mapErrP ServiceError (tableExists D ''crypto_policies'')) (\<lambda>exists.
     if \<not> exists then returnP ()
     else
       bindP (mapErrP ServiceError (columnExists D ''crypto_policies'' ''draft_id'')) (\<lambda>hasDraftID.
       bindP (mapErrP ServiceError (columnExists D ''crypto_policies'' ''payload_sha256'')) (\<lambda>hasPayloadSHA.
       if \<not> hasDraftID \<and> hasPayloadSHA then returnP ()
       else mapErrP (\<lambda>e. Wrapped ''cp RAZ crypto_policies'' (ServiceError e))
              (db_Exec D (DropTable ''crypto_policies'')))))"

text \<open>\<^verbatim>\<open>strings.Contains\<close>.\<close>

fun strings_Contains :: "string \<Rightarrow> string \<Rightarrow> bool" where
  "strings_Contains [] sub = (sub = [])"
| "strings_Contains (c # cs) sub = (HasPrefix (c # cs) sub \<or> strings_Contains cs sub)"

definition dropLegacyDraftIDColumn :: "'w ddl_db \<Rightarrow> ('w, go_error, unit) prog" where
  "dropLegacyDraftIDColumn D =
     bindP (mapErrP ServiceError (columnExists D ''crypto_policies'' ''draft_id'')) (\<lambda>has.
     if \<not> has then returnP ()
     else if ToLower (db_Name D) = ''postgres'' then
       mapErrP (\<lambda>e. Wrapped ''cp column cleanup draft_id'' (ServiceError e))
         (db_Exec D (DropColumn True ''crypto_policies'' ''draft_id''))
     else if ToLower (db_Name D) = ''sqlite'' then
       catchP (db_Exec D (DropColumn False ''crypto_policies'' ''draft_id''))
         (\<lambda>err. let msg = ToLower err in
            if strings_Contains msg ''no such column'' \<or> strings_Contains msg ''not found'' then returnP ()
            else throwP (Wrapped ''cp column cleanup draft_id'' (ServiceError err)))
     else catchP (db_Exec D (DropColumn False ''crypto_policies'' ''draft_id'')) (\<lambda>_. returnP ()))"

definition MigrateCPSchema :: "'w ddl_db \<Rightarrow> ('w, go_error, unit) prog" where
  "MigrateCPSchema D =
     bindP (exec_all D ''cp drop legacy'' cpDropLegacyDDL) (\<lambda>_.
     bindP (resetCryptoPoliciesIfLegacy D) (\<lambda>_.
     bindP (mapErrP (\<lambda>e. Wrapped ''cp tables AutoMigrate'' (ServiceError e))
              (db_AutoMigrate D [policy_entity])) (\<lambda>_.
     bindP (dropLegacyDraftIDColumn D) (\<lambda>_.
     exec_all D ''cp DDL'' cpIndexDDL))))"

section \<open>What a migration leaves\<close>

lemma row_kept_refl [simp]: "row_kept X r r"
  by (simp add: row_kept_def)

lemma rows_kept_refl [simp]: "rows_kept X s s"
  by (simp add: rows_kept_def list_all2_same)

lemma rows_kept_trans:
  assumes "rows_kept X s s'" and "rows_kept X s' s''"
  shows "rows_kept X s s''"
  unfolding rows_kept_def
proof
  fix t
  have step: "row_kept (X t) r r''" if "row_kept (X t) r r'" "row_kept (X t) r' r''" for r r' r''
    using that unfolding row_kept_def by metis
  from assms have "list_all2 (row_kept (X t)) (rows_of t s) (rows_of t s')"
    "list_all2 (row_kept (X t)) (rows_of t s') (rows_of t s'')" by (simp_all add: rows_kept_def)
  with step show "list_all2 (row_kept (X t)) (rows_of t s) (rows_of t s'')" by (rule list_all2_trans)
qed

lemma rows_kept_mono:
  assumes "rows_kept X s s'" and le: "\<And>t c. X t c \<Longrightarrow> Y t c"
  shows "rows_kept Y s s'"
  unfolding rows_kept_def
proof
  fix t
  from assms(1) have "list_all2 (row_kept (X t)) (rows_of t s) (rows_of t s')" by (simp add: rows_kept_def)
  then show "list_all2 (row_kept (Y t)) (rows_of t s) (rows_of t s')"
    by (rule list_all2_mono) (use le in \<open>auto simp: row_kept_def\<close>)
qed

lemma rows_kept_all: "(\<And>c. \<not> X t c) \<Longrightarrow> rows_kept X s s' \<Longrightarrow> rows_of t s' = rows_of t s"
proof -
  assume none: "\<And>c. \<not> X t c" and "rows_kept X s s'"
  then have kept: "list_all2 (row_kept (X t)) (rows_of t s) (rows_of t s')" by (simp only: rows_kept_def)
  have "r = r'" if "row_kept (X t) r r'" for r r'
    using that none by (auto simp: row_kept_def fun_eq_iff)
  with kept have "list_all2 (=) (rows_of t s) (rows_of t s')" by (rule list_all2_mono)
  then show ?thesis by (simp add: list.rel_eq)
qed

text \<open>What a statement does to rows: a dropped column loses its values, a dropped table its rows.\<close>

fun drops :: "ddl \<Rightarrow> string \<Rightarrow> string \<Rightarrow> bool" where
  "drops (DropTable t) t' c = (t' = t)"
| "drops (DropColumn _ t c) t' c' = (t' = t \<and> c' = c)"
| "drops _ t c = False"

lemma rows_kept_ddl:
  assumes "\<And>t. q \<noteq> DropTable t"
  shows "rows_kept (drops q) s (apply_ddl q s)"
  using assms by (cases q)
    (auto simp: rows_kept_def row_kept_def rows_of_def list_all2_same list_all2_conv_all_nth split: option.splits)

lemma rows_kept_fold_ddl:
  assumes "\<And>q t. q \<in> set qs \<Longrightarrow> q \<noteq> DropTable t"
  shows "rows_kept (\<lambda>t c. \<exists>q\<in>set qs. drops q t c) s (fold apply_ddl qs s)"
  using assms
proof (induction qs arbitrary: s)
  case (Cons q qs)
  have "rows_kept (drops q) s (apply_ddl q s)" by (rule rows_kept_ddl) (simp add: Cons.prems)
  then have "rows_kept (\<lambda>t c. \<exists>q\<in>set (q # qs). drops q t c) s (apply_ddl q s)"
    by (rule rows_kept_mono) simp
  moreover have "rows_kept (\<lambda>t c. \<exists>q\<in>set qs. drops q t c) (apply_ddl q s) (fold apply_ddl qs (apply_ddl q s))"
    by (rule Cons.IH) (simp add: Cons.prems)
  then have "rows_kept (\<lambda>t c. \<exists>q\<in>set (q # qs). drops q t c) (apply_ddl q s) (fold apply_ddl qs (apply_ddl q s))"
    by (rule rows_kept_mono) auto
  ultimately show ?case by (simp add: rows_kept_trans del: apply_ddl.simps)
qed simp

lemma rows_fold_ddl:
  assumes "\<And>q c. q \<in> set qs \<Longrightarrow> \<not> drops q t c" "\<And>q t. q \<in> set qs \<Longrightarrow> q \<noteq> DropTable t"
  shows "rows_of t (fold apply_ddl qs s) = rows_of t s"
  by (rule rows_kept_all [OF _ rows_kept_fold_ddl]) (use assms in auto)

lemma fill_none [simp]: "fill new [] = (\<lambda>r. r)"
  by (simp add: fill_def fun_eq_iff)

lemma rows_kept_entity:
  "rows_kept (new_default [(t, tags, dflts)] s) s (migrate_entity cols (t, tags, dflts) s)"
  by (auto simp: rows_kept_def row_kept_def rows_of_def list_all2_same list_all2_conv_all_nth fill_def new_default_def
      has_column_def split: option.splits)

lemma new_default_later:
  "new_default ents (migrate_entity cols e s) t c \<Longrightarrow> new_default (e # ents) s t c"
  by (cases e) (auto simp: new_default_def has_column_def split: option.splits if_splits)

lemma rows_auto_migrate: "rows_kept (new_default ents s) s (auto_migrate cols ents s)"
  unfolding auto_migrate_def
proof (induction ents arbitrary: s)
  case (Cons e ents)
  have "rows_kept (new_default [e] s) s (migrate_entity cols e s)"
    by (cases e) (simp add: rows_kept_entity del: migrate_entity.simps)
  then have "rows_kept (new_default (e # ents) s) s (migrate_entity cols e s)"
    by (rule rows_kept_mono) (auto simp: new_default_def)
  moreover have "rows_kept (new_default (e # ents) s) (migrate_entity cols e s)
      (fold (migrate_entity cols) ents (migrate_entity cols e s))"
    by (rule rows_kept_mono [OF Cons.IH]) (rule new_default_later)
  ultimately show ?case by (simp add: rows_kept_trans)
qed simp

lemma policy_rows:
  "rows_of t (auto_migrate cols [policy_entity] s) = rows_of t s"
  "grown [policy_entity] s s' \<Longrightarrow> rows_of t s' = rows_of t s"
proof -
  have none: "\<not> new_default [policy_entity] s t c" for c
    by (simp add: new_default_def policy_entity_def)
  show "rows_of t (auto_migrate cols [policy_entity] s) = rows_of t s"
    by (rule rows_kept_all [where X = "new_default [policy_entity] s", OF none rows_auto_migrate])
  show "rows_of t s' = rows_of t s" if "grown [policy_entity] s s'"
    using that by (intro rows_kept_all [where X = "new_default [policy_entity] s", OF none]) (simp add: grown_def)
qed

text \<open>The table is of the draft era: it has the draft column, or lacks the hash column.\<close>

definition legacy_policies :: "schema \<Rightarrow> bool" where
  "legacy_policies s \<longleftrightarrow> has_table ''crypto_policies'' s
     \<and> (has_column ''crypto_policies'' ''draft_id'' s \<or> \<not> has_column ''crypto_policies'' ''payload_sha256'' s)"

definition cp_reset :: "schema \<Rightarrow> schema" where
  "cp_reset s = (if legacy_policies s then apply_ddl (DropTable ''crypto_policies'') s else s)"

definition cp_migrated :: "(string \<Rightarrow> string set) \<Rightarrow> schema \<Rightarrow> schema" where
  "cp_migrated cols s = fold apply_ddl cpIndexDDL
     (auto_migrate cols [policy_entity] (cp_reset (fold apply_ddl cpDropLegacyDDL s)))"

definition scan_migrated :: "(string \<Rightarrow> string set) \<Rightarrow> schema \<Rightarrow> schema" where
  "scan_migrated cols s = fold apply_ddl walletResultDDL
     (fold apply_ddl scanIndexDDL (auto_migrate cols scan_entities s))"

text \<open>The values a migration of the scan tables may change: the dropped dates, new defaults.\<close>

definition scan_touched :: "schema \<Rightarrow> string \<Rightarrow> string \<Rightarrow> bool" where
  "scan_touched s t c \<longleftrightarrow> t = ''scan_results'' \<and> c \<in> {''first_seen'', ''last_seen''}
     \<or> new_default scan_entities s t c"

lemma rows_kept_touched: "rows_kept (new_default scan_entities s) s s' \<Longrightarrow> rows_kept (scan_touched s) s s'"
  by (erule rows_kept_mono) (simp add: scan_touched_def)

lemma scan_statement_kept:
  assumes "q \<in> set scanIndexDDL \<union> set walletResultDDL"
  shows "q \<noteq> DropTable t" "drops q t' c \<Longrightarrow> scan_touched s t' c"
  using assms by (auto simp: scanIndexDDL_def walletResultDDL_def scan_touched_def)

lemma scan_fold_kept:
  assumes "set qs \<subseteq> set scanIndexDDL \<union> set walletResultDDL"
  shows "rows_kept (scan_touched s0) s (fold apply_ddl qs s)"
  by (rule rows_kept_mono [OF rows_kept_fold_ddl]) (use assms scan_statement_kept in blast)+

lemma scan_stages_kept:
  "rows_kept (scan_touched s) s (auto_migrate cols scan_entities s)"
  "rows_kept (scan_touched s) s
     (fold apply_ddl (take k scanIndexDDL) (auto_migrate cols scan_entities s))"
  "rows_kept (scan_touched s) s (fold apply_ddl (take k walletResultDDL)
     (fold apply_ddl scanIndexDDL (auto_migrate cols scan_entities s)))"
  "rows_kept (scan_touched s) s (scan_migrated cols s)"
proof -
  show 1: "rows_kept (scan_touched s) s (auto_migrate cols scan_entities s)"
    by (rule rows_kept_touched [OF rows_auto_migrate])
  have 2: "rows_kept (scan_touched s) s (fold apply_ddl qs (auto_migrate cols scan_entities s))"
    if "set qs \<subseteq> set scanIndexDDL \<union> set walletResultDDL" for qs
    by (rule rows_kept_trans [OF 1 scan_fold_kept [OF that]])
  then show "rows_kept (scan_touched s) s
      (fold apply_ddl (take k scanIndexDDL) (auto_migrate cols scan_entities s))"
    using set_take_subset [of k scanIndexDDL] by (meson le_supI1)
  have 3: "rows_kept (scan_touched s) s (fold apply_ddl qs
      (fold apply_ddl scanIndexDDL (auto_migrate cols scan_entities s)))"
    if "set qs \<subseteq> set walletResultDDL" for qs
    using 2 [of "scanIndexDDL @ qs"] that by auto
  show "rows_kept (scan_touched s) s (fold apply_ddl (take k walletResultDDL)
      (fold apply_ddl scanIndexDDL (auto_migrate cols scan_entities s)))"
    by (rule 3) (rule set_take_subset)
  show "rows_kept (scan_touched s) s (scan_migrated cols s)"
    unfolding scan_migrated_def by (rule 3) simp
qed

lemma drafts_dropped:
  "legacy_policies (fold apply_ddl (take k cpDropLegacyDDL) s) = legacy_policies s"
  "rows_of ''crypto_policies'' (fold apply_ddl (take k cpDropLegacyDDL) s) = rows_of ''crypto_policies'' s"
proof -
  have "sch_Tables (fold apply_ddl (take k cpDropLegacyDDL) s) ''crypto_policies'' = sch_Tables s ''crypto_policies''"
    by (cases k; cases "k - 1") (auto simp: cpDropLegacyDDL_def)
  then show "legacy_policies (fold apply_ddl (take k cpDropLegacyDDL) s) = legacy_policies s"
    "rows_of ''crypto_policies'' (fold apply_ddl (take k cpDropLegacyDDL) s) = rows_of ''crypto_policies'' s"
    by (simp_all add: legacy_policies_def has_table_def has_column_def rows_of_def)
qed

lemma reset_no_draft:
  assumes "''draft_id'' \<notin> cols ''crypto_policies''"
  shows "\<not> has_column ''crypto_policies'' ''draft_id'' (auto_migrate cols [policy_entity] (cp_reset s))"
  using assms
  by (auto simp: auto_migrate_def policy_entity_def cp_reset_def legacy_policies_def has_column_def has_table_def
      split: option.splits if_splits)

context ddl_engine
begin

lemma wp_exec_all:
  assumes "Q (Inr ()) (fold apply_ddl qs v)" and "\<And>e k. Q (Inl e) (fold apply_ddl (take k qs) v)"
  shows "wp view (exec_all D what qs) Q v"
  using assms
proof (induction qs arbitrary: v)
  case (Cons q qs)
  have later: "Q (Inl e) (fold apply_ddl (take k qs) (apply_ddl q v))" for e k
    using Cons.prems(2) [of e "Suc k"] by simp
  have now: "Q (Inl e) v" for e using Cons.prems(2) [of e 0] by simp
  show ?case
    unfolding exec_all.simps
    by (intro wp_bind wp_mapErr wp_Exec case_sum_InrI case_sum_InlI now Cons.IH later)
      (use Cons.prems(1) in simp)
qed (auto intro: wp_return)

lemma wp_tableExists:
  assumes "Q (Inr (has_table t v)) v" and "\<And>e. Q (Inl e) v"
  shows "wp view (tableExists D t) Q v"
  unfolding tableExists_def
  by (intro wp_if wp_TableQuery assms wp_outcomes)
    (use assms in \<open>auto split: prod.splits dest!: HasTable_view\<close>)

lemma wp_columnExists:
  assumes "Q (Inr (has_column t c v)) v" and "\<And>e. Q (Inl e) v"
  shows "wp view (columnExists D t c) Q v"
  unfolding columnExists_def
  by (intro wp_if wp_ColumnQuery assms wp_outcomes)
    (use assms in \<open>auto split: prod.splits dest!: HasColumn_view\<close>)

lemma wp_reset:
  assumes "Q (Inr ()) (cp_reset v)" and "\<And>e. Q (Inl e) v"
  shows "wp view (resetCryptoPoliciesIfLegacy D) Q v"
  unfolding resetCryptoPoliciesIfLegacy_def
  by (intro wp_bind wp_mapErr wp_tableExists wp_columnExists wp_Exec wp_if wp_return case_sum_InrI case_sum_InlI)
    (use assms in \<open>auto simp: cp_reset_def legacy_policies_def\<close>)

lemma wp_dropLegacyDraftIDColumn:
  assumes "\<not> has_column ''crypto_policies'' ''draft_id'' v" and "Q (Inr ()) v" and "\<And>e. Q (Inl e) v"
  shows "wp view (dropLegacyDraftIDColumn D) Q v"
  unfolding dropLegacyDraftIDColumn_def Let_def
  by (intro wp_bind wp_mapErr wp_columnExists wp_if wp_return case_sum_InrI case_sum_InlI)
    (use assms in auto)

lemma wp_MigrateCPSchema:
  assumes cols: "''draft_id'' \<notin> cols ''crypto_policies''"
    and ok: "Q (Inr ()) (cp_migrated cols v)"
    and err: "\<And>e v'. (legacy_policies v \<or> rows_of ''crypto_policies'' v' = rows_of ''crypto_policies'' v) \<Longrightarrow> Q (Inl e) v'"
  shows "wp view (MigrateCPSchema D) Q v"
proof -
  let ?v1 = "fold apply_ddl cpDropLegacyDDL v"
  let ?v2 = "cp_reset ?v1"
  let ?v3 = "auto_migrate cols [policy_entity] ?v2"
  have rows1: "rows_of ''crypto_policies'' ?v1 = rows_of ''crypto_policies'' v" "legacy_policies ?v1 = legacy_policies v"
    using drafts_dropped [of 2 v] by (simp_all add: cpDropLegacyDDL_def)
  have rows2: "legacy_policies v \<or> rows_of ''crypto_policies'' ?v2 = rows_of ''crypto_policies'' v"
    using rows1 by (auto simp: cp_reset_def)
  have "\<not> drops q t c" "q \<noteq> DropTable t" if "q \<in> set (take k cpIndexDDL)" for q k t c
    using set_take_subset [of k cpIndexDDL] that by (auto simp: cpIndexDDL_def)
  then have rows4: "rows_of t (fold apply_ddl (take k cpIndexDDL) s) = rows_of t s" for k t s
    by (intro rows_fold_ddl) auto
  show ?thesis
    unfolding MigrateCPSchema_def
    by (intro wp_bind wp_mapErr wp_exec_all wp_reset wp_AutoMigrate wp_dropLegacyDraftIDColumn
        case_sum_InrI case_sum_InlI err reset_no_draft [of cols, OF cols])
      (use rows1 rows2 ok drafts_dropped in \<open>auto simp: cp_migrated_def policy_rows rows4\<close>)
qed

lemma wp_MigrateScanSchema:
  assumes ok: "Q (Inr ()) (scan_migrated cols v)"
    and err: "\<And>e v'. rows_kept (scan_touched v) v v' \<Longrightarrow> Q (Inl e) v'"
  shows "wp view (MigrateScanSchema D) Q v"
  unfolding MigrateScanSchema_def
  by (intro wp_bind wp_mapErr wp_exec_all wp_AutoMigrate case_sum_InrI case_sum_InlI err)
    (use ok scan_stages_kept in \<open>auto simp: scan_migrated_def grown_def rows_kept_touched\<close>)

end

section \<open>Properties of the migrations\<close>

definition cp_uidx :: db_index where
  "cp_uidx = \<lparr>idx_Table = ''crypto_policies'', idx_Unique = True, idx_Columns = [''user_id'', ''wallet_address''],
     idx_Desc = [], idx_NullsNotDistinct = False, idx_Where = active_condition\<rparr>"

lemma index_statements:
  "sch_Indexes (apply_ddl (CreateIndex n ix) s) m
    = (if m = n \<and> sch_Indexes s n = None then Some ix else sch_Indexes s m)"
  "sch_Indexes (apply_ddl (DropIndex n) s) m = (if m = n then None else sch_Indexes s m)"
  "sch_Tables (apply_ddl (CreateIndex n ix) s) = sch_Tables s"
  "sch_Tables (apply_ddl (DropIndex n) s) = sch_Tables s"
  by auto

lemma cp_index_stage:
  "sch_Tables (fold apply_ddl cpIndexDDL s) = sch_Tables s"
  "sch_Indexes (fold apply_ddl cpIndexDDL s) ''uidx_crypto_policies_user_wallet_active''
    = (case sch_Indexes s ''uidx_crypto_policies_user_wallet_active'' of None \<Rightarrow> Some cp_uidx | Some ix \<Rightarrow> Some ix)"
  "sch_Indexes (fold apply_ddl cpIndexDDL s) ''idx_crypto_policies_user_id''
    = (case sch_Indexes s ''idx_crypto_policies_user_id'' of
        None \<Rightarrow> Some (plain_index ''crypto_policies'' [''user_id'', ''id'']) | Some ix \<Rightarrow> Some ix)"
  "sch_Indexes (fold apply_ddl cpIndexDDL s) ''idx_crypto_policies_user_scan_persisted'' \<noteq> None"
  "sch_Indexes (fold apply_ddl cpIndexDDL s) ''idx_crypto_policies_user_wallet_persisted'' = None"
  by (simp_all add: cpIndexDDL_def index_statements cp_uidx_def plain_index_def del: apply_ddl.simps split: option.split)

lemma cp_entity_stage:
  "sch_Tables (auto_migrate cols [policy_entity] s) t =
     (if t = ''crypto_policies'' then
        Some (case sch_Tables s t of None \<Rightarrow> \<lparr>tbl_Columns = cols t, tbl_Rows = []\<rparr>
          | Some tb \<Rightarrow> tb\<lparr>tbl_Columns := tbl_Columns tb \<union> cols t\<rparr>)
      else sch_Tables s t)"
  "sch_Indexes (auto_migrate cols [policy_entity] s) ''idx_crypto_policies_user_id''
    = (case sch_Indexes s ''idx_crypto_policies_user_id'' of
        None \<Rightarrow> Some (plain_index ''crypto_policies'' [''user_id'']) | Some ix \<Rightarrow> Some ix)"
  "sch_Indexes (auto_migrate cols [policy_entity] s) ''uidx_crypto_policies_user_wallet_active''
    = sch_Indexes s ''uidx_crypto_policies_user_wallet_active''"
  by (auto simp: auto_migrate_def policy_entity_def tag_index_def pkey_index_def add_pkey_def plain_index_def split: option.split)

lemma cp_reset_stage:
  "sch_Tables (cp_reset s) t =
     (if t = ''crypto_policies'' \<and> legacy_policies s then None else sch_Tables s t)"
  "sch_Indexes s n = None \<Longrightarrow> sch_Indexes (cp_reset s) n = None"
  "\<not> legacy_policies s \<Longrightarrow> cp_reset s = s"
  by (simp_all add: cp_reset_def remove_indexes_def)

lemma cp_drop_stage:
  "sch_Tables (fold apply_ddl cpDropLegacyDDL s) t =
     (if t = ''draft_persist_state'' \<or> t = ''crypto_policy_drafts'' then None else sch_Tables s t)"
  "sch_Indexes s n = None \<Longrightarrow> sch_Indexes (fold apply_ddl cpDropLegacyDDL s) n = None"
  "legacy_policies (fold apply_ddl cpDropLegacyDDL s) = legacy_policies s"
  by (simp_all add: cpDropLegacyDDL_def remove_indexes_def legacy_policies_def has_table_def has_column_def)

lemma cp_tables:
  "sch_Tables (cp_migrated cols s) t =
     (if t = ''crypto_policies'' then
        Some (case sch_Tables s t of
            None \<Rightarrow> \<lparr>tbl_Columns = cols t, tbl_Rows = []\<rparr>
          | Some tb \<Rightarrow> if legacy_policies s then \<lparr>tbl_Columns = cols t, tbl_Rows = []\<rparr>
              else tb\<lparr>tbl_Columns := tbl_Columns tb \<union> cols t\<rparr>)
      else if t = ''draft_persist_state'' \<or> t = ''crypto_policy_drafts'' then None
      else sch_Tables s t)"
  by (auto simp: cp_migrated_def cp_index_stage cp_entity_stage cp_reset_stage cp_drop_stage split: option.split)

lemma cp_indexes:
  "\<exists>ix. sch_Indexes (cp_migrated cols s) ''uidx_crypto_policies_user_wallet_active'' = Some ix
     \<and> (sch_Indexes s ''uidx_crypto_policies_user_wallet_active'' = None \<longrightarrow> ix = cp_uidx)"
  "\<exists>ix. sch_Indexes (cp_migrated cols s) ''idx_crypto_policies_user_id'' = Some ix
     \<and> (sch_Indexes s ''idx_crypto_policies_user_id'' = None \<longrightarrow> ix = plain_index ''crypto_policies'' [''user_id''])"
  "sch_Indexes (cp_migrated cols s) ''idx_crypto_policies_user_scan_persisted'' \<noteq> None"
  "sch_Indexes (cp_migrated cols s) ''idx_crypto_policies_user_wallet_persisted'' = None"
  unfolding cp_migrated_def
  by (auto simp: cp_index_stage cp_entity_stage cp_reset_stage cp_drop_stage split: option.split)

subsection \<open>Running a migration again\<close>

text \<open>Nothing is left of a table.\<close>

definition absent :: "string \<Rightarrow> schema \<Rightarrow> bool" where
  "absent t s \<longleftrightarrow> sch_Tables s t = None \<and> (\<forall>n ix. sch_Indexes s n = Some ix \<longrightarrow> idx_Table ix \<noteq> t)
     \<and> (\<forall>c. (t, c) \<notin> sch_Defaults s) \<and> (\<forall>n. sch_Checks s (t, n) = None)"

lemma absent_drop: "absent t (apply_ddl (DropTable t) s)"
  by (auto simp: absent_def remove_indexes_def split: option.splits if_splits)

lemma absent_ddl:
  "absent t s \<Longrightarrow> absent t (apply_ddl (DropTable t') s)"
  "absent t s \<Longrightarrow> absent t (apply_ddl (DropIndex n) s)"
  "absent t s \<Longrightarrow> idx_Table ix \<noteq> t \<Longrightarrow> absent t (apply_ddl (CreateIndex n ix) s)"
  by (auto simp: absent_def remove_indexes_def split: option.splits if_splits)

lemma absent_tags: "\<forall>n ix. I n = Some ix \<longrightarrow> idx_Table ix \<noteq> t \<Longrightarrow> t' \<noteq> t
    \<Longrightarrow> fold (add_tag t') tags I n = Some ix \<Longrightarrow> idx_Table ix \<noteq> t"
proof (induction tags arbitrary: I)
  case (Cons tag tags)
  obtain c u where tag: "tag = (c, u)" by (cases tag)
  have "\<forall>n ix. add_tag t' tag I n = Some ix \<longrightarrow> idx_Table ix \<noteq> t" using Cons.prems(1,2) by (auto simp: tag plain_index_def)
  from Cons.IH [OF this Cons.prems(2)] Cons.prems(3) show ?case by simp
qed simp

lemma absent_pkey: "\<forall>n ix. I n = Some ix \<longrightarrow> idx_Table ix \<noteq> t \<Longrightarrow> t' \<noteq> t
    \<Longrightarrow> \<forall>n ix. add_pkey t' I n = Some ix \<longrightarrow> idx_Table ix \<noteq> t"
  by (auto simp: add_pkey_def plain_index_def)

lemma absent_entity:
  assumes "absent t s" and "t' \<noteq> t"
  shows "absent t (migrate_entity cols (t', tags, dflts) s)"
proof -
  let ?I = "if sch_Tables s t' = None then add_pkey t' (sch_Indexes s) else sch_Indexes s"
  have "\<forall>n ix. ?I n = Some ix \<longrightarrow> idx_Table ix \<noteq> t"
    using assms absent_pkey [of "sch_Indexes s" t t'] by (auto simp: absent_def)
  from absent_tags [OF this assms(2)] show ?thesis
    using assms by (auto simp: absent_def)
qed

lemma drop_absent: "absent t s \<Longrightarrow> apply_ddl (DropTable t) s = s"
proof -
  assume a: "absent t s"
  have "remove_indexes (\<lambda>ix. idx_Table ix = t) (sch_Indexes s) = sch_Indexes s"
    using a by (auto simp: absent_def remove_indexes_def fun_eq_iff split: option.split)
  moreover have "(sch_Tables s)(t := None) = sch_Tables s" using a by (simp add: absent_def fun_upd_idem)
  moreover have "{d \<in> sch_Defaults s. fst d \<noteq> t} = sch_Defaults s" using a by (auto simp: absent_def)
  moreover have "(\<lambda>(t', n). if t' = t then None else sch_Checks s (t', n)) = sch_Checks s"
    using a by (auto simp: absent_def fun_eq_iff)
  ultimately show ?thesis by simp
qed

lemma cp_absent:
  assumes "t = ''draft_persist_state'' \<or> t = ''crypto_policy_drafts''"
  shows "absent t (cp_migrated cols s)"
proof -
  have t: "t \<noteq> ''crypto_policies''" using assms by auto
  have drop: "absent t (fold apply_ddl cpDropLegacyDDL s)"
    using assms by (auto simp: cpDropLegacyDDL_def absent_drop absent_ddl(1) simp del: apply_ddl.simps)
  have "absent t (cp_reset (fold apply_ddl cpDropLegacyDDL s))"
    unfolding cp_reset_def using drop by (auto simp: absent_ddl(1) simp del: apply_ddl.simps)
  with t have "absent t (auto_migrate cols [policy_entity] (cp_reset (fold apply_ddl cpDropLegacyDDL s)))"
    by (simp add: auto_migrate_def policy_entity_def absent_entity del: migrate_entity.simps)
  with t show ?thesis
    unfolding cp_migrated_def cpIndexDDL_def fold_simps comp_def id_apply
    by (intro absent_ddl) (simp_all add: plain_index_def)
qed

lemma index_stage_again: "fold apply_ddl cpIndexDDL s = s"
  if "sch_Indexes s ''uidx_crypto_policies_user_wallet_active'' \<noteq> None"
    "sch_Indexes s ''idx_crypto_policies_user_id'' \<noteq> None"
    "sch_Indexes s ''idx_crypto_policies_user_scan_persisted'' \<noteq> None"
    "sch_Indexes s ''idx_crypto_policies_user_wallet_persisted'' = None"
proof -
  have "apply_ddl (DropIndex ''idx_crypto_policies_user_wallet_persisted'') s = s"
    using that(4) by (simp add: fun_upd_idem)
  moreover have "apply_ddl (CreateIndex n ix) s = s" if "sch_Indexes s n \<noteq> None" for n ix
    using that by auto
  ultimately show ?thesis using that by (simp add: cpIndexDDL_def del: apply_ddl.simps)
qed

lemma entity_again:
  assumes "sch_Tables s t = Some tb" "cols t \<subseteq> tbl_Columns tb" "\<forall>(c, u)\<in>set tags. sch_Indexes s (tag_index t c) \<noteq> None"
  shows "migrate_entity cols (t, tags, []) s = s"
proof -
  have "fold (add_tag t) tags (sch_Indexes s) = sch_Indexes s"
    using assms(3) by (induction tags) auto
  moreover have "tb\<lparr>tbl_Columns := tbl_Columns tb \<union> cols t, tbl_Rows := map (\<lambda>r. r) (tbl_Rows tb)\<rparr> = tb"
    using assms(2) by (simp add: Un_absorb2)
  ultimately show ?thesis using assms(1) by (simp add: fun_upd_idem)
qed

lemma add_tag_keeps: "I n \<noteq> None \<Longrightarrow> fold (add_tag t) tags I n \<noteq> None"
proof (induction tags arbitrary: I)
  case (Cons tag tags)
  then have "add_tag t tag I n \<noteq> None" by (cases tag) simp
  with Cons.IH show ?case by simp
qed simp

lemma tags_present: "(c, u) \<in> set tags \<Longrightarrow> fold (add_tag t) tags I (tag_index t c) \<noteq> None"
proof (induction tags arbitrary: I)
  case (Cons tag tags)
  show ?case
  proof (cases "tag = (c, u)")
    case True
    then have "add_tag t tag I (tag_index t c) \<noteq> None" by simp
    then show ?thesis using add_tag_keeps [of "add_tag t tag I" "tag_index t c"] by simp
  next
    case False
    with Cons show ?thesis by simp
  qed
qed simp

lemma cp_tags: "(c, u) \<in> set (fst (snd policy_entity)) \<Longrightarrow> sch_Indexes (cp_migrated cols s) (tag_index ''crypto_policies'' c) \<noteq> None"
proof -
  assume c: "(c, u) \<in> set (fst (snd policy_entity))"
  let ?s = "auto_migrate cols [policy_entity] (cp_reset (fold apply_ddl cpDropLegacyDDL s))"
  have "sch_Indexes ?s (tag_index ''crypto_policies'' c) \<noteq> None"
    using tags_present [OF c, of "''crypto_policies''"] by (simp add: auto_migrate_def policy_entity_def)
  moreover have "tag_index ''crypto_policies'' c \<noteq> ''idx_crypto_policies_user_wallet_persisted''"
    using c by (auto simp: policy_entity_def tag_index_def)
  ultimately show ?thesis
    unfolding cp_migrated_def by (simp add: cpIndexDDL_def index_statements del: apply_ddl.simps)
qed

lemma cp_migrated_again:
  assumes "''draft_id'' \<notin> cols ''crypto_policies''" "''payload_sha256'' \<in> cols ''crypto_policies''"
  shows "cp_migrated cols (cp_migrated cols s) = cp_migrated cols s"
proof -
  let ?s = "cp_migrated cols s"
  have drop: "fold apply_ddl cpDropLegacyDDL ?s = ?s"
    by (simp add: cpDropLegacyDDL_def drop_absent cp_absent del: apply_ddl.simps)
  have "\<not> legacy_policies ?s"
    using assms by (auto simp: legacy_policies_def has_column_def has_table_def cp_tables split: option.splits)
  then have reset: "cp_reset ?s = ?s" by (rule cp_reset_stage(3))
  obtain tb where "sch_Tables ?s ''crypto_policies'' = Some tb" "cols ''crypto_policies'' \<subseteq> tbl_Columns tb"
    by (auto simp: cp_tables split: option.split)
  then have entity: "auto_migrate cols [policy_entity] ?s = ?s"
    using entity_again [of ?s "''crypto_policies''" tb cols "fst (snd policy_entity)"] cp_tags [of _ _ cols s]
    by (auto simp: auto_migrate_def policy_entity_def simp del: migrate_entity.simps)
  have "fold apply_ddl cpIndexDDL ?s = ?s"
    using cp_indexes [of cols s] by (intro index_stage_again) auto
  with drop reset entity show ?thesis by (simp add: cp_migrated_def [of cols ?s])
qed

subsection \<open>The policy schema\<close>

text \<open>What gorm derives from the struct of a policy: its columns include the hash and no draft.\<close>

definition policy_columns :: "(string \<Rightarrow> string set) \<Rightarrow> bool" where
  "policy_columns cols \<longleftrightarrow> ''payload_sha256'' \<in> cols ''crypto_policies'' \<and> ''draft_id'' \<notin> cols ''crypto_policies''"

text \<open>
  C31. The migration of the policy schema. When it succeeds, the draft tables are gone, the policy table
  has every column of the entity and no draft column, and the required indexes are there, the unique
  one over user and wallet of the active policies included unless an index of its name was there
  before. Rows of other tables stay. The stored policies are kept, except those of a draft-era table,
  which go; and a migration that fails at any statement keeps them as well.
\<close>

theorem cp_migration_outcomes:
  assumes engine: "ddl_engine D cols view" and cols: "policy_columns cols"
    and run: "MigrateCPSchema D w = (r, w')"
  shows "case r of
      Inl _ \<Rightarrow> legacy_policies (view w) \<or> rows_of ''crypto_policies'' (view w') = rows_of ''crypto_policies'' (view w)
    | Inr _ \<Rightarrow> sch_Tables (view w') ''draft_persist_state'' = None \<and> sch_Tables (view w') ''crypto_policy_drafts'' = None
        \<and> (\<exists>tb. sch_Tables (view w') ''crypto_policies'' = Some tb \<and> cols ''crypto_policies'' \<subseteq> tbl_Columns tb
             \<and> ''draft_id'' \<notin> tbl_Columns tb
             \<and> tbl_Rows tb = (if legacy_policies (view w) then [] else rows_of ''crypto_policies'' (view w)))
        \<and> list_all (\<lambda>n. sch_Indexes (view w') n \<noteq> None) cp_RequiredIndexNames
        \<and> (sch_Indexes (view w) ''uidx_crypto_policies_user_wallet_active'' \<noteq> None
           \<or> sch_Indexes (view w') ''uidx_crypto_policies_user_wallet_active'' = Some cp_uidx)
        \<and> (\<forall>t. t \<notin> {''crypto_policies'', ''draft_persist_state'', ''crypto_policy_drafts''}
             \<longrightarrow> sch_Tables (view w') t = sch_Tables (view w) t)"
    (is "?P r (view w')")
proof -
  have "''draft_id'' \<notin> tbl_Columns tb" if "sch_Tables (view w) ''crypto_policies'' = Some tb" "\<not> legacy_policies (view w)" for tb
    using that by (auto simp: legacy_policies_def has_table_def has_column_def)
  then have "?P (Inr ()) (cp_migrated cols (view w))"
    using cp_indexes [of cols "view w"] cols
    by (auto simp: cp_tables rows_of_def cp_RequiredIndexNames_def policy_columns_def split: option.split)
  then have "wp view (MigrateCPSchema D) ?P (view w)"
    using cols by (intro ddl_engine.wp_MigrateCPSchema [OF engine]) (auto simp: policy_columns_def)
  from wpD [OF this run] show ?thesis .
qed

text \<open>
  C32. The migration is idempotent: started again on a schema it has migrated, as every boot does, it
  leaves the schema and the rows exactly as they are whenever it succeeds.
\<close>

theorem cp_migration_idempotent:
  assumes engine: "ddl_engine D cols view" and cols: "policy_columns cols"
    and first: "MigrateCPSchema D w = (Inr (), w1)" and again: "MigrateCPSchema D w1 = (Inr (), w2)"
  shows "view w2 = view w1"
proof -
  have run: "view b = cp_migrated cols (view a)" if "MigrateCPSchema D a = (Inr (), b)" for a b
  proof -
    have "wp view (MigrateCPSchema D) (\<lambda>r v'. r = Inr () \<longrightarrow> v' = cp_migrated cols (view a)) (view a)"
      using cols by (intro ddl_engine.wp_MigrateCPSchema [OF engine]) (auto simp: policy_columns_def)
    from wpD [OF this that] show ?thesis by simp
  qed
  show ?thesis
    using cp_migrated_again [of cols "view w"] cols run [OF first] run [OF again] by (simp add: policy_columns_def)
qed

text \<open>
  The index over user and id is never made: the tag of the entity's user column already gives an
  index over the user column alone the name that the statement asks for, so that after the first
  successful migration the required name stands for that index, and the statement does nothing.
\<close>

theorem policy_user_index_is_shadowed:
  assumes engine: "ddl_engine D cols view" and cols: "policy_columns cols"
    and fresh: "sch_Indexes (view w) ''idx_crypto_policies_user_id'' = None"
    and run: "MigrateCPSchema D w = (Inr (), w')"
  shows "sch_Indexes (view w') ''idx_crypto_policies_user_id'' = Some (plain_index ''crypto_policies'' [''user_id''])"
proof -
  have "wp view (MigrateCPSchema D) (\<lambda>r v'. r = Inr () \<longrightarrow> v' = cp_migrated cols (view w)) (view w)"
    using cols by (intro ddl_engine.wp_MigrateCPSchema [OF engine]) (auto simp: policy_columns_def)
  from wpD [OF this run] cp_indexes(2) [of cols "view w"] fresh show ?thesis by auto
qed

section \<open>An executable database\<close>

text \<open>A schema with a schedule of statements that fail (\<open>False\<close>).\<close>

type_synonym ddl_mem = "schema \<times> bool list"

definition mem_statement :: "(schema \<Rightarrow> schema) \<Rightarrow> (ddl_mem, string, unit) prog" where
  "mem_statement f w =
     (case w of
        (s, False # plan) \<Rightarrow> (Inl ''fault'', (s, plan))
      | (s, True # plan) \<Rightarrow> (Inr (), (f s, plan))
      | (s, []) \<Rightarrow> (Inr (), (f s, [])))"

definition mem_cols :: "string \<Rightarrow> string set" where
  "mem_cols t =
     (if t = ''crypto_policies''
      then {''id'', ''user_id'', ''tenant_id'', ''scan_id'', ''wallet_address'', ''payload_sha256'', ''status'', ''deleted_at''}
      else {''id'', ''user_id'', ''address'', ''url'', ''scan_id'', ''scan_kind'', ''status'', ''public_key_recovery'',
        ''kex_pqc_ready'', ''pfs'', ''ocsp_stapled'', ''default'', ''created_at'', ''deleted_at''})"

definition mem_ddl :: "ddl_mem ddl_db" where
  "mem_ddl = \<lparr>db_Name = ''postgres'', db_Exec = (\<lambda>q. mem_statement (apply_ddl q)),
     db_AutoMigrate = (\<lambda>ents. mem_statement (auto_migrate mem_cols ents)),
     db_TableQuery = (\<lambda>t w. (Inr (has_table t (fst w)), w)),
     db_ColumnQuery = (\<lambda>t c w. (Inr (has_column t c (fst w)), w)),
     db_HasTable = (\<lambda>t w. (has_table t (fst w), w)), db_HasColumn = (\<lambda>t c w. (has_column t c (fst w), w))\<rparr>"

lemma mem_statement_cases:
  "mem_statement f w = (Inr u, w') \<Longrightarrow> fst w' = f (fst w)" "mem_statement f w = (Inl e, w') \<Longrightarrow> fst w' = fst w"
  by (auto simp: mem_statement_def split: prod.splits list.splits bool.splits)

interpretation mem_db: ddl_engine mem_ddl mem_cols fst
  by unfold_locales (auto simp: mem_ddl_def dest: mem_statement_cases simp: grown_def)

definition draft_schema :: schema where
  "draft_schema = \<lparr>sch_Tables = [''crypto_policies'' \<mapsto> \<lparr>tbl_Columns = {''id'', ''user_id'', ''draft_id''}, tbl_Rows = [[''id'' \<mapsto> ''7'']]\<rparr>,
     ''draft_persist_state'' \<mapsto> \<lparr>tbl_Columns = {''id''}, tbl_Rows = [[''id'' \<mapsto> ''1'']]\<rparr>], sch_Indexes = Map.empty,
     sch_Defaults = {}, sch_Checks = Map.empty\<rparr>"

lemma mem_policy_columns: "policy_columns mem_cols"
  by (simp add: policy_columns_def mem_cols_def)

lemma draft_run: "fst (MigrateCPSchema mem_ddl (draft_schema, [])) = Inr ()"
  by code_simp

theorem cp_migration_outcomes_witness:
  "sch_Tables (fst (snd (MigrateCPSchema mem_ddl (draft_schema, [])))) ''draft_persist_state'' = None
   \<and> rows_of ''crypto_policies'' (fst (snd (MigrateCPSchema mem_ddl (draft_schema, [])))) = []
   \<and> sch_Indexes (fst (snd (MigrateCPSchema mem_ddl (draft_schema, [])))) ''uidx_crypto_policies_user_wallet_active''
     = Some cp_uidx"
proof -
  have "legacy_policies draft_schema" by (simp add: legacy_policies_def draft_schema_def has_table_def has_column_def)
  moreover have "sch_Indexes draft_schema ''uidx_crypto_policies_user_wallet_active'' = None"
    by (simp add: draft_schema_def)
  moreover obtain w' where run: "MigrateCPSchema mem_ddl (draft_schema, []) = (Inr (), w')"
    using draft_run by (metis prod.collapse)
  note outcome = cp_migration_outcomes [OF mem_db.ddl_engine_axioms mem_policy_columns run, unfolded sum.case fst_conv]
  have "sch_Tables (fst w') ''draft_persist_state'' = None" using outcome by (rule conjunct1)
  moreover from outcome obtain tb where "sch_Tables (fst w') ''crypto_policies'' = Some tb"
      "tbl_Rows tb = (if legacy_policies draft_schema then [] else rows_of ''crypto_policies'' draft_schema)"
    by blast
  moreover from outcome have "sch_Indexes draft_schema ''uidx_crypto_policies_user_wallet_active'' \<noteq> None
      \<or> sch_Indexes (fst w') ''uidx_crypto_policies_user_wallet_active'' = Some cp_uidx"
    by blast
  ultimately show ?thesis unfolding run by (simp add: rows_of_def)
qed

theorem cp_migration_idempotent_witness:
  "let w1 = snd (MigrateCPSchema mem_ddl (draft_schema, [])) in
   fst (snd (MigrateCPSchema mem_ddl w1)) = fst w1"
proof -
  let ?w1 = "snd (MigrateCPSchema mem_ddl (draft_schema, []))"
  have "MigrateCPSchema mem_ddl (draft_schema, []) = (Inr (), ?w1)" using draft_run by (metis prod.collapse)
  moreover have "fst (MigrateCPSchema mem_ddl ?w1) = Inr ()" by code_simp
  then have "MigrateCPSchema mem_ddl ?w1 = (Inr (), snd (MigrateCPSchema mem_ddl ?w1))" by (metis prod.collapse)
  ultimately show ?thesis
    using cp_migration_idempotent [OF mem_db.ddl_engine_axioms mem_policy_columns] by (simp add: Let_def)
qed

theorem policy_user_index_is_shadowed_witness:
  "map_option idx_Columns (sch_Indexes (fst (snd (MigrateCPSchema mem_ddl (draft_schema, [])))) ''idx_crypto_policies_user_id'')
   = Some [''user_id'']"
proof -
  have "MigrateCPSchema mem_ddl (draft_schema, []) = (Inr (), snd (MigrateCPSchema mem_ddl (draft_schema, [])))"
    using draft_run by (metis prod.collapse)
  from policy_user_index_is_shadowed [OF mem_db.ddl_engine_axioms mem_policy_columns _ this]
  show ?thesis by (simp add: draft_schema_def plain_index_def)
qed

subsection \<open>The scan schema\<close>

definition over_activity_dates :: "db_index \<Rightarrow> bool" where
  "over_activity_dates ix \<longleftrightarrow> idx_Table ix = ''scan_results''
     \<and> (''first_seen'' \<in> set (idx_Columns ix) \<or> ''last_seen'' \<in> set (idx_Columns ix))"

lemma wallet_result_stage:
  "sch_Indexes s n = None \<Longrightarrow> sch_Indexes (fold apply_ddl walletResultDDL s) n = None"
  "sch_Indexes s n = Some ix \<Longrightarrow> \<not> over_activity_dates ix
    \<Longrightarrow> sch_Indexes (fold apply_ddl walletResultDDL s) n = Some ix"
  "\<not> has_column ''scan_results'' ''first_seen'' (fold apply_ddl walletResultDDL s)"
  "\<not> has_column ''scan_results'' ''last_seen'' (fold apply_ddl walletResultDDL s)"
  "sch_Checks (fold apply_ddl walletResultDDL s) (''scan_results'', ''chk_scan_results_public_key_recovery'')
    = Some (''public_key_recovery'', ['''', ''not_required'', ''recovered'', ''unresolved''])"
  "sch_Defaults (fold apply_ddl walletResultDDL s) \<subseteq> sch_Defaults s"
  "sch_Tables s t = None \<longleftrightarrow> sch_Tables (fold apply_ddl walletResultDDL s) t = None"
  by (auto simp: walletResultDDL_def remove_indexes_def over_activity_dates_def has_column_def split: option.splits if_splits)

lemma scan_index_stage:
  "sch_Tables (fold apply_ddl scanIndexDDL s) = sch_Tables s"
  "(''scan_results'', ''status'') \<notin> sch_Defaults (fold apply_ddl scanIndexDDL s)"
  "(''tls_scan_results'', ''status'') \<notin> sch_Defaults (fold apply_ddl scanIndexDDL s)"
  by (simp_all add: scanIndexDDL_def)

text \<open>The required indexes with their definitions.\<close>

definition required_scan_indexes :: "(string \<times> db_index) list" where
  "required_scan_indexes =
     [(''idx_scan_results_user_address_created_at'',
       \<lparr>idx_Table = ''scan_results'', idx_Unique = False, idx_Columns = [''user_id'', ''address'', ''created_at''],
        idx_Desc = [''created_at''], idx_NullsNotDistinct = False, idx_Where = ''''\<rparr>),
      (''idx_tls_scan_results_user_url_created_at'',
       \<lparr>idx_Table = ''tls_scan_results'', idx_Unique = False, idx_Columns = [''user_id'', ''url'', ''created_at''],
        idx_Desc = [''created_at''], idx_NullsNotDistinct = True, idx_Where = ''''\<rparr>),
      (''idx_scan_usage_events_user_kind'',
       \<lparr>idx_Table = ''scan_usage_events'', idx_Unique = False, idx_Columns = [''user_id'', ''scan_kind''],
        idx_Desc = [], idx_NullsNotDistinct = False, idx_Where = ''''\<rparr>)]"

lemma scan_index_names:
  "n \<in> set LegacyIndexNames \<Longrightarrow> sch_Indexes (fold apply_ddl scanIndexDDL s) n = None"
  "(n, ix) \<in> set required_scan_indexes \<Longrightarrow> sch_Indexes (fold apply_ddl scanIndexDDL s) n
     = (case sch_Indexes s n of None \<Rightarrow> Some ix | Some old \<Rightarrow> Some old)"
  "sch_Indexes (fold apply_ddl scanIndexDDL s) ''idx_scan_usage_events_scan_id'' = sch_Indexes s ''idx_scan_usage_events_scan_id''"
proof -
  have defaults: "sch_Indexes (apply_ddl (DropDefault t c) s) = sch_Indexes s" for t c s by simp
  note names = scanIndexDDL_def fold_simps comp_def id_apply defaults index_statements
  show "sch_Indexes (fold apply_ddl scanIndexDDL s) n = None" if "n \<in> set LegacyIndexNames"
    using that unfolding LegacyIndexNames_def list.set insert_iff empty_iff
    by (elim disjE) (simp_all add: names del: apply_ddl.simps)
  show "sch_Indexes (fold apply_ddl scanIndexDDL s) n
      = (case sch_Indexes s n of None \<Rightarrow> Some ix | Some old \<Rightarrow> Some old)"
    if "(n, ix) \<in> set required_scan_indexes"
    using that unfolding required_scan_indexes_def list.set insert_iff empty_iff prod.inject
    by (elim disjE conjE; simp add: names plain_index_def del: apply_ddl.simps split: option.split)
  show "sch_Indexes (fold apply_ddl scanIndexDDL s) ''idx_scan_usage_events_scan_id'' = sch_Indexes s ''idx_scan_usage_events_scan_id''"
    by (simp add: names del: apply_ddl.simps)
qed

lemma required_names:
  "(n, ix) \<in> set required_scan_indexes \<Longrightarrow> n \<in> set scan_RequiredIndexNames"
  "(n, ix) \<in> set required_scan_indexes \<Longrightarrow> \<not> over_activity_dates ix"
  by (auto simp: required_scan_indexes_def scan_RequiredIndexNames_def over_activity_dates_def)

lemma add_tag_other: "\<forall>(c, u)\<in>set tags. n \<noteq> tag_index t c \<Longrightarrow> fold (add_tag t) tags I n = I n"
proof (induction tags arbitrary: I)
  case (Cons tag tags)
  then have "add_tag t tag I n = I n" by (cases tag) auto
  with Cons show ?case by simp
qed simp

lemma entity_indexes:
  assumes "\<forall>(c, u)\<in>set tags. n \<noteq> tag_index t c" and "n \<noteq> pkey_index t"
  shows "sch_Indexes (migrate_entity cols (t, tags, dflts) s) n = sch_Indexes s n"
  using assms(2) add_tag_other [OF assms(1)] by (simp add: add_pkey_def)

lemma entity_tables: "sch_Tables (migrate_entity cols (t, tags, dflts) s) t' \<noteq> None \<longleftrightarrow> t' = t \<or> sch_Tables s t' \<noteq> None"
  by simp

lemma entity_other: "t' \<noteq> t \<Longrightarrow> sch_Tables (migrate_entity cols (t, tags, dflts) s) t' = sch_Tables s t'"
  by simp

lemma entity_columns: "c \<in> cols t \<Longrightarrow> has_column t c (migrate_entity cols (t, tags, dflts) s)"
  "has_column t' c s \<Longrightarrow> has_column t' c (migrate_entity cols (t, tags, dflts) s)"
  by (auto simp: has_column_def split: option.splits)

lemma entity_defaults: "(c, d) \<in> set dflts \<Longrightarrow> (t, c) \<in> sch_Defaults (migrate_entity cols (t, tags, dflts) s)"
  "x \<in> sch_Defaults s \<Longrightarrow> x \<in> sch_Defaults (migrate_entity cols (t, tags, dflts) s)"
  by force+

lemma defaults_stay: "x \<in> sch_Defaults s \<Longrightarrow> x \<in> sch_Defaults (fold (migrate_entity cols) ents s)"
proof (induction ents arbitrary: s)
  case (Cons e ents)
  have "x \<in> sch_Defaults (migrate_entity cols e s)"
    using Cons.prems by (cases e) (simp only: entity_defaults(2))
  from Cons.IH [OF this] show ?case by simp
qed simp

lemma migrate_defaults:
  "(t, tags, dflts) \<in> set ents \<Longrightarrow> (c, d) \<in> set dflts
   \<Longrightarrow> (t, c) \<in> sch_Defaults (fold (migrate_entity cols) ents s)"
proof (induction ents arbitrary: s)
  case (Cons e ents)
  show ?case
  proof (cases "e = (t, tags, dflts)")
    case True
    from defaults_stay [OF entity_defaults(1) [OF Cons.prems(2)]] show ?thesis by (simp add: True)
  next
    case False
    with Cons show ?thesis by simp
  qed
qed simp

lemma scan_run:
  "auto_migrate cols scan_entities s
   = migrate_entity cols (''scan_usage_events'', fst (snd usage_entity), snd (snd usage_entity))
       (migrate_entity cols (''scan_results'', fst (snd scan_entity), snd (snd scan_entity))
          (migrate_entity cols (''tls_scan_results'', fst (snd tls_scan_entity), snd (snd tls_scan_entity)) s))"
  by (simp add: auto_migrate_def scan_entities_def tls_scan_entity_def scan_entity_def usage_entity_def
      del: migrate_entity.simps)

lemma scan_tag_names:
  assumes "n \<in> set scan_RequiredIndexNames"
  shows "\<forall>(c, u)\<in>set (fst (snd tls_scan_entity)). n \<noteq> tag_index ''tls_scan_results'' c"
    "\<forall>(c, u)\<in>set (fst (snd scan_entity)). n \<noteq> tag_index ''scan_results'' c"
    "\<forall>(c, u)\<in>set (fst (snd usage_entity)). n \<noteq> tag_index ''scan_usage_events'' c"
    "n \<noteq> pkey_index ''tls_scan_results''" "n \<noteq> pkey_index ''scan_results''" "n \<noteq> pkey_index ''scan_usage_events''"
  using assms unfolding scan_RequiredIndexNames_def list.set insert_iff empty_iff
  by (elim disjE; simp add: tls_scan_entity_def scan_entity_def usage_entity_def tag_index_def pkey_index_def)+

lemma usage_tag_names:
  "\<forall>(c, u)\<in>set (fst (snd tls_scan_entity)). ''idx_scan_usage_events_scan_id'' \<noteq> tag_index ''tls_scan_results'' c"
  "\<forall>(c, u)\<in>set (fst (snd scan_entity)). ''idx_scan_usage_events_scan_id'' \<noteq> tag_index ''scan_results'' c"
  "''idx_scan_usage_events_scan_id'' \<noteq> pkey_index ''tls_scan_results''"
  "''idx_scan_usage_events_scan_id'' \<noteq> pkey_index ''scan_results''"
  by (simp_all add: tls_scan_entity_def scan_entity_def tag_index_def pkey_index_def)

lemma scan_entity_stage:
  "t \<in> set ScanTableNames \<Longrightarrow> sch_Tables (auto_migrate cols scan_entities s) t \<noteq> None"
  "t \<in> set ScanTableNames \<Longrightarrow> c \<in> cols t \<Longrightarrow> has_column t c (auto_migrate cols scan_entities s)"
  "has_column t c s \<Longrightarrow> has_column t c (auto_migrate cols scan_entities s)"
  "n \<in> set scan_RequiredIndexNames \<Longrightarrow> sch_Indexes (auto_migrate cols scan_entities s) n = sch_Indexes s n"
  "(t, tags, dflts) \<in> set scan_entities \<Longrightarrow> (c, d) \<in> set dflts
    \<Longrightarrow> (t, c) \<in> sch_Defaults (auto_migrate cols scan_entities s)"
proof -
  show "sch_Tables (auto_migrate cols scan_entities s) t \<noteq> None" if "t \<in> set ScanTableNames"
    using that unfolding scan_run entity_tables by (auto simp: ScanTableNames_def)
  show "has_column t c (auto_migrate cols scan_entities s)" if "t \<in> set ScanTableNames" "c \<in> cols t"
  proof -
    from that(1) consider "t = ''scan_results''" | "t = ''tls_scan_results''" | "t = ''scan_usage_events''"
      by (auto simp: ScanTableNames_def)
    then show ?thesis
      unfolding scan_run using that(2)
      by cases (blast intro: entity_columns)+
  qed
  show "has_column t c (auto_migrate cols scan_entities s)" if "has_column t c s"
    unfolding scan_run by (intro entity_columns(2) that)
  show "sch_Indexes (auto_migrate cols scan_entities s) n = sch_Indexes s n" if "n \<in> set scan_RequiredIndexNames"
    unfolding scan_run
    by (simp only: entity_indexes [OF scan_tag_names(1,4) [OF that]] entity_indexes [OF scan_tag_names(2,5) [OF that]]
        entity_indexes [OF scan_tag_names(3,6) [OF that]])
  show "(t, c) \<in> sch_Defaults (auto_migrate cols scan_entities s)"
    if "(t, tags, dflts) \<in> set scan_entities" "(c, d) \<in> set dflts"
    using that unfolding auto_migrate_def by (rule migrate_defaults)
qed

lemma usage_tag:
  assumes "sch_Indexes s ''idx_scan_usage_events_scan_id'' = None"
  shows "sch_Indexes (auto_migrate cols scan_entities s) ''idx_scan_usage_events_scan_id''
      = Some ((plain_index ''scan_usage_events'' [''scan_id''])\<lparr>idx_Unique := True\<rparr>)"
proof -
  let ?s = "migrate_entity cols (''scan_results'', fst (snd scan_entity), snd (snd scan_entity))
          (migrate_entity cols (''tls_scan_results'', fst (snd tls_scan_entity), snd (snd tls_scan_entity)) s)"
  have "sch_Indexes ?s ''idx_scan_usage_events_scan_id'' = None"
    by (simp only: entity_indexes [OF usage_tag_names(1,3)] entity_indexes [OF usage_tag_names(2,4)] assms)
  then show ?thesis
    unfolding scan_run by (simp add: usage_entity_def tag_index_def pkey_index_def add_pkey_def del: migrate_entity.simps(1))
      (simp add: tag_index_def pkey_index_def add_pkey_def)
qed

lemma scan_required:
  assumes n: "(n, ix) \<in> set required_scan_indexes"
  shows "case sch_Indexes s n of
      None \<Rightarrow> sch_Indexes (scan_migrated cols s) n = Some ix
    | Some old \<Rightarrow> over_activity_dates old \<or> sch_Indexes (scan_migrated cols s) n = Some old"
proof -
  let ?a = "auto_migrate cols scan_entities s"
  have "sch_Indexes (fold apply_ddl scanIndexDDL ?a) n = (case sch_Indexes s n of None \<Rightarrow> Some ix | Some old \<Rightarrow> Some old)"
    unfolding scan_index_names(2) [OF n] scan_entity_stage(4) [OF required_names(1) [OF n]] ..
  then show ?thesis
    unfolding scan_migrated_def using wallet_result_stage(2) [of "fold apply_ddl scanIndexDDL ?a" n]
      required_names(2) [OF n]
    by (cases "sch_Indexes s n") auto
qed

lemma scan_usage_index:
  "sch_Indexes s ''idx_scan_usage_events_scan_id'' \<noteq> None
   \<or> (\<exists>ix. sch_Indexes (scan_migrated cols s) ''idx_scan_usage_events_scan_id'' = Some ix \<and> idx_Unique ix
        \<and> idx_Table ix = ''scan_usage_events'' \<and> idx_Columns ix = [''scan_id''])"
proof (cases "sch_Indexes s ''idx_scan_usage_events_scan_id''")
  case None
  from wallet_result_stage(2) [OF trans [OF scan_index_names(3) usage_tag [OF this]]] show ?thesis
    unfolding scan_migrated_def by (simp add: over_activity_dates_def plain_index_def)
qed simp

text \<open>A value that a step keeps comes from a row that was there.\<close>

lemma rows_kept_value:
  assumes "rows_kept X s s'" and "\<not> X t c" and "r' \<in> set (rows_of t s')"
  obtains r where "r \<in> set (rows_of t s)" and "r' c = r c"
proof -
  from assms(1) have all: "list_all2 (row_kept (X t)) (rows_of t s) (rows_of t s')" by (simp add: rows_kept_def)
  from assms(3) obtain i where "i < length (rows_of t s')" "r' = rows_of t s' ! i" by (auto simp: in_set_conv_nth)
  with all assms(2) show ?thesis
    by (intro that [of "rows_of t s ! i"]) (auto simp: list_all2_conv_all_nth row_kept_def)
qed

lemma recovery_filled:
  assumes col: "''public_key_recovery'' \<in> cols ''scan_results''"
    and new: "\<not> has_column ''scan_results'' ''public_key_recovery'' s"
    and r: "r \<in> set (rows_of ''scan_results'' (scan_migrated cols s))"
  shows "r ''public_key_recovery'' = Some ''''"
proof -
  let ?a = "auto_migrate cols scan_entities s"
  have kept: "rows_kept (\<lambda>t c. \<exists>q\<in>set (scanIndexDDL @ walletResultDDL). drops q t c) ?a (scan_migrated cols s)"
    using rows_kept_fold_ddl [of "scanIndexDDL @ walletResultDDL" ?a] scan_statement_kept(1)
    by (auto simp: scan_migrated_def)
  obtain r0 where r0: "r0 \<in> set (rows_of ''scan_results'' ?a)"
    and eq: "r ''public_key_recovery'' = r0 ''public_key_recovery''"
    by (rule rows_kept_value [where c = "''public_key_recovery''", OF kept _ r])
      (auto simp: scanIndexDDL_def walletResultDDL_def)
  have other: "sch_Tables ?a ''scan_results'' = sch_Tables
      (migrate_entity cols (''scan_results'', fst (snd scan_entity), snd (snd scan_entity))
        (migrate_entity cols (''tls_scan_results'', fst (snd tls_scan_entity), snd (snd tls_scan_entity)) s)) ''scan_results''"
    unfolding scan_run by (rule entity_other) simp
  have "r0 ''public_key_recovery'' = Some ''''"
    using r0 col new unfolding rows_of_def other
    by (auto simp: scan_entity_def tls_scan_entity_def fill_def has_column_def split: option.splits)
  with eq show ?thesis by simp
qed

lemma dates_erased_ddl:
  assumes "has_column ''scan_results'' c s" and "c \<in> {''first_seen'', ''last_seen''}"
    and "r \<in> set (rows_of ''scan_results'' (fold apply_ddl walletResultDDL s))"
  shows "r c = None"
  using assms by (auto simp: walletResultDDL_def rows_of_def has_column_def split: option.splits if_splits)

lemma dates_erased:
  assumes "has_column ''scan_results'' c s" and "c \<in> {''first_seen'', ''last_seen''}"
    and "r \<in> set (rows_of ''scan_results'' (scan_migrated cols s))"
  shows "r c = None"
proof (rule dates_erased_ddl)
  show "has_column ''scan_results'' c (fold apply_ddl scanIndexDDL (auto_migrate cols scan_entities s))"
    using scan_entity_stage(3) [OF assms(1), of cols] by (simp add: has_column_def scan_index_stage(1))
qed (use assms(2,3) in \<open>simp_all add: scan_migrated_def\<close>)

text \<open>The struct of a wallet row has the key recovery and no activity dates.\<close>

definition scan_columns :: "(string \<Rightarrow> string set) \<Rightarrow> bool" where
  "scan_columns cols \<longleftrightarrow> ''public_key_recovery'' \<in> cols ''scan_results''
     \<and> ''first_seen'' \<notin> cols ''scan_results'' \<and> ''last_seen'' \<notin> cols ''scan_results''"

lemma scan_columns_kept:
  assumes "scan_columns cols" and "t \<in> set ScanTableNames" and "c \<in> cols t"
  shows "has_column t c (scan_migrated cols s)"
proof -
  have stays: "has_column t c (fold apply_ddl walletResultDDL v)"
    if "has_column t c v" "t = ''scan_results'' \<longrightarrow> c \<noteq> ''first_seen'' \<and> c \<noteq> ''last_seen''" for v
    using that by (auto simp: walletResultDDL_def has_column_def split: option.splits if_splits)
  show ?thesis
    unfolding scan_migrated_def
  proof (rule stays)
    show "has_column t c (fold apply_ddl scanIndexDDL (auto_migrate cols scan_entities s))"
      using scan_entity_stage(2) [where cols = cols, OF assms(2,3)] by (simp add: has_column_def scan_index_stage(1))
  qed (use assms(1,3) in \<open>auto simp: scan_columns_def\<close>)
qed

lemma scan_defaults_kept:
  assumes "(t, tags, dflts) \<in> set scan_entities" and "(c, d) \<in> set dflts"
  shows "(t, c) \<in> sch_Defaults (scan_migrated cols s)"
proof -
  have c: "c \<noteq> ''status''" "c \<noteq> ''first_seen''" "c \<noteq> ''last_seen''"
    using assms by (auto simp: scan_entities_def tls_scan_entity_def scan_entity_def usage_entity_def)
  have index: "x \<in> sch_Defaults (fold apply_ddl scanIndexDDL v)" if "x \<in> sch_Defaults v" "snd x \<noteq> ''status''" for x v
    using that by (auto simp: scanIndexDDL_def)
  have wallet: "x \<in> sch_Defaults (fold apply_ddl walletResultDDL v)"
    if "x \<in> sch_Defaults v" "snd x \<noteq> ''first_seen''" "snd x \<noteq> ''last_seen''" for x v
    using that by (auto simp: walletResultDDL_def split: option.split)
  show ?thesis
    unfolding scan_migrated_def
    by (intro wallet index scan_entity_stage(5) [OF assms]) (simp_all add: c)
qed

text \<open>
  C33. The migration of the scan schema. When it succeeds: the three scan tables have every column of
  their entities; the activity dates are dropped and their values erased; every required index that
  was not there before is made with its definition (table, columns, descending order and treatment of
  NULL), and one of its name that was there stays as it was unless it was over the dropped dates; the
  indexes of the earlier schema are gone; the columns tagged with a default have it and the status
  columns have none; a key recovery column that is new holds the empty text in every row; the check
  on the key recovery allows exactly the four values; and the usage events have their unique index
  over the scan unless an index of its name was there before. In every outcome, an error at any
  statement included, no row of any table is lost, added or reordered, and no value changes except
  the dropped dates of the wallet rows and the columns added with a default.
\<close>

theorem scan_migration_outcomes:
  assumes engine: "ddl_engine D cols view" and cols: "scan_columns cols"
    and run: "MigrateScanSchema D w = (r, w')"
  shows "rows_kept (\<lambda>t c. t = ''scan_results'' \<and> c \<in> {''first_seen'', ''last_seen''}
            \<or> new_default scan_entities (view w) t c) (view w) (view w')
    \<and> (case r of
        Inl _ \<Rightarrow> True
      | Inr _ \<Rightarrow> list_all (\<lambda>t. has_table t (view w')) ScanTableNames
          \<and> (\<forall>t\<in>set ScanTableNames. \<forall>c\<in>cols t. has_column t c (view w'))
          \<and> list_all (\<lambda>n. sch_Indexes (view w') n = None) LegacyIndexNames
          \<and> map fst required_scan_indexes = scan_RequiredIndexNames
          \<and> list_all (\<lambda>(n, ix). case sch_Indexes (view w) n of
                None \<Rightarrow> sch_Indexes (view w') n = Some ix
              | Some old \<Rightarrow> over_activity_dates old \<or> sch_Indexes (view w') n = Some old) required_scan_indexes
          \<and> (\<forall>c\<in>{''first_seen'', ''last_seen''}. \<not> has_column ''scan_results'' c (view w')
               \<and> (has_column ''scan_results'' c (view w)
                   \<longrightarrow> list_all (\<lambda>r. r c = None) (rows_of ''scan_results'' (view w'))))
          \<and> (has_column ''scan_results'' ''public_key_recovery'' (view w)
             \<or> list_all (\<lambda>r. r ''public_key_recovery'' = Some '''') (rows_of ''scan_results'' (view w')))
          \<and> (''scan_results'', ''status'') \<notin> sch_Defaults (view w')
          \<and> (''tls_scan_results'', ''status'') \<notin> sch_Defaults (view w')
          \<and> list_all (\<lambda>(t, _, dflts). list_all (\<lambda>(c, _). (t, c) \<in> sch_Defaults (view w')) dflts) scan_entities
          \<and> sch_Checks (view w') (''scan_results'', ''chk_scan_results_public_key_recovery'')
            = Some (''public_key_recovery'', ['''', ''not_required'', ''recovered'', ''unresolved''])
          \<and> (sch_Indexes (view w) ''idx_scan_usage_events_scan_id'' \<noteq> None
             \<or> (\<exists>ix. sch_Indexes (view w') ''idx_scan_usage_events_scan_id'' = Some ix \<and> idx_Unique ix
                  \<and> idx_Table ix = ''scan_usage_events'' \<and> idx_Columns ix = [''scan_id''])))"
    (is "?P r (view w')")
proof -
  let ?v = "view w"
  let ?m = "scan_migrated cols ?v"
  let ?b = "fold apply_ddl scanIndexDDL (auto_migrate cols scan_entities ?v)"
  have m: "?m = fold apply_ddl walletResultDDL ?b" by (simp add: scan_migrated_def)
  have touched: "scan_touched ?v = (\<lambda>t c. t = ''scan_results'' \<and> c \<in> {''first_seen'', ''last_seen''}
      \<or> new_default scan_entities ?v t c)"
    by (auto simp: scan_touched_def fun_eq_iff)
  note wallet = wallet_result_stage [of ?b, folded m]
  have kept: "rows_kept (\<lambda>t c. t = ''scan_results'' \<and> c \<in> {''first_seen'', ''last_seen''}
      \<or> new_default scan_entities ?v t c) ?v ?m"
    using scan_stages_kept(4) [of ?v cols] unfolding touched .
  have tables: "list_all (\<lambda>t. has_table t ?m) ScanTableNames"
    unfolding m list_all_iff has_table_def
    using wallet_result_stage(7) [of ?b] scan_entity_stage(1) [of _ cols ?v] by (simp add: scan_index_stage(1))
  have legacy: "list_all (\<lambda>n. sch_Indexes ?m n = None) LegacyIndexNames"
    unfolding m list_all_iff using scan_index_names(1) wallet_result_stage(1) by blast
  have names: "map fst required_scan_indexes = scan_RequiredIndexNames"
    by (simp add: required_scan_indexes_def scan_RequiredIndexNames_def)
  have required: "list_all (\<lambda>(n, ix). case sch_Indexes ?v n of None \<Rightarrow> sch_Indexes ?m n = Some ix
      | Some old \<Rightarrow> over_activity_dates old \<or> sch_Indexes ?m n = Some old) required_scan_indexes"
    unfolding list_all_iff using scan_required by blast
  have dates: "\<forall>c\<in>{''first_seen'', ''last_seen''}. \<not> has_column ''scan_results'' c ?m
      \<and> (has_column ''scan_results'' c ?v \<longrightarrow> list_all (\<lambda>r. r c = None) (rows_of ''scan_results'' ?m))"
    using wallet(3,4) dates_erased by (auto simp: list_all_iff)
  have recovery: "has_column ''scan_results'' ''public_key_recovery'' ?v
      \<or> list_all (\<lambda>r. r ''public_key_recovery'' = Some '''') (rows_of ''scan_results'' ?m)"
    using recovery_filled [of cols ?v] cols by (auto simp: list_all_iff scan_columns_def)
  have status: "(''scan_results'', ''status'') \<notin> sch_Defaults ?m" "(''tls_scan_results'', ''status'') \<notin> sch_Defaults ?m"
    using wallet(6) scan_index_stage(2,3) by blast+
  have defaults: "list_all (\<lambda>(t, _, dflts). list_all (\<lambda>(c, _). (t, c) \<in> sch_Defaults ?m) dflts) scan_entities"
    unfolding list_all_iff using scan_defaults_kept by blast
  have "?P (Inr ()) ?m"
    unfolding sum.case
    by (intro conjI kept tables legacy names required dates recovery status defaults wallet(5) scan_usage_index ballI
        scan_columns_kept [OF cols])
  then have "wp view (MigrateScanSchema D) ?P ?v"
    by (intro ddl_engine.wp_MigrateScanSchema [OF engine]) (simp_all add: touched)
  from wpD [OF this run] show ?thesis .
qed

definition old_scan_schema :: schema where
  "old_scan_schema = \<lparr>sch_Tables = [''scan_results'' \<mapsto>
       \<lparr>tbl_Columns = {''id'', ''user_id'', ''address'', ''first_seen''},
        tbl_Rows = [[''id'' \<mapsto> ''7'', ''first_seen'' \<mapsto> ''2024''], [''id'' \<mapsto> ''8'']]\<rparr>],
     sch_Indexes = [''idx_scan_results_user_address'' \<mapsto> plain_index ''scan_results'' [''user_id'', ''address'']],
     sch_Defaults = {(''scan_results'', ''status'')}, sch_Checks = Map.empty\<rparr>"

lemma mem_scan_columns: "scan_columns mem_cols"
  by (simp add: scan_columns_def mem_cols_def)

theorem scan_migration_outcomes_witness:
  "let s = fst (snd (MigrateScanSchema mem_ddl (old_scan_schema, []))) in
   length (rows_of ''scan_results'' s) = 2 \<and> list_all (\<lambda>r. r ''first_seen'' = None) (rows_of ''scan_results'' s)
   \<and> map_option idx_Table (sch_Indexes s ''idx_scan_results_user_address_created_at'') = Some ''scan_results''
   \<and> (''scan_results'', ''status'') \<notin> sch_Defaults s
   \<and> length (rows_of ''scan_results''
       (fst (snd (MigrateScanSchema mem_ddl (old_scan_schema, [True, True, False]))))) = 2"
proof -
  let ?r = "MigrateScanSchema mem_ddl (old_scan_schema, [])"
  have "fst ?r = Inr ()" by code_simp
  then have ok: "?r = (Inr (), snd ?r)" by (metis prod.collapse)
  have kept: "length (rows_of t s') = length (rows_of t s)" if "rows_kept X s s'" for X t s s'
    using that by (metis list_all2_lengthD rows_kept_def)
  have two: "length (rows_of ''scan_results'' old_scan_schema) = 2"
    and old: "has_column ''scan_results'' ''first_seen'' old_scan_schema"
      "sch_Indexes old_scan_schema ''idx_scan_results_user_address_created_at'' = None"
    by (simp_all add: rows_of_def old_scan_schema_def has_column_def)
  note out = scan_migration_outcomes [OF mem_db.ddl_engine_axioms mem_scan_columns ok, unfolded sum.case fst_conv]
  have "length (rows_of ''scan_results'' (fst (snd ?r))) = 2"
    using kept [OF conjunct1 [OF out]] two by simp
  moreover have "list_all (\<lambda>r. r ''first_seen'' = None) (rows_of ''scan_results'' (fst (snd ?r)))"
    and "(''scan_results'', ''status'') \<notin> sch_Defaults (fst (snd ?r))"
    using out old(1) by blast+
  moreover have "map_option idx_Table (sch_Indexes (fst (snd ?r)) ''idx_scan_results_user_address_created_at'')
      = Some ''scan_results''"
    using out old(2) unfolding required_scan_indexes_def by simp
  moreover have "length (rows_of ''scan_results''
      (fst (snd (MigrateScanSchema mem_ddl (old_scan_schema, [True, True, False]))))) = 2"
    using kept [OF conjunct1 [OF scan_migration_outcomes [OF mem_db.ddl_engine_axioms mem_scan_columns
          surjective_pairing, of "(old_scan_schema, [True, True, False])"]]] two by simp
  ultimately show ?thesis unfolding Let_def by blast
qed

end
