(* ===== verification/Configuration.thy ===== *)
theory Configuration
  imports Chain_Config
begin

text \<open>
  The configuration of the process: the keys and defaults of \<^verbatim>\<open>internal/config/config.go\<close>, how
  \<^verbatim>\<open>initConfig\<close> and \<^verbatim>\<open>initLogging\<close> of \<^verbatim>\<open>cmd/persistence/main.go\<close> use them, the chain file
  (\<^verbatim>\<open>internal/config/chain.go\<close>), and the connection string of \<^verbatim>\<open>pkg/postgres\<close> with its masked form for
  the log. The package viper is a parameter: the calls that set it up are a list, and the locale
  \<open>viper\<close> says in which order it consults the environment, the file and the defaults.
\<close>

section \<open>Keys and defaults (config/config.go)\<close>

definition LogLevel :: string where "LogLevel = ''LOG_LEVEL''"
definition ServerHost :: string where "ServerHost = ''SERVER_HOST''"
definition ServerPort :: string where "ServerPort = ''SERVER_PORT''"
definition ScannerHealthPort :: string where "ScannerHealthPort = ''SCANNER_HEALTH_PORT''"
definition PersistenceHealthPort :: string where "PersistenceHealthPort = ''PERSISTENCE_HEALTH_PORT''"
definition PersistenceInternalHTTPPort :: string where
  "PersistenceInternalHTTPPort = ''PERSISTENCE_INTERNAL_HTTP_PORT''"
definition CafePersistenceServiceToken :: string where
  "CafePersistenceServiceToken = ''CAFE_PERSISTENCE_SERVICE_TOKEN''"
definition PostgreSQLHost :: string where "PostgreSQLHost = ''POSTGRES_HOST''"
definition PostgreSQLPort :: string where "PostgreSQLPort = ''POSTGRES_PORT''"
definition PostgreSQLUser :: string where "PostgreSQLUser = ''POSTGRES_USER''"
definition PostgreSQLPassword :: string where "PostgreSQLPassword = ''POSTGRES_PASSWORD''"
definition PostgreSQLDatabase :: string where "PostgreSQLDatabase = ''POSTGRES_DATABASE''"
definition PostgreSQLSSLMode :: string where "PostgreSQLSSLMode = ''POSTGRES_SSLMODE''"
definition NATSURL :: string where "NATSURL = ''NATS_URL''"
definition RedisURL :: string where "RedisURL = ''REDIS_URL''"
definition Production :: string where "Production = ''PRODUCTION''"
definition CORSAllowOrigins :: string where "CORSAllowOrigins = ''CORS_ALLOW_ORIGINS''"
definition CORSAllowMethods :: string where "CORSAllowMethods = ''CORS_ALLOW_METHODS''"
definition TurnstileSecretKey :: string where "TurnstileSecretKey = ''TURNSTILE_SECRET_KEY''"
definition TurnstileSiteKey :: string where "TurnstileSiteKey = ''TURNSTILE_SITE_KEY''"
definition ScanPluginsTLSVersion :: string where "ScanPluginsTLSVersion = ''scan.plugins.tls.version''"
definition ScanPluginsWalletVersion :: string where
  "ScanPluginsWalletVersion = ''scan.plugins.wallet.version''"
definition DiscoveryInternalAuthzEnabled :: string where
  "DiscoveryInternalAuthzEnabled = ''DISCOVERY_INTERNAL_AUTHZ_ENABLED''"

lemmas key_defs = LogLevel_def ServerHost_def ServerPort_def ScannerHealthPort_def PersistenceHealthPort_def
  PersistenceInternalHTTPPort_def CafePersistenceServiceToken_def PostgreSQLHost_def PostgreSQLPort_def
  PostgreSQLUser_def PostgreSQLPassword_def PostgreSQLDatabase_def PostgreSQLSSLMode_def NATSURL_def
  RedisURL_def Production_def CORSAllowOrigins_def CORSAllowMethods_def TurnstileSecretKey_def
  TurnstileSiteKey_def ScanPluginsTLSVersion_def ScanPluginsWalletVersion_def DiscoveryInternalAuthzEnabled_def

datatype config_value = CfgString string | CfgBool bool

definition GetDefaultConfigValues :: "(string \<times> config_value) list" where
  "GetDefaultConfigValues =
     [(PostgreSQLHost, CfgString ''127.0.0.1''),
      (PostgreSQLPort, CfgString ''5432''),
      (PostgreSQLUser, CfgString ''cafe''),
      (PostgreSQLPassword, CfgString ''cafe''),
      (PostgreSQLDatabase, CfgString ''cafe''),
      (PostgreSQLSSLMode, CfgString ''disable''),
      (NATSURL, CfgString ''nats://localhost:4222''),
      (RedisURL, CfgString ''redis://localhost:6379''),
      (Production, CfgBool True),
      (ServerHost, CfgString ''0.0.0.0''),
      (ServerPort, CfgString ''8080''),
      (ScannerHealthPort, CfgString ''8081''),
      (PersistenceHealthPort, CfgString ''8081''),
      (PersistenceInternalHTTPPort, CfgString ''8082''),
      (CORSAllowOrigins, CfgString ''http://localhost:3000,http://localhost:3001,http://localhost:5173''),
      (CORSAllowMethods, CfgString ''GET,POST,PUT,DELETE,OPTIONS''),
      (TurnstileSecretKey, CfgString ''1x0000000000000000000000000000000AA''),
      (TurnstileSiteKey, CfgString ''1x00000000000000000000AA''),
      (ScanPluginsTLSVersion, CfgString ''1.0''),
      (ScanPluginsWalletVersion, CfgString ''1.0''),
      (DiscoveryInternalAuthzEnabled, CfgBool True)]"

section \<open>Setting up viper (main.go)\<close>

datatype viper_op =
    SetDefault string config_value
  | SetConfigFile string
  | SetConfigType string
  | ReadInConfig
  | AutomaticEnv

definition chain_config_path :: "(string \<Rightarrow> string) \<Rightarrow> string" where
  "chain_config_path getenv =
     (let configPath = getenv ''CONFIG_PATH'' in if configPath = '''' then ''config.yaml'' else configPath)"

definition initConfig :: "(string \<Rightarrow> string) \<Rightarrow> viper_op list" where
  "initConfig getenv =
     map (\<lambda>(k, v). SetDefault k v) GetDefaultConfigValues
     @ [SetConfigFile (chain_config_path getenv), SetConfigType ''yaml'', ReadInConfig, AutomaticEnv]"

text \<open>
  What the documentation of viper promises of \<^verbatim>\<open>GetString\<close> after such calls: a non-empty variable of the
  environment, named by the key in upper case, comes first, then the file (\<open>settings\<close> gives its values
  by dotted lower-case key; nothing if it could not be read), then the default, then the empty string.
\<close>

definition upper_char :: "char \<Rightarrow> char" where
  "upper_char c =
     (let n = (of_char c :: nat) in if 97 \<le> n \<and> n \<le> 122 then char_of (n - 32) else c)"

definition ToUpper :: "string \<Rightarrow> string" where
  "ToUpper s = map upper_char s"

fun cast_string :: "config_value \<Rightarrow> string" where
  "cast_string (CfgString s) = s"
| "cast_string (CfgBool b) = (if b then ''true'' else ''false'')"

definition from_env :: "(string \<Rightarrow> string) \<Rightarrow> viper_op list \<Rightarrow> string \<Rightarrow> string option" where
  "from_env getenv ops k =
     (let s = getenv (ToUpper k) in if AutomaticEnv \<in> set ops \<and> s \<noteq> '''' then Some s else None)"

definition from_file :: "(string \<Rightarrow> string \<rightharpoonup> string) \<Rightarrow> viper_op list \<Rightarrow> string \<Rightarrow> string option" where
  "from_file settings ops k =
     (case filter (\<lambda>q. case q of SetConfigFile _ \<Rightarrow> True | _ \<Rightarrow> False) (rev ops) of
        SetConfigFile p # _ \<Rightarrow> if ReadInConfig \<in> set ops then settings p (ToLower k) else None
      | _ \<Rightarrow> None)"

definition from_default :: "viper_op list \<Rightarrow> string \<Rightarrow> string option" where
  "from_default ops k =
     (case filter (\<lambda>q. case q of SetDefault k' _ \<Rightarrow> ToLower k' = ToLower k | _ \<Rightarrow> False) (rev ops) of
        SetDefault _ v # _ \<Rightarrow> Some (cast_string v)
      | _ \<Rightarrow> None)"

locale viper =
  fixes getenv :: "string \<Rightarrow> string" and settings :: "string \<Rightarrow> string \<rightharpoonup> string"
    and GetString :: "viper_op list \<Rightarrow> string \<Rightarrow> string"
  assumes GetString_env: "from_env getenv ops k = Some s \<Longrightarrow> GetString ops k = s"
    and GetString_file: "from_env getenv ops k = None \<Longrightarrow> from_file settings ops k = Some s \<Longrightarrow> GetString ops k = s"
    and GetString_default: "from_env getenv ops k = None \<Longrightarrow> from_file settings ops k = None
      \<Longrightarrow> from_default ops k = Some s \<Longrightarrow> GetString ops k = s"
    and GetString_unset: "from_env getenv ops k = None \<Longrightarrow> from_file settings ops k = None
      \<Longrightarrow> from_default ops k = None \<Longrightarrow> GetString ops k = ''''"
begin

text \<open>The configuration of the process, key by key.\<close>

lemma initConfig_GetString:
  "GetString (initConfig getenv) k =
     (if getenv (ToUpper k) \<noteq> '''' then getenv (ToUpper k)
      else case settings (chain_config_path getenv) (ToLower k) of
        Some s \<Rightarrow> s
      | None \<Rightarrow> (case from_default (initConfig getenv) k of Some s \<Rightarrow> s | None \<Rightarrow> ''''))"
proof -
  have env: "from_env getenv (initConfig getenv) k
      = (if getenv (ToUpper k) \<noteq> '''' then Some (getenv (ToUpper k)) else None)"
    by (simp add: from_env_def initConfig_def Let_def)
  have stored: "from_file settings (initConfig getenv) k = settings (chain_config_path getenv) (ToLower k)"
    by (simp add: from_file_def initConfig_def)
  show ?thesis
  proof (cases "getenv (ToUpper k) = ''''")
    case True
    with env stored show ?thesis
      by (auto simp: GetString_file GetString_default GetString_unset split: option.split)
  next
    case False
    with env show ?thesis by (simp add: GetString_env)
  qed
qed

end

definition viper_GetString ::
  "(string \<Rightarrow> string) \<Rightarrow> (string \<Rightarrow> string \<rightharpoonup> string) \<Rightarrow> viper_op list \<Rightarrow> string \<Rightarrow> string" where
  "viper_GetString getenv settings ops k =
     (case from_env getenv ops k of
        Some s \<Rightarrow> s
      | None \<Rightarrow>
          (case from_file settings ops k of
             Some s \<Rightarrow> s
           | None \<Rightarrow> (case from_default ops k of Some s \<Rightarrow> s | None \<Rightarrow> '''')))"

interpretation layered: viper getenv settings "viper_GetString getenv settings" for getenv settings
  by unfold_locales (simp_all add: viper_GetString_def)

section \<open>Logging (main.go)\<close>

datatype Level = TraceLevel | DebugLevel | InfoLevel | WarnLevel | ErrorLevel | FatalLevel | PanicLevel

definition initLogging :: "(string \<Rightarrow> string) \<Rightarrow> Level" where
  "initLogging GetString =
     (let logLevel = (let s = GetString LogLevel in if s = '''' then ''info'' else s);
          l = ToLower logLevel
      in if l = ''trace'' then TraceLevel
         else if l = ''debug'' then DebugLevel
         else if l = ''info'' then InfoLevel
         else if l = ''warn'' then WarnLevel
         else if l = ''error'' then ErrorLevel
         else if l = ''fatal'' then FatalLevel
         else if l = ''panic'' then PanicLevel
         else InfoLevel)"

section \<open>The chain file (config/chain.go)\<close>

datatype load_error = ReadFailed string | ParseFailed string | Invalid chain_error

text \<open>\<open>ReadFile\<close> is \<^verbatim>\<open>os.ReadFile\<close>, \<open>Unmarshal\<close> the YAML package.\<close>

definition LoadChainConfig ::
  "(string \<Rightarrow> ('w, string, string) prog) \<Rightarrow> (string \<Rightarrow> string + ChainConfig) \<Rightarrow> string
   \<Rightarrow> ('w, load_error, ChainConfig) prog" where
  "LoadChainConfig ReadFile Unmarshal configPath =
     bindP (mapErrP ReadFailed (ReadFile configPath)) (\<lambda>data.
       case Unmarshal data of
         Inl err \<Rightarrow> throwP (ParseFailed err)
       | Inr cfg \<Rightarrow> (case Validate cfg of Some err \<Rightarrow> throwP (Invalid err) | None \<Rightarrow> returnP cfg))"

lemma LoadChainConfig_valid:
  "LoadChainConfig ReadFile Unmarshal p w = (Inr cfg, w') \<Longrightarrow> Validate cfg = None"
  by (auto simp: LoadChainConfig_def bindP_def mapErrP_def catchP_def throwP_def returnP_def
      split: prod.splits sum.splits option.splits)

section \<open>The connection string (pkg/postgres)\<close>

definition postgres_New :: "(string \<Rightarrow> string) \<Rightarrow> string" where
  "postgres_New GetString =
     (let dbHost = GetString PostgreSQLHost;
          dbPort = GetString PostgreSQLPort;
          dbUser = GetString PostgreSQLUser;
          dbPassword = GetString PostgreSQLPassword;
          dbName = GetString PostgreSQLDatabase;
          dbSSLMode = GetString PostgreSQLSSLMode
      in ''host='' @ dbHost @ '' port='' @ dbPort @ '' user='' @ dbUser @ '' password='' @ dbPassword
         @ '' dbname='' @ dbName @ '' sslmode='' @ dbSSLMode)"

text \<open>The loops of \<^verbatim>\<open>maskDSN\<close>, over \<open>j\<close> and over \<open>i\<close>; \<open>drop\<close> and \<open>take\<close> are Go's slices.\<close>

function mask_until_space :: "string \<Rightarrow> nat \<Rightarrow> nat \<Rightarrow> string" where
  "mask_until_space parts i j =
     (if j < length parts
      then if parts ! j = CHR '' '' then take (i + 9) parts @ ''***'' @ drop j parts
           else mask_until_space parts i (j + 1)
      else take (i + 9) parts @ ''***'')"
  by pat_completeness auto
termination by (relation "measure (\<lambda>(parts, i, j). length parts - j)") auto

function mask_from :: "string \<Rightarrow> nat \<Rightarrow> string" where
  "mask_from parts i =
     (if i + 8 < length parts
      then if take 9 (drop i parts) = ''password='' then mask_until_space parts i (i + 9)
           else mask_from parts (i + 1)
      else ''***'')"
  by pat_completeness auto
termination by (relation "measure (\<lambda>(parts, i). length parts - i)") auto

definition maskDSN :: "string \<Rightarrow> string" where
  "maskDSN dsn = (if length dsn > 0 then mask_from dsn 0 else ''***'')"

declare mask_until_space.simps [simp del] mask_from.simps [simp del]

text \<open>Both loops end; what they return.\<close>

lemma mask_until_space_eq:
  "mask_until_space parts i j = take (i + 9) parts @ ''***'' @ dropWhile (\<lambda>c. c \<noteq> CHR '' '') (drop j parts)"
proof (induction parts i j rule: mask_until_space.induct)
  case (1 parts i j)
  show ?case
  proof (cases "j < length parts")
    case True
    then show ?thesis
      using 1 by (auto simp: mask_until_space.simps [of parts i j] Cons_nth_drop_Suc [symmetric])
  qed (simp add: mask_until_space.simps)
qed

lemma mask_from_first:
  assumes "i \<le> p" and "\<And>q. q < p \<Longrightarrow> take 9 (drop q parts) \<noteq> ''password=''"
    and "take 9 (drop p parts) = ''password=''"
  shows "mask_from parts i = mask_until_space parts p (p + 9)"
  using assms(1)
proof (induction "p - i" arbitrary: i)
  case 0
  have "length (take 9 (drop p parts)) = 9" using assms(3) by simp
  then have "p + 8 < length parts" by simp
  with 0 assms(3) show ?case by (simp add: mask_from.simps)
next
  case (Suc n)
  have "length (take 9 (drop p parts)) = 9" using assms(3) by simp
  then have "i + 8 < length parts" using Suc by simp
  then have "mask_from parts i = mask_from parts (i + 1)"
    using assms(2) [of i] Suc.hyps(2) by (simp add: mask_from.simps [of parts i])
  with Suc.hyps(1) [of "i + 1"] Suc.hyps(2) show ?case by simp
qed

text \<open>The characters \<^verbatim>\<open>d=\<close> next to each other.\<close>

fun d_equals :: "string \<Rightarrow> bool" where
  "d_equals (a # b # cs) \<longleftrightarrow> a = CHR ''d'' \<and> b = CHR ''='' \<or> d_equals (b # cs)"
| "d_equals _ \<longleftrightarrow> False"

lemma d_equals_nth: "n + 1 < length s \<Longrightarrow> s ! n = CHR ''d'' \<Longrightarrow> s ! (n + 1) = CHR ''='' \<Longrightarrow> d_equals s"
proof (induction s arbitrary: n rule: d_equals.induct)
  case (1 a b cs)
  then show ?case by (cases n) auto
qed auto

lemma d_equals_skip: "CHR ''='' \<notin> set v \<Longrightarrow> d_equals (v @ CHR '' '' # cs) = d_equals (CHR '' '' # cs)"
proof (induction v)
  case (Cons a v)
  then show ?case by (cases v) auto
qed simp

lemma d_equals_after: "a \<noteq> CHR ''d'' \<Longrightarrow> d_equals (a # cs) = d_equals cs"
  by (cases cs) auto

lemma password_at:
  assumes "take 9 (drop q s) = ''password=''"
  shows "s ! (q + 7) = CHR ''d''" "s ! (q + 8) = CHR ''=''"
proof -
  have "length (take 9 (drop q s)) = 9" using assms by simp
  then have len: "q + 8 < length s" by simp
  have "take 9 (drop q s) ! k = s ! (q + k)" if "k < 9" for k using that len by simp
  from this [of 7] this [of 8] show "s ! (q + 7) = CHR ''d''" "s ! (q + 8) = CHR ''=''"
    unfolding assms by simp_all
qed

lemma no_earlier_password:
  assumes before: "\<not> d_equals before" and q: "q < length before"
  shows "take 9 (drop q (before @ ''password='' @ rest)) \<noteq> ''password=''"
proof
  let ?s = "before @ ''password='' @ rest"
  assume "take 9 (drop q ?s) = ''password=''"
  note eq = password_at [OF this]
  show False
  proof (cases "q + 8 < length before")
    case True
    with eq d_equals_nth [of "q + 7" before] before show False by (simp add: nth_append add.commute)
  next
    case False
    define m where "m = q + 8 - length before"
    have m: "m < 8" "q + 8 = length before + m" using False q by (auto simp: m_def)
    have "?s ! (q + 8) = (''password'' @ ''='' @ rest) ! m" unfolding m(2) by simp
    also have "\<dots> = ''password'' ! m" using m(1) by (subst nth_append) simp
    finally have "?s ! (q + 8) = ''password'' ! m" .
    moreover have "''password'' ! m \<in> set ''password''" using m(1) by (intro nth_mem) simp
    ultimately show False using eq(2) by auto
  qed
qed

text \<open>
  C40. What the log shows of the connection string when the connection fails, for a host, port and user
  without an equals sign: every part as it is, and in place of the password three stars, followed by
  whatever the password has from its first space on. A password without a space is hidden entirely;
  of one with a space, the rest is written to the log.
\<close>

theorem mask_dsn_output:
  assumes plain: "\<And>k. k \<in> {PostgreSQLHost, PostgreSQLPort, PostgreSQLUser} \<Longrightarrow> CHR ''='' \<notin> set (get k)"
  shows "maskDSN (postgres_New get) =
    ''host='' @ get PostgreSQLHost @ '' port='' @ get PostgreSQLPort @ '' user='' @ get PostgreSQLUser
    @ '' password=***'' @ dropWhile (\<lambda>c. c \<noteq> CHR '' '') (get PostgreSQLPassword)
    @ '' dbname='' @ get PostgreSQLDatabase @ '' sslmode='' @ get PostgreSQLSSLMode"
proof -
  define before where "before = ''host='' @ get PostgreSQLHost @ '' port='' @ get PostgreSQLPort
    @ '' user='' @ get PostgreSQLUser @ '' ''"
  define after where "after = '' dbname='' @ get PostgreSQLDatabase @ '' sslmode='' @ get PostgreSQLSSLMode"
  let ?s = "before @ ''password='' @ get PostgreSQLPassword @ after"
  have dsn: "postgres_New get = ?s" by (simp add: postgres_New_def before_def after_def Let_def)
  have "\<not> d_equals before"
    using plain by (simp add: before_def d_equals_skip d_equals_after)
  then have none: "take 9 (drop q ?s) \<noteq> ''password=''" if "q < length before" for q
    using no_earlier_password that by blast
  have "maskDSN ?s = mask_until_space ?s (length before) (length before + 9)"
    unfolding maskDSN_def using mask_from_first [of 0 "length before" ?s, OF _ none] by simp
  also have "\<dots> = before @ ''password=***'' @ dropWhile (\<lambda>c. c \<noteq> CHR '' '') (get PostgreSQLPassword @ after)"
    by (simp add: mask_until_space_eq)
  also have "dropWhile (\<lambda>c. c \<noteq> CHR '' '') (get PostgreSQLPassword @ after)
      = dropWhile (\<lambda>c. c \<noteq> CHR '' '') (get PostgreSQLPassword) @ after"
    by (cases "CHR '' '' \<in> set (get PostgreSQLPassword)") (auto simp: dropWhile_append after_def)
  finally show ?thesis by (simp add: dsn before_def after_def)
qed

definition passphrase_settings :: "string \<Rightarrow> string" where
  "passphrase_settings k = (if k = PostgreSQLPassword then ''correct horse'' else ''cafe'')"

theorem mask_dsn_output_witness:
  "maskDSN (postgres_New passphrase_settings)
   = ''host=cafe port=cafe user=cafe password=*** horse dbname=cafe sslmode=cafe''"
  by (subst mask_dsn_output) (auto simp: passphrase_settings_def key_defs)

end
