(* ===== verification/Health.thy ===== *)
theory Health
  imports Http Configuration
begin

text \<open>
  The probes: \<^verbatim>\<open>internal/health/server.go\<close> and the container's health check \<^verbatim>\<open>cmd/healthcheck\<close>. The
  patterns of the health mux have neither a method nor a wildcard, so they match exactly their path,
  under every method; a path is the list of its segments.
\<close>

record State =
  st_ready :: bool

definition SetReady :: "bool \<Rightarrow> State \<Rightarrow> State" where
  "SetReady ready s = s\<lparr>st_ready := ready\<rparr>"

definition IsReady :: "State \<Rightarrow> bool" where
  "IsReady s = st_ready s"

definition health_writeJSON :: "int \<Rightarrow> (string \<times> any) list \<Rightarrow> response" where
  "health_writeJSON status payload =
     \<lparr>resp_Status = status, resp_RequestID = None, resp_Body = Some (AnyMap payload)\<rparr>"

text \<open>\<open>now\<close> is \<^verbatim>\<open>time.Now()\<close>.\<close>

definition handleHealth :: "gotime \<Rightarrow> response" where
  "handleHealth now = health_writeJSON StatusOK
     [(''status'', AnyString ''ok''), (''app_name'', AnyString ''Cafe Persistence Service''),
      (''timestamp'', AnyString (format_rfc3339 False now))]"

definition handleReady :: "State \<Rightarrow> gotime \<Rightarrow> response" where
  "handleReady s now =
     (if \<not> IsReady s then
        health_writeJSON StatusServiceUnavailable
          [(''status'', AnyString ''not_ready''), (''app_name'', AnyString ''Cafe Persistence Service''),
           (''timestamp'', AnyString (format_rfc3339 False now)),
           (''checks'', AnyMap [(''scan_migrations'', AnyBool False), (''nats'', AnyBool False)])]
      else
        health_writeJSON StatusOK
          [(''status'', AnyString ''ok''), (''app_name'', AnyString ''Cafe Persistence Service''),
           (''timestamp'', AnyString (format_rfc3339 False now)),
           (''checks'', AnyMap [(''scan_migrations'', AnyBool True), (''nats'', AnyBool True)])])"

definition health_NewServer :: "State \<Rightarrow> gotime \<Rightarrow> string list \<Rightarrow> response" where
  "health_NewServer s now path =
     (if path = [''health''] then handleHealth now
      else if path = [''ready''] then handleReady s now
      else WriteHeader StatusNotFound)"

lemma ready_status [simp]:
  "resp_Status (health_NewServer s now [''ready'']) = (if st_ready s then StatusOK else StatusServiceUnavailable)"
  by (simp add: health_NewServer_def handleReady_def IsReady_def health_writeJSON_def)

section \<open>The health check of the container (cmd/healthcheck)\<close>

text \<open>\<open>Get\<close> is the HTTP client: an error, or the status of the answer. The result is the exit code.\<close>

definition healthcheck_port :: "(string \<Rightarrow> string) \<Rightarrow> string" where
  "healthcheck_port getenv =
     (let port = getenv ''PERSISTENCE_HEALTH_PORT'' in if port = '''' then ''8081'' else port)"

definition healthcheck_main :: "(string \<Rightarrow> string) \<Rightarrow> (string \<Rightarrow> string + int) \<Rightarrow> int" where
  "healthcheck_main getenv Get =
     (case Get (''http://127.0.0.1:'' @ healthcheck_port getenv @ ''/ready'') of
        Inl _ \<Rightarrow> 1
      | Inr status \<Rightarrow> if status \<noteq> StatusOK then 1 else 0)"

text \<open>The port \<^verbatim>\<open>main\<close> serves the probes on.\<close>

definition health_port :: "(string \<Rightarrow> string) \<Rightarrow> string" where
  "health_port GetString =
     (let healthPort = GetString PersistenceHealthPort in if healthPort = '''' then ''8081'' else healthPort)"

text \<open>A machine whose only listener is the health server of the process, on one port.\<close>

definition loopback :: "string \<Rightarrow> State \<Rightarrow> gotime \<Rightarrow> string \<Rightarrow> string + int" where
  "loopback port s now url =
     (if url = ''http://127.0.0.1:'' @ port @ ''/ready'' then Inr (resp_Status (health_NewServer s now [''ready'']))
      else Inl ''connection refused'')"

lemma port_upper: "ToUpper PersistenceHealthPort = ''PERSISTENCE_HEALTH_PORT''"
  by (simp add: PersistenceHealthPort_def ToUpper_def upper_char_def)

lemma port_default: "from_default (initConfig getenv) PersistenceHealthPort = Some ''8081''"
  by (simp add: from_default_def initConfig_def GetDefaultConfigValues_def key_defs ToLower_def lower_char_def)

text \<open>
  C39. The container's health check agrees with the process. It exits with 0 exactly when the service is
  ready, provided that it looks at the port the service listens on; and it does unless the port is set
  in the configuration file alone, to something else than 8081: the service reads the file, the check
  reads only the environment, and then the check reports a ready service as unhealthy.
\<close>

theorem healthcheck_agrees:
  assumes viper: "viper getenv settings GetString"
  shows "healthcheck_main getenv (loopback (health_port (GetString (initConfig getenv))) s now) =
    (if st_ready s
      \<and> (getenv ''PERSISTENCE_HEALTH_PORT'' \<noteq> ''''
         \<or> settings (chain_config_path getenv) (ToLower PersistenceHealthPort) \<in> {None, Some '''', Some ''8081''})
     then 0 else 1)"
proof -
  let ?port = "health_port (GetString (initConfig getenv))"
  have port: "?port = (if getenv ''PERSISTENCE_HEALTH_PORT'' \<noteq> '''' then getenv ''PERSISTENCE_HEALTH_PORT''
      else case settings (chain_config_path getenv) (ToLower PersistenceHealthPort) of
        None \<Rightarrow> ''8081'' | Some p \<Rightarrow> if p = '''' then ''8081'' else p)"
    by (simp add: health_port_def viper.initConfig_GetString [OF viper] port_upper port_default Let_def
        split: option.split)
  then have "healthcheck_port getenv = ?port \<longleftrightarrow> getenv ''PERSISTENCE_HEALTH_PORT'' \<noteq> ''''
      \<or> settings (chain_config_path getenv) (ToLower PersistenceHealthPort) \<in> {None, Some '''', Some ''8081''}"
    by (auto simp: healthcheck_port_def Let_def split: option.splits if_splits)
  then show ?thesis
    by (auto simp: healthcheck_main_def loopback_def StatusOK_def StatusServiceUnavailable_def)
qed

definition file_port :: "string \<Rightarrow> string \<rightharpoonup> string" where
  "file_port path = [''persistence_health_port'' \<mapsto> ''9000'']"

theorem healthcheck_agrees_witness:
  "healthcheck_main (\<lambda>_. '''') (loopback (health_port (viper_GetString (\<lambda>_. '''') file_port (initConfig (\<lambda>_. ''''))))
     \<lparr>st_ready = True\<rparr> 0) = 1
   \<and> healthcheck_main (\<lambda>_. '''') (loopback (health_port (viper_GetString (\<lambda>_. '''') (\<lambda>_. Map.empty) (initConfig (\<lambda>_. ''''))))
     \<lparr>st_ready = True\<rparr> 0) = 0"
proof -
  have "ToLower PersistenceHealthPort = ''persistence_health_port''"
    by code_simp
  then show ?thesis
    using healthcheck_agrees [OF layered.viper_axioms, of "\<lambda>_. ''''" file_port]
      healthcheck_agrees [OF layered.viper_axioms, of "\<lambda>_. ''''" "\<lambda>_. Map.empty"]
    by (simp add: file_port_def)
qed

end
