(* ===== verification/Startup.thy ===== *)
theory Startup
  imports Schema Health
begin

text \<open>
  The life of the process (\<^verbatim>\<open>cmd/persistence/main.go\<close>): start-up with its fatal exits, readiness, the
  goroutine that announces it, and the deferred shutdown. The outside is the record \<open>platform\<close>, every
  call of which may fail. The process is a state and a step relation: the statements of \<^verbatim>\<open>main\<close> in their
  order, interleaved with the goroutines, the signals and the outages of the servers the process is
  connected to. \<^verbatim>\<open>log.Fatal\<close> exits at once, with status 1 and without the deferred calls; a signal before
  \<^verbatim>\<open>signal.Notify\<close> kills the process. The NATS client tries to reconnect ten times and then closes its
  connection for good; Postgres and Redis are reached again whenever they are back.
\<close>

section \<open>Connections (pkg/postgres, pkg/redis, pkg/nats)\<close>

record 'w platform =
  pf_getenv :: "string \<Rightarrow> string"
  pf_GetString :: "viper_op list \<Rightarrow> string \<Rightarrow> string"
  pf_ReadFile :: "string \<Rightarrow> ('w, string, string) prog"
  pf_Unmarshal :: "string \<Rightarrow> string + ChainConfig"
  pf_gormOpen :: "string \<Rightarrow> ('w, string, unit) prog"
  pf_ddl :: "'w ddl_db"
  pf_ParseURL :: "string \<Rightarrow> string + string"
  pf_Ping :: "string \<Rightarrow> ('w, string, unit) prog"
  pf_natsConnect :: "string \<Rightarrow> ('w, string, unit) prog"
  pf_QueueSubscribe :: "string \<Rightarrow> string \<Rightarrow> ('w, string, nat) prog"
  pf_Unsubscribe :: "nat \<Rightarrow> 'w \<Rightarrow> 'w"
  pf_Publish :: "string \<Rightarrow> string \<Rightarrow> ('w, string, unit) prog"
  pf_Close :: "string \<Rightarrow> 'w \<Rightarrow> 'w"
  pf_SubjectScanStarted :: string
  pf_SubjectScanCompleted :: string
  pf_SubjectScanFailed :: string
  pf_SubjectPersistenceReady :: string
  pf_ReadyPayload :: string

definition postgres_Run :: "'w platform \<Rightarrow> string \<Rightarrow> ('w, go_error, unit) prog" where
  "postgres_Run P dsn =
     mapErrP (\<lambda>e. Wrapped ''failed to connect to PostgreSQL'' (ServiceError e)) (pf_gormOpen P dsn)"

definition redis_New :: "'w platform \<Rightarrow> (string \<Rightarrow> string) \<Rightarrow> ('w, go_error, unit) prog" where
  "redis_New P GetString =
     (let redisURL = (let s = GetString RedisURL in if s = '''' then ''redis://localhost:6379'' else s) in
      case pf_ParseURL P redisURL of
        Inl err \<Rightarrow> throwP (Wrapped ''failed to parse Redis URL'' (ServiceError err))
      | Inr opt \<Rightarrow> mapErrP (\<lambda>e. Wrapped ''failed to connect to Redis'' (ServiceError e)) (pf_Ping P opt))"

definition nats_New :: "'w platform \<Rightarrow> (string \<Rightarrow> string) \<Rightarrow> ('w, go_error, unit) prog" where
  "nats_New P GetString =
     (let natsURL = (let s = GetString NATSURL in if s = '''' then ''nats://localhost:4222'' else s) in
      mapErrP (\<lambda>e. Wrapped ''failed to connect to NATS'' (ServiceError e)) (pf_natsConnect P natsURL))"

text \<open>\<^verbatim>\<open>nats.MaxReconnects(10)\<close>.\<close>

definition MaxReconnects :: nat where "MaxReconnects = 10"

definition QueuePersistence :: string where "QueuePersistence = ''cafe.persistence''"

definition SubscribeScanEvents :: "'w platform \<Rightarrow> ('w, string, nat list) prog" where
  "SubscribeScanEvents P =
     bindP (pf_QueueSubscribe P (pf_SubjectScanStarted P) QueuePersistence) (\<lambda>started.
     bindP (pf_QueueSubscribe P (pf_SubjectScanCompleted P) QueuePersistence) (\<lambda>completed.
     bindP (pf_QueueSubscribe P (pf_SubjectScanFailed P) QueuePersistence) (\<lambda>failed.
     returnP [started, completed, failed])))"

section \<open>The process\<close>

text \<open>The statements of \<^verbatim>\<open>main\<close> up to the wait for a signal.\<close>

datatype boot =
    InitConfig | InitLogging | StartHealth | RunPostgres | MigrateScan | MigrateCP | ConnectRedis | ConnectNATS
  | LoadChains | NewPending | StartInternal | Subscribe | CheckNATS | MarkReady | StartBeacon

text \<open>The deferred closures, and the single actions they consist of.\<close>

datatype deferred = DeferHealth | DeferDB | DeferRedis | DeferNATS | DeferInternal | DeferSubs "nat list"

datatype release =
    NotReady | Unsubscribe nat | ShutdownInternal | CloseNATS | CloseRedis | ShutdownDB | ShutdownHealth

datatype phase = Booting "boot list" | Waiting | Unwinding "release list" | Exited int | Killed

text \<open>The servers a connection can be lost to.\<close>

datatype peer = PeerPostgres | PeerRedis | PeerNATS

text \<open>
  Besides the variables of \<^verbatim>\<open>main\<close>, the state has the outages (\<open>pr_out\<close>), the failed attempts of the NATS
  client to reconnect and whether it has given up, what \<^verbatim>\<open>nc.IsConnected()\<close> answered after subscribing
  (\<open>pr_seen\<close>), whether a signal has arrived, and the deferred actions in the order they were made.
\<close>

record 'w process =
  pr_world :: 'w
  pr_phase :: phase
  pr_viper :: "viper_op list"
  pr_level :: "Level option"
  pr_state :: State
  pr_health :: "string option"
  pr_db :: bool
  pr_scan_schema :: bool
  pr_cp_schema :: bool
  pr_redis :: bool
  pr_nats :: bool
  pr_chain :: "ChainConfig option"
  pr_pending :: bool
  pr_internal :: "(string \<times> string) option"
  pr_subs :: "nat list"
  pr_defers :: "deferred list"
  pr_beacon :: nat
  pr_announced :: nat
  pr_out :: "peer \<Rightarrow> bool"
  pr_tries :: nat
  pr_gave_up :: bool
  pr_seen :: "bool option"
  pr_sig :: bool
  pr_calls :: "release list"

definition fatalOn :: "('w, 'e, 'a) prog \<Rightarrow> ('a \<Rightarrow> 'w process \<Rightarrow> 'w process) \<Rightarrow> 'w process \<Rightarrow> 'w process" where
  "fatalOn m k s =
     (case m (pr_world s) of
        (Inl _, w) \<Rightarrow> s\<lparr>pr_world := w, pr_phase := Exited 1\<rparr>
      | (Inr x, w) \<Rightarrow> k x (s\<lparr>pr_world := w\<rparr>))"

definition push_defer :: "deferred \<Rightarrow> 'w process \<Rightarrow> 'w process" where
  "push_defer d s = s\<lparr>pr_defers := d # pr_defers s\<rparr>"

definition internal_port :: "(string \<Rightarrow> string) \<Rightarrow> string" where
  "internal_port GetString =
     (let internalPort = GetString PersistenceInternalHTTPPort in if internalPort = '''' then ''8082'' else internalPort)"

definition service_token :: "(string \<Rightarrow> string) \<Rightarrow> string" where
  "service_token GetString = TrimSpace (GetString CafePersistenceServiceToken)"

definition nats_IsConnected :: "'w process \<Rightarrow> bool" where
  "nats_IsConnected s \<longleftrightarrow> pr_nats s \<and> \<not> pr_out s PeerNATS \<and> \<not> pr_gave_up s"

fun boot_step :: "'w platform \<Rightarrow> boot \<Rightarrow> 'w process \<Rightarrow> 'w process" where
  "boot_step P InitConfig s = s\<lparr>pr_viper := initConfig (pf_getenv P)\<rparr>"
| "boot_step P InitLogging s = s\<lparr>pr_level := Some (initLogging (pf_GetString P (pr_viper s)))\<rparr>"
| "boot_step P StartHealth s =
     push_defer DeferHealth (s\<lparr>pr_health := Some (''0.0.0.0:'' @ health_port (pf_GetString P (pr_viper s)))\<rparr>)"
| "boot_step P RunPostgres s =
     fatalOn (postgres_Run P (postgres_New (pf_GetString P (pr_viper s)))) (\<lambda>_ s. push_defer DeferDB (s\<lparr>pr_db := True\<rparr>)) s"
| "boot_step P MigrateScan s = fatalOn (MigrateScanSchema (pf_ddl P)) (\<lambda>_ s. s\<lparr>pr_scan_schema := True\<rparr>) s"
| "boot_step P MigrateCP s = fatalOn (MigrateCPSchema (pf_ddl P)) (\<lambda>_ s. s\<lparr>pr_cp_schema := True\<rparr>) s"
| "boot_step P ConnectRedis s =
     fatalOn (redis_New P (pf_GetString P (pr_viper s))) (\<lambda>_ s. push_defer DeferRedis (s\<lparr>pr_redis := True\<rparr>)) s"
| "boot_step P ConnectNATS s =
     fatalOn (nats_New P (pf_GetString P (pr_viper s))) (\<lambda>_ s. push_defer DeferNATS (s\<lparr>pr_nats := True\<rparr>)) s"
| "boot_step P LoadChains s =
     fatalOn (LoadChainConfig (pf_ReadFile P) (pf_Unmarshal P) (chain_config_path (pf_getenv P)))
       (\<lambda>cfg s. s\<lparr>pr_chain := Some cfg\<rparr>) s"
| "boot_step P NewPending s =
     (if pr_redis s then s\<lparr>pr_pending := True\<rparr> else s\<lparr>pr_phase := Exited 1\<rparr>)"
| "boot_step P StartInternal s =
     (let get = pf_GetString P (pr_viper s) in
      push_defer DeferInternal (s\<lparr>pr_internal := Some (''0.0.0.0:'' @ internal_port get, service_token get)\<rparr>))"
| "boot_step P Subscribe s =
     fatalOn (SubscribeScanEvents P) (\<lambda>subs s. push_defer (DeferSubs subs) (s\<lparr>pr_subs := subs\<rparr>)) s"
| "boot_step P CheckNATS s =
     (let s' = s\<lparr>pr_seen := Some (nats_IsConnected s)\<rparr>
      in if nats_IsConnected s then s' else s'\<lparr>pr_phase := Exited 1\<rparr>)"
| "boot_step P MarkReady s = s\<lparr>pr_state := SetReady True (pr_state s)\<rparr>"
| "boot_step P StartBeacon s = s\<lparr>pr_beacon := 40\<rparr>"

definition main_boot :: "boot list" where
  "main_boot = [InitConfig, InitLogging, StartHealth, RunPostgres, MigrateScan, MigrateCP, ConnectRedis, ConnectNATS,
     LoadChains, NewPending, StartInternal, Subscribe, CheckNATS, MarkReady, StartBeacon]"

fun deferred_actions :: "deferred \<Rightarrow> release list" where
  "deferred_actions DeferHealth = [NotReady, ShutdownHealth]"
| "deferred_actions DeferDB = [ShutdownDB]"
| "deferred_actions DeferRedis = [CloseRedis]"
| "deferred_actions DeferNATS = [CloseNATS]"
| "deferred_actions DeferInternal = [ShutdownInternal]"
| "deferred_actions (DeferSubs subs) = NotReady # map Unsubscribe subs"

fun release_step :: "'w platform \<Rightarrow> release \<Rightarrow> 'w process \<Rightarrow> 'w process" where
  "release_step P NotReady s = s\<lparr>pr_state := SetReady False (pr_state s)\<rparr>"
| "release_step P (Unsubscribe i) s =
     s\<lparr>pr_world := pf_Unsubscribe P i (pr_world s), pr_subs := filter (\<lambda>j. j \<noteq> i) (pr_subs s)\<rparr>"
| "release_step P ShutdownInternal s = s\<lparr>pr_world := pf_Close P ''internal'' (pr_world s), pr_internal := None\<rparr>"
| "release_step P CloseNATS s = s\<lparr>pr_world := pf_Close P ''nats'' (pr_world s), pr_nats := False\<rparr>"
| "release_step P CloseRedis s = s\<lparr>pr_world := pf_Close P ''redis'' (pr_world s), pr_redis := False\<rparr>"
| "release_step P ShutdownDB s = s\<lparr>pr_world := pf_Close P ''postgres'' (pr_world s), pr_db := False\<rparr>"
| "release_step P ShutdownHealth s = s\<lparr>pr_world := pf_Close P ''health'' (pr_world s), pr_health := None\<rparr>"

text \<open>One round of the announcing goroutine; a publish that fails is only logged.\<close>

definition announce :: "'w platform \<Rightarrow> 'w process \<Rightarrow> 'w process" where
  "announce P s =
     (case pf_Publish P (pf_SubjectPersistenceReady P) (pf_ReadyPayload P) (pr_world s) of
        (_, w) \<Rightarrow> s\<lparr>pr_world := w, pr_beacon := pr_beacon s - 1, pr_announced := pr_announced s + 1\<rparr>)"

definition alive :: "'w process \<Rightarrow> bool" where
  "alive s = (case pr_phase s of Exited _ \<Rightarrow> False | Killed \<Rightarrow> False | _ \<Rightarrow> True)"

fun opened :: "peer \<Rightarrow> 'w process \<Rightarrow> bool" where
  "opened PeerPostgres s = pr_db s"
| "opened PeerRedis s = pr_redis s"
| "opened PeerNATS s = pr_nats s"

definition link :: "(peer \<Rightarrow> bool) \<Rightarrow> nat \<Rightarrow> bool \<Rightarrow> 'w process \<Rightarrow> 'w process" where
  "link out tries gave_up s = s\<lparr>pr_out := out, pr_tries := tries, pr_gave_up := gave_up\<rparr>"

text \<open>
  The steps: a statement of \<^verbatim>\<open>main\<close>; the wait; a signal before it is caught, its arrival and its receipt;
  the unwinding of the deferred calls, last one first; a round of the goroutine; a listener that
  fails; the loss of a server, its return, and a failed attempt of the NATS client to reconnect.
\<close>

inductive proc_step :: "'w platform \<Rightarrow> 'w process \<Rightarrow> 'w process \<Rightarrow> bool" for P where
  boot: "pr_phase s = Booting (b # bs) \<Longrightarrow> proc_step P s (boot_step P b (s\<lparr>pr_phase := Booting bs\<rparr>))"
| wait: "pr_phase s = Booting [] \<Longrightarrow> proc_step P s (s\<lparr>pr_phase := Waiting\<rparr>)"
| killed: "pr_phase s = Booting bs \<Longrightarrow> proc_step P s (s\<lparr>pr_phase := Killed\<rparr>)"
| signal: "pr_phase s = Waiting \<Longrightarrow> proc_step P s (s\<lparr>pr_sig := True\<rparr>)"
| caught: "pr_phase s = Waiting \<Longrightarrow> pr_sig s
    \<Longrightarrow> proc_step P s (s\<lparr>pr_phase := Unwinding (concat (map deferred_actions (pr_defers s)))\<rparr>)"
| unwind: "pr_phase s = Unwinding (r # rs)
    \<Longrightarrow> proc_step P s (release_step P r (s\<lparr>pr_phase := Unwinding rs, pr_calls := pr_calls s @ [r]\<rparr>))"
| exit: "pr_phase s = Unwinding [] \<Longrightarrow> proc_step P s (s\<lparr>pr_phase := Exited 0\<rparr>)"
| beacon: "alive s \<Longrightarrow> pr_beacon s > 0 \<Longrightarrow> proc_step P s (announce P s)"
| listen_failed: "alive s \<Longrightarrow> pr_health s \<noteq> None \<or> pr_internal s \<noteq> None \<Longrightarrow> proc_step P s (s\<lparr>pr_phase := Exited 1\<rparr>)"
| outage: "alive s \<Longrightarrow> opened p s \<Longrightarrow> \<not> pr_out s p
    \<Longrightarrow> proc_step P s (link ((pr_out s)(p := True)) (if p = PeerNATS then 0 else pr_tries s) (pr_gave_up s) s)"
| recovery: "alive s \<Longrightarrow> pr_out s p \<Longrightarrow> p \<noteq> PeerNATS \<or> \<not> pr_gave_up s
    \<Longrightarrow> proc_step P s (link ((pr_out s)(p := False)) (pr_tries s) (pr_gave_up s) s)"
| retry: "alive s \<Longrightarrow> pr_nats s \<Longrightarrow> pr_out s PeerNATS \<Longrightarrow> \<not> pr_gave_up s
    \<Longrightarrow> proc_step P s (link (pr_out s) (pr_tries s + 1) (MaxReconnects \<le> pr_tries s + 1) s)"

definition boot_process :: "'w \<Rightarrow> 'w process" where
  "boot_process w = \<lparr>pr_world = w, pr_phase = Booting main_boot, pr_viper = [], pr_level = None,
     pr_state = \<lparr>st_ready = False\<rparr>, pr_health = None, pr_db = False, pr_scan_schema = False, pr_cp_schema = False,
     pr_redis = False, pr_nats = False, pr_chain = None, pr_pending = False, pr_internal = None, pr_subs = [],
     pr_defers = [], pr_beacon = 0, pr_announced = 0, pr_out = (\<lambda>_. False), pr_tries = 0, pr_gave_up = False,
     pr_seen = None, pr_sig = False, pr_calls = []\<rparr>"

section \<open>What start-up has achieved\<close>

fun achieved :: "boot \<Rightarrow> 'w process \<Rightarrow> bool" where
  "achieved StartHealth s = (pr_health s \<noteq> None)"
| "achieved RunPostgres s = pr_db s"
| "achieved MigrateScan s = pr_scan_schema s"
| "achieved MigrateCP s = pr_cp_schema s"
| "achieved ConnectRedis s = pr_redis s"
| "achieved ConnectNATS s = pr_nats s"
| "achieved LoadChains s = (case pr_chain s of None \<Rightarrow> False | Some cfg \<Rightarrow> Validate cfg = None)"
| "achieved NewPending s = pr_pending s"
| "achieved StartInternal s = (pr_internal s \<noteq> None)"
| "achieved Subscribe s = (length (pr_subs s) = 3)"
| "achieved CheckNATS s = (pr_seen s = Some True)"
| "achieved _ s = True"

definition started :: "'w process \<Rightarrow> bool" where
  "started s \<longleftrightarrow> pr_db s \<and> pr_scan_schema s \<and> pr_cp_schema s \<and> pr_redis s \<and> pr_nats s
     \<and> (case pr_chain s of None \<Rightarrow> False | Some cfg \<Rightarrow> Validate cfg = None)
     \<and> pr_pending s \<and> pr_internal s \<noteq> None \<and> length (pr_subs s) = 3 \<and> pr_seen s = Some True"

text \<open>What a statement pushes on the stack of deferred calls.\<close>

fun pushed :: "nat list \<Rightarrow> boot \<Rightarrow> deferred list" where
  "pushed subs StartHealth = [DeferHealth]"
| "pushed subs RunPostgres = [DeferDB]"
| "pushed subs ConnectRedis = [DeferRedis]"
| "pushed subs ConnectNATS = [DeferNATS]"
| "pushed subs StartInternal = [DeferInternal]"
| "pushed subs Subscribe = [DeferSubs subs]"
| "pushed subs _ = []"

lemma fatalOn_cases:
  obtains e w where "m (pr_world s) = (Inl e, w)" "fatalOn m k s = s\<lparr>pr_world := w, pr_phase := Exited 1\<rparr>"
  | x w where "m (pr_world s) = (Inr x, w)" "fatalOn m k s = k x (s\<lparr>pr_world := w\<rparr>)"
proof (cases "m (pr_world s)")
  case (Pair r w)
  then show thesis using that by (cases r) (simp_all add: fatalOn_def)
qed

lemma subscribed: "SubscribeScanEvents P w = (Inr subs, w') \<Longrightarrow> length subs = 3"
  by (auto simp: SubscribeScanEvents_def bindP_def returnP_def split: prod.splits sum.splits)

text \<open>
  A statement either ends the process or adds its own achievement and its deferred call, and undoes
  nothing.
\<close>

definition boot_frame :: "'w process \<Rightarrow> 'w process \<Rightarrow> bool" where
  "boot_frame s s' \<longleftrightarrow> pr_calls s' = pr_calls s \<and> pr_sig s' = pr_sig s \<and> pr_out s' = pr_out s
     \<and> pr_gave_up s' = pr_gave_up s"

definition boot_outcome :: "boot \<Rightarrow> 'w process \<Rightarrow> 'w process \<Rightarrow> bool" where
  "boot_outcome b s s' \<longleftrightarrow> pr_phase s' = pr_phase s \<and> achieved b s'
     \<and> list_all (\<lambda>b'. achieved b' s \<longrightarrow> achieved b' s') main_boot
     \<and> pr_defers s' = pushed (pr_subs s') b @ pr_defers s
     \<and> (b = Subscribe \<or> pr_subs s' = pr_subs s)
     \<and> st_ready (pr_state s') = (st_ready (pr_state s) \<or> b = MarkReady)
     \<and> pr_beacon s' = (if b = StartBeacon then 40 else pr_beacon s)
     \<and> pr_announced s' = pr_announced s \<and> (b = CheckNATS \<or> pr_seen s' = pr_seen s) \<and> boot_frame s s'"

lemmas boot_outcome_simps = boot_outcome_def boot_frame_def main_boot_def push_defer_def SetReady_def Let_def

lemma boot_outcome_fatalOn:
  assumes "\<And>x w. m (pr_world s) = (Inr x, w) \<Longrightarrow> boot_outcome b s (k x (s\<lparr>pr_world := w\<rparr>))"
  shows "pr_phase (fatalOn m k s) = Exited 1 \<and> pr_beacon (fatalOn m k s) = pr_beacon s
      \<and> pr_announced (fatalOn m k s) = pr_announced s \<and> boot_frame s (fatalOn m k s)
    \<or> boot_outcome b s (fatalOn m k s)"
  by (rule fatalOn_cases [of m s k]) (simp_all add: assms boot_frame_def)

lemma boot_step_outcome:
  "pr_phase (boot_step P b s) = Exited 1 \<and> pr_beacon (boot_step P b s) = pr_beacon s
      \<and> pr_announced (boot_step P b s) = pr_announced s \<and> boot_frame s (boot_step P b s)
   \<or> boot_outcome b s (boot_step P b s)"
proof (cases b)
  case RunPostgres
  show ?thesis unfolding RunPostgres boot_step.simps by (rule boot_outcome_fatalOn) (simp add: boot_outcome_simps)
next
  case MigrateScan
  show ?thesis unfolding MigrateScan boot_step.simps by (rule boot_outcome_fatalOn) (simp add: boot_outcome_simps)
next
  case MigrateCP
  show ?thesis unfolding MigrateCP boot_step.simps by (rule boot_outcome_fatalOn) (simp add: boot_outcome_simps)
next
  case ConnectRedis
  show ?thesis unfolding ConnectRedis boot_step.simps by (rule boot_outcome_fatalOn) (simp add: boot_outcome_simps)
next
  case ConnectNATS
  show ?thesis unfolding ConnectNATS boot_step.simps by (rule boot_outcome_fatalOn) (simp add: boot_outcome_simps)
next
  case LoadChains
  show ?thesis unfolding LoadChains boot_step.simps
    by (rule boot_outcome_fatalOn) (simp add: boot_outcome_simps LoadChainConfig_valid)
next
  case Subscribe
  show ?thesis unfolding Subscribe boot_step.simps
    by (rule boot_outcome_fatalOn) (simp add: boot_outcome_simps subscribed)
next
  case CheckNATS
  then show ?thesis by (simp add: boot_outcome_simps)
qed (simp_all add: boot_outcome_simps)

section \<open>The invariant of the process\<close>

definition stack_after :: "nat list \<Rightarrow> boot list \<Rightarrow> deferred list" where
  "stack_after subs ds = rev (concat (map (pushed subs) ds))"

definition unwinding :: "nat list \<Rightarrow> release list" where
  "unwinding subs = concat (map deferred_actions (stack_after subs main_boot))"

lemma unwinding_order:
  "unwinding subs = NotReady # map Unsubscribe subs
     @ [ShutdownInternal, CloseNATS, CloseRedis, ShutdownDB, NotReady, ShutdownHealth]"
  by (simp add: unwinding_def stack_after_def main_boot_def)

fun released :: "release \<Rightarrow> 'w process \<Rightarrow> bool" where
  "released NotReady s = (\<not> st_ready (pr_state s))"
| "released (Unsubscribe i) s = (i \<notin> set (pr_subs s))"
| "released ShutdownInternal s = (pr_internal s = None)"
| "released CloseNATS s = (\<not> pr_nats s)"
| "released CloseRedis s = (\<not> pr_redis s)"
| "released ShutdownDB s = (\<not> pr_db s)"
| "released ShutdownHealth s = (pr_health s = None)"

text \<open>The whole unwinding is ahead, behind, or cut in two by the calls made.\<close>

definition shutdown_of :: "nat list \<Rightarrow> 'w process \<Rightarrow> bool" where
  "shutdown_of subs s \<longleftrightarrow> length subs = 3 \<and> set (pr_subs s) \<subseteq> set subs
     \<and> pr_defers s = stack_after subs main_boot \<and> (\<forall>r\<in>set (pr_calls s). released r s) \<and> pr_sig s"

definition proc_inv :: "'w process \<Rightarrow> bool" where
  "proc_inv s \<longleftrightarrow>
     (case pr_phase s of
        Booting bs \<Rightarrow> \<exists>ds. main_boot = ds @ bs \<and> (\<forall>b\<in>set ds. achieved b s) \<and> pr_defers s = stack_after (pr_subs s) ds
          \<and> st_ready (pr_state s) = (MarkReady \<in> set ds) \<and> pr_calls s = []
          \<and> pr_announced s + pr_beacon s = (if StartBeacon \<in> set ds then 40 else 0)
      | Waiting \<Rightarrow> (\<forall>b\<in>set main_boot. achieved b s) \<and> pr_defers s = stack_after (pr_subs s) main_boot
          \<and> st_ready (pr_state s) \<and> pr_calls s = [] \<and> pr_announced s + pr_beacon s = 40
      | Unwinding rs \<Rightarrow> (\<exists>subs. shutdown_of subs s \<and> unwinding subs = pr_calls s @ rs)
          \<and> (pr_calls s = [] \<longrightarrow> (\<forall>b\<in>set main_boot. achieved b s)) \<and> pr_announced s + pr_beacon s = 40
      | Exited c \<Rightarrow> (c = 0 \<longrightarrow> (\<exists>subs. shutdown_of subs s \<and> pr_calls s = unwinding subs))
          \<and> (\<exists>subs rest. length subs = 3 \<and> unwinding subs = pr_calls s @ rest) \<and> pr_announced s + pr_beacon s \<le> 40
      | Killed \<Rightarrow> pr_calls s = [] \<and> pr_announced s + pr_beacon s \<le> 40)"

lemma main_boot_split:
  assumes "main_boot = ds @ b # bs"
  shows "b \<notin> set ds"
proof -
  have "distinct main_boot" by (simp add: main_boot_def)
  then show ?thesis unfolding assms by simp
qed

lemma pushed_subs: "b \<noteq> Subscribe \<Longrightarrow> pushed subs b = pushed subs' b"
  by (cases b) simp_all

lemma stack_subs: "Subscribe \<notin> set ds \<Longrightarrow> stack_after subs ds = stack_after subs' ds"
  unfolding stack_after_def by (induction ds) (auto simp: pushed_subs [of _ subs subs'])

lemma proc_inv_outcome:
  assumes ds: "main_boot = ds @ b # bs" "\<forall>b'\<in>set ds. achieved b' s" "pr_defers s = stack_after (pr_subs s) ds"
      "st_ready (pr_state s) = (MarkReady \<in> set ds)" "pr_calls s = []"
      "pr_announced s + pr_beacon s = (if StartBeacon \<in> set ds then 40 else 0)"
    and s: "pr_phase s = Booting bs" and out: "boot_outcome b s s'"
  shows "proc_inv s'"
proof -
  have b: "b \<notin> set ds" using main_boot_split [OF ds(1)] .
  have "set ds \<subseteq> set main_boot" unfolding ds(1) by auto
  then have "\<forall>b'\<in>set (ds @ [b]). achieved b' s'"
    using out ds(2) by (auto simp: boot_outcome_def list_all_iff)
  moreover have "pr_defers s' = stack_after (pr_subs s') (ds @ [b])"
  proof -
    have "stack_after (pr_subs s) ds = stack_after (pr_subs s') ds"
      using out b stack_subs [of ds "pr_subs s" "pr_subs s'"] by (cases "b = Subscribe") (auto simp: boot_outcome_def)
    moreover have "rev (pushed subs b) = pushed subs b" for subs by (cases b) simp_all
    ultimately show ?thesis using out ds(3) by (simp add: boot_outcome_def stack_after_def)
  qed
  moreover have "st_ready (pr_state s') = (MarkReady \<in> set (ds @ [b]))" using out ds(4) by (auto simp: boot_outcome_def)
  moreover have "pr_calls s' = []" using out ds(5) by (simp add: boot_outcome_def boot_frame_def)
  moreover have "pr_announced s' + pr_beacon s' = (if StartBeacon \<in> set (ds @ [b]) then 40 else 0)"
    using out ds(6) b by (auto simp: boot_outcome_def)
  moreover have "pr_phase s' = Booting bs" "main_boot = (ds @ [b]) @ bs" using out s ds(1) by (simp_all add: boot_outcome_def)
  ultimately show ?thesis unfolding proc_inv_def by (auto simp del: set_append intro!: exI [of _ "ds @ [b]"])
qed

lemma three_subs: "\<exists>subs :: nat list. length subs = 3"
  by (rule exI [of _ "[0, 0, 0]"]) simp

lemma proc_inv_boot:
  assumes inv: "proc_inv s" and s: "pr_phase s = Booting (b # bs)"
  shows "proc_inv (boot_step P b (s\<lparr>pr_phase := Booting bs\<rparr>))"
proof -
  have same: "achieved b' (s\<lparr>pr_phase := Booting bs\<rparr>) = achieved b' s" for b' by (cases b') simp_all
  obtain ds where ds: "main_boot = ds @ b # bs" "\<forall>b'\<in>set ds. achieved b' s" "pr_defers s = stack_after (pr_subs s) ds"
      "st_ready (pr_state s) = (MarkReady \<in> set ds)" "pr_calls s = []"
      "pr_announced s + pr_beacon s = (if StartBeacon \<in> set ds then 40 else 0)"
    using inv s by (auto simp: proc_inv_def)
  from boot_step_outcome [of P b "s\<lparr>pr_phase := Booting bs\<rparr>"] show ?thesis
  proof
    assume "pr_phase (boot_step P b (s\<lparr>pr_phase := Booting bs\<rparr>)) = Exited 1
      \<and> pr_beacon (boot_step P b (s\<lparr>pr_phase := Booting bs\<rparr>)) = pr_beacon (s\<lparr>pr_phase := Booting bs\<rparr>)
      \<and> pr_announced (boot_step P b (s\<lparr>pr_phase := Booting bs\<rparr>)) = pr_announced (s\<lparr>pr_phase := Booting bs\<rparr>)
      \<and> boot_frame (s\<lparr>pr_phase := Booting bs\<rparr>) (boot_step P b (s\<lparr>pr_phase := Booting bs\<rparr>))"
    with ds(5,6) three_subs show ?thesis by (auto simp: proc_inv_def boot_frame_def)
  qed (rule proc_inv_outcome [of ds b bs "s\<lparr>pr_phase := Booting bs\<rparr>"]; use ds same in simp)
qed

lemma released_step: "released r (release_step P r s)"
  by (cases r) (simp_all add: SetReady_def)

lemma released_kept: "released r s \<Longrightarrow> released r (release_step P r' s)"
  by (cases r; cases r') (simp_all add: SetReady_def)

lemma release_frame:
  "set (pr_subs (release_step P r s)) \<subseteq> set (pr_subs s)" "pr_phase (release_step P r s) = pr_phase s"
  "pr_announced (release_step P r s) = pr_announced s" "pr_beacon (release_step P r s) = pr_beacon s"
  by (cases r; auto)+

lemma release_log:
  "pr_calls (release_step P r s) = pr_calls s" "pr_defers (release_step P r s) = pr_defers s"
  "pr_sig (release_step P r s) = pr_sig s" "pr_seen (release_step P r s) = pr_seen s"
  by (cases r; simp)+

lemma phase_only:
  "achieved b (s\<lparr>pr_phase := p\<rparr>) = achieved b s" "released r (s\<lparr>pr_phase := p\<rparr>) = released r s"
  "released r (s\<lparr>pr_phase := p, pr_calls := cs\<rparr>) = released r s"
  "achieved b (s\<lparr>pr_sig := q\<rparr>) = achieved b s"
proof -
  show "achieved b (s\<lparr>pr_phase := p\<rparr>) = achieved b s" "achieved b (s\<lparr>pr_sig := q\<rparr>) = achieved b s"
    by (cases b; simp)+
  show "released r (s\<lparr>pr_phase := p\<rparr>) = released r s" "released r (s\<lparr>pr_phase := p, pr_calls := cs\<rparr>) = released r s"
    by (cases r; simp)+
qed

lemma proc_inv_unwind:
  assumes inv: "proc_inv s" and s: "pr_phase s = Unwinding (r # rs)"
  shows "proc_inv (release_step P r (s\<lparr>pr_phase := Unwinding rs, pr_calls := pr_calls s @ [r]\<rparr>))"
proof -
  obtain subs where subs: "shutdown_of subs s" "unwinding subs = pr_calls s @ r # rs" "pr_announced s + pr_beacon s = 40"
    using inv s by (auto simp: proc_inv_def)
  let ?s = "s\<lparr>pr_phase := Unwinding rs, pr_calls := pr_calls s @ [r]\<rparr>"
  let ?s' = "release_step P r ?s"
  have "released q ?s'" if "q \<in> set (pr_calls s @ [r])" for q
    using that subs(1) released_step [of r P ?s] released_kept [of q ?s P r] by (auto simp: phase_only shutdown_of_def)
  moreover have "set (pr_subs ?s') \<subseteq> set subs"
    using subs(1) release_frame(1) [of P r ?s] by (auto simp: shutdown_of_def)
  ultimately have "shutdown_of subs ?s'"
    using subs(1) by (simp add: shutdown_of_def release_log)
  then show ?thesis
    using subs(2,3) unfolding proc_inv_def by (auto simp: release_frame release_log intro!: exI [of _ subs])
qed

lemma announce_frame:
  "achieved b (announce P s) = achieved b s" "released r (announce P s) = released r s"
  "pr_phase (announce P s) = pr_phase s" "pr_defers (announce P s) = pr_defers s" "pr_subs (announce P s) = pr_subs s"
  "pr_state (announce P s) = pr_state s" "pr_calls (announce P s) = pr_calls s" "pr_sig (announce P s) = pr_sig s"
  "pr_seen (announce P s) = pr_seen s"
  "pr_beacon s > 0 \<Longrightarrow> pr_announced (announce P s) + pr_beacon (announce P s) = pr_announced s + pr_beacon s"
proof -
  obtain r' w where "pf_Publish P (pf_SubjectPersistenceReady P) (pf_ReadyPayload P) (pr_world s) = (r', w)" by fastforce
  then have w: "announce P s = s\<lparr>pr_world := w, pr_beacon := pr_beacon s - 1, pr_announced := pr_announced s + 1\<rparr>"
    by (simp add: announce_def)
  show "achieved b (announce P s) = achieved b s" unfolding w by (cases b) simp_all
  show "released r (announce P s) = released r s" unfolding w by (cases r) simp_all
qed (simp_all add: announce_def split: prod.split)

lemma proc_inv_announce: "proc_inv s \<Longrightarrow> pr_beacon s > 0 \<Longrightarrow> proc_inv (announce P s)"
  by (simp only: proc_inv_def shutdown_of_def announce_frame)

lemma link_frame:
  "achieved b (link out n g s) = achieved b s" "released r (link out n g s) = released r s"
  "pr_phase (link out n g s) = pr_phase s" "pr_defers (link out n g s) = pr_defers s" "pr_subs (link out n g s) = pr_subs s"
  "pr_state (link out n g s) = pr_state s" "pr_calls (link out n g s) = pr_calls s" "pr_sig (link out n g s) = pr_sig s"
  "pr_seen (link out n g s) = pr_seen s" "pr_announced (link out n g s) = pr_announced s"
  "pr_beacon (link out n g s) = pr_beacon s" "pr_health (link out n g s) = pr_health s"
proof -
  show "achieved b (link out n g s) = achieved b s" by (cases b) (simp_all add: link_def)
  show "released r (link out n g s) = released r s" by (cases r) (simp_all add: link_def)
qed (simp_all add: link_def)

lemma proc_inv_link: "proc_inv (link out n g s) = proc_inv s"
  by (simp only: proc_inv_def shutdown_of_def link_frame)

lemma proc_inv_calls: "proc_inv s \<Longrightarrow> \<exists>subs rest. length subs = 3 \<and> unwinding subs = pr_calls s @ rest"
  using three_subs by (fastforce simp: proc_inv_def shutdown_of_def split: phase.splits)

lemma proc_inv_ended: "proc_inv s \<Longrightarrow> proc_inv (s\<lparr>pr_phase := Exited 1\<rparr>)"
proof -
  assume inv: "proc_inv s"
  have "pr_announced s + pr_beacon s \<le> 40"
    using inv by (auto simp: proc_inv_def split: phase.splits if_splits)
  with proc_inv_calls [OF inv] show ?thesis by (simp add: proc_inv_def)
qed

lemma proc_inv_killed: "proc_inv s \<Longrightarrow> pr_phase s = Booting bs \<Longrightarrow> proc_inv (s\<lparr>pr_phase := Killed\<rparr>)"
  by (auto simp: proc_inv_def split: if_splits)

lemma proc_inv_caught:
  assumes "proc_inv s" "pr_phase s = Waiting" "pr_sig s"
  shows "proc_inv (s\<lparr>pr_phase := Unwinding (concat (map deferred_actions (pr_defers s)))\<rparr>)"
proof -
  have inv: "\<forall>b\<in>set main_boot. achieved b s" "pr_defers s = stack_after (pr_subs s) main_boot" "pr_calls s = []"
      "pr_announced s + pr_beacon s = 40"
    using assms(1,2) by (simp_all add: proc_inv_def)
  then have "length (pr_subs s) = 3" by (simp add: main_boot_def)
  with inv assms(3) show ?thesis
    by (auto simp: proc_inv_def shutdown_of_def phase_only unwinding_def intro!: exI [of _ "pr_subs s"])
qed

lemma proc_inv_step: "proc_step P s s' \<Longrightarrow> proc_inv s \<Longrightarrow> proc_inv s'"
proof (induction rule: proc_step.induct)
  case (boot s b bs)
  then show ?case by (simp add: proc_inv_boot)
next
  case (wait s)
  then show ?case by (auto simp: proc_inv_def phase_only main_boot_def)
next
  case (signal s)
  then show ?case by (simp add: proc_inv_def phase_only)
next
  case (unwind s r rs)
  then show ?case by (simp add: proc_inv_unwind)
next
  case (exit s)
  then show ?case by (force simp: proc_inv_def shutdown_of_def phase_only)
qed (simp_all add: proc_inv_announce proc_inv_ended proc_inv_killed proc_inv_caught proc_inv_link)

lemma proc_inv_start: "proc_inv (boot_process w)"
  by (simp add: proc_inv_def boot_process_def stack_after_def)

lemma proc_inv_reachable: "(proc_step P)\<^sup>*\<^sup>* (boot_process w) s \<Longrightarrow> proc_inv s"
  by (induction rule: rtranclp_induct) (auto simp: proc_inv_start intro: proc_inv_step)

section \<open>Properties of the process\<close>

lemma ready_done:
  assumes "main_boot = ds @ bs" "MarkReady \<in> set ds"
  shows "set (take 13 main_boot) \<subseteq> set ds"
proof -
  have ds: "ds = take (length ds) main_boot" by (subst assms(1)) simp
  have "\<not> length ds \<le> 13"
  proof
    assume "length ds \<le> 13"
    then have "set ds \<subseteq> set (take 13 main_boot)" by (subst ds) (rule set_take_subset_set_take)
    with assms(2) show False by (auto simp: main_boot_def)
  qed
  then show ?thesis using set_take_subset_set_take [of 13 "length ds" main_boot] ds by simp
qed

lemma started_achieved: "\<forall>b\<in>set (take 13 main_boot). achieved b s \<Longrightarrow> started s"
  by (simp add: started_def main_boot_def)

lemma ready_started:
  assumes inv: "proc_inv s" and alive: "alive s" and ready: "st_ready (pr_state s)"
  shows "started s \<and> pr_calls s = []"
proof -
  have sub: "set (take 13 main_boot) \<subseteq> set main_boot" by (rule set_take_subset)
  consider bs where "pr_phase s = Booting bs" | "pr_phase s = Waiting" | rs where "pr_phase s = Unwinding rs"
    using alive by (auto simp: alive_def split: phase.splits)
  then show ?thesis
  proof cases
    case 1
    then obtain ds where "main_boot = ds @ bs" "\<forall>b\<in>set ds. achieved b s" "MarkReady \<in> set ds" "pr_calls s = []"
      using inv ready by (auto simp: proc_inv_def)
    with ready_done [of ds bs] show ?thesis by (intro conjI started_achieved) blast+
  next
    case 2
    with inv have "\<forall>b\<in>set main_boot. achieved b s" "pr_calls s = []" by (simp_all add: proc_inv_def)
    with sub show ?thesis by (intro conjI started_achieved) blast+
  next
    case (3 rs)
    then obtain subs where subs: "shutdown_of subs s" "unwinding subs = pr_calls s @ rs"
        "pr_calls s = [] \<longrightarrow> (\<forall>b\<in>set main_boot. achieved b s)"
      using inv by (auto simp: proc_inv_def)
    have "pr_calls s = []"
    proof (rule ccontr)
      assume "pr_calls s \<noteq> []"
      with subs(2) have "NotReady \<in> set (pr_calls s)" unfolding unwinding_order by (cases "pr_calls s") auto
      with subs(1) ready show False by (auto simp: shutdown_of_def)
    qed
    with subs(3) sub show ?thesis by (intro conjI started_achieved) blast+
  qed
qed

text \<open>The answer of the readiness probe, as long as the health server listens.\<close>

definition ready_probe :: "'w process \<Rightarrow> gotime \<Rightarrow> int option" where
  "ready_probe s now =
     (if alive s \<and> pr_health s \<noteq> None then Some (resp_Status (health_NewServer (pr_state s) now [''ready''])) else None)"

lemma waiting_ready:
  assumes "proc_inv s" "pr_phase s = Waiting"
  shows "ready_probe s now = Some StatusOK"
proof -
  have "\<forall>b\<in>set main_boot. achieved b s" "st_ready (pr_state s)" using assms by (simp_all add: proc_inv_def)
  then show ?thesis using assms(2) by (simp add: ready_probe_def alive_def main_boot_def)
qed

text \<open>
  C13. What the readiness probe means. In every state the process can reach, whichever call fails,
  whenever a signal arrives, however the goroutines interleave and whichever server is lost, an answer
  200 means that start-up was completed (the database was opened, both schemas were migrated, Redis
  and NATS were connected, the chain configuration is loaded and valid, the internal server was
  started, all three subscriptions were made, and NATS then reported to be connected) and that
  shutdown has released nothing yet; and while the process waits for a signal the answer is 200. So
  readiness is about start-up and shutdown: the probe does not look at the connections again.
\<close>

theorem ready_means_started:
  assumes reach: "(proc_step P)\<^sup>*\<^sup>* (boot_process w) s"
  shows "(ready_probe s now = Some StatusOK \<longrightarrow> started s \<and> pr_calls s = [])
       \<and> (pr_phase s = Waiting \<longrightarrow> ready_probe s now = Some StatusOK)"
proof (intro conjI impI)
  assume probe: "ready_probe s now = Some StatusOK"
  have "alive s" "st_ready (pr_state s)"
    using probe by (auto simp: ready_probe_def StatusOK_def StatusServiceUnavailable_def split: if_splits)
  from ready_started [OF proc_inv_reachable [OF reach] this] show "started s" "pr_calls s = []" by simp_all
next
  assume "pr_phase s = Waiting"
  then show "ready_probe s now = Some StatusOK" by (rule waiting_ready [OF proc_inv_reachable [OF reach]])
qed

text \<open>
  C16. A graceful exit releases everything. When the process exits with status 0, it is not ready any
  more, no subscription is left, and the internal server, NATS, Redis, the database and the health
  server have all been shut down.
\<close>

theorem graceful_exit_releases_all:
  assumes reach: "(proc_step P)\<^sup>*\<^sup>* (boot_process w) s" and code: "pr_phase s = Exited 0"
  shows "\<not> st_ready (pr_state s) \<and> pr_subs s = [] \<and> pr_internal s = None \<and> \<not> pr_nats s \<and> \<not> pr_redis s
    \<and> \<not> pr_db s \<and> pr_health s = None"
proof -
  obtain subs where subs: "set (pr_subs s) \<subseteq> set subs" "\<forall>r\<in>set (unwinding subs). released r s"
    using proc_inv_reachable [OF reach] code by (auto simp: proc_inv_def shutdown_of_def)
  then have "set (pr_subs s) = {}" by (intro equals0I) (auto simp: unwinding_order)
  with subs(2) show ?thesis by (simp add: unwinding_order)
qed

subsection \<open>The order of the shutdown\<close>

text \<open>Readiness is announced only after NATS was found connected.\<close>

definition beacon_inv :: "'w process \<Rightarrow> bool" where
  "beacon_inv s \<longleftrightarrow> (pr_announced s + pr_beacon s > 0 \<longrightarrow> pr_seen s = Some True)"

lemma beacon_inv_boot:
  assumes inv: "proc_inv s" and s: "pr_phase s = Booting (b # bs)"
  shows "beacon_inv (boot_step P b (s\<lparr>pr_phase := Booting bs\<rparr>))"
proof -
  let ?s = "s\<lparr>pr_phase := Booting bs\<rparr>"
  obtain ds where ds: "main_boot = ds @ b # bs" "\<forall>b\<in>set ds. achieved b s"
      "pr_announced s + pr_beacon s = (if StartBeacon \<in> set ds then 40 else 0)"
    using inv s by (auto simp: proc_inv_def)
  have "StartBeacon \<notin> set ds" using ds(1) by (auto simp: main_boot_def Cons_eq_append_conv)
  with ds(3) have none: "pr_announced s = 0" "pr_beacon s = 0" by simp_all
  have seen: "pr_seen s = Some True" if "b = StartBeacon"
  proof -
    have "CheckNATS \<in> set ds" using ds(1) that by (auto simp: main_boot_def Cons_eq_append_conv)
    with ds(2) have "achieved CheckNATS s" by blast
    then show ?thesis by simp
  qed
  from boot_step_outcome [of P b ?s] show ?thesis
    using none seen by (cases "b = StartBeacon") (auto simp: beacon_inv_def boot_outcome_def)
qed

lemma beacon_inv_step: "proc_step P s s' \<Longrightarrow> proc_inv s \<Longrightarrow> beacon_inv s \<Longrightarrow> beacon_inv s'"
proof (induction rule: proc_step.induct)
  case (boot s b bs)
  then show ?case by (simp add: beacon_inv_boot)
qed (auto simp: beacon_inv_def release_frame release_log announce_frame link_frame)

lemma beacon_inv_reachable: "(proc_step P)\<^sup>*\<^sup>* (boot_process w) s \<Longrightarrow> beacon_inv s"
proof (induction rule: rtranclp_induct)
  case base
  then show ?case by (simp add: beacon_inv_def boot_process_def)
next
  case (step y z)
  from beacon_inv_step [OF step.hyps(2) proc_inv_reachable [OF step.hyps(1)] step.IH] show ?case .
qed

lemma three_list: "length xs = 3 \<Longrightarrow> \<exists>i j k. xs = [i, j, k]"
  by (auto simp: numeral_3_eq_3 length_Suc_conv)

text \<open>The calls of a graceful shutdown.\<close>

definition shutdown_sequence :: "nat \<Rightarrow> nat \<Rightarrow> nat \<Rightarrow> release list" where
  "shutdown_sequence i j k = [NotReady, Unsubscribe i, Unsubscribe j, Unsubscribe k, ShutdownInternal, CloseNATS,
     CloseRedis, ShutdownDB, NotReady, ShutdownHealth]"

text \<open>
  C14. A graceful shutdown happens on a signal only and in one order. When the process has exited with
  status 0, a signal was received, and the deferred calls it has made are exactly these: readiness
  withdrawn, the three subscriptions that start-up made cancelled, the internal server shut down, NATS,
  Redis and the database closed, readiness withdrawn again, the health server shut down. At every
  moment, a failing listener that ends the shutdown early included, the calls made are the first ones
  of this sequence, and before the signal is received there are none. Readiness is announced at most 40
  times and only after NATS was found connected; while the process waits, the announcements made and
  those still to come are 40.
\<close>

theorem shutdown_order:
  assumes reach: "(proc_step P)\<^sup>*\<^sup>* (boot_process w) s"
  shows "(pr_phase s = Exited 0 \<longrightarrow> pr_sig s
            \<and> (\<exists>i j k. DeferSubs [i, j, k] \<in> set (pr_defers s) \<and> pr_calls s = shutdown_sequence i j k))
       \<and> (\<exists>i j k rest. shutdown_sequence i j k = pr_calls s @ rest)
       \<and> (case pr_phase s of Booting _ \<Rightarrow> pr_calls s = []
            | Waiting \<Rightarrow> pr_calls s = [] \<and> pr_announced s + pr_beacon s = 40 | _ \<Rightarrow> True)
       \<and> pr_announced s \<le> 40 \<and> (0 < pr_announced s \<longrightarrow> pr_seen s = Some True)"
proof (intro conjI impI)
  note inv = proc_inv_reachable [OF reach]
  have seq: "unwinding [i, j, k] = shutdown_sequence i j k" for i j k by (simp add: unwinding_order shutdown_sequence_def)
  have stack: "DeferSubs subs \<in> set (stack_after subs main_boot)" for subs
    by (simp add: stack_after_def main_boot_def)
  {
    assume "pr_phase s = Exited 0"
    with inv obtain subs where subs: "shutdown_of subs s" "pr_calls s = unwinding subs" by (auto simp: proc_inv_def)
    then show "pr_sig s" by (simp add: shutdown_of_def)
    from subs(1) obtain i j k where ijk: "subs = [i, j, k]" using three_list [of subs] by (auto simp: shutdown_of_def)
    with subs stack [of subs] seq show "\<exists>i j k. DeferSubs [i, j, k] \<in> set (pr_defers s) \<and> pr_calls s = shutdown_sequence i j k"
      by (auto simp: shutdown_of_def)
  }
  from proc_inv_calls [OF inv] obtain subs rest where "length subs = 3" "unwinding subs = pr_calls s @ rest" by blast
  with three_list [of subs] seq show "\<exists>i j k rest. shutdown_sequence i j k = pr_calls s @ rest" by metis
  show "case pr_phase s of Booting _ \<Rightarrow> pr_calls s = []
      | Waiting \<Rightarrow> pr_calls s = [] \<and> pr_announced s + pr_beacon s = 40 | _ \<Rightarrow> True"
    using inv by (auto simp: proc_inv_def split: phase.splits)
  show "pr_announced s \<le> 40" using inv by (auto simp: proc_inv_def split: phase.splits if_splits)
  show "pr_seen s = Some True" if "0 < pr_announced s"
    using beacon_inv_reachable [OF reach] that by (simp add: beacon_inv_def)
qed

subsection \<open>A start without failures\<close>

definition never_fails :: "('w, 'e, 'a) prog \<Rightarrow> bool" where
  "never_fails m \<longleftrightarrow> (\<forall>w. \<exists>x w'. m w = (Inr x, w'))"

lemma never_failsE:
  assumes "never_fails m"
  obtains x w' where "m w = (Inr x, w')"
  using assms unfolding never_fails_def by blast

lemma never_fails_bind:
  assumes "never_fails m" "\<And>x. never_fails (f x)"
  shows "never_fails (bindP m f)"
  unfolding never_fails_def
proof
  fix w
  obtain x w' where "m w = (Inr x, w')" using assms(1) by (rule never_failsE)
  moreover obtain y w'' where "f x w' = (Inr y, w'')" using assms(2) by (rule never_failsE)
  ultimately show "\<exists>y w''. bindP m f w = (Inr y, w'')" by (simp add: bindP_def)
qed

lemma never_fails_return: "never_fails (returnP x)"
  by (simp add: never_fails_def returnP_def)

lemma never_fails_catch:
  assumes "never_fails m"
  shows "never_fails (catchP m h)"
  unfolding never_fails_def
proof
  fix w
  obtain x w' where "m w = (Inr x, w')" using assms by (rule never_failsE)
  then show "\<exists>y w''. catchP m h w = (Inr y, w'')" by (simp add: catchP_def)
qed

lemma never_fails_mapErr: "never_fails m \<Longrightarrow> never_fails (mapErrP f m)"
  unfolding mapErrP_def by (rule never_fails_catch)

text \<open>Every call of the platform succeeds, and the chain file is there and valid.\<close>

definition healthy :: "'w platform \<Rightarrow> bool" where
  "healthy P \<longleftrightarrow>
     (\<forall>dsn. never_fails (pf_gormOpen P dsn))
     \<and> (\<forall>q. never_fails (db_Exec (pf_ddl P) q)) \<and> (\<forall>es. never_fails (db_AutoMigrate (pf_ddl P) es))
     \<and> (\<forall>t. never_fails (db_TableQuery (pf_ddl P) t)) \<and> (\<forall>t c. never_fails (db_ColumnQuery (pf_ddl P) t c))
     \<and> (\<forall>url. \<not> isl (pf_ParseURL P url)) \<and> (\<forall>opt. never_fails (pf_Ping P opt))
     \<and> (\<forall>url. never_fails (pf_natsConnect P url))
     \<and> (\<forall>s q. never_fails (pf_QueueSubscribe P s q))
     \<and> never_fails (LoadChainConfig (pf_ReadFile P) (pf_Unmarshal P) (chain_config_path (pf_getenv P)))"

lemma never_fails_exec_all: "(\<And>q. never_fails (db_Exec D q)) \<Longrightarrow> never_fails (exec_all D what qs)"
  by (induction qs) (simp_all add: never_fails_return never_fails_bind never_fails_mapErr)

lemma never_fails_migrations:
  assumes "healthy P"
  shows "never_fails (MigrateScanSchema (pf_ddl P))" "never_fails (MigrateCPSchema (pf_ddl P))"
proof -
  let ?D = "pf_ddl P"
  have ok: "\<And>q. never_fails (db_Exec ?D q)" "\<And>es. never_fails (db_AutoMigrate ?D es)"
      "\<And>t. never_fails (db_TableQuery ?D t)" "\<And>t c. never_fails (db_ColumnQuery ?D t c)"
    using assms by (simp_all add: healthy_def)
  have asks: "never_fails (tableExists ?D t)" "never_fails (columnExists ?D t c)" for t c
    using ok(3,4) by (auto simp: tableExists_def columnExists_def never_fails_def split: prod.split)
  show "never_fails (MigrateScanSchema ?D)"
    unfolding MigrateScanSchema_def by (intro never_fails_bind never_fails_mapErr never_fails_exec_all ok)
  have "never_fails (resetCryptoPoliciesIfLegacy ?D)"
    unfolding resetCryptoPoliciesIfLegacy_def
    by (simp add: never_fails_bind never_fails_mapErr never_fails_return asks ok)
  moreover have "never_fails (dropLegacyDraftIDColumn ?D)"
    unfolding dropLegacyDraftIDColumn_def
    by (simp add: never_fails_bind never_fails_mapErr never_fails_return never_fails_catch asks ok)
  ultimately show "never_fails (MigrateCPSchema ?D)"
    unfolding MigrateCPSchema_def by (intro never_fails_bind never_fails_mapErr never_fails_exec_all ok)
qed

lemma fatalOn_ok:
  assumes "never_fails m" "\<And>x s. pr_phase (k x s) = pr_phase s"
  shows "pr_phase (fatalOn m k s) = pr_phase s"
proof -
  obtain x w where "m (pr_world s) = (Inr x, w)" using assms(1) by (rule never_failsE)
  then show ?thesis by (simp add: fatalOn_def assms(2))
qed

lemma boot_step_ok:
  assumes ok: "healthy P" and redis: "b = NewPending \<Longrightarrow> pr_redis s" and conn: "b = CheckNATS \<Longrightarrow> nats_IsConnected s"
  shows "pr_phase (boot_step P b s) = pr_phase s"
proof -
  have url: "\<not> isl (pf_ParseURL P u)" and ping: "never_fails (pf_Ping P opt)" for u opt
    using ok by (simp_all add: healthy_def)
  have "never_fails (case pf_ParseURL P u of Inl err \<Rightarrow> throwP (f err) | Inr opt \<Rightarrow> mapErrP g (pf_Ping P opt))"
    for u and f :: "string \<Rightarrow> go_error" and g
    using url [of u] by (cases "pf_ParseURL P u") (simp_all add: never_fails_mapErr ping)
  then have redis_ok: "never_fails (redis_New P get)" for get by (simp add: redis_New_def Let_def)
  have calls: "never_fails (postgres_Run P dsn)" "never_fails (nats_New P get)" "never_fails (SubscribeScanEvents P)" for dsn get
    using ok unfolding postgres_Run_def nats_New_def SubscribeScanEvents_def Let_def healthy_def
    by (intro never_fails_bind never_fails_mapErr never_fails_return; simp)+
  have load: "never_fails (LoadChainConfig (pf_ReadFile P) (pf_Unmarshal P) (chain_config_path (pf_getenv P)))"
    using ok by (simp add: healthy_def)
  show ?thesis
    by (cases b)
      (simp_all add: fatalOn_ok calls redis_ok load never_fails_migrations [OF ok] push_defer_def redis conn Let_def)
qed

lemma boot_completes:
  assumes ok: "healthy P"
  shows "(proc_step P)\<^sup>*\<^sup>* (boot_process w) s \<Longrightarrow> pr_phase s = Booting bs \<Longrightarrow> pr_out s = (\<lambda>_. False) \<Longrightarrow> \<not> pr_gave_up s
    \<Longrightarrow> \<exists>s'. (proc_step P)\<^sup>*\<^sup>* (boot_process w) s' \<and> pr_phase s' = Booting [] \<and> pr_out s' = (\<lambda>_. False) \<and> \<not> pr_gave_up s'"
proof (induction bs arbitrary: s)
  case Nil
  then show ?case by auto
next
  case (Cons b bs)
  let ?s = "s\<lparr>pr_phase := Booting bs\<rparr>"
  let ?s' = "boot_step P b ?s"
  obtain ds where ds: "main_boot = ds @ b # bs" "\<forall>b\<in>set ds. achieved b s"
    using proc_inv_reachable [OF Cons.prems(1)] Cons.prems(2) by (auto simp: proc_inv_def)
  have "pr_redis s" if b: "b = NewPending"
  proof -
    have "ConnectRedis \<in> set ds"
      using ds(1) unfolding b by (auto simp: main_boot_def Cons_eq_append_conv)
    with ds(2) show ?thesis by fastforce
  qed
  moreover have "nats_IsConnected s" if b: "b = CheckNATS"
  proof -
    have "ConnectNATS \<in> set ds"
      using ds(1) unfolding b by (auto simp: main_boot_def Cons_eq_append_conv)
    with ds(2) have "achieved ConnectNATS s" by blast
    with Cons.prems(3,4) show ?thesis by (simp add: nats_IsConnected_def)
  qed
  ultimately have phase: "pr_phase ?s' = Booting bs"
    using boot_step_ok [OF ok, of b ?s] by (simp add: nats_IsConnected_def)
  then have frame: "pr_out ?s' = (\<lambda>_. False)" "\<not> pr_gave_up ?s'"
    using boot_step_outcome [of P b ?s] Cons.prems(3,4) by (auto simp: boot_outcome_def boot_frame_def)
  have "(proc_step P)\<^sup>*\<^sup>* (boot_process w) ?s'"
    using Cons.prems(1) proc_step.boot [OF Cons.prems(2)] by (rule rtranclp.rtrancl_into_rtrancl)
  from Cons.IH [OF this phase frame] show ?case .
qed

lemma healthy_waits:
  assumes ok: "healthy P"
  obtains s where "(proc_step P)\<^sup>*\<^sup>* (boot_process w) s" "pr_phase s = Waiting" "nats_IsConnected s"
proof -
  have "pr_phase (boot_process w) = Booting main_boot" "pr_out (boot_process w) = (\<lambda>_. False)" "\<not> pr_gave_up (boot_process w)"
    by (simp_all add: boot_process_def)
  then obtain s where s: "(proc_step P)\<^sup>*\<^sup>* (boot_process w) s" "pr_phase s = Booting []" "pr_out s = (\<lambda>_. False)" "\<not> pr_gave_up s"
    using boot_completes [OF ok rtranclp.rtrancl_refl] by blast
  let ?s = "s\<lparr>pr_phase := Waiting\<rparr>"
  have reach: "(proc_step P)\<^sup>*\<^sup>* (boot_process w) ?s"
    using s(1) proc_step.wait [OF s(2)] by (rule rtranclp.rtrancl_into_rtrancl)
  then have "\<forall>b\<in>set main_boot. achieved b ?s" using proc_inv_reachable [OF reach] by (simp add: proc_inv_def)
  then have "pr_nats ?s" by (simp add: main_boot_def)
  with that [OF reach] s(3,4) show thesis by (simp add: nats_IsConnected_def)
qed

lemma unwinding_completes: "pr_phase s = Unwinding rs \<Longrightarrow> \<exists>s'. (proc_step P)\<^sup>*\<^sup>* s s' \<and> pr_phase s' = Exited 0"
proof (induction rs arbitrary: s)
  case Nil
  then have "proc_step P s (s\<lparr>pr_phase := Exited 0\<rparr>)" by (rule proc_step.exit)
  then show ?case by (metis (no_types, lifting) process.select_convs(2) process.surjective process.update_convs(2) r_into_rtranclp)
next
  case (Cons r rs)
  let ?s' = "release_step P r (s\<lparr>pr_phase := Unwinding rs, pr_calls := pr_calls s @ [r]\<rparr>)"
  have "proc_step P s ?s'" using Cons.prems by (rule proc_step.unwind)
  moreover obtain s'' where "(proc_step P)\<^sup>*\<^sup>* ?s' s''" "pr_phase s'' = Exited 0"
    using Cons.IH [of ?s'] by (auto simp: release_frame)
  ultimately show ?case by (meson converse_rtranclp_into_rtranclp)
qed

lemma waiting_can_stop:
  assumes "pr_phase s = Waiting"
  shows "\<exists>s'. (proc_step P)\<^sup>*\<^sup>* s s' \<and> pr_phase s' = Exited 0"
proof -
  let ?q = "s\<lparr>pr_sig := True\<rparr>"
  let ?s = "?q\<lparr>pr_phase := Unwinding (concat (map deferred_actions (pr_defers ?q)))\<rparr>"
  have "proc_step P s ?q" using assms by (rule proc_step.signal)
  moreover have "proc_step P ?q ?s" by (rule proc_step.caught) (simp_all add: assms)
  moreover obtain s' where "(proc_step P)\<^sup>*\<^sup>* ?s s'" "pr_phase s' = Exited 0"
    using unwinding_completes [of ?s] by auto
  ultimately show ?thesis by (meson converse_rtranclp_into_rtranclp)
qed

text \<open>
  C15. A start without failures becomes ready: if every call succeeds and the chain file is valid, the
  process gets to the wait for a signal with the probe answering 200, and a signal then takes it to a
  graceful exit.
\<close>

theorem healthy_start_becomes_ready:
  assumes ok: "healthy P"
  shows "\<exists>s. (proc_step P)\<^sup>*\<^sup>* (boot_process w) s \<and> pr_phase s = Waiting \<and> ready_probe s now = Some StatusOK
    \<and> (\<exists>s'. (proc_step P)\<^sup>*\<^sup>* s s' \<and> pr_phase s' = Exited 0)"
proof -
  obtain s where s: "(proc_step P)\<^sup>*\<^sup>* (boot_process w) s" "pr_phase s = Waiting"
    using healthy_waits [OF ok] by blast
  from waiting_ready [OF proc_inv_reachable [OF s(1)] s(2)] waiting_can_stop [OF s(2), of P] s show ?thesis by blast
qed

subsection \<open>Readiness after start-up\<close>

lemma retries_give_up:
  assumes "alive s" "pr_nats s" "pr_out s PeerNATS" "\<not> pr_gave_up s" "MaxReconnects = pr_tries s + Suc k"
  shows "(proc_step P)\<^sup>*\<^sup>* s (link (pr_out s) MaxReconnects True s)"
  using assms
proof (induction k arbitrary: s)
  case 0
  then show ?case using proc_step.retry [of s P] by auto
next
  case (Suc k)
  let ?s = "link (pr_out s) (pr_tries s + 1) False s"
  have "proc_step P s ?s" using proc_step.retry [of s P] Suc.prems by simp
  moreover have "(proc_step P)\<^sup>*\<^sup>* ?s (link (pr_out ?s) MaxReconnects True ?s)"
    using Suc.prems by (intro Suc.IH) (simp_all add: link_def alive_def)
  ultimately show ?case by (simp add: link_def converse_rtranclp_into_rtranclp)
qed

text \<open>
  The probe goes on answering 200 when NATS is gone for good: after a start without failures the
  server can be lost, the client gives up after ten attempts, and the process neither exits nor
  withdraws its readiness, so that it receives no event any more and is taken for ready.
\<close>

theorem ready_outlives_nats:
  assumes ok: "healthy P"
  shows "\<exists>s. (proc_step P)\<^sup>*\<^sup>* (boot_process w) s \<and> ready_probe s now = Some StatusOK
    \<and> pr_gave_up s \<and> \<not> nats_IsConnected s"
proof -
  obtain s where s: "(proc_step P)\<^sup>*\<^sup>* (boot_process w) s" "pr_phase s = Waiting" "nats_IsConnected s"
    using healthy_waits [OF ok] by blast
  have up: "pr_nats s" "\<not> pr_out s PeerNATS" "\<not> pr_gave_up s" using s(3) by (simp_all add: nats_IsConnected_def)
  let ?s = "link ((pr_out s)(PeerNATS := True)) 0 (pr_gave_up s) s"
  have alive: "alive s" using s(2) by (simp add: alive_def)
  have "proc_step P s ?s" using proc_step.outage [of s PeerNATS P] alive up by simp
  moreover have "(proc_step P)\<^sup>*\<^sup>* ?s (link (pr_out ?s) MaxReconnects True ?s)"
    by (rule retries_give_up [where k = 9]) (use alive up in \<open>simp_all add: link_def alive_def MaxReconnects_def\<close>)
  ultimately have reach: "(proc_step P)\<^sup>*\<^sup>* (boot_process w) (link (pr_out ?s) MaxReconnects True ?s)"
    using s(1) by (meson converse_rtranclp_into_rtranclp rtranclp_trans)
  have "pr_phase (link (pr_out ?s) MaxReconnects True ?s) = Waiting" by (simp add: link_frame s(2))
  from waiting_ready [OF proc_inv_reachable [OF reach] this] reach show ?thesis
    by (intro exI [of _ "link (pr_out ?s) MaxReconnects True ?s"]) (simp add: link_def nats_IsConnected_def)
qed

subsection \<open>A platform\<close>

definition platform_demo :: "ddl_mem platform" where
  "platform_demo = \<lparr>pf_getenv = (\<lambda>_. ''''), pf_GetString = viper_GetString (\<lambda>_. '''') (\<lambda>_. Map.empty),
     pf_ReadFile = (\<lambda>_ w. (Inr ''blockchains'', w)), pf_Unmarshal = (\<lambda>_. Inr chains_demo),
     pf_gormOpen = (\<lambda>_ w. (Inr (), w)),
     pf_ddl = mem_ddl\<lparr>db_Exec := (\<lambda>q w. (Inr (), (apply_ddl q (fst w), snd w))),
       db_AutoMigrate := (\<lambda>es w. (Inr (), (auto_migrate mem_cols es (fst w), snd w)))\<rparr>,
     pf_ParseURL = Inr, pf_Ping = (\<lambda>_ w. (Inr (), w)), pf_natsConnect = (\<lambda>_ w. (Inr (), w)),
     pf_QueueSubscribe = (\<lambda>s q w. (Inr (length s), w)),
     pf_Unsubscribe = (\<lambda>_ w. w), pf_Publish = (\<lambda>_ _ w. (Inl ''nobody listens'', w)), pf_Close = (\<lambda>_ w. w),
     pf_SubjectScanStarted = ''scan.started'', pf_SubjectScanCompleted = ''scan.completed'',
     pf_SubjectScanFailed = ''scan.failed'', pf_SubjectPersistenceReady = ''persistence.ready'', pf_ReadyPayload = ''{}''\<rparr>"

lemma platform_demo_healthy: "healthy platform_demo"
  by (simp add: healthy_def platform_demo_def never_fails_def mem_ddl_def LoadChainConfig_def bindP_def mapErrP_def
      catchP_def returnP_def chains_demo_def Validate_def TrimSpace_def is_space_def Let_def)

theorem healthy_start_becomes_ready_witness:
  "\<exists>s. (proc_step platform_demo)\<^sup>*\<^sup>* (boot_process (draft_schema, [])) s \<and> pr_phase s = Waiting
     \<and> ready_probe s 0 = Some StatusOK"
  using healthy_start_becomes_ready [OF platform_demo_healthy, of "(draft_schema, [])" 0] by blast

theorem ready_outlives_nats_witness:
  "\<exists>s. (proc_step platform_demo)\<^sup>*\<^sup>* (boot_process (draft_schema, [])) s \<and> pr_gave_up s"
  using ready_outlives_nats [OF platform_demo_healthy, of "(draft_schema, [])" 0] by blast

text \<open>The states the demo gets to: ready, and after a graceful exit.\<close>

lemma demo_ready:
  obtains s where "(proc_step platform_demo)\<^sup>*\<^sup>* (boot_process (draft_schema, [])) s" "pr_phase s = Waiting"
  using healthy_waits [OF platform_demo_healthy] by blast

lemma demo_exit:
  obtains s where "(proc_step platform_demo)\<^sup>*\<^sup>* (boot_process (draft_schema, [])) s" "pr_phase s = Exited 0"
proof -
  obtain s where s: "(proc_step platform_demo)\<^sup>*\<^sup>* (boot_process (draft_schema, [])) s" "pr_phase s = Waiting"
    by (rule demo_ready)
  obtain s' where "(proc_step platform_demo)\<^sup>*\<^sup>* s s'" "pr_phase s' = Exited 0"
    using waiting_can_stop [OF s(2)] by blast
  with s(1) that show thesis by (meson rtranclp_trans)
qed

theorem ready_means_started_witness:
  "\<exists>s. (proc_step platform_demo)\<^sup>*\<^sup>* (boot_process (draft_schema, [])) s \<and> ready_probe s 0 = Some StatusOK \<and> started s"
proof -
  obtain s where s: "(proc_step platform_demo)\<^sup>*\<^sup>* (boot_process (draft_schema, [])) s" "pr_phase s = Waiting"
    by (rule demo_ready)
  with ready_means_started [OF s(1), of 0] show ?thesis by blast
qed

theorem graceful_exit_releases_all_witness:
  "\<exists>s. (proc_step platform_demo)\<^sup>*\<^sup>* (boot_process (draft_schema, [])) s \<and> pr_phase s = Exited 0 \<and> pr_subs s = []"
proof -
  obtain s where s: "(proc_step platform_demo)\<^sup>*\<^sup>* (boot_process (draft_schema, [])) s" "pr_phase s = Exited 0"
    by (rule demo_exit)
  from graceful_exit_releases_all [OF s] s show ?thesis by blast
qed

theorem shutdown_order_witness:
  "\<exists>s. (proc_step platform_demo)\<^sup>*\<^sup>* (boot_process (draft_schema, [])) s \<and> pr_sig s \<and> length (pr_calls s) = 10"
proof -
  obtain s where s: "(proc_step platform_demo)\<^sup>*\<^sup>* (boot_process (draft_schema, [])) s" "pr_phase s = Exited 0"
    by (rule demo_exit)
  from conjunct1 [OF shutdown_order [OF s(1)]] s(2) obtain i j k where "pr_sig s"
    "pr_calls s = shutdown_sequence i j k" by blast
  with s(1) show ?thesis by (intro exI [of _ s]) (simp add: shutdown_sequence_def)
qed

end
