(* ===== verification/Rfc3339.thy ===== *)
theory Rfc3339
  imports Strconv
begin

text \<open>
  Instants read back from text, as \<^verbatim>\<open>time.Time.UnmarshalJSON\<close> does it: the layout of RFC 3339, where an
  hour may have one digit, a comma may stand for the point of the fraction, digits of the fraction
  after the ninth are dropped and the offset of the zone is at most 24 hours and 60 minutes. The
  theorem is the round trip with \<open>format_rfc3339\<close>.
\<close>

section \<open>Reading\<close>

text \<open>\<^verbatim>\<open>getnum\<close>: two digits, or one if the field is not of fixed width.\<close>

definition getnum :: "bool \<Rightarrow> string \<Rightarrow> (int \<times> string) option" where
  "getnum fixed s =
     (case s of
        [] \<Rightarrow> None
      | c # cs \<Rightarrow>
          (case digit_value c of
             None \<Rightarrow> None
           | Some a \<Rightarrow>
               (case (case cs of [] \<Rightarrow> None | d # ds \<Rightarrow> digit_value d) of
                  Some b \<Rightarrow> Some (10 * a + b, drop 1 cs)
                | None \<Rightarrow> if fixed then None else Some (a, cs))))"

definition expect :: "char \<Rightarrow> string \<Rightarrow> string option" where
  "expect c s = (case s of d # ds \<Rightarrow> if d = c then Some ds else None | [] \<Rightarrow> None)"

definition is_decimal :: "char \<Rightarrow> bool" where
  "is_decimal c \<longleftrightarrow> digit_value c \<noteq> None"

definition digits_value :: "string \<Rightarrow> int" where
  "digits_value s = (case read_digits s 0 of Some n \<Rightarrow> n | None \<Rightarrow> 0)"

definition read_year :: "string \<Rightarrow> (int \<times> string) option" where
  "read_year s =
     (if length s < 4 \<or> \<not> list_all is_decimal (take 4 s) then None
      else Some (digits_value (take 4 s), drop 4 s))"

definition read_fraction :: "string \<Rightarrow> int \<times> string" where
  "read_fraction s =
     (case s of
        c # d # ds \<Rightarrow>
          if (c = CHR ''.'' \<or> c = CHR '','') \<and> is_decimal d then
            let fraction = takeWhile is_decimal (d # ds); kept = take 9 fraction
            in (digits_value kept * 10 ^ (9 - length kept), drop (length fraction) (d # ds))
          else (0, s)
      | _ \<Rightarrow> (0, s))"

text \<open>The offset of the zone in seconds.\<close>

definition read_zone :: "string \<Rightarrow> int option" where
  "read_zone s =
     (if s = ''Z'' then Some 0
      else
        (case s of
           sign # hs \<Rightarrow>
             Option.bind (getnum True hs) (\<lambda>(hr, r).
             Option.bind (expect (CHR '':'') r) (\<lambda>r.
             Option.bind (getnum True r) (\<lambda>(mm, r).
               if r \<noteq> '''' \<or> hr > 24 \<or> mm > 60 then None
               else if sign = CHR ''+'' then Some ((hr * 60 + mm) * 60)
               else if sign = CHR ''-'' then Some (- ((hr * 60 + mm) * 60))
               else None)))
         | [] \<Rightarrow> None))"

definition days_before_year :: "int \<Rightarrow> int" where
  "days_before_year y = 365 * (y - 1) + (y - 1) div 4 - (y - 1) div 100 + (y - 1) div 400"

definition days_of_date :: "int \<Rightarrow> int \<Rightarrow> int \<Rightarrow> int" where
  "days_of_date y m d = days_before_year y + sum_list (take (nat (m - 1)) (month_lengths y)) + d - 1"

definition parse_rfc3339 :: "string \<Rightarrow> gotime option" where
  "parse_rfc3339 s =
     Option.bind (read_year s) (\<lambda>(y, s).
     Option.bind (expect (CHR ''-'') s) (\<lambda>s.
     Option.bind (getnum True s) (\<lambda>(m, s).
     Option.bind (expect (CHR ''-'') s) (\<lambda>s.
     Option.bind (getnum True s) (\<lambda>(d, s).
     Option.bind (expect (CHR ''T'') s) (\<lambda>s.
     Option.bind (getnum False s) (\<lambda>(hour, s).
     Option.bind (expect (CHR '':'') s) (\<lambda>s.
     Option.bind (getnum True s) (\<lambda>(mi, s).
     Option.bind (expect (CHR '':'') s) (\<lambda>s.
     Option.bind (getnum True s) (\<lambda>(sec, s).
       let (nsec, s) = read_fraction s in
       Option.bind (read_zone s) (\<lambda>offset.
         if 1 \<le> m \<and> m \<le> 12 \<and> hour < 24 \<and> mi < 60 \<and> sec < 60
           \<and> 1 \<le> d \<and> d \<le> month_lengths y ! nat (m - 1)
         then Some (days_of_date y m d * ns_per_day
                + (hour * 3600 + mi * 60 + sec - offset) * ns_per_sec + nsec)
         else None))))))))))))"

section \<open>Dates\<close>

text \<open>Splitting off at most three parts, the last of which may be one longer.\<close>

lemma split_three:
  fixes r k :: int
  assumes "0 \<le> r" "r \<le> 4 * k" "0 < k" "q = min 3 (r div k)"
  shows "0 \<le> q" "q \<le> 3" "0 \<le> r - k * q" "r - k * q \<le> k" "q < 3 \<Longrightarrow> r - k * q < k"
proof -
  have div: "k * (r div k) \<le> r" "r < k * (r div k) + k" "0 \<le> r div k"
    using assms by (simp_all add: pos_imp_zdiv_nonneg_iff minus_mod_eq_mult_div [symmetric] pos_mod_bound)
  consider (few) "r div k \<le> 3" "q = r div k" | (many) "3 < r div k" "q = 3"
    using assms(4) by linarith
  then have "0 \<le> q \<and> q \<le> 3 \<and> 0 \<le> r - k * q \<and> r - k * q \<le> k \<and> (q < 3 \<longrightarrow> r - k * q < k)"
  proof cases
    case few
    with div show ?thesis by auto
  next
    case many
    have "k * 3 \<le> k * (r div k)" using many(1) assms(3) by (intro mult_left_mono) auto
    with div(1) have "k * 3 \<le> r" by linarith
    with many(2) assms(2) show ?thesis by simp
  qed
  then show "0 \<le> q" "q \<le> 3" "0 \<le> r - k * q" "r - k * q \<le> k" "q < 3 \<Longrightarrow> r - k * q < k" by auto
qed

lemma civil_year_days:
  assumes "civil_year days = (y, yday)"
  shows "days_before_year y + yday = days" "0 \<le> yday" "yday < (if is_leap y then 366 else 365)"
proof -
  define a where "a = days div 146097"
  define r where "r = days mod 146097"
  define b where "b = min 3 (r div 36524)"
  define r1 where "r1 = r - 36524 * b"
  define c where "c = r1 div 1461"
  define r2 where "r2 = r1 mod 1461"
  define e where "e = min 3 (r2 div 365)"
  have y: "y = 400 * a + 100 * b + 4 * c + e + 1" and yd: "yday = r2 - 365 * e"
    using assms by (simp_all add: civil_year_def Let_def a_def r_def b_def r1_def c_def r2_def e_def)
  have r: "0 \<le> r" "r \<le> 4 * 36524" "days = 146097 * a + r"
    using pos_mod_bound [of 146097 days] by (simp_all add: r_def a_def)
  have b: "0 \<le> b" "b \<le> 3" "0 \<le> r1" "r1 \<le> 36524" "b < 3 \<Longrightarrow> r1 < 36524"
    unfolding r1_def using split_three [OF r(1,2) _ b_def] by simp_all
  have c: "0 \<le> r2" "r2 < 1461" "r1 = 1461 * c + r2" by (simp_all add: c_def r2_def)
  then have c24: "0 \<le> c" "c \<le> 24" using b(3,4) by linarith+
  have "r2 \<le> 4 * 365" using c(2) by simp
  then have e: "0 \<le> e" "e \<le> 3" "0 \<le> r2 - 365 * e" "r2 - 365 * e \<le> 365" "e < 3 \<Longrightarrow> r2 - 365 * e < 365"
    using split_three [OF c(1) _ _ e_def] by simp_all
  have d4: "(y - 1) div 4 = 100 * a + 25 * b + c"
    by (rule int_div_pos_eq [where r = e]) (use y e in simp_all)
  have d100: "(y - 1) div 100 = 4 * a + b"
    by (rule int_div_pos_eq [where r = "4 * c + e"]) (use y e c24 in simp_all)
  have d400: "(y - 1) div 400 = a"
    by (rule int_div_pos_eq [where r = "100 * b + 4 * c + e"]) (use y e c24 b in simp_all)
  have "days_before_year y = 365 * (y - 1) + (100 * a + 25 * b + c) - (4 * a + b) + a"
    by (simp only: days_before_year_def d4 d100 d400)
  then show "days_before_year y + yday = days"
    using r(3) c(3) yd y r1_def by simp
  show "0 \<le> yday" using e(3) yd by simp
  show "yday < (if is_leap y then 366 else 365)"
  proof (cases "yday < 365")
    case False
    have e3: "e = 3"
    proof (rule ccontr)
      assume "e \<noteq> 3"
      with e(2,5) False yd show False by linarith
    qed
    with False e(4) yd have r2: "r2 = 1460" by simp
    have y4: "y = 400 * a + 100 * b + 4 * c + 4" using y e3 by simp
    have m4: "y mod 4 = 0" by (rule int_mod_pos_eq [where q = "100 * a + 25 * b + c + 1"]) (use y4 in simp_all)
    have "is_leap y"
    proof (cases "c = 24")
      case True
      then have "b = 3" using b(2,5) c(3) r2 by linarith
      then have "y mod 400 = 0" using y4 True by (intro int_mod_pos_eq [where q = "a + 1"]) simp_all
      with m4 show ?thesis by (simp add: is_leap_def)
    next
      case False
      then have "y mod 100 = 4 * c + 4"
        using y4 c24 by (intro int_mod_pos_eq [where q = "4 * a + b"]) simp_all
      with m4 c24 show ?thesis by (simp add: is_leap_def)
    qed
    with e(4) yd show ?thesis by simp
  qed simp
qed

lemma month_day_sum:
  "month_day m ls d = (m', d') \<Longrightarrow> 0 \<le> d \<Longrightarrow> d < sum_list ls
   \<Longrightarrow> m \<le> m' \<and> nat (m' - m) < length ls \<and> 1 \<le> d' \<and> d' \<le> ls ! nat (m' - m)
     \<and> sum_list (take (nat (m' - m)) ls) + d' - 1 = d"
proof (induction m ls d arbitrary: m' d' rule: month_day.induct)
  case (2 m l ls d)
  show ?case
  proof (cases "d < l")
    case True
    with 2 show ?thesis by auto
  next
    case False
    with 2 have ih: "m + 1 \<le> m'" "nat (m' - (m + 1)) < length ls" "1 \<le> d'" "d' \<le> ls ! nat (m' - (m + 1))"
        "sum_list (take (nat (m' - (m + 1))) ls) + d' - 1 = d - l"
      by auto
    moreover have "nat (m' - m) = Suc (nat (m' - (m + 1)))" using ih(1) by auto
    ultimately show ?thesis by auto
  qed
qed auto

section \<open>Round trip\<close>

lemma digit_value_decimal: "0 \<le> d \<Longrightarrow> d < 10 \<Longrightarrow> is_decimal (digit_char d)"
  by (simp add: is_decimal_def digit_value_char)

lemma show_digits_decimal: "0 \<le> i \<Longrightarrow> list_all is_decimal (show_digits i)"
proof (induction i rule: show_digits.induct)
  case (1 i)
  then show ?case by (subst show_digits.simps) (auto simp: digit_value_decimal)
qed

lemma show_digits_length: "0 \<le> i \<Longrightarrow> i < 10 ^ n \<Longrightarrow> 0 < n \<Longrightarrow> length (show_digits i) \<le> n"
proof (induction i arbitrary: n rule: show_digits.induct)
  case (1 i)
  show ?case
  proof (cases "i < 10")
    case True
    with 1 show ?thesis by (subst show_digits.simps) simp
  next
    case False
    with "1.prems" obtain k where n: "n = Suc k" "0 < k" by (cases n) (auto, metis gr0I power_0 mult.right_neutral)
    with "1.prems" have "i < 10 * 10 ^ k" by simp
    moreover have "10 * (i div 10) \<le> i" by simp
    ultimately have "i div 10 < 10 ^ k" by linarith
    then have "length (show_digits (i div 10)) \<le> k" using "1.IH" [OF False] "1.prems"(1) n by simp
    with False n show ?thesis by (subst show_digits.simps) simp
  qed
qed

lemma read_zeros: "read_digits (replicate k (CHR ''0'') @ ds) 0 = read_digits ds 0"
  by (induction k) (simp_all add: digit_value_def)

lemma zero_decimal: "is_decimal (CHR ''0'')"
  by (simp add: is_decimal_def digit_value_def)

lemma show_padded_digits:
  assumes "0 \<le> i" "i < 10 ^ n" "0 < n"
  shows "length (show_padded n i) = n" "list_all is_decimal (show_padded n i)" "read_digits (show_padded n i) 0 = Some i"
  using assms show_digits_length [OF assms] show_digits_decimal [OF assms(1)] read_show_digits [OF assms(1)]
  by (simp_all add: show_padded_def pad_left_def read_zeros zero_decimal list_all_iff ball_Un set_replicate_conv_if)

lemma getnum_padded:
  assumes "0 \<le> i" "i < 100"
  shows "getnum fixed (show_padded 2 i @ rest) = Some (i, rest)"
proof -
  have i: "i < 10 ^ 2" using assms by simp
  obtain a b where ab: "show_padded 2 i = [a, b]"
    using show_padded_digits(1) [OF assms(1) i] by (auto simp: numeral_2_eq_2 length_Suc_conv)
  with show_padded_digits(3) [OF assms(1) i] show ?thesis
    by (auto simp: getnum_def ab split: option.splits)
qed

lemma read_year_padded:
  assumes "0 \<le> y" "y \<le> 9999"
  shows "read_year (show_padded 4 y @ rest) = Some (y, rest)"
  using show_padded_digits [of y 4] assms by (simp add: read_year_def digits_value_def)

lemma leading_zeros:
  "replicate (length (takeWhile (\<lambda>c. c = z) cs)) z @ dropWhile (\<lambda>c. c = z) cs = cs"
  by (induction cs) simp_all

lemma trailing_zeros: "rev (dropWhile (\<lambda>c. c = z) (rev ds)) @ replicate (length (takeWhile (\<lambda>c. c = z) (rev ds))) z = ds"
  using arg_cong [OF leading_zeros [of z "rev ds"], of rev] by simp

lemma read_digits_shift: "read_digits (replicate k (CHR ''0'')) n = Some (n * 10 ^ k)"
  by (induction k arbitrary: n) (simp_all add: digit_value_def)

lemma read_fraction_shown:
  assumes "0 \<le> ns" "ns < 10 ^ 9"
  shows "read_fraction (show_fraction ns @ ''Z'') = (ns, ''Z'')"
proof (cases "ns = 0")
  case True
  then show ?thesis by (simp add: show_fraction_def read_fraction_def)
next
  case False
  define f where "f = rev (dropWhile (\<lambda>c. c = CHR ''0'') (rev (show_padded 9 ns)))"
  define k where "k = length (takeWhile (\<lambda>c. c = CHR ''0'') (rev (show_padded 9 ns)))"
  have split: "show_padded 9 ns = f @ replicate k (CHR ''0'')"
    unfolding f_def k_def by (rule trailing_zeros [symmetric])
  note ds = show_padded_digits [OF assms, simplified, unfolded split]
  have dec: "\<forall>c\<in>set f. is_decimal c" and len: "length f + k = 9" using ds(1,2) by (simp_all add: list_all_iff)
  obtain n where n: "read_digits f 0 = Some n" "n * 10 ^ k = ns"
    using ds(3) by (auto simp: read_digits_append read_digits_shift split: option.splits)
  have "f \<noteq> []" using n False by auto
  then obtain d fs where f: "f = d # fs" by (cases f) auto
  have z: "\<not> is_decimal (CHR ''Z'')" by (simp add: is_decimal_def digit_value_def)
  have tw: "takeWhile is_decimal (fs @ ''Z'') = fs"
    using dec z by (subst takeWhile_append2) (simp_all add: f)
  obtain v where v: "digit_value d = Some v" using dec by (auto simp: f is_decimal_def)
  have k: "9 - length f = k" "length f \<le> 9" using len by simp_all
  have "read_fraction (CHR ''.'' # f @ ''Z'') = (n * 10 ^ (9 - length f), ''Z'')"
    using dec n(1) k(2) v unfolding f by (simp add: tw read_fraction_def Let_def digits_value_def)
  with False n(2) k(1) show ?thesis by (simp add: show_fraction_def f_def)
qed

lemma month_lengths_bounds: "l \<in> set (month_lengths y) \<Longrightarrow> 28 \<le> l \<and> l \<le> 31"
  by (auto simp: month_lengths_def)

lemma month_lengths_sum: "sum_list (month_lengths y) = (if is_leap y then 366 else 365)"
  by (simp add: month_lengths_def)

lemma clock_sum: "sec div 3600 * 3600 + sec div 60 mod 60 * 60 + sec mod 60 = sec" for sec :: int
proof -
  have sum: "a * 60 + b = q \<Longrightarrow> q * 60 + c = s \<Longrightarrow> a * 3600 + b * 60 + c = s" for a b c q s :: int by simp
  have "sec div 3600 = sec div 60 div 60" using zdiv_zmult2_eq [of 60 sec 60] by simp
  then show ?thesis using sum [OF div_mult_mod_eq [of "sec div 60" 60] div_mult_mod_eq [of sec 60]] by (simp only:)
qed

lemma day_time:
  assumes "0 \<le> r" "r < ns_per_day" "sec = r div ns_per_sec"
  shows "0 \<le> sec div 3600" "sec div 3600 < 24" "0 \<le> sec div 60 mod 60" "sec div 60 mod 60 < 60"
    "0 \<le> sec mod 60" "sec mod 60 < 60" "0 \<le> r mod ns_per_sec" "r mod ns_per_sec < 10 ^ 9"
    "(sec div 3600 * 3600 + sec div 60 mod 60 * 60 + sec mod 60) * ns_per_sec + r mod ns_per_sec = r"
proof -
  have sec: "sec * ns_per_sec + r mod ns_per_sec = r" unfolding assms(3) by (rule div_mult_mod_eq)
  have sub: "0 \<le> r mod ns_per_sec" "r mod ns_per_sec < 10 ^ 9" by (simp_all add: ns_per_sec_def)
  then show "0 \<le> r mod ns_per_sec" "r mod ns_per_sec < 10 ^ 9" .
  have "0 \<le> sec" "sec < 86400" using sec sub assms(1,2) unfolding ns_per_sec_def ns_per_day_def by linarith+
  then show "0 \<le> sec div 3600" "sec div 3600 < 24" by linarith+
  show "0 \<le> sec div 60 mod 60" "sec div 60 mod 60 < 60" "0 \<le> sec mod 60" "sec mod 60 < 60" by simp_all
  have "sec div 3600 * 3600 + sec div 60 mod 60 * 60 + sec mod 60 = sec"
    by (rule clock_sum)
  with sec show "(sec div 3600 * 3600 + sec div 60 mod 60 * 60 + sec mod 60) * ns_per_sec + r mod ns_per_sec = r"
    by simp
qed

lemma civil_date:
  assumes y: "civil_year days = (y, yday)" and m: "month_day 1 (month_lengths y) yday = (m, d)"
  shows "1 \<le> m" "m \<le> 12" "1 \<le> d" "d \<le> 31" "d \<le> month_lengths y ! nat (m - 1)" "days_of_date y m d = days"
proof -
  note ydays = civil_year_days [OF y]
  have md: "1 \<le> m" "nat (m - 1) < 12" "1 \<le> d" "d \<le> month_lengths y ! nat (m - 1)"
      "sum_list (take (nat (m - 1)) (month_lengths y)) + d - 1 = yday"
    using month_day_sum [OF m] ydays month_lengths_sum [of y] by (auto simp: month_lengths_def)
  have "month_lengths y ! nat (m - 1) \<le> 31"
    using month_lengths_bounds [OF nth_mem [of "nat (m - 1)" "month_lengths y"]] md(2)
    by (simp add: month_lengths_def)
  with md show "1 \<le> m" "m \<le> 12" "1 \<le> d" "d \<le> 31" "d \<le> month_lengths y ! nat (m - 1)" by auto
  show "days_of_date y m d = days" using ydays(1) md(5) by (simp add: days_of_date_def)
qed

lemma day_rest: "0 \<le> t mod ns_per_day" "t mod ns_per_day < ns_per_day"
  by (simp_all add: ns_per_day_def)

text \<open>An instant that can be written is read back.\<close>

theorem parse_format_rfc3339:
  assumes "0 \<le> fst (civil_year (t div ns_per_day))" "fst (civil_year (t div ns_per_day)) \<le> 9999"
  shows "parse_rfc3339 (format_rfc3339 True t) = Some t"
proof -
  define r where "r = t mod ns_per_day"
  define sec where "sec = r div ns_per_sec"
  obtain y yday where y: "civil_year (t div ns_per_day) = (y, yday)" by fastforce
  obtain m d where m: "month_day 1 (month_lengths y) yday = (m, d)" by fastforce
  note date = civil_date [OF y m]
  have bounds: "0 \<le> m" "m < 100" "0 \<le> d" "d < 100" using date by auto
  note clock = day_time [OF day_rest, of sec t, folded r_def, OF sec_def]
  have t: "days_of_date y m d * ns_per_day + r = t" by (simp add: date(6) r_def)
  have "parse_rfc3339 (format_rfc3339 True t)
    = Some (days_of_date y m d * ns_per_day
        + (sec div 3600 * 3600 + sec div 60 mod 60 * 60 + sec mod 60 - 0) * ns_per_sec + r mod ns_per_sec)"
    using assms date(1-5) bounds clock(1-8)
    by (simp add: parse_rfc3339_def format_rfc3339_def y m r_def [symmetric] sec_def [symmetric] Let_def
        read_year_padded getnum_padded expect_def read_fraction_shown read_zone_def)
  also have "\<dots> = Some t" using clock(9) t by simp
  finally show ?thesis .
qed

text \<open>Its text is printed by \<^verbatim>\<open>json.Marshal\<close> without escapes.\<close>

definition clock_char :: "char \<Rightarrow> bool" where
  "clock_char c \<longleftrightarrow> is_decimal c \<or> c \<in> set ''-:TZ.''"

lemma clock_padded: "0 \<le> i \<Longrightarrow> list_all clock_char (show_padded n i)"
  using show_digits_decimal [of i] zero_decimal
  by (auto simp: show_padded_def pad_left_def list_all_iff clock_char_def)

lemma clock_fraction:
  assumes "0 \<le> ns"
  shows "list_all clock_char (show_fraction ns)"
proof (cases "ns = 0")
  case False
  have "set (dropWhile (\<lambda>c. c = CHR ''0'') (rev (show_padded 9 ns))) \<subseteq> set (show_padded 9 ns)"
    using set_dropWhileD by force
  then show ?thesis using clock_padded [OF assms, of 9] False
    by (auto simp: show_fraction_def list_all_iff) (simp add: clock_char_def)
qed (simp add: show_fraction_def)

lemma clock_format:
  assumes "0 \<le> fst (civil_year (t div ns_per_day))"
  shows "list_all clock_char (format_rfc3339 True t)"
proof -
  obtain y yday where y: "civil_year (t div ns_per_day) = (y, yday)" by fastforce
  obtain m d where m: "month_day 1 (month_lengths y) yday = (m, d)" by fastforce
  note date = civil_date [OF y m]
  note clock = day_time [OF day_rest refl, of t]
  have "0 \<le> y" "0 \<le> m" "0 \<le> d" using date assms y by auto
  then show ?thesis using clock(1,3,5,7)
    by (simp add: format_rfc3339_def y m Let_def clock_padded clock_fraction) (simp add: clock_char_def)
qed

lemma clock_char_plain: "clock_char c \<Longrightarrow> escape_char c = [c] \<and> c \<noteq> CHR 0xE2"
  by (auto simp: clock_char_def is_decimal_def digit_value_def escape_char_def Let_def split: if_splits)

lemma escape_clock: "list_all clock_char s \<Longrightarrow> escape_bytes s = s"
  by (induction s) (simp_all add: clock_char_plain)

end
