(* ===== verification/Request_Bodies.thy ===== *)
theory Request_Bodies
  imports Scan_Api Transition_Endpoint Policy_Api Rfc3339 "HOL-Library.AList"
begin

text \<open>
  The request bodies of the two internal APIs as \<^verbatim>\<open>json.Decoder\<close> reads them with
  \<^verbatim>\<open>DisallowUnknownFields\<close>: the first JSON value of the body is assigned to the struct of the request and
  what follows it is not read. A body with any error is refused, so a decoder returns \<open>None\<close> then. A name
  may occur several times; the fields are independent of each other, so each is the result of assigning
  its occurrences in turn.
\<close>

section \<open>Numbers\<close>

text \<open>
  \<^verbatim>\<open>strconv.ParseFloat(s, 64)\<close> on a JSON number: the nearest float, ties to even, and an error beyond
  the largest. The exponent stops growing at five digits.
\<close>

function bit_len :: "int \<Rightarrow> int" where
  "bit_len n = (if n \<le> 0 then 0 else 1 + bit_len (n div 2))"
  by pat_completeness auto
termination
  by (relation "measure nat") auto

declare bit_len.simps [simp del]

definition scale :: "int \<Rightarrow> int \<Rightarrow> int" where
  "scale n e = n * 2 ^ nat e"

text \<open>The bits of \<open>n / d\<close>; the quotient \<open>q\<close> has 53 bits, or fewer at the smallest exponent.\<close>

definition float_bits :: "int \<Rightarrow> int \<Rightarrow> int option" where
  "float_bits n d =
     (if n = 0 then Some 0
      else
        let e0 = bit_len n - bit_len d - 53;
            e1 = (if scale n (- e0) div scale d e0 < 2 ^ 53 then e0 else e0 + 1);
            e = max e1 (- 1074);
            num = scale n (- e); den = scale d e;
            q = num div den; r = num mod den;
            q' = (if den < 2 * r \<or> den = 2 * r \<and> odd q then q + 1 else q);
            bits = (e + 1074) * 2 ^ 52 + q'
        in if bits < 2047 * 2 ^ 52 then Some bits else None)"

fun read_exponent :: "string \<Rightarrow> int \<Rightarrow> int" where
  "read_exponent [] e = e"
| "read_exponent (c # cs) e =
     read_exponent cs (if e < 10000 then 10 * e + (case digit_value c of None \<Rightarrow> 0 | Some v \<Rightarrow> v) else e)"

definition exponent_of :: "string \<Rightarrow> int" where
  "exponent_of s =
     (case s of
        [] \<Rightarrow> 0
      | c # cs \<Rightarrow> if c = CHR ''-'' then - read_exponent cs 0 else if c = CHR ''+'' then read_exponent cs 0 else read_exponent s 0)"

definition ParseFloat :: "string \<Rightarrow> float64 option" where
  "ParseFloat s =
     (let neg = (take 1 s = ''-''); body = (if neg then drop 1 s else s);
          mantissa = takeWhile (\<lambda>c. c \<noteq> CHR ''e'' \<and> c \<noteq> CHR ''E'') body;
          whole = takeWhile is_digit mantissa; frac = drop (Suc (length whole)) mantissa;
          e = exponent_of (drop (Suc (length mantissa)) body) - int (length frac);
          n = digits_value (whole @ frac)
      in map_option (\<lambda>bits. word_of_int ((if neg then 2 ^ 63 else 0) + bits))
           (float_bits (n * 10 ^ nat e) (10 ^ nat (- e))))"

lemma ParseFloat_samples:
  "ParseFloat ''0'' = Some 0" "ParseFloat ''-0'' = Some 0x8000000000000000"
  "ParseFloat ''1'' = Some 0x3FF0000000000000" "ParseFloat ''0.1'' = Some 0x3FB999999999999A"
  "ParseFloat ''-2.5e1'' = Some 0xC039000000000000" "ParseFloat ''9007199254740993'' = Some 0x4340000000000000"
  by code_simp+

section \<open>Assigning the occurrences of a name\<close>

definition occurrences :: "string \<Rightarrow> (string \<times> jval) list \<Rightarrow> jval list" where
  "occurrences name kvs = map snd (filter (\<lambda>(k, j). fold_name k = name) kvs)"

definition known_names :: "string list \<Rightarrow> (string \<times> jval) list \<Rightarrow> bool" where
  "known_names names kvs \<longleftrightarrow> list_all (\<lambda>(k, j). fold_name k \<in> set names) kvs"

fun assign_all :: "(jval \<Rightarrow> 'a \<Rightarrow> 'a option) \<Rightarrow> jval list \<Rightarrow> 'a \<Rightarrow> 'a option" where
  "assign_all f [] a = Some a"
| "assign_all f (j # js) a = Option.bind (f j a) (assign_all f js)"

definition assign_bool :: "jval \<Rightarrow> bool \<Rightarrow> bool option" where
  "assign_bool j old = (case j of VBool b \<Rightarrow> Some b | VNull \<Rightarrow> Some old | _ \<Rightarrow> None)"

definition assign_float :: "jval \<Rightarrow> float64 \<Rightarrow> float64 option" where
  "assign_float j old = (case j of VNum t \<Rightarrow> ParseFloat t | VNull \<Rightarrow> Some old | _ \<Rightarrow> None)"

definition assign_time :: "jval \<Rightarrow> gotime \<Rightarrow> gotime option" where
  "assign_time j old = (case j of VStr raw s \<Rightarrow> parse_rfc3339 raw | VNull \<Rightarrow> Some old | _ \<Rightarrow> None)"

text \<open>\<^verbatim>\<open>uuid.UUID\<close> unmarshals the text of a string.\<close>

definition assign_uuid :: "'w env \<Rightarrow> jval \<Rightarrow> uuid \<Rightarrow> uuid option" where
  "assign_uuid E j old = (case j of VStr raw s \<Rightarrow> uuid_Parse E s | VNull \<Rightarrow> Some old | _ \<Rightarrow> None)"

definition assign_pointer :: "(jval \<Rightarrow> 'a \<Rightarrow> 'a option) \<Rightarrow> 'a \<Rightarrow> jval \<Rightarrow> 'a option \<Rightarrow> 'a option option" where
  "assign_pointer f zero j old =
     (case j of
        VNull \<Rightarrow> Some None
      | _ \<Rightarrow> map_option Some (f j (case old of None \<Rightarrow> zero | Some a \<Rightarrow> a)))"

text \<open>
  A slice that is set again is overwritten in place: its elements, and those beyond its length that an
  earlier value left in the array, are what the new elements start from.
\<close>

fun assign_elems :: "(jval \<Rightarrow> 'a \<Rightarrow> 'a option) \<Rightarrow> 'a \<Rightarrow> jval list \<Rightarrow> 'a list \<Rightarrow> 'a list option" where
  "assign_elems f zero [] backing = Some []"
| "assign_elems f zero (j # js) backing =
     (case f j (case backing of [] \<Rightarrow> zero | a # _ \<Rightarrow> a) of
        None \<Rightarrow> None
      | Some a \<Rightarrow> map_option (\<lambda>as. a # as) (assign_elems f zero js (drop 1 backing)))"

definition assign_array ::
  "(jval \<Rightarrow> 'a \<Rightarrow> 'a option) \<Rightarrow> 'a \<Rightarrow> jval \<Rightarrow> 'a list option \<times> 'a list \<Rightarrow> ('a list option \<times> 'a list) option" where
  "assign_array f zero j old =
     (case j of
        VNull \<Rightarrow> Some (None, [])
      | VArr js \<Rightarrow>
          if js = [] then Some (Some [], [])
          else
            let backing = slice_items (fst old) @ snd old
            in map_option (\<lambda>as. (Some as, drop (length js) backing)) (assign_elems f zero js backing)
      | _ \<Rightarrow> None)"

definition slice_field :: "(jval \<Rightarrow> 'a \<Rightarrow> 'a option) \<Rightarrow> 'a \<Rightarrow> jval list \<Rightarrow> 'a list option option" where
  "slice_field f zero js = map_option fst (assign_all (assign_array f zero) js (None, []))"

text \<open>
  A pointer to a struct, or a map: objects add to what earlier ones have set, and \<^verbatim>\<open>null\<close> starts
  afresh. The last argument holds the fields seen since.
\<close>

fun object_field ::
  "((string \<times> jval) list \<Rightarrow> 'a option) \<Rightarrow> jval list \<Rightarrow> (string \<times> jval) list option \<Rightarrow> 'a option option" where
  "object_field dec [] acc = (case acc of None \<Rightarrow> Some None | Some kvs \<Rightarrow> map_option Some (dec kvs))"
| "object_field dec (j # js) acc =
     (case j of
        VNull \<Rightarrow>
          (case acc of
             None \<Rightarrow> object_field dec js None
           | Some kvs \<Rightarrow> Option.bind (dec kvs) (\<lambda>_. object_field dec js None))
      | VObj kvs \<Rightarrow> object_field dec js (Some ((case acc of None \<Rightarrow> [] | Some before \<Rightarrow> before) @ kvs))
      | _ \<Rightarrow> None)"

section \<open>The structs\<close>

definition reserve_fields :: "'w env \<Rightarrow> (string \<times> jval) list \<Rightarrow> reserveWalletPendingRequest option" where
  "reserve_fields E kvs =
     (if \<not> known_names [''scan_id'', ''address'', ''created_at''] kvs then None
      else
        Option.bind (assign_all (assign_uuid E) (occurrences ''scan_id'' kvs) uuid_Nil) (\<lambda>scan.
        Option.bind (assign_all assign_string (occurrences ''address'' kvs) '''') (\<lambda>address.
        Option.bind (assign_all (assign_pointer assign_time 0) (occurrences ''created_at'' kvs) None) (\<lambda>created.
          Some \<lparr>rw_ScanID = scan, rw_Address = address, rw_CreatedAt = created\<rparr>))))"

definition tls_fields :: "'w env \<Rightarrow> (string \<times> jval) list \<Rightarrow> putTLSPendingRequest option" where
  "tls_fields E kvs =
     (if \<not> known_names [''scan_id'', ''endpoint'', ''created_at''] kvs then None
      else
        Option.bind (assign_all (assign_uuid E) (occurrences ''scan_id'' kvs) uuid_Nil) (\<lambda>scan.
        Option.bind (assign_all assign_string (occurrences ''endpoint'' kvs) '''') (\<lambda>endpoint.
        Option.bind (assign_all (assign_pointer assign_time 0) (occurrences ''created_at'' kvs) None) (\<lambda>created.
          Some \<lparr>pt_ScanID = scan, pt_Endpoint = endpoint, pt_CreatedAt = created\<rparr>))))"

definition strict_delegation :: "jval \<Rightarrow> Delegation \<Rightarrow> Delegation option" where
  "strict_delegation j d =
     (case j of
        VObj kvs \<Rightarrow>
          if known_names [''chain_id'', ''delegated_address''] kvs then assign_struct delegation_field j d else None
      | _ \<Rightarrow> assign_struct delegation_field j d)"

definition ScanResult_names :: "string list" where
  "ScanResult_names = [''address'', ''type'', ''algorithm'', ''nist_level'', ''key_exposed'', ''public_key'',
     ''transaction_hash'', ''exposed_network'', ''is_eoa'', ''is_erc4337'', ''risk_score'', ''public_key_recovery'',
     ''scanned_at'', ''networks'', ''delegations'', ''connections'']"

definition ScanResult_fields :: "(string \<times> jval) list \<Rightarrow> ScanResult option" where
  "ScanResult_fields kvs =
     (let str = (\<lambda>name. assign_all assign_string (occurrences name kvs) '''');
          bool = (\<lambda>name. assign_all assign_bool (occurrences name kvs) False);
          strs = (\<lambda>name. slice_field assign_string '''' (occurrences name kvs))
      in if \<not> known_names ScanResult_names kvs then None
         else
           Option.bind (str ''address'') (\<lambda>address. Option.bind (str ''type'') (\<lambda>type.
           Option.bind (str ''algorithm'') (\<lambda>algorithm.
           Option.bind (assign_all assign_int64 (occurrences ''nist_level'' kvs) 0) (\<lambda>nist.
           Option.bind (bool ''key_exposed'') (\<lambda>exposed. Option.bind (str ''public_key'') (\<lambda>key.
           Option.bind (str ''transaction_hash'') (\<lambda>hash. Option.bind (str ''exposed_network'') (\<lambda>network.
           Option.bind (bool ''is_eoa'') (\<lambda>eoa. Option.bind (bool ''is_erc4337'') (\<lambda>erc4337.
           Option.bind (assign_all assign_float (occurrences ''risk_score'' kvs) 0) (\<lambda>risk.
           Option.bind (str ''public_key_recovery'') (\<lambda>recovery.
           Option.bind (assign_all assign_time (occurrences ''scanned_at'' kvs) 0) (\<lambda>scanned.
           Option.bind (strs ''networks'') (\<lambda>networks.
           Option.bind (slice_field strict_delegation zero_Delegation (occurrences ''delegations'' kvs)) (\<lambda>delegations.
           Option.bind (strs ''connections'') (\<lambda>connections.
             Some \<lparr>res_Address = address, res_Type = type, res_Algorithm = algorithm, res_NISTLevel = nist,
               res_KeyExposed = exposed, res_PublicKey = key, res_TransactionHash = hash,
               res_ExposedNetwork = network, res_IsEOA = eoa, res_IsERC4337 = erc4337, res_RiskScore = risk,
               res_PublicKeyRecovery = recovery, res_ScannedAt = scanned, res_Networks = networks,
               res_Delegations = delegations, res_Connections = connections\<rparr>)))))))))))))))))"

definition transition_names :: "string list" where
  "transition_names = [''transition_id'', ''user_id'', ''address'', ''source_states'', ''target_state'',
     ''quota_action'', ''result'', ''error'']"

definition transition_fields :: "(string \<times> jval) list \<Rightarrow> transitionBody option" where
  "transition_fields kvs =
     (let str = (\<lambda>name. assign_all assign_string (occurrences name kvs) '''')
      in if \<not> known_names transition_names kvs then None
         else
           Option.bind (str ''transition_id'') (\<lambda>transition. Option.bind (str ''user_id'') (\<lambda>user.
           Option.bind (str ''address'') (\<lambda>address.
           Option.bind (slice_field assign_string '''' (occurrences ''source_states'' kvs)) (\<lambda>sources.
           Option.bind (str ''target_state'') (\<lambda>target. Option.bind (str ''quota_action'') (\<lambda>quota.
           Option.bind (object_field ScanResult_fields (occurrences ''result'' kvs) None) (\<lambda>result.
           Option.bind (assign_all (assign_pointer assign_string '''') (occurrences ''error'' kvs) None) (\<lambda>err.
             Some \<lparr>tb_TransitionID = transition, tb_UserID = user, tb_Address = address,
               tb_SourceStates = slice_items sources, tb_TargetState = target, tb_QuotaAction = quota,
               tb_Result = result, tb_Error = err\<rparr>)))))))))"

text \<open>A value of type \<^verbatim>\<open>any\<close>: numbers are floats, and the last of equal names counts.\<close>

fun any_of :: "jval \<Rightarrow> any option"
  and any_elems :: "jval list \<Rightarrow> any list option"
  and any_fields :: "(string \<times> jval) list \<Rightarrow> (string \<times> any) list \<Rightarrow> (string \<times> any) list option" where
  "any_of VNull = Some AnyNil"
| "any_of (VBool b) = Some (AnyBool b)"
| "any_of (VNum t) = map_option AnyFloat (ParseFloat t)"
| "any_of (VStr raw s) = Some (AnyString s)"
| "any_of (VArr js) = map_option AnySlice (any_elems js)"
| "any_of (VObj kvs) = map_option AnyMap (any_fields kvs [])"
| "any_elems [] = Some []"
| "any_elems (j # js) = Option.bind (any_of j) (\<lambda>a. map_option (\<lambda>as. a # as) (any_elems js))"
| "any_fields [] m = Some m"
| "any_fields ((k, j) # kvs) m = Option.bind (any_of j) (\<lambda>a. any_fields kvs (AList.update k a m))"

definition payload_fields :: "(string \<times> jval) list \<Rightarrow> (string, any) mapping option" where
  "payload_fields kvs = map_option Mapping (any_fields kvs [])"

definition policy_names :: "string list" where
  "policy_names = [''scan_id'', ''wallet_address'', ''chain_id'', ''payload'', ''payload_sha256'',
     ''signed_message_hash'', ''wallet_control_method'', ''wallet_control_verified_at'', ''challenge_issued_at'',
     ''challenge_expires_at'']"

definition policy_fields :: "'w env \<Rightarrow> (string \<times> jval) list \<Rightarrow> createPolicyRequest option" where
  "policy_fields E kvs =
     (let str = (\<lambda>name. assign_all assign_string (occurrences name kvs) '''');
          time = (\<lambda>name. assign_all (assign_pointer assign_time 0) (occurrences name kvs) None)
      in if \<not> known_names policy_names kvs then None
         else
           Option.bind (assign_all (assign_uuid E) (occurrences ''scan_id'' kvs) uuid_Nil) (\<lambda>scan.
           Option.bind (str ''wallet_address'') (\<lambda>wallet.
           Option.bind (assign_all assign_int64 (occurrences ''chain_id'' kvs) 0) (\<lambda>chain.
           Option.bind (object_field payload_fields (occurrences ''payload'' kvs) None) (\<lambda>payload.
           Option.bind (str ''payload_sha256'') (\<lambda>sha. Option.bind (str ''signed_message_hash'') (\<lambda>hash.
           Option.bind (str ''wallet_control_method'') (\<lambda>control.
           Option.bind (assign_all assign_time (occurrences ''wallet_control_verified_at'' kvs) 0) (\<lambda>verified.
           Option.bind (time ''challenge_issued_at'') (\<lambda>issued.
           Option.bind (time ''challenge_expires_at'') (\<lambda>expires.
             Some \<lparr>cp_ScanID = scan, cp_WalletAddress = wallet, cp_ChainID = word_of_int chain,
               cp_Payload = payload, cp_PayloadSHA256 = sha, cp_SignedMessageHash = hash,
               cp_WalletControlMethod = control, cp_WalletControlVerifiedAt = verified,
               cp_ChallengeIssuedAt = issued, cp_ChallengeExpiresAt = expires\<rparr>)))))))))))"

section \<open>The decoder\<close>

text \<open>\<^verbatim>\<open>null\<close> leaves the zero struct, which is that of an object without fields.\<close>

definition dec_Decode :: "((string \<times> jval) list \<Rightarrow> 'a option) \<Rightarrow> string \<Rightarrow> 'a option" where
  "dec_Decode assign s =
     (case scan_value (Suc (2 * length s)) 0 s of
        None \<Rightarrow> None
      | Some (j, rest) \<Rightarrow> (case j of VObj kvs \<Rightarrow> assign kvs | VNull \<Rightarrow> assign [] | _ \<Rightarrow> None))"

definition scan_bodies :: "'w env \<Rightarrow> scan_codec" where
  "scan_bodies E = \<lparr>decode_reserve = dec_Decode (reserve_fields E), decode_tls = dec_Decode (tls_fields E)\<rparr>"

definition transition_bodies :: "string \<Rightarrow> transitionBody option" where
  "transition_bodies = dec_Decode transition_fields"

definition policy_bodies :: "'w env \<Rightarrow> cp_codec" where
  "policy_bodies E = dec_Decode (policy_fields E)"

section \<open>What is refused and what is read\<close>

lemma dec_Decode_text:
  assumes "json_depth (JObj kvs) \<le> maxNestingDepth"
  shows "dec_Decode assign (json_text (JObj kvs) @ rest) = assign (map (\<lambda>(k, v). (k, jval_of v)) kvs)"
proof -
  let ?s = "json_text (JObj kvs)"
  have "scan_value (Suc (2 * length (?s @ rest))) 0 (?s @ rest) = Some (jval_of (JObj kvs), rest)"
  proof (cases "kvs = []")
    case True
    then show ?thesis by (simp add: scan_value_object maxNestingDepth_def)
  next
    case False
    with json_fields_first obtain cs where cs: "json_fields kvs = CHR 0x22 # cs" by blast
    have "scan_fields (2 * length (?s @ rest)) (Suc 0) (json_fields kvs @ CHR ''}'' # rest)
        = Some (map (\<lambda>(k, v). (k, jval_of v)) kvs, rest)"
      by (rule scan_written(3) [OF False]) (use assms in simp_all)
    then show ?thesis by (simp add: cs scan_value_object(2) maxNestingDepth_def)
  qed
  then show ?thesis by (simp add: dec_Decode_def)
qed

text \<open>A body with a name its struct does not have is refused, wherever the name stands.\<close>

theorem unknown_names_are_refused:
  assumes "scan_value (Suc (2 * length s)) 0 s = Some (VObj kvs, rest)" "(k, j) \<in> set kvs"
  shows "fold_name k \<notin> {''scan_id'', ''address'', ''created_at''} \<Longrightarrow> decode_reserve (scan_bodies E) s = None"
    and "fold_name k \<notin> {''scan_id'', ''endpoint'', ''created_at''} \<Longrightarrow> decode_tls (scan_bodies E) s = None"
    and "fold_name k \<notin> set transition_names \<Longrightarrow> transition_bodies s = None"
    and "fold_name k \<notin> set policy_names \<Longrightarrow> policy_bodies E s = None"
  using assms(2)
  by (auto simp: scan_bodies_def transition_bodies_def policy_bodies_def dec_Decode_def assms(1) reserve_fields_def
      tls_fields_def transition_fields_def policy_fields_def known_names_def list_all_iff Let_def)

text \<open>
  The bodies that name every field once are read as they were written, whatever the texts are and
  whatever follows the body.
\<close>

lemma body_names:
  "list_all (\<lambda>name. fold_name name = name)
     ([''scan_id'', ''address'', ''created_at''] @ transition_names)"
  by code_simp

lemma assign_time_written: "marshal_time t = Some j \<Longrightarrow> assign_time (jval_of j) old = Some t \<and> jval_of j \<noteq> VNull"
  by (auto simp: marshal_time_def Let_def assign_time_def escape_clock clock_format parse_format_rfc3339 split: if_splits)

theorem reserve_body_is_read:
  assumes "world E view" "marshal_time t = Some jt"
  shows "decode_reserve (scan_bodies E)
      (json_text (JObj [(''scan_id'', JStr (uuid_String E i)), (''address'', JStr a), (''created_at'', jt)]) @ rest)
    = Some \<lparr>rw_ScanID = i, rw_Address = a, rw_CreatedAt = Some t\<rparr>"
proof -
  have "json_depth jt = 0" using assms(2) by (auto simp: marshal_time_def Let_def split: if_splits)
  then have depth: "json_depth (JObj [(''scan_id'', JStr (uuid_String E i)), (''address'', JStr a), (''created_at'', jt)])
      \<le> maxNestingDepth"
    by (simp add: maxNestingDepth_def)
  have "assign_pointer assign_time 0 (jval_of jt) None = Some (Some t)"
    using assign_time_written [OF assms(2), of 0] by (auto simp: assign_pointer_def split: jval.split)
  then show ?thesis
    using body_names world.uuid_Parse_String [OF assms(1)]
    by (simp add: scan_bodies_def dec_Decode_text [OF depth] reserve_fields_def known_names_def occurrences_def
        assign_uuid_def assign_string_def del: fold_name.simps json_text.simps)
qed

theorem failure_body_is_read:
  "transition_bodies
      (json_text (JObj [(''transition_id'', JStr i), (''user_id'', JStr u), (''address'', JStr a),
        (''source_states'', JArr (map JStr states)), (''target_state'', JStr target),
        (''quota_action'', JStr quota), (''error'', JStr err)]) @ rest)
    = Some \<lparr>tb_TransitionID = i, tb_UserID = u, tb_Address = a, tb_SourceStates = states,
        tb_TargetState = target, tb_QuotaAction = quota, tb_Result = None, tb_Error = Some err\<rparr>"
proof -
  have depth: "json_depth (JObj [(''transition_id'', JStr i), (''user_id'', JStr u), (''address'', JStr a),
        (''source_states'', JArr (map JStr states)), (''target_state'', JStr target),
        (''quota_action'', JStr quota), (''error'', JStr err)]) \<le> maxNestingDepth"
    by (simp add: maxNestingDepth_def comp_def foldr_max_zero)
  have elems: "assign_elems assign_string '''' (map (\<lambda>s. VStr (escape_bytes s) s) xs) [] = Some xs" for xs
    by (induction xs) (simp_all add: assign_string_def)
  have "slice_field assign_string '''' [VArr (map (\<lambda>s. VStr (escape_bytes s) s) states)] = Some (Some states)"
    by (cases "states = []") (simp_all add: slice_field_def assign_array_def elems)
  then show ?thesis
    using body_names
    by (simp add: transition_bodies_def dec_Decode_text [OF depth] transition_fields_def known_names_def
        transition_names_def occurrences_def assign_string_def assign_pointer_def slice_items_def comp_def Let_def
        del: fold_name.simps json_text.simps)
qed

end
