(* ===== verification/Wiring.thy ===== *)
theory Wiring
  imports System Startup Request_Bodies
begin

text \<open>
  How \<^verbatim>\<open>cmd/persistence/main.go\<close> puts the parts together, and the properties of the service that is the
  result: the constructors of the handlers, the handlers with the dependencies \<^verbatim>\<open>main\<close> gives them, and
  the server behind the token of the configuration. Dependencies that are only present or nil in the
  model of a handler are booleans.
\<close>

section \<open>Constructors\<close>

definition NewScanEventHandler ::
  "bool \<Rightarrow> bool \<Rightarrow> 'w ScanUsageLedgerRepository option \<Rightarrow> bool \<Rightarrow> 'w ScanEventHandler" where
  "NewScanEventHandler natsConn db ledger planLimits =
     \<lparr>h_natsConn = natsConn, h_db = db, h_ledger = ledger, h_planLimits = planLimits\<rparr>"

definition scan_NewHandler ::
  "bool \<Rightarrow> bool \<Rightarrow> bool \<Rightarrow> 'w ScanUsageLedgerRepository option \<Rightarrow> bool \<Rightarrow> ChainConfig option \<Rightarrow> 'w Handler" where
  "scan_NewHandler pending walletScans tlsScans ledger cache chainCfg =
     \<lparr>api_pending = pending, api_walletScans = walletScans, api_tlsScans = tlsScans, api_ledger = ledger,
      api_cache = cache, api_chainCfg = chainCfg, api_walletDB = False, api_events = False\<rparr>"

definition EnableWalletTransition :: "bool \<Rightarrow> 'w Handler \<Rightarrow> 'w Handler" where
  "EnableWalletTransition db h = h\<lparr>api_walletDB := db\<rparr>"

definition EnableWalletEvents :: "bool \<Rightarrow> 'w Handler \<Rightarrow> 'w Handler" where
  "EnableWalletEvents events h = h\<lparr>api_events := events\<rparr>"

definition cp_NewHandler :: "bool \<Rightarrow> CPHandler" where
  "cp_NewHandler store = \<lparr>cph_store = store\<rparr>"

section \<open>The service\<close>

text \<open>The codecs of the shared contracts; request bodies are decoded as in \<open>Request_Bodies\<close>.\<close>

record codecs =
  cd_events :: decoders
  cd_v01 :: v01

definition main_scanHandler :: "'w env \<Rightarrow> 'w ScanEventHandler" where
  "main_scanHandler E = NewScanEventHandler True True (Some (NewScanUsageLedgerRepository E)) True"

definition main_scanAPIHandler :: "'w env \<Rightarrow> ChainConfig \<Rightarrow> 'w Handler" where
  "main_scanAPIHandler E cfgChain =
     EnableWalletEvents True (EnableWalletTransition True
       (scan_NewHandler True True True (Some (NewScanUsageLedgerRepository E)) True (Some cfgChain)))"

definition main_server :: "'w env \<Rightarrow> codecs \<Rightarrow> ChainConfig \<Rightarrow> string \<Rightarrow> 'w server" where
  "main_server E cd cfgChain serviceToken =
     \<lparr>srv_scan = main_scanAPIHandler E cfgChain, srv_cp = cp_NewHandler True, srv_codec = scan_bodies E,
      srv_transition = transition_bodies, srv_policy = policy_bodies E, srv_v01 = cd_v01 cd, srv_token = serviceToken\<rparr>"

definition service_run :: "'w env \<Rightarrow> codecs \<Rightarrow> ChainConfig \<Rightarrow> string \<Rightarrow> input list \<Rightarrow> 'w \<Rightarrow> 'w" where
  "service_run E cd cfgChain serviceToken =
     run_system E (cd_events cd) (main_scanHandler E) (main_server E cd cfgChain serviceToken)"

lemma main_wired: "std_handler E (main_scanHandler E)" "std_server E (main_server E cd cfg token)"
  by (simp_all add: std_handler_def std_server_def main_scanHandler_def NewScanEventHandler_def main_server_def
      main_scanAPIHandler_def scan_NewHandler_def EnableWalletTransition_def EnableWalletEvents_def)

text \<open>
  C1. The plan limits are an invariant of the running service, as \<^verbatim>\<open>main\<close> wires it: whatever events are
  delivered and whatever requests are made, in whatever order and with whatever contents, valid or not,
  and whichever calls of the database, Redis or NATS fail on the way, if every user with a positive
  endpoint limit is within it at the start, every one still is at the end.
\<close>

theorem service_keeps_plan_limits:
  assumes world: "world E view" and start: "within_plans (view w)"
  shows "within_plans (view (service_run E cd cfg token inputs w))"
  unfolding service_run_def by (rule run_system_within_plans [OF world main_wired start])

definition codecs_demo :: codecs where
  "codecs_demo = \<lparr>cd_events = decoders_demo, cd_v01 = v01_demo\<rparr>"

theorem service_keeps_plan_limits_witness:
  "within_plans (mem_view (service_run mem_env codecs_demo chains_demo ''secret''
     [Delivered (DeliverStarted ''https://a''), Requested ''DELETE'' scan_path_demo (signed_request ''secret'' ''x''),
      Delivered (DeliverCompleted ''https://a''), Requested ''GET'' scan_path_demo (signed_request ''guess'' ''x''),
      Delivered (DeliverFailed ''https://b'')] limit_demo))"
  by (rule service_keeps_plan_limits [OF mem_world]) (simp add: within_plans_def limit_demo_view used_def)

section \<open>The token of the configuration\<close>

lemma token_default:
  "ToUpper CafePersistenceServiceToken = CafePersistenceServiceToken"
  "from_default (initConfig getenv) CafePersistenceServiceToken = None"
  by (simp_all add: from_default_def initConfig_def GetDefaultConfigValues_def key_defs ToLower_def lower_char_def
      ToUpper_def upper_char_def)

text \<open>
  C17. A service without a configured token serves nobody. There is no default token: if neither the
  environment nor the file sets one, or what they set is blank, the server as \<^verbatim>\<open>main\<close> builds it answers
  every request, to any path, with the same 401 and touches nothing.
\<close>

theorem unconfigured_service_refuses:
  assumes viper: "viper getenv settings GetString"
    and env: "getenv ''CAFE_PERSISTENCE_SERVICE_TOKEN'' = ''''"
    and unset: "case settings (chain_config_path getenv) (ToLower CafePersistenceServiceToken) of
        None \<Rightarrow> True | Some s \<Rightarrow> TrimSpace s = ''''"
    and srv: "internalServer E (main_server E cd cfg (service_token (GetString (initConfig getenv)))) method path = Some srv"
  shows "srv r w = (Some (writeServiceAuthError r), w)"
proof -
  have "service_token (GetString (initConfig getenv)) = ''''"
    using env unset
    by (auto simp: service_token_def viper.initConfig_GetString [OF viper] token_default split: option.splits)
      (simp_all add: CafePersistenceServiceToken_def TrimSpace_def)
  then have "\<not> service_authorized (srv_token (main_server E cd cfg (service_token (GetString (initConfig getenv))))) r"
    by (simp add: main_server_def service_authorized_def TrimSpace_def Let_def)
  with internalServer_run [OF srv, of r w] show ?thesis by simp
qed

theorem unconfigured_service_refuses_witness:
  "map_option (\<lambda>srv. fst (srv (signed_request '''' ''x'') limit_demo) = Some (writeServiceAuthError (signed_request '''' ''x'')))
     (internalServer mem_env (main_server mem_env codecs_demo chains_demo
       (service_token (viper_GetString (\<lambda>_. '''') (\<lambda>_. Map.empty) (initConfig (\<lambda>_. ''''))))) ''GET'' scan_path_demo)
   = Some True"
proof -
  let ?s = "main_server mem_env codecs_demo chains_demo
    (service_token (viper_GetString (\<lambda>_. '''') (\<lambda>_. Map.empty) (initConfig (\<lambda>_. ''''))))"
  obtain srv where srv: "internalServer mem_env ?s ''GET'' scan_path_demo = Some srv"
    by (simp add: internalServer_def internalMux_routes)
  from unconfigured_service_refuses [OF layered.viper_axioms _ _ this] show ?thesis unfolding srv by simp
qed

end
