(* ===== verification/Accounts.thy ===== *)
theory Accounts
  imports Plan_Limit
begin

text \<open>
  The creating and listing methods of the user and plan repositories
  (\<^verbatim>\<open>internal/repository/user_repository.go\<close>, \<^verbatim>\<open>plan_repository.go\<close>) with the hooks of the two entities.
  A create runs the \<^verbatim>\<open>BeforeCreate\<close> hook and fills the zero timestamps; a zero field whose gorm tag has
  a default gets that default, which for \<^verbatim>\<open>IsActive\<close> is true and for the limits and the price is zero.
\<close>

section \<open>Operations\<close>

definition User_BeforeCreate :: "'w env \<Rightarrow> User \<Rightarrow> ('w, go_error, User) prog" where
  "User_BeforeCreate E u =
     (if user_ID u = uuid_Nil then bindP (newUUIDP E) (\<lambda>i. returnP (u\<lparr>user_ID := i\<rparr>)) else returnP u)"

definition Plan_BeforeCreate :: "'w env \<Rightarrow> Plan \<Rightarrow> ('w, go_error, Plan) prog" where
  "Plan_BeforeCreate E p =
     (if plan_ID p = uuid_Nil then bindP (newUUIDP E) (\<lambda>i. returnP (p\<lparr>plan_ID := i\<rparr>)) else returnP p)"

definition userRepository_Create :: "'w env \<Rightarrow> User \<Rightarrow> ('w, go_error, unit) prog" where
  "userRepository_Create E user =
     bindP (User_BeforeCreate E user) (\<lambda>u.
     bindP (nowP E) (\<lambda>now.
     gorm_Create (users E) (u\<lparr>
       user_CreatedAt := (if user_CreatedAt u = 0 then now else user_CreatedAt u),
       user_UpdatedAt := (if user_UpdatedAt u = 0 then now else user_UpdatedAt u)\<rparr>)))"

definition planRepository_Create :: "'w env \<Rightarrow> Plan \<Rightarrow> ('w, go_error, unit) prog" where
  "planRepository_Create E plan =
     bindP (Plan_BeforeCreate E plan) (\<lambda>p.
     bindP (nowP E) (\<lambda>now.
     gorm_Create (plans E) (p\<lparr>
       plan_IsActive := (if \<not> plan_IsActive p then True else plan_IsActive p),
       plan_CreatedAt := (if plan_CreatedAt p = 0 then now else plan_CreatedAt p),
       plan_UpdatedAt := (if plan_UpdatedAt p = 0 then now else plan_UpdatedAt p)\<rparr>)))"

text \<open>\<^verbatim>\<open>ORDER BY price\<close>: the order of the numbers that are not NaN, from their bit patterns.\<close>

definition float_key :: "float64 \<Rightarrow> int" where
  "float_key x = (if bit x 63 then - uint (unset_bit 63 x) else uint x)"

definition planRepository_FindAll :: "'w env \<Rightarrow> ('w, go_error, Plan list) prog" where
  "planRepository_FindAll E =
     gorm_Find (plans E) (\<lambda>p. plan_DeletedAt p = None) (\<lambda>p. float_key (plan_Price p))"

definition planRepository_FindActive :: "'w env \<Rightarrow> ('w, go_error, Plan list) prog" where
  "planRepository_FindActive E =
     gorm_Find (plans E) (\<lambda>p. plan_DeletedAt p = None \<and> plan_IsActive p) (\<lambda>p. float_key (plan_Price p))"

section \<open>Properties\<close>

text \<open>What a create stores for a user.\<close>

definition stored_user :: "User \<Rightarrow> User \<Rightarrow> bool" where
  "stored_user u u' \<longleftrightarrow> user_ID u' \<noteq> uuid_Nil \<and> (user_ID u = uuid_Nil \<or> user_ID u' = user_ID u)
     \<and> user_Email u' = user_Email u \<and> user_Password u' = user_Password u \<and> user_PlanID u' = user_PlanID u
     \<and> user_DeletedAt u' = user_DeletedAt u"

definition stored_plan :: "Plan \<Rightarrow> Plan \<Rightarrow> bool" where
  "stored_plan p p' \<longleftrightarrow> plan_ID p' \<noteq> uuid_Nil \<and> plan_Name p' = plan_Name p \<and> plan_Type p' = plan_Type p
     \<and> plan_WalletScanLimit p' = plan_WalletScanLimit p \<and> plan_EndpointScanLimit p' = plan_EndpointScanLimit p
     \<and> plan_Price p' = plan_Price p \<and> plan_DeletedAt p' = plan_DeletedAt p \<and> plan_IsActive p'"

context world
begin

lemma wp_CreateUser:
  assumes "\<And>u'. stored_user u u' \<Longrightarrow> filter_mset (user_conflict u') (v_users v) = {#}
      \<Longrightarrow> Q (Inr ()) (v\<lparr>v_users := add_mset u' (v_users v)\<rparr>)"
    and "\<And>e. Q (Inl e) v"
  shows "wp view (userRepository_Create E u) Q v"
  unfolding userRepository_Create_def User_BeforeCreate_def
  by (intro wp_bind wp_if wp_return wp_newUUID wp_now user.wp_Create case_sum_InrI case_sum_InlI)
    (auto simp: stored_user_def intro!: assms)

lemma wp_CreatePlan:
  assumes "\<And>p'. stored_plan p p' \<Longrightarrow> Q (Inr ()) (v\<lparr>v_plans := add_mset p' (v_plans v)\<rparr>)"
    and "\<And>e. Q (Inl e) v"
  shows "wp view (planRepository_Create E p) Q v"
  unfolding planRepository_Create_def Plan_BeforeCreate_def
  by (intro wp_bind wp_if wp_return wp_newUUID wp_now plan.wp_Create case_sum_InrI case_sum_InlI)
    (auto simp: stored_plan_def intro!: assms)

lemma wp_FindByEmail:
  assumes "\<nexists>u. u \<in># v_users v \<and> user_DeletedAt u = None \<and> user_Email u = email \<Longrightarrow> Q (Inr None) v"
    and "\<And>u. u \<in># v_users v \<Longrightarrow> user_DeletedAt u = None \<Longrightarrow> user_Email u = email \<Longrightarrow> Q (Inr (Some u)) v"
    and "\<And>d. Q (Inl (SqlError d)) v"
  shows "wp view (userRepository_FindByEmail E email) Q v"
  unfolding userRepository_FindByEmail_def orNil_def
  using assms by (auto intro!: wp_intro user.wp_First)

lemma wp_FindActive:
  assumes "\<And>ps. mset ps = filter_mset (\<lambda>p. plan_DeletedAt p = None \<and> plan_IsActive p) (v_plans v)
      \<Longrightarrow> sorted (map (\<lambda>p. float_key (plan_Price p)) ps) \<Longrightarrow> Q (Inr ps) v"
    and "\<And>e. Q (Inl (SqlError e)) v"
  shows "wp view (planRepository_FindActive E) Q v"
  unfolding planRepository_FindActive_def by (rule plan.wp_Find) (use assms in auto)

end

text \<open>
  A created user is found under the email, and only that user: a create that fails leaves the
  system as it was; one that succeeds adds one row with the given values under a non-nil id, and a
  lookup of the email right afterwards, unless the database fails, returns exactly that row.
\<close>

theorem user_create_find_round_trip:
  assumes world: "world E view" and live: "user_DeletedAt u = None"
    and created: "userRepository_Create E u w = (r, w1)"
    and found: "userRepository_FindByEmail E (user_Email u) w1 = (f, w2)"
  shows "case r of
      Inl _ \<Rightarrow> view w1 = view w
    | Inr _ \<Rightarrow> \<exists>u'. stored_user u u' \<and> view w1 = (view w)\<lparr>v_users := add_mset u' (v_users (view w))\<rparr>
        \<and> (case f of Inl e \<Rightarrow> (\<exists>d. e = SqlError d) | Inr x \<Rightarrow> x = Some u')"
proof -
  let ?Q = "\<lambda>r v1. case r of Inl _ \<Rightarrow> v1 = view w
    | Inr _ \<Rightarrow> \<exists>u'. stored_user u u' \<and> filter_mset (user_conflict u') (v_users (view w)) = {#}
        \<and> v1 = (view w)\<lparr>v_users := add_mset u' (v_users (view w))\<rparr>"
  have "wp view (userRepository_Create E u) ?Q (view w)"
    by (rule world.wp_CreateUser [OF world]) auto
  from wpD [OF this created] have Q: "?Q r (view w1)" .
  show ?thesis
  proof (cases r)
    case (Inr x)
    with Q obtain u' where u': "stored_user u u'" "filter_mset (user_conflict u') (v_users (view w)) = {#}"
        "view w1 = (view w)\<lparr>v_users := add_mset u' (v_users (view w))\<rparr>"
      by auto
    have users: "v_users (view w1) = add_mset u' (v_users (view w))" by (simp add: u'(3))
    have only: "y = u'" if y: "y \<in># v_users (view w1)" "user_Email y = user_Email u" for y
    proof (rule ccontr)
      assume "y \<noteq> u'"
      with y(1) users have "y \<in># v_users (view w)" by simp
      moreover have "user_conflict u' y" using u'(1) y(2) by (simp add: stored_user_def user_conflict_def)
      ultimately have "y \<in># filter_mset (user_conflict u') (v_users (view w))" by simp
      with u'(2) show False by (simp only: empty_iff set_mset_empty)
    qed
    have there: "u' \<in># v_users (view w1)" "user_DeletedAt u' = None" "user_Email u' = user_Email u"
      using u'(1) users live by (simp_all add: stored_user_def)
    have "wp view (userRepository_FindByEmail E (user_Email u))
        (\<lambda>f _. case f of Inl e \<Rightarrow> (\<exists>d. e = SqlError d) | Inr x \<Rightarrow> x = Some u') (view w1)"
    proof (rule world.wp_FindByEmail [OF world])
      assume "\<nexists>y. y \<in># v_users (view w1) \<and> user_DeletedAt y = None \<and> user_Email y = user_Email u"
      with there show "case Inr None of Inl e \<Rightarrow> (\<exists>d. e = SqlError d) | Inr x \<Rightarrow> x = Some u'" by blast
    qed (simp_all add: only)
    from wpD [OF this found] have "case f of Inl e \<Rightarrow> (\<exists>d. e = SqlError d) | Inr x \<Rightarrow> x = Some u'" .
    with u'(1,3) show ?thesis unfolding Inr sum.case by (intro exI [of _ u'] conjI) assumption+
  qed (use Q in simp)
qed

definition account_demo :: User where
  "account_demo = \<lparr>user_ID = 0, user_Email = ''a@b'', user_Password = ''hash'', user_PlanID = 3, user_CreatedAt = 0,
     user_UpdatedAt = 0, user_DeletedAt = None\<rparr>"

theorem user_create_find_round_trip_witness:
  "let (r, w1) = userRepository_Create mem_env account_demo (mem_empty\<lparr>m_uuids := [9]\<rparr>);
       (f, w2) = userRepository_FindByEmail mem_env ''a@b'' w1
   in r = Inr () \<and> (\<exists>u'. f = Inr (Some u') \<and> user_PlanID u' = 3 \<and> user_ID u' \<noteq> 0)"
proof -
  let ?c = "userRepository_Create mem_env account_demo (mem_empty\<lparr>m_uuids := [9]\<rparr>)"
  let ?f = "userRepository_FindByEmail mem_env (user_Email account_demo) (snd ?c)"
  have ok: "fst ?c = Inr ()" "\<not> isl (fst ?f)" by code_simp+
  have live: "user_DeletedAt account_demo = None" by (simp add: account_demo_def)
  from user_create_find_round_trip [OF mem_world live prod.collapse [symmetric] prod.collapse [symmetric],
      of "mem_empty\<lparr>m_uuids := [9]\<rparr>"]
  obtain u' where "stored_user account_demo u'" "fst ?f = Inr (Some u')"
    using ok by (cases "fst ?f") auto
  with ok(1) show ?thesis by (simp add: case_prod_unfold Let_def stored_user_def account_demo_def)
qed

text \<open>
  A plan created as inactive is active: the false of its field is a zero value, for which gorm inserts
  the default of the tag.
\<close>

theorem inactive_plan_is_created_active:
  assumes world: "world E view" and run: "planRepository_Create E p w = (Inr x, w')"
  shows "\<exists>p'. v_plans (view w') = add_mset p' (v_plans (view w)) \<and> stored_plan p p' \<and> plan_IsActive p'"
proof -
  have "wp view (planRepository_Create E p) (\<lambda>r v'. case r of Inl _ \<Rightarrow> True | Inr _ \<Rightarrow>
      \<exists>p'. v_plans v' = add_mset p' (v_plans (view w)) \<and> stored_plan p p' \<and> plan_IsActive p') (view w)"
    by (rule world.wp_CreatePlan [OF world]) (auto simp: stored_plan_def)
  from wpD [OF this run] show ?thesis by simp
qed

text \<open>The lists are ordered by price and complete.\<close>

theorem plans_are_listed_by_price:
  assumes world: "world E view" and run: "planRepository_FindActive E w = (Inr ps, w')"
  shows "sorted (map (\<lambda>p. float_key (plan_Price p)) ps)
    \<and> mset ps = filter_mset (\<lambda>p. plan_DeletedAt p = None \<and> plan_IsActive p) (v_plans (view w)) \<and> view w' = view w"
proof -
  have "wp view (planRepository_FindActive E) (\<lambda>r v'. case r of Inl _ \<Rightarrow> True | Inr ps \<Rightarrow>
      sorted (map (\<lambda>p. float_key (plan_Price p)) ps)
      \<and> mset ps = filter_mset (\<lambda>p. plan_DeletedAt p = None \<and> plan_IsActive p) (v_plans (view w)) \<and> v' = view w) (view w)"
    by (rule world.wp_FindActive [OF world]) auto
  from wpD [OF this run] show ?thesis by simp
qed

end
