(* ===== verification/Stored_Tls_Results.thy ===== *)
theory Stored_Tls_Results
  imports Stored_Results Rfc3339 "HOL-Library.AList"
begin

text \<open>
  Endpoint rows read back as results (\<^verbatim>\<open>internal/domain/tls_scan_result.go\<close>). The errors of
  \<^verbatim>\<open>json.Unmarshal\<close> are dropped there, so the decoders of this theory say what a failing call leaves: a
  document that is not JSON leaves everything, a value of the wrong type leaves its target and decoding
  goes on, a value that \<^verbatim>\<open>time.Time\<close> refuses ends it.
\<close>

section \<open>Decoding with the errors dropped\<close>

definition keep_string :: "jval \<Rightarrow> string \<Rightarrow> string" where
  "keep_string j old = (case j of VStr raw s \<Rightarrow> s | _ \<Rightarrow> old)"

definition keep_bool :: "jval \<Rightarrow> bool \<Rightarrow> bool" where
  "keep_bool j old = (case j of VBool b \<Rightarrow> b | _ \<Rightarrow> old)"

definition keep_int :: "jval \<Rightarrow> int \<Rightarrow> int" where
  "keep_int j old = (case assign_int64 j old of Some i \<Rightarrow> i | None \<Rightarrow> old)"

text \<open>\<^verbatim>\<open>ParseUint\<close> takes no sign; a value beyond 16 bits overflows the target.\<close>

definition keep_uint16 :: "jval \<Rightarrow> 16 word \<Rightarrow> 16 word" where
  "keep_uint16 j old =
     (case j of
        VNum t \<Rightarrow>
          (case ParseInt t of
             Some i \<Rightarrow> if take 1 t \<noteq> ''-'' \<and> i < 65536 then word_of_int i else old
           | None \<Rightarrow> old)
      | _ \<Rightarrow> old)"

text \<open>
  \<^verbatim>\<open>Time.UnmarshalJSON\<close> with the result and whether decoding goes on; it works on the bytes of the
  literal, and a text it cannot parse sets the zero time.
\<close>

definition keep_time :: "jval \<Rightarrow> gotime \<Rightarrow> gotime \<times> bool" where
  "keep_time j old =
     (case j of
        VNull \<Rightarrow> (old, True)
      | VStr raw s \<Rightarrow> (case parse_rfc3339 raw of Some t \<Rightarrow> (t, True) | None \<Rightarrow> (0, False))
      | _ \<Rightarrow> (old, False))"

fun keep_fields ::
  "(string \<Rightarrow> jval \<Rightarrow> 'a \<Rightarrow> 'a \<times> bool) \<Rightarrow> (string \<times> jval) list \<Rightarrow> 'a \<Rightarrow> 'a" where
  "keep_fields field [] a = a"
| "keep_fields field ((k, j) # kvs) a =
     (case field (fold_name k) j a of (a', go_on) \<Rightarrow> if go_on then keep_fields field kvs a' else a')"

definition keep_struct ::
  "(string \<Rightarrow> jval \<Rightarrow> 'a \<Rightarrow> 'a \<times> bool) \<Rightarrow> jval \<Rightarrow> 'a \<Rightarrow> 'a" where
  "keep_struct field j old = (case j of VObj kvs \<Rightarrow> keep_fields field kvs old | _ \<Rightarrow> old)"

text \<open>The target is a nil slice or map, its new elements start from their zero value.\<close>

definition keep_slice :: "(jval \<Rightarrow> 'a) \<Rightarrow> jval \<Rightarrow> 'a list option" where
  "keep_slice elem j = (case j of VArr js \<Rightarrow> Some (map elem js) | _ \<Rightarrow> None)"

definition keep_map :: "(jval \<Rightarrow> 'a) \<Rightarrow> jval \<Rightarrow> (string \<times> 'a) list option" where
  "keep_map elem j =
     (case j of
        VObj kvs \<Rightarrow> Some (fold (\<lambda>(k, v) m. AList.update k (elem v) m) kvs [])
      | _ \<Rightarrow> None)"

definition keep_document :: "(jval \<Rightarrow> 'a) \<Rightarrow> 'a \<Rightarrow> string \<Rightarrow> 'a" where
  "keep_document target old s =
     (if s = '''' then old else (case json_parse s of None \<Rightarrow> old | Some j \<Rightarrow> target j))"

section \<open>The conversion\<close>

definition certificate_field :: "string \<Rightarrow> jval \<Rightarrow> CertificateInfo \<Rightarrow> CertificateInfo \<times> bool" where
  "certificate_field name j c =
     (if name = ''subject'' then (c\<lparr>cert_Subject := keep_string j (cert_Subject c)\<rparr>, True)
      else if name = ''issuer'' then (c\<lparr>cert_Issuer := keep_string j (cert_Issuer c)\<rparr>, True)
      else if name = ''signature_algorithm''
      then (c\<lparr>cert_SignatureAlgorithm := keep_string j (cert_SignatureAlgorithm c)\<rparr>, True)
      else if name = ''public_key_algorithm''
      then (c\<lparr>cert_PublicKeyAlgorithm := keep_string j (cert_PublicKeyAlgorithm c)\<rparr>, True)
      else if name = ''key_size'' then (c\<lparr>cert_KeySize := keep_int j (cert_KeySize c)\<rparr>, True)
      else if name = ''not_before''
      then (case keep_time j (cert_NotBefore c) of (t, go_on) \<Rightarrow> (c\<lparr>cert_NotBefore := t\<rparr>, go_on))
      else if name = ''not_after''
      then (case keep_time j (cert_NotAfter c) of (t, go_on) \<Rightarrow> (c\<lparr>cert_NotAfter := t\<rparr>, go_on))
      else if name = ''serial_number'' then (c\<lparr>cert_SerialNumber := keep_string j (cert_SerialNumber c)\<rparr>, True)
      else if name = ''nist_level'' then (c\<lparr>cert_NISTLevel := keep_int j (cert_NISTLevel c)\<rparr>, True)
      else if name = ''is_pqc_ready'' then (c\<lparr>cert_IsPQCReady := keep_bool j (cert_IsPQCReady c)\<rparr>, True)
      else (c, True))"

definition suite_field :: "string \<Rightarrow> jval \<Rightarrow> CipherSuiteInfo \<Rightarrow> CipherSuiteInfo \<times> bool" where
  "suite_field name j c =
     (if name = ''id'' then (c\<lparr>suite_ID := keep_uint16 j (suite_ID c)\<rparr>, True)
      else if name = ''name'' then (c\<lparr>suite_Name := keep_string j (suite_Name c)\<rparr>, True)
      else if name = ''key_exchange'' then (c\<lparr>suite_KeyExchange := keep_string j (suite_KeyExchange c)\<rparr>, True)
      else if name = ''encryption'' then (c\<lparr>suite_Encryption := keep_string j (suite_Encryption c)\<rparr>, True)
      else if name = ''mac'' then (c\<lparr>suite_MAC := keep_string j (suite_MAC c)\<rparr>, True)
      else if name = ''nist_level'' then (c\<lparr>suite_NISTLevel := keep_int j (suite_NISTLevel c)\<rparr>, True)
      else if name = ''is_pqc_ready'' then (c\<lparr>suite_IsPQCReady := keep_bool j (suite_IsPQCReady c)\<rparr>, True)
      else (c, True))"

definition zero_CipherSuiteInfo :: CipherSuiteInfo where
  "zero_CipherSuiteInfo = \<lparr>suite_ID = 0, suite_Name = '''', suite_KeyExchange = '''', suite_Encryption = '''',
     suite_MAC = '''', suite_NISTLevel = 0, suite_IsPQCReady = False\<rparr>"

definition ToTLSScanResult :: "TLSScanResultEntity \<Rightarrow> TLSScanResult" where
  "ToTLSScanResult t =
     (let certInfo = keep_document (\<lambda>j. keep_struct certificate_field j zero_CertificateInfo)
            zero_CertificateInfo (tls_Certificate t);
          cipherSuites = keep_document (keep_slice (\<lambda>j. keep_struct suite_field j zero_CipherSuiteInfo))
            None (tls_CipherSuites t);
          supportedPQCs = keep_document (keep_slice (\<lambda>j. keep_string j '''')) None (tls_SupportedPQCs t);
          recommendations = keep_document (keep_slice (\<lambda>j. keep_string j '''')) None (tls_Recommendations t);
          nistLevels = keep_document (keep_map (\<lambda>j. keep_int j 0)) None (tls_NISTLevels t)
      in \<lparr>tr_URL = tls_URL t, tr_Host = tls_Host t, tr_Port = tls_Port t, tr_Certificate = certInfo,
          tr_CipherSuites = cipherSuites, tr_ProtocolVersion = tls_ProtocolVersion t,
          tr_NISTLevel = tls_NISTLevel t, tr_RiskScore = tls_RiskScore t, tr_PQCRisk = tls_PQCRisk t,
          tr_SupportedPQCs = supportedPQCs, tr_Recommendations = recommendations,
          tr_ScannedAt = tls_CreatedAt t, tr_KexAlgorithm = tls_KexAlgorithm t,
          tr_KexPQCReady = tls_KexPQCReady t, tr_PQCMode = tls_PQCMode t, tr_PFS = tls_PFS t,
          tr_ALPN = tls_ALPN t, tr_OCSPStapled = tls_OCSPStapled t, tr_Curve = tls_Curve t,
          tr_NISTLevels = nistLevels, tr_Default = tls_Default t\<rparr>)"

section \<open>Round trips of the columns\<close>

text \<open>A shallow document is read back as it was written.\<close>

lemma keep_document_text:
  assumes "json_depth v \<le> maxNestingDepth"
  shows "keep_document target old (json_text v) = target (jval_of v)"
proof -
  have "json_text v \<noteq> ''''" using json_text_first [of v] by auto
  then show ?thesis by (simp add: keep_document_def json_parse_text [OF assms])
qed

lemma foldr_max_le: "(\<And>x. x \<in> set xs \<Longrightarrow> f x \<le> (b :: nat)) \<Longrightarrow> foldr max (map f xs) 0 \<le> b"
  by (induction xs) simp_all

lemma shallow_slice:
  assumes "\<And>x. json_depth (f x) \<le> 1"
  shows "json_depth (json_slice f xs) \<le> maxNestingDepth"
  using foldr_max_le [of "slice_items xs" "\<lambda>x. json_depth (f x)" 1] assms
  by (cases xs) (simp_all add: json_slice_def maxNestingDepth_def comp_def)

lemma slice_text:
  assumes "\<And>x. json_depth (f x) \<le> 1" "\<And>x. x \<in> set (slice_items xs) \<Longrightarrow> elem (jval_of (f x)) = x"
  shows "keep_document (keep_slice elem) None (json_text (json_slice f xs)) = xs"
proof (subst keep_document_text [OF shallow_slice [OF assms(1)]])
  show "keep_slice elem (jval_of (json_slice f xs)) = xs"
    using assms(2) by (cases xs) (simp_all add: json_slice_def keep_slice_def map_idI)
qed

lemma strings_text: "keep_document (keep_slice (\<lambda>j. keep_string j '''')) None (json_text (json_slice JStr xs)) = xs"
  by (rule slice_text) (simp_all add: keep_string_def)

lemma keep_int_show: "in_int64 i \<Longrightarrow> keep_int (VNum (show_int i)) old = i"
  by (simp add: keep_int_def assign_int64_def ParseInt_show_int)

lemma keep_uint16_show: "keep_uint16 (VNum (show_int (uint w))) old = w"
proof -
  have w: "0 \<le> uint w" "uint w < 65536" using uint_lt2p [of w] by simp_all
  then have "in_int64 (uint w)" by (auto simp: in_int64_def intro: order_trans [of _ "0 :: int"])
  moreover obtain c cs where cs: "show_digits (uint w) = c # cs" by (cases "show_digits (uint w)") auto
  ultimately show ?thesis using w show_digits_first [OF w(1) cs] ParseInt_show_int [of "uint w"]
    by (simp add: keep_uint16_def show_int_def)
qed

lemma column_names:
  "list_all (\<lambda>name. fold_name name = name)
     [''subject'', ''issuer'', ''signature_algorithm'', ''public_key_algorithm'', ''key_size'', ''not_before'',
      ''not_after'', ''serial_number'', ''nist_level'', ''is_pqc_ready'', ''id'', ''name'', ''key_exchange'',
      ''encryption'', ''mac'']"
  by code_simp

lemma suite_text:
  assumes "in_int64 (suite_NISTLevel s)"
  shows "keep_struct suite_field (jval_of (json_cipher_suite s)) zero_CipherSuiteInfo = s"
  using column_names assms
  by (simp add: json_cipher_suite_def keep_struct_def suite_field_def zero_CipherSuiteInfo_def
      keep_string_def keep_bool_def keep_int_show keep_uint16_show del: fold_name.simps)

lemma keep_time_written: "marshal_time t = Some j \<Longrightarrow> keep_time (jval_of j) old = (t, True)"
  by (auto simp: marshal_time_def Let_def keep_time_def escape_clock clock_format parse_format_rfc3339 split: if_splits)

lemma marshal_time_depth: "marshal_time t = Some j \<Longrightarrow> json_depth j = 0"
  by (auto simp: marshal_time_def Let_def split: if_splits)

lemma certificate_text:
  assumes "json_certificate c = Some j" "in_int64 (cert_KeySize c)" "in_int64 (cert_NISTLevel c)"
  shows "keep_document (\<lambda>j. keep_struct certificate_field j zero_CertificateInfo) old (json_text j) = c"
proof -
  from assms(1) obtain nb na where times: "marshal_time (cert_NotBefore c) = Some nb" "marshal_time (cert_NotAfter c) = Some na"
    by (auto simp: json_certificate_def split: option.splits)
  have "json_depth j \<le> maxNestingDepth"
    using assms(1) times(1,2) marshal_time_depth [OF times(1)] marshal_time_depth [OF times(2)]
    by (auto simp: json_certificate_def maxNestingDepth_def)
  then show ?thesis
    using assms column_names times
    by (auto simp: keep_document_text json_certificate_def keep_struct_def certificate_field_def
        zero_CertificateInfo_def keep_string_def keep_bool_def keep_int_show keep_time_written simp del: fold_name.simps)
qed

lemma update_fresh: "k \<notin> fst ` set m \<Longrightarrow> AList.update k v m = m @ [(k, v)]"
  by (induction m) auto

lemma fold_update_fresh:
  "distinct (map fst m @ map fst kvs) \<Longrightarrow> fold (\<lambda>(k, v). AList.update k v) kvs m = m @ kvs"
  by (induction kvs arbitrary: m) (auto simp: update_fresh)

lemma levels_text:
  assumes "\<forall>(k, i)\<in>set (slice_items m). in_int64 i" "distinct (map fst (slice_items m))"
  shows "keep_document (keep_map (\<lambda>j. keep_int j 0)) None (json_text (json_map JInt m)) = map_option (sort_key fst) m"
proof (cases m)
  case (Some kvs)
  let ?ks = "sort_key fst kvs"
  have depth: "json_depth (json_map JInt m) \<le> maxNestingDepth"
    by (simp add: Some json_map_def maxNestingDepth_def comp_def case_prod_unfold foldr_max_zero)
  have "fold (\<lambda>(k, v). AList.update k (keep_int v 0)) (map (\<lambda>(k, i). (k, VNum (show_int i))) ks) []
      = fold (\<lambda>(k, v). AList.update k v) ks []" if "\<forall>(k, i)\<in>set ks. in_int64 i" for ks :: "(string \<times> int) list"
    using that by (auto simp: fold_map intro!: fold_cong simp: keep_int_show)
  moreover have "distinct (map fst ?ks)"
    using assms(2) by (metis Some distinct_map distinct_sort set_sort slice_items_simps(2))
  ultimately show ?thesis using assms(1) fold_update_fresh [of "[]" ?ks]
    unfolding keep_document_text [OF depth]
    by (simp add: Some json_map_def keep_map_def comp_def case_prod_unfold)
next
  case None
  then show ?thesis
    using keep_document_text [of JNull "keep_map (\<lambda>j. keep_int j 0)" None]
    by (simp add: json_map_def keep_map_def maxNestingDepth_def)
qed

text \<open>
  C35. A stored endpoint result comes back as it was: the row that \<open>FromTLSScanResult\<close> builds, whatever
  identity, status and times it is stored with, is read back as the same result, with its instant
  taken from the row. A certificate with a date that JSON cannot express is stored as the empty text and
  comes back as the zero certificate; all else survives it.
\<close>

theorem stored_tls_result_round_trip:
  assumes "in_int64 (cert_KeySize (tr_Certificate r))" "in_int64 (cert_NISTLevel (tr_Certificate r))"
    and "\<forall>s\<in>set (slice_items (tr_CipherSuites r)). in_int64 (suite_NISTLevel s)"
    and "\<forall>(k, i)\<in>set (slice_items (tr_NISTLevels r)). in_int64 i"
    and "distinct (map fst (slice_items (tr_NISTLevels r)))"
  shows "ToTLSScanResult ((FromTLSScanResult userID r isDefault)\<lparr>tls_ID := i, tls_Status := status,
      tls_Error := err, tls_CreatedAt := created, tls_UpdatedAt := updated\<rparr>)
    = r\<lparr>tr_Certificate := (if json_certificate (tr_Certificate r) = None then zero_CertificateInfo
          else tr_Certificate r),
        tr_NISTLevels := map_option (sort_key fst) (tr_NISTLevels r),
        tr_ScannedAt := created, tr_Default := isDefault\<rparr>"
proof -
  have "keep_document (keep_slice (\<lambda>j. keep_struct suite_field j zero_CipherSuiteInfo)) None
      (json_text (json_slice json_cipher_suite (tr_CipherSuites r))) = tr_CipherSuites r"
    by (rule slice_text) (use assms(3) in \<open>simp_all add: suite_text\<close>, simp add: json_cipher_suite_def)
  moreover have "keep_document (\<lambda>j. keep_struct certificate_field j zero_CertificateInfo) zero_CertificateInfo
      (case json_certificate (tr_Certificate r) of None \<Rightarrow> '''' | Some j \<Rightarrow> json_text j)
    = (if json_certificate (tr_Certificate r) = None then zero_CertificateInfo else tr_Certificate r)"
    using certificate_text [OF _ assms(1,2)] by (simp add: keep_document_def [of _ _ "''''"] split: option.split)
  ultimately show ?thesis using levels_text [OF assms(4,5)]
    by (simp add: ToTLSScanResult_def FromTLSScanResult_def Let_def strings_text)
qed

definition stored_tls_demo :: TLSScanResult where
  "stored_tls_demo = zero_TLSScanResult\<lparr>tr_URL := ''https://example.org'', tr_Host := ''example.org'',
     tr_Port := 443,
     tr_Certificate := zero_CertificateInfo\<lparr>cert_Subject := ''CN=a<b'', cert_KeySize := 2048,
       cert_NotAfter := 719162 * ns_per_day + 1500000000\<rparr>,
     tr_CipherSuites := Some [zero_CipherSuiteInfo\<lparr>suite_ID := 4865, suite_Name := ''TLS_AES_128_GCM_SHA256''\<rparr>],
     tr_SupportedPQCs := Some [], tr_NISTLevels := Some [(''sig'', 1), (''kex'', 3)]\<rparr>"

theorem stored_tls_result_round_trip_witness:
  "ToTLSScanResult ((FromTLSScanResult None stored_tls_demo True)\<lparr>tls_ID := 2, tls_Status := ''SUCCESS'',
      tls_Error := '''', tls_CreatedAt := 9, tls_UpdatedAt := 9\<rparr>)
    = stored_tls_demo\<lparr>tr_NISTLevels := Some [(''kex'', 3), (''sig'', 1)], tr_ScannedAt := 9, tr_Default := True\<rparr>"
proof -
  have "json_certificate (tr_Certificate stored_tls_demo) \<noteq> None" by code_simp
  moreover have "sort_key fst [(''sig'', 1 :: int), (''kex'', 3)] = [(''kex'', 3), (''sig'', 1)]" by code_simp
  ultimately show ?thesis
    using stored_tls_result_round_trip [where r = stored_tls_demo and userID = None and isDefault = True and i = 2
        and status = "''SUCCESS''" and err = "''''" and created = 9 and updated = 9]
    by (simp add: stored_tls_demo_def zero_TLSScanResult_def zero_CertificateInfo_def zero_CipherSuiteInfo_def in_int64_def)
qed

end
