(* ===== verification/Spec2Isabelle.thy ===== *)
theory Spec2Isabelle
  imports Wiring Accounts Stored_Tls_Results
begin

text \<open>
  Verification library of \<^verbatim>\<open>cafe-persistence\<close>, the service that is the single writer of the scan
  tables, the scan cache and the crypto-policy table of Cafe.

  \<^bold>\<open>The program.\<close> Scan events arrive from NATS (\<^verbatim>\<open>internal/persistence/nats\<close>), are decoded and dispatched
  (\<^verbatim>\<open>internal/persistence/handlers\<close>) and written by the storage layer (\<^verbatim>\<open>internal/persistence/storage\<close>) to
  Postgres and Redis; a completed scan is charged to a usage ledger under the user's plan limit
  (\<^verbatim>\<open>internal/repository/scan_usage_ledger_repository.go\<close>, \<^verbatim>\<open>internal/persistence/planlimit\<close>). Two internal
  HTTP APIs behind one bearer token share the database: the scan API (\<^verbatim>\<open>internal/scanapi\<close>), which reserves
  pending scans in Redis, lists, reads and deletes scans and applies the idempotent wallet transitions of
  \<^verbatim>\<open>internal/wallettransition\<close>, and the policy API (\<^verbatim>\<open>internal/cpapi\<close>) over an owner-scoped store
  (\<^verbatim>\<open>internal/cpstore\<close>). \<^verbatim>\<open>cmd/persistence\<close> reads the configuration, migrates the schema, opens the
  connections, starts the servers and subscriptions, announces readiness and shuts down on a signal;
  \<^verbatim>\<open>cmd/healthcheck\<close> is the probe of the container.

  \<^bold>\<open>How effects are modelled.\<close> A call is a program \<open>('w, 'e, 'a) prog\<close>: a function from an opaque world to a
  result and a world, where an error is the left summand. Every definition that talks to Postgres,
  Redis, NATS, the clock, the UUID package or a codec takes the record \<open>env\<close> of these operations;
  \<open>sys\<close> is what can be observed of a world, and the locale \<open>world\<close> is the contract of the environment:
  a statement changes nothing but its table, obeys the table's unique constraints and may fail; a
  failed or rolled back transaction restores all tables and nothing else; Redis and NATS calls may fail
  at any point. Properties quantify over all such environments. \<open>Mem_World\<close> interprets the contract by
  an executable environment with a schedule of failing calls; the witnesses run on it. Proofs use
  the weakest preconditions of \<open>Prelude\<close>, one rule per operation. What lies below the environment while the
  process starts (files, variables, listeners, clients) is the record \<open>platform\<close> of \<open>Startup\<close>.

  \<^bold>\<open>Loops and bounds.\<close> The loops of the sources are structural recursion, or recursion with a measure. Only
  the scanner of JSON documents counts its nested calls down, from one more than twice the length
  of the input; \<open>scan_value_fuel\<close> of \<open>Json_Decode\<close> shows that no larger number changes a result. The run of
  the process is a step relation, since it serves until a signal arrives; the announcing goroutine
  counts down from 40, as in the code.

  \<^bold>\<open>Theories and sources.\<close>
  \<^item> \<open>Prelude\<close>, \<open>Services\<close>, \<open>Environment\<close>, \<open>Mem_World\<close>: Go types, strings, programs and their calculus; the
    SQL engine behind gorm (locale \<open>sql_engine\<close>, one interpretation per table), the environment and its
    executable instance. The unique indexes are those of the gorm tags and of \<^verbatim>\<open>internal/cpddl\<close>.
  \<^item> \<open>Scan_State\<close> (\<^verbatim>\<open>pkg/scan\<close>): states and transitions; the lifecycle is one way.
  \<^item> \<open>Json\<close>, \<open>Strconv\<close>, \<open>Json_Decode\<close>, \<open>Rfc3339\<close>: the parts of \<^verbatim>\<open>encoding/json\<close>, \<^verbatim>\<open>strconv\<close> and \<^verbatim>\<open>time\<close> that
    the sources use, writing and reading; what is written is read back.
  \<^item> \<open>Domain\<close>, \<open>Crypto_Policy\<close>, \<open>Stored_Results\<close>, \<open>Stored_Tls_Results\<close> (\<^verbatim>\<open>internal/domain\<close>): entities, hooks,
    the projection of payloads, and the conversions of results to rows and back; both round trips.
  \<^item> \<open>Ledger\<close>, \<open>Plan_Limit\<close>, \<open>Accounts\<close>: the usage ledger refines an abstract set of reservations and never
    exceeds a positive limit; the resolver reports the limit of the live plan; the repositories of users
    and plans.
  \<^item> \<open>Storage\<close>: the writers of the scan tables and the cache, each with its exact effect.
  \<^item> \<open>Scan_Events\<close>: the event handlers; along every stream of deliveries, with any calls failing, plan limits
    hold and final rows stay, a completion stores row and charge together or neither, and the message
    that follows is sent unless its publication fails.
  \<^item> \<open>Wallet_Transition\<close>, \<open>Transition_Api\<close>, \<open>Transition_Endpoint\<close>, \<open>Wallet_Observation\<close>: the transition
    endpoint; outcomes of the write, replays answered as such unless their own transaction fails, agreement of
    rows and ledger along every sequence of requests, and what the endpoint then puts into the cache and on the bus.
  \<^item> \<open>Pending_Scans\<close>, \<open>Scan_Repositories\<close>, \<open>Chain_Config\<close>, \<open>Http\<close>, \<open>Scan_Api\<close>: a reservation is exclusive for
    its 48 hours, in a model where keys age and expire, and can be given back; queries, deletions and paging are scoped to their owner; the bearer-token check
    fails closed; chain configurations are validated.
  \<^item> \<open>Policy_Store\<close>, \<open>Policy_Api\<close>: the policy store and its endpoints; outcomes of every operation, one active
    policy per user and wallet, ownership of everything that is read.
  \<^item> \<open>Request_Bodies\<close>: the request bodies of both APIs as \<^verbatim>\<open>json.Decoder\<close> assigns them to their structs, with
    repeated and unknown names; unknown names are refused.
  \<^item> \<open>Serve_Mux\<close>, \<open>Api_Server\<close>: the patterns of \<^verbatim>\<open>net/http\<close> and the route tables (\<^verbatim>\<open>internal/scanroutes\<close>,
    \<^verbatim>\<open>internal/cproutes\<close>) registered on it; which handler serves which path and method. Paths are lists of segments; unclean
    ones are redirected (307, as \<^verbatim>\<open>net/http\<close> of the Go version in \<^verbatim>\<open>go.mod\<close>).
  \<^item> \<open>Frames\<close>, \<open>Api_Frame\<close>: what a request may write (locale \<open>frame\<close>); every request is answered, on a route with
    a status that the OpenAPI files list for the endpoint (two endpoints have an unlisted 400), and
    writes only what belongs to its endpoint and its owner.
  \<^item> \<open>Schema\<close> (\<^verbatim>\<open>internal/cpddl\<close>, \<^verbatim>\<open>internal/scanddl\<close>): the migrations over an engine whose statements may fail
    (locale \<open>ddl_engine\<close>, interpreted by an executable catalogue); rows are maps from columns to values,
    indexes have their definitions, \<^verbatim>\<open>AutoMigrate\<close> adds columns, defaults, primary keys and tagged indexes;
    outcomes and idempotence, which values a migration erases and that it keeps all others.
  \<^item> \<open>Configuration\<close>, \<open>Health\<close>: keys, defaults and their precedence (locale \<open>viper\<close>), the connection
    string and its masked form; the probes and the container's check, which agree.
  \<^item> \<open>Startup\<close>: \<^verbatim>\<open>main\<close> as an \<^theory_text>\<open>inductive\<close> step relation with fatal exits, deferred calls, signals, the announcing
    goroutine, lost servers and the limited attempts of the NATS client to reconnect; readiness means a
    completed start and a shutdown not begun, and outlives the NATS connection; a healthy platform
    becomes ready; shutdown follows a signal, in one order, and releases everything.
  \<^item> \<open>System\<close>, \<open>Wiring\<close>: events and requests in any order on the handlers as \<^verbatim>\<open>main\<close> builds them; the plan limits
    are an invariant of the service, and without a token it serves nobody.

  \<^bold>\<open>Conventions.\<close> Identifiers keep their Go names; a prefix separates equal names of different types or
  packages (\<open>TLSWriter_\<close>, \<open>pending_\<close>, \<open>cp_\<close>). A nil pointer, slice or map is \<open>None\<close>, an instant is a number
  of nanoseconds, strings are bytes, and the functions of the package strings act on ASCII. A NULL text
  column reads as the empty string. A store that may be nil is a boolean field of the handler's
  record: the model has the guard and its answer, not the panic of using a nil store without it. An early return of a handler is an error of its program.

  \<^bold>\<open>Not modelled.\<close> Concurrency of transactions: statements of one request are a sequence, so what the
  advisory locks add is not stated. The decoders of events belong to the shared contract package and are
  parameters; so are, in the environment, the codecs of the pending record, of the event's result and of
  the payload column, with the laws that are needed written into the contract. The methods of
  \<^verbatim>\<open>pkg/nats\<close>, \<^verbatim>\<open>pkg/redis\<close> and \<^verbatim>\<open>pkg/postgres\<close> that only forward to the third-party clients are the operations
  of the environment, and sockets, files and signals those of the platform. Logging has no effect, except
  that the masked connection string is stated. Configuration keys that no source reads are left out. The
  generators of golden files under \<^verbatim>\<open>scripts\<close> print catalogue queries of a live database.
\<close>

end
